(* ===== verification/Prelude.thy ===== *)
theory Prelude
  imports Complex_Main "HOL-Library.AList" "HOL-Library.Char_ord" "HOL-Library.List_Lexorder"
    "HOL-Library.Product_Lexorder" "HOL-Library.Multiset"
begin

text \<open>
  Vocabulary shared by every component of the Little Orbit model: identifiers, instants and
  calendar dates, the exceptions of the API, dictionaries as association lists, and the SQL
  statements the services issue, as functions on lists of rows.

  Conventions.
  \<^item> A UUID is a natural number (its \<^verbatim>\<open>int\<close> value; UUIDs order as that number does).
  \<^item> An aware \<^verbatim>\<open>datetime\<close> is its UTC instant in microseconds, an \<^typ>\<open>int\<close>; a
    \<^verbatim>\<open>timedelta\<close> is a number of microseconds. \<^verbatim>\<open>astimezone(UTC)\<close> is the
    identity on instants. A \<^verbatim>\<open>date\<close> is its day number, counted from 1970-01-01.
  \<^item> A handler that raises before it commits leaves the database as it was, so handlers
    return \<open>exc + (db \<times> result)\<close>.
\<close>

section \<open>Names for the model's basic types\<close>

type_synonym uuid = nat
type_synonym instant = int
type_synonym duration = int
type_synonym date = int

text \<open>A Python \<^verbatim>\<open>str\<close> that may hold any text is the list of its code points.\<close>

type_synonym ustring = "nat list"

abbreviation second :: duration where "second \<equiv> 1000000"
abbreviation minute :: duration where "minute \<equiv> 60000000"
abbreviation hour :: duration where "hour \<equiv> 3600000000"
abbreviation day :: duration where "day \<equiv> 86400000000"

text \<open>\<^verbatim>\<open>int(delta.total_seconds())\<close> truncates towards zero.\<close>

definition whole_seconds :: "duration \<Rightarrow> int" where
  "whole_seconds d = (if 0 \<le> d then d div second else - ((- d) div second))"

text \<open>\<^verbatim>\<open>value.replace(second=0, microsecond=0)\<close> on a UTC datetime.\<close>

definition minute_floor :: "instant \<Rightarrow> instant" where
  "minute_floor t = t - t mod minute"

text \<open>\<^verbatim>\<open>date.weekday()\<close>: Monday is 0; 1970-01-01 was a Thursday.\<close>

definition weekday :: "date \<Rightarrow> int" where
  "weekday d = (d + 3) mod 7"

section \<open>Exceptions\<close>

text \<open>
  \<^term>\<open>HTTPException\<close> carries the status code and the detail text; the others are the
  Python exception classes the modelled modules raise.
\<close>

datatype exc =
    HTTPException nat string
  | ValueError string
  | RuntimeError string
  | IntegrityError
  | StaleDataError
  | InvalidEdit string
  | AttachmentPolicyError string
  | NoteAccessRevoked
  | AiWorkLeaseExpired
  | ZoneInfoNotFoundError string
  | KeyError ustring
  | PermissionError string
  | LookupError string
  | ZeroDivisionError
  | GpuRequiredFailure string
  | OllamaFailure

named_theorems row_defs \<open>definitions that a proof about one table row unfolds\<close>
named_theorems handler_defs \<open>handlers, unfolded where a proof follows the branches of the code\<close>

text \<open>An ASCII literal as a list of code points.\<close>

definition ascii :: "string \<Rightarrow> ustring" where
  "ascii s = map of_char s"

text \<open>A guard: raise unless the condition holds.\<close>

definition guard :: "bool \<Rightarrow> exc \<Rightarrow> exc + unit" where
  "guard b e = (if b then Inr () else Inl e)"

fun bind_exc :: "exc + 'a \<Rightarrow> ('a \<Rightarrow> exc + 'b) \<Rightarrow> exc + 'b" where
  "bind_exc (Inl e) f = Inl e"
| "bind_exc (Inr x) f = f x"

lemma bind_exc_Inr_iff: "bind_exc m f = Inr y \<longleftrightarrow> (\<exists>x. m = Inr x \<and> f x = Inr y)"
  by (cases m) auto

lemma bind_exc_Inl_iff:
  "bind_exc m f = Inl e \<longleftrightarrow> m = Inl e \<or> (\<exists>x. m = Inr x \<and> f x = Inl e)"
  by (cases m) auto

section \<open>Dictionaries\<close>

text \<open>
  A Python \<^verbatim>\<open>dict\<close> keeps insertion order; an assignment to a present key keeps its
  place. That is \<^const>\<open>AList.update\<close>. \<^verbatim>\<open>d.setdefault(k, v)\<close> stores only an
  absent key.
\<close>

definition setdefault :: "'k \<Rightarrow> 'v \<Rightarrow> ('k \<times> 'v) list \<Rightarrow> ('k \<times> 'v) list" where
  "setdefault k v d = (if map_of d k = None then d @ [(k, v)] else d)"

lemma map_of_setdefault:
  "map_of (setdefault k v d) = (if map_of d k = None then (map_of d)(k \<mapsto> v) else map_of d)"
  by (rule ext) (auto simp: setdefault_def map_add_def split: option.splits)

lemma distinct_setdefault:
  "distinct (map fst d) \<Longrightarrow> distinct (map fst (setdefault k v d))"
  by (auto simp: setdefault_def map_of_eq_None_iff)

lemma keys_setdefault: "fst ` set (setdefault k v d) = insert k (fst ` set d)"
  by (auto simp: setdefault_def map_of_eq_None_iff dest: map_of_SomeD intro: rev_image_eqI)

section \<open>SQL statements on a list of rows\<close>

definition select :: "('r \<Rightarrow> bool) \<Rightarrow> 'r list \<Rightarrow> 'r list" where
  "select p rows = filter p rows"

text \<open>\<^verbatim>\<open>session.scalar(select(...).where(p))\<close>: the first matching row, or None.\<close>

definition scalar :: "('r \<Rightarrow> bool) \<Rightarrow> 'r list \<Rightarrow> 'r option" where
  "scalar p rows = find p rows"

text \<open>The same with an \<^verbatim>\<open>ORDER BY\<close> clause (and \<^verbatim>\<open>LIMIT 1\<close>).\<close>

definition scalar_by :: "('r \<Rightarrow> 'k::linorder) \<Rightarrow> ('r \<Rightarrow> bool) \<Rightarrow> 'r list \<Rightarrow> 'r option" where
  "scalar_by key p rows = (case sort_key key (filter p rows) of [] \<Rightarrow> None | r # _ \<Rightarrow> Some r)"

definition update_where :: "('r \<Rightarrow> bool) \<Rightarrow> ('r \<Rightarrow> 'r) \<Rightarrow> 'r list \<Rightarrow> 'r list" where
  "update_where p f rows = map (\<lambda>r. if p r then f r else r) rows"

definition delete_where :: "('r \<Rightarrow> bool) \<Rightarrow> 'r list \<Rightarrow> 'r list" where
  "delete_where p rows = filter (\<lambda>r. \<not> p r) rows"

text \<open>\<^verbatim>\<open>INSERT ... ON CONFLICT DO NOTHING\<close> on the columns that \<open>key\<close> reads.\<close>

definition insert_new :: "('r \<Rightarrow> 'k) \<Rightarrow> 'r \<Rightarrow> 'r list \<Rightarrow> 'r list" where
  "insert_new key r rows = (if key r \<in> key ` set rows then rows else rows @ [r])"

text \<open>
  A plain \<^verbatim>\<open>INSERT\<close> of a row whose \<open>key\<close> columns carry a unique
  constraint; a violation is the driver's \<^verbatim>\<open>IntegrityError\<close>.
\<close>

definition insert_unique :: "('r \<Rightarrow> 'k) \<Rightarrow> 'r \<Rightarrow> 'r list \<Rightarrow> exc + 'r list" where
  "insert_unique key r rows =
     (if key r \<in> key ` set rows then Inl IntegrityError else Inr (rows @ [r]))"

lemma insert_unique_Inr:
  "insert_unique key r rows = Inr rows' \<longleftrightarrow> key r \<notin> key ` set rows \<and> rows' = rows @ [r]"
  by (auto simp: insert_unique_def)

lemma insert_unique_fresh:
  "key r \<notin> key ` set rows \<Longrightarrow> insert_unique key r rows = Inr (rows @ [r])"
  by (simp add: insert_unique_def)

lemma scalar_Some:
  "scalar p rows = Some r \<Longrightarrow> r \<in> set rows \<and> p r"
  by (auto simp: scalar_def find_Some_iff)

lemma scalar_None: "scalar p rows = None \<longleftrightarrow> (\<forall>r \<in> set rows. \<not> p r)"
  by (auto simp: scalar_def find_None_iff)

lemma scalar_simps [simp]:
  "scalar p [] = None"
  "scalar p (r # rows) = (if p r then Some r else scalar p rows)"
  by (simp_all add: scalar_def)

lemma scalar_unique:
  assumes "x \<in> set rows" "p x" "\<And>y. y \<in> set rows \<Longrightarrow> p y \<Longrightarrow> y = x"
  shows "scalar p rows = Some x"
proof (cases "scalar p rows")
  case None
  with assms(1,2) show ?thesis by (auto simp: scalar_None)
next
  case (Some y)
  with scalar_Some [OF Some] assms(3) show ?thesis by simp
qed

lemma scalar_update_key:
  assumes "scalar (\<lambda>r. key r = k) rows = Some x" "key y = k"
  shows "scalar (\<lambda>r. key r = k) (update_where (\<lambda>r. key r = k) (\<lambda>_. y) rows) = Some y"
  using assms by (induction rows) (auto simp: scalar_def update_where_def split: if_splits)

lemma scalar_update_other:
  assumes "key y = k" "j \<noteq> k"
  shows "scalar (\<lambda>r. key r = j) (update_where (\<lambda>r. key r = k) (\<lambda>_. y) rows) = scalar (\<lambda>r. key r = j) rows"
  using assms by (induction rows) (auto simp: scalar_def update_where_def)

lemma scalar_append:
  "scalar p (xs @ ys) = (case scalar p xs of None \<Rightarrow> scalar p ys | Some x \<Rightarrow> Some x)"
  by (induction xs) (auto simp: scalar_def)

lemma scalar_by_None: "scalar_by key p rows = None \<longleftrightarrow> (\<forall>r \<in> set rows. \<not> p r)"
proof -
  have "sort_key key (filter p rows) = [] \<longleftrightarrow> filter p rows = []"
    by (metis set_sort set_empty)
  then show ?thesis
    by (auto simp: scalar_by_def filter_empty_conv split: list.splits)
qed

lemma scalar_by_Some:
  assumes "scalar_by key p rows = Some r"
  shows "r \<in> set rows" and "p r" and "\<And>s. s \<in> set rows \<Longrightarrow> p s \<Longrightarrow> key r \<le> key s"
proof -
  from assms obtain rs where rs: "sort_key key (filter p rows) = r # rs"
    by (auto simp: scalar_by_def split: list.splits)
  have "set (r # rs) = set (filter p rows)"
    by (metis rs set_sort)
  then show "r \<in> set rows" and "p r" by auto
  fix s assume "s \<in> set rows" "p s"
  with \<open>set (r # rs) = set (filter p rows)\<close> have "s \<in> set (r # rs)" by auto
  moreover have "sorted (map key (r # rs))"
    by (metis rs sorted_sort_key)
  ultimately show "key r \<le> key s" by auto
qed

lemma set_insert_new:
  "set (insert_new key r rows) = (if key r \<in> key ` set rows then set rows else insert r (set rows))"
  by (auto simp: insert_new_def)

lemma distinct_insert_new:
  "distinct (map key rows) \<Longrightarrow> distinct (map key (insert_new key r rows))"
  by (auto simp: insert_new_def)

lemma keys_insert_new: "key ` set (insert_new key r rows) = insert (key r) (key ` set rows)"
  by (auto simp: insert_new_def)

lemma set_fold_insert_new: "set (fold (insert_new key) rs rows) \<subseteq> set rows \<union> set rs"
  by (induction rs arbitrary: rows) (fastforce simp: set_insert_new split: if_splits)+

lemma distinct_fold_insert_new:
  "distinct (map key rows) \<Longrightarrow> distinct (map key (fold (insert_new key) rs rows))"
  by (induction rs arbitrary: rows) (simp_all add: distinct_insert_new)

lemma map_update_where:
  "(\<And>r. p r \<Longrightarrow> key (f r) = key r) \<Longrightarrow> map key (update_where p f rows) = map key rows"
  by (simp add: update_where_def)

lemma map_replace_row:
  "map key (update_where (\<lambda>r. key r = key item) (\<lambda>_. item) rows) = map key rows"
  by (simp add: update_where_def)

lemma set_update_where:
  "set (update_where p f rows) = {r \<in> set rows. \<not> p r} \<union> f ` {r \<in> set rows. p r}"
  by (auto simp: update_where_def)

lemma update_where_mem: "r \<in> set rows \<Longrightarrow> (if p r then f r else r) \<in> set (update_where p f rows)"
  by (auto simp: update_where_def)

lemma set_delete_where: "set (delete_where p rows) = {r \<in> set rows. \<not> p r}"
  by (auto simp: delete_where_def)

lemma distinct_delete_where:
  "distinct (map key rows) \<Longrightarrow> distinct (map key (delete_where p rows))"
  by (auto simp: delete_where_def distinct_map intro: inj_on_subset)

lemma update_where_none:
  "(\<And>r. r \<in> set rows \<Longrightarrow> \<not> p r) \<Longrightarrow> update_where p f rows = rows"
  by (auto simp: update_where_def intro: map_idI)

lemmas sql_defs = select_def update_where_def delete_where_def

section \<open>Sums over rows\<close>

definition sum_of :: "('r \<Rightarrow> int) \<Rightarrow> 'r list \<Rightarrow> int" where
  "sum_of f rows = sum_list (map f rows)"

lemma sum_of_simps [simp]:
  "sum_of f [] = 0"
  "sum_of f (r # rows) = f r + sum_of f rows"
  "sum_of f (rows @ rows') = sum_of f rows + sum_of f rows'"
  by (simp_all add: sum_of_def)

lemma sum_of_nonneg: "(\<And>r. r \<in> set rows \<Longrightarrow> 0 \<le> f r) \<Longrightarrow> 0 \<le> sum_of f rows"
  by (induction rows) auto

lemma sum_of_mono:
  "(\<And>r. r \<in> set rows \<Longrightarrow> f r \<le> g r) \<Longrightarrow> sum_of f rows \<le> sum_of g rows"
  by (induction rows) (auto intro: add_mono)

text \<open>Replacing the one row with key \<open>k\<close> changes the sum by the change of that row.\<close>

lemma sum_of_update_key:
  assumes "distinct (map key rows)" and "r \<in> set rows"
    and "\<And>s. p s \<longleftrightarrow> key s = key r"
  shows "sum_of f (update_where p g rows) = sum_of f rows - f r + f (g r)"
  using assms(1,2)
proof (induction rows)
  case Nil
  then show ?case by simp
next
  case (Cons s rows)
  have later: "key x \<noteq> key s" if "x \<in> set rows" for x
    using Cons.prems that by (auto simp: rev_image_eqI)
  show ?case
  proof (cases "s = r")
    case True
    then have "update_where p g rows = rows"
      using later by (auto simp: assms(3) intro: update_where_none)
    with True show ?thesis by (simp add: update_where_def assms(3))
  next
    case False
    with Cons.prems later have "\<not> p s" by (auto simp: assms(3))
    with Cons False show ?thesis by (auto simp: update_where_def)
  qed
qed

end
