(* ===== verification/Accounts.thy ===== *)
theory Accounts
  imports Prelude
begin

text \<open>
  Accounts, sessions, couples and memberships (\<^verbatim>\<open>models.py\<close>), the bearer-token
  dependency (\<^verbatim>\<open>dependencies.py\<close>) and the authorization queries every couple-scoped
  service starts with (\<^verbatim>\<open>couple_access.py\<close>).
\<close>

section \<open>Rows\<close>

record account =
  acc_id :: uuid
  acc_email_normalized :: ustring
  acc_password_hash :: string
  acc_display_name :: ustring
  acc_is_adult :: bool
  acc_accepted_terms_version :: string
  acc_is_admin :: bool
  acc_verified_at :: "instant option"
  acc_suspended_at :: "instant option"
  acc_deleted_at :: "instant option"
  acc_created_at :: instant
  acc_updated_at :: instant

record session_row =
  ses_account_id :: uuid
  ses_token_hash :: string
  ses_revoked_at :: "instant option"
  ses_expires_at :: instant
  ses_authenticated_at :: instant
  ses_admin_mfa_verified :: bool
  ses_created_at :: instant

record couple =
  cpl_id :: uuid
  cpl_created_at :: instant
  cpl_updated_at :: instant
  cpl_ended_at :: "instant option"
  cpl_proximity_threshold_m :: real
  cpl_proximity_processed_through :: "instant option"
  cpl_proximity_algorithm_version :: int
  cpl_home_timezone :: string

record couple_member =
  mem_couple_id :: uuid
  mem_account_id :: uuid
  mem_joined_at :: instant
  mem_left_at :: "instant option"
  mem_intimacy_enabled :: bool
  mem_location_enabled :: bool

record core_db =
  accounts :: "account list"
  sessions :: "session_row list"
  couples :: "couple list"
  members :: "couple_member list"

section \<open>Authentication\<close>

text \<open>
  \<^verbatim>\<open>hash_token\<close> is a keyed digest of the standard library's hmac, with the pepper of
  the settings; it is a parameter.
\<close>

definition bearer_prefix :: string where "bearer_prefix = ''Bearer ''"

definition authentication_required :: exc where
  "authentication_required = HTTPException 401 ''Authentication required''"

definition session_live :: "instant \<Rightarrow> session_row \<Rightarrow> bool" where
  "session_live now s \<longleftrightarrow> ses_revoked_at s = None \<and> now < ses_expires_at s"

definition current_account ::
    "(string \<Rightarrow> string) \<Rightarrow> 'a core_db_scheme \<Rightarrow> string option \<Rightarrow> instant \<Rightarrow> exc + account" where
  "current_account hash_token db authorization now =
     (case authorization of
        None \<Rightarrow> Inl authentication_required
      | Some header \<Rightarrow>
          (if take 7 header \<noteq> bearer_prefix then Inl authentication_required
           else
             (let token_hash = hash_token (drop 7 header) in
              case scalar (\<lambda>a. list_ex (\<lambda>s. ses_account_id s = acc_id a
                                  \<and> ses_token_hash s = token_hash \<and> session_live now s) (sessions db)
                              \<and> acc_suspended_at a = None \<and> acc_deleted_at a = None) (accounts db) of
                None \<Rightarrow> Inl authentication_required
              | Some a \<Rightarrow> Inr a)))"

text \<open>
  \<^verbatim>\<open>current_admin\<close> depends on \<^verbatim>\<open>current_account\<close> having succeeded; the
  session's step-up flag is read again by the token's digest.
\<close>

definition current_admin ::
    "(string \<Rightarrow> string) \<Rightarrow> 'a core_db_scheme \<Rightarrow> string option \<Rightarrow> instant \<Rightarrow> exc + account" where
  "current_admin hash_token db authorization now =
     bind_exc (current_account hash_token db authorization now) (\<lambda>account.
       let token = (case authorization of
             Some header \<Rightarrow> (if take 7 header = bearer_prefix then drop 7 header else [])
           | None \<Rightarrow> []);
           mfa_verified = map_option ses_admin_mfa_verified
             (scalar (\<lambda>s. ses_token_hash s = hash_token token \<and> session_live now s) (sessions db))
       in if \<not> acc_is_admin account \<or> mfa_verified \<noteq> Some True
          then Inl (HTTPException 403 ''Administrator access required'')
          else Inr account)"

definition require_recent_auth :: "instant \<Rightarrow> instant \<Rightarrow> int \<Rightarrow> exc + unit" where
  "require_recent_auth authenticated_at now minutes =
     guard (now - authenticated_at \<le> minutes * 60 * second)
       (HTTPException 401 ''Recent password authentication required'')"

section \<open>Couple-scoped authorization\<close>

definition relationship_inactive_error :: exc where
  "relationship_inactive_error = HTTPException 409 ''relationship_inactive''"

definition is_active :: "couple_member \<Rightarrow> bool" where
  "is_active m \<longleftrightarrow> mem_left_at m = None"

definition active_member :: "'a core_db_scheme \<Rightarrow> uuid \<Rightarrow> exc + couple_member" where
  "active_member db account_id =
     (case scalar (\<lambda>m. mem_account_id m = account_id \<and> is_active m) (members db) of
        None \<Rightarrow> Inl relationship_inactive_error
      | Some m \<Rightarrow> Inr m)"

definition archived_member :: "'a core_db_scheme \<Rightarrow> uuid \<Rightarrow> uuid \<Rightarrow> exc + couple_member" where
  "archived_member db account_id couple_id =
     (case scalar (\<lambda>m. mem_account_id m = account_id \<and> mem_couple_id m = couple_id
                        \<and> \<not> is_active m) (members db) of
        None \<Rightarrow> Inl (HTTPException 404 ''Archive is unavailable'')
      | Some m \<Rightarrow> Inr m)"

text \<open>The two consent columns the code allows; any other field name is a ValueError.\<close>

definition consent_column :: "string \<Rightarrow> (couple_member \<Rightarrow> bool) option" where
  "consent_column field =
     (if field = ''intimacy_enabled'' then Some mem_intimacy_enabled
      else if field = ''location_enabled'' then Some mem_location_enabled
      else None)"

definition both_members_consent :: "'a core_db_scheme \<Rightarrow> uuid \<Rightarrow> string \<Rightarrow> exc + bool" where
  "both_members_consent db couple_id field =
     (case consent_column field of
        None \<Rightarrow> Inl (ValueError ''unknown consent field'')
      | Some column \<Rightarrow>
          Inr (length (select (\<lambda>m. mem_couple_id m = couple_id \<and> is_active m \<and> column m)
                 (members db)) = 2))"

definition lock_couple :: "'a core_db_scheme \<Rightarrow> uuid \<Rightarrow> exc + couple" where
  "lock_couple db couple_id =
     (case scalar (\<lambda>c. cpl_id c = couple_id) (couples db) of
        None \<Rightarrow> Inl relationship_inactive_error
      | Some c \<Rightarrow> (if cpl_ended_at c \<noteq> None then Inl relationship_inactive_error else Inr c))"

text \<open>\<^verbatim>\<open>partner_id_for\<close>, \<^verbatim>\<open>_active_partner_id\<close>: the other active member.\<close>

definition partner_id_for :: "'a core_db_scheme \<Rightarrow> uuid \<Rightarrow> uuid \<Rightarrow> uuid option" where
  "partner_id_for db couple_id actor_id =
     map_option mem_account_id
       (scalar (\<lambda>m. mem_couple_id m = couple_id \<and> mem_account_id m \<noteq> actor_id \<and> is_active m)
          (members db))"

definition active_couple_id :: "'a core_db_scheme \<Rightarrow> uuid \<Rightarrow> uuid option" where
  "active_couple_id db account_id =
     map_option mem_couple_id
       (scalar (\<lambda>m. mem_account_id m = account_id \<and> is_active m) (members db))"

section \<open>Database invariant\<close>

text \<open>
  What the keys and unique indexes of \<^verbatim>\<open>models.py\<close> promise, and what pairing keeps of a
  couple: an active membership belongs to a live couple, which has exactly two.
\<close>

definition active_members :: "'a core_db_scheme \<Rightarrow> couple_member list" where
  "active_members db = filter is_active (members db)"

definition members_of :: "'a core_db_scheme \<Rightarrow> uuid \<Rightarrow> couple_member list" where
  "members_of db couple_id = filter (\<lambda>m. mem_couple_id m = couple_id) (active_members db)"

definition core_ok :: "'a core_db_scheme \<Rightarrow> bool" where
  "core_ok db \<longleftrightarrow>
     distinct (map acc_id (accounts db)) \<and> distinct (map cpl_id (couples db))
     \<and> distinct (map (\<lambda>m. (mem_couple_id m, mem_account_id m)) (members db))
     \<and> distinct (map mem_account_id (active_members db))
     \<and> (\<forall>c \<in> set (couples db).
          length (members_of db (cpl_id c)) = (if cpl_ended_at c = None then 2 else 0))
     \<and> (\<forall>m \<in> set (members db). mem_couple_id m \<in> cpl_id ` set (couples db))"

lemma active_member_Inr:
  "active_member db a = Inr m \<Longrightarrow> m \<in> set (members db) \<and> mem_account_id m = a \<and> is_active m"
  by (auto simp: active_member_def dest!: scalar_Some split: option.splits)

lemma lock_couple_Inr:
  "lock_couple db k = Inr c \<Longrightarrow> c \<in> set (couples db) \<and> cpl_id c = k \<and> cpl_ended_at c = None"
  by (auto simp: lock_couple_def dest!: scalar_Some split: option.splits if_splits)

lemma partner_id_for_Some:
  "partner_id_for db k a = Some p \<Longrightarrow>
     p \<noteq> a \<and> (\<exists>m \<in> set (members db). mem_account_id m = p \<and> mem_couple_id m = k \<and> is_active m)"
  by (auto simp: partner_id_for_def dest!: scalar_Some)

text \<open>Only an unrevoked, unexpired session of an account in good standing authenticates.\<close>

lemma current_account_sound:
  assumes "current_account hash_token db header now = Inr a"
  shows "a \<in> set (accounts db) \<and> acc_suspended_at a = None \<and> acc_deleted_at a = None
    \<and> (\<exists>h. header = Some (bearer_prefix @ h)
        \<and> (\<exists>s \<in> set (sessions db). ses_account_id s = acc_id a \<and> ses_token_hash s = hash_token h
             \<and> ses_revoked_at s = None \<and> now < ses_expires_at s))"
proof -
  from assms obtain h where h: "header = Some h" "take 7 h = bearer_prefix"
    and a: "scalar (\<lambda>a. list_ex (\<lambda>s. ses_account_id s = acc_id a
              \<and> ses_token_hash s = hash_token (drop 7 h) \<and> session_live now s) (sessions db)
              \<and> acc_suspended_at a = None \<and> acc_deleted_at a = None) (accounts db) = Some a"
    by (auto simp: current_account_def Let_def split: option.splits if_splits)
  have "h = bearer_prefix @ drop 7 h" by (metis append_take_drop_id h(2))
  with h(1) scalar_Some [OF a] show ?thesis
    by (auto simp: list_ex_iff session_live_def)
qed

text \<open>Mutual consent means two active members who both switched the column on.\<close>

lemma both_members_consent_sound:
  assumes "both_members_consent db k field = Inr True"
  shows "\<exists>m1 m2 column. consent_column field = Some column
    \<and> filter (\<lambda>m. mem_couple_id m = k \<and> is_active m \<and> column m) (members db) = [m1, m2]"
  using assms
  by (auto simp: both_members_consent_def select_def length_Suc_conv numeral_2_eq_2
      split: option.splits)

end
