(* ===== verification/Interfaces.thy ===== *)
theory Interfaces
  imports Prelude
begin

text \<open>
  The contracts several components of the API share, as locales.
  \<^item> \<open>retry_safe\<close>: a handler keyed by an operation id may be repeated by an offline client.
  \<^item> \<open>preserving\<close>: a handler keeps an invariant of the database.
  \<^item> \<open>rolling_limit\<close>: a handler admits at most so many events in a rolling window.
  Each is interpreted on the handlers of the components that promise it.
\<close>

section \<open>Running a sequence of requests\<close>

text \<open>A request that raises is rolled back; the next one sees the database unchanged.\<close>

definition step :: "('db \<Rightarrow> 'op \<Rightarrow> exc + 'db \<times> 'r) \<Rightarrow> 'db \<Rightarrow> 'op \<Rightarrow> 'db" where
  "step handle db op = (case handle db op of Inl e \<Rightarrow> db | Inr (db', r) \<Rightarrow> db')"

fun run_ops :: "('db \<Rightarrow> 'op \<Rightarrow> exc + 'db \<times> 'r) \<Rightarrow> 'db \<Rightarrow> 'op list \<Rightarrow> 'db" where
  "run_ops handle db [] = db"
| "run_ops handle db (op # ops) = run_ops handle (step handle db op) ops"

lemma step_Inr: "handle db op = Inr (db', r) \<Longrightarrow> step handle db op = db'"
  by (simp add: step_def)

lemma step_Inl: "handle db op = Inl e \<Longrightarrow> step handle db op = db"
  by (simp add: step_def)

lemma step_cases:
  obtains "step handle db op = db" | r where "handle db op = Inr (step handle db op, r)"
  by (cases "handle db op") (auto simp: step_def)

section \<open>Invariants\<close>

locale preserving =
  fixes handle :: "'db \<Rightarrow> 'op \<Rightarrow> exc + 'db \<times> 'r"
    and inv :: "'db \<Rightarrow> bool"
  assumes preserves: "inv db \<Longrightarrow> handle db op = Inr (db', r) \<Longrightarrow> inv db'"
begin

lemma inv_step: "inv db \<Longrightarrow> inv (step handle db op)"
  by (metis step_cases preserves)

lemma inv_run: "inv db \<Longrightarrow> inv (run_ops handle db ops)"
  by (induction ops arbitrary: db) (auto intro: inv_step)

end

section \<open>Retry safety\<close>

locale retry_safe = preserving handle inv
  for handle :: "'db \<Rightarrow> 'op \<Rightarrow> exc + 'db \<times> 'r" and inv :: "'db \<Rightarrow> bool" +
  fixes recorded :: "'db \<Rightarrow> 'op \<Rightarrow> bool"
  assumes records: "inv db \<Longrightarrow> handle db op = Inr (db', r) \<Longrightarrow> recorded db' op \<or> db' = db"
    and keeps: "inv db \<Longrightarrow> recorded db op \<Longrightarrow> handle db op' = Inr (db', r) \<Longrightarrow> recorded db' op"
    and replays: "inv db \<Longrightarrow> recorded db op \<Longrightarrow> handle db op = Inr (db', r) \<Longrightarrow> db' = db"
begin

lemma recorded_step: "inv db \<Longrightarrow> recorded db op \<Longrightarrow> recorded (step handle db op') op"
  by (metis step_cases keeps)

lemma recorded_run: "inv db \<Longrightarrow> recorded db op \<Longrightarrow> recorded (run_ops handle db ops) op"
  by (induction ops arbitrary: db) (auto intro: recorded_step inv_step)

text \<open>A request that changed something may be repeated, however late: nothing happens.\<close>

lemma retry_later:
  assumes "inv db" "handle db op = Inr (db', r)" "db' \<noteq> db"
  shows "step handle (run_ops handle db' ops) op = run_ops handle db' ops"
proof -
  have inv: "inv db'" using assms(1,2) by (rule preserves)
  have "recorded (run_ops handle db' ops) op"
    using assms records inv by (intro recorded_run) blast+
  then show ?thesis using inv_run [OF inv] by (metis step_cases replays)
qed

end

section \<open>Rolling limits\<close>

definition in_window_at :: "duration \<Rightarrow> instant \<Rightarrow> instant list \<Rightarrow> instant list" where
  "in_window_at window now ts = filter (\<lambda>t. now - window < t \<and> t \<le> now) ts"

text \<open>At no instant are there more than \<open>limit\<close> events in the window that ends there.\<close>

definition never_exceeds :: "nat \<Rightarrow> duration \<Rightarrow> instant list \<Rightarrow> bool" where
  "never_exceeds limit window ts \<longleftrightarrow> (\<forall>now. length (in_window_at window now ts) \<le> limit)"

lemma never_exceeds_append:
  assumes "never_exceeds limit window ts" "\<forall>t \<in> set ts. t \<le> now"
    and "length (filter (\<lambda>t. now - window < t) ts) < limit"
  shows "never_exceeds limit window (ts @ [now])"
  unfolding never_exceeds_def
proof
  fix u
  show "length (in_window_at window u (ts @ [now])) \<le> limit"
  proof (cases "now \<le> u \<and> u - window < now")
    case False
    then have "in_window_at window u (ts @ [now]) = in_window_at window u ts"
      by (auto simp: in_window_at_def)
    with assms(1) show ?thesis by (simp add: never_exceeds_def)
  next
    case True
    have "in_window_at window u ts = filter (\<lambda>t. now - window < t \<and> u - window < t) ts"
      unfolding in_window_at_def by (rule filter_cong [OF refl]) (use True assms(2) in force)
    also have "\<dots> = filter (\<lambda>t. u - window < t) (filter (\<lambda>t. now - window < t) ts)"
      by (simp add: conj_commute)
    finally have "length (in_window_at window u ts) \<le> length (filter (\<lambda>t. now - window < t) ts)"
      by (simp only: length_filter_le)
    with True assms(3) show ?thesis by (simp add: in_window_at_def)
  qed
qed

text \<open>
  A request carries the clock reading of its handler; the server's clock does not run
  backwards between the requests of a run.
\<close>

locale rolling_limit =
  fixes handle :: "'db \<Rightarrow> 'op \<Rightarrow> exc + 'db \<times> 'r"
    and log :: "'db \<Rightarrow> instant list"
    and clock :: "'op \<Rightarrow> instant"
    and limit :: nat
    and window :: duration
  assumes admits: "handle db op = Inr (db', r) \<Longrightarrow>
      log db' = log db
      \<or> log db' = log db @ [clock op]
        \<and> length (filter (\<lambda>t. clock op - window < t) (log db)) < limit"
begin

lemma limited_step:
  assumes "never_exceeds limit window (log db)" "\<forall>t \<in> set (log db). t \<le> clock op"
  shows "never_exceeds limit window (log (step handle db op))
    \<and> (\<forall>t \<in> set (log (step handle db op)). t \<le> clock op)"
proof (cases rule: step_cases [of handle db op])
  case 1
  with assms show ?thesis by simp
next
  case (2 r)
  from admits [OF this] show ?thesis
    using assms by (elim disjE conjE) (simp_all add: never_exceeds_append)
qed

lemma limited_run:
  assumes "never_exceeds limit window (log db)"
    and "\<forall>t \<in> set (log db). \<forall>op \<in> set ops. t \<le> clock op" and "sorted (map clock ops)"
  shows "never_exceeds limit window (log (run_ops handle db ops))"
  using assms
proof (induction ops arbitrary: db)
  case Nil
  then show ?case by simp
next
  case (Cons op ops)
  have s: "never_exceeds limit window (log (step handle db op))"
    "\<forall>t \<in> set (log (step handle db op)). t \<le> clock op"
    using limited_step [of db op] Cons.prems(1,2) by auto
  have "\<forall>t \<in> set (log (step handle db op)). \<forall>op' \<in> set ops. t \<le> clock op'"
    using s(2) Cons.prems(3) by fastforce
  with s(1) Cons.prems(3) show ?case by (simp add: Cons.IH)
qed

end

end
