(* ===== verification/Location.thy ===== *)
theory Location
  imports Prelude
begin

text \<open>
  Model of \<^verbatim>\<open>domain/location.py\<close>: proximity decisions between two phones, the
  chronological evidence timeline of a couple, its partition into UTC minutes, the
  confirmed bridges over short gaps, and the bounded live projection. Coordinates, accuracies
  and distances are real numbers (the code's floats without rounding); the per-minute
  dictionary is an association list keyed by the minute.
\<close>

section \<open>Data\<close>

definition EARTH_RADIUS_M :: real where "EARTH_RADIUS_M = 6371000"
definition MAX_MUTUAL_EVIDENCE_AGE :: duration where "MAX_MUTUAL_EVIDENCE_AGE = 5 * minute"
definition MAX_SAMPLE_SKEW :: duration where "MAX_SAMPLE_SKEW = 5 * minute"
definition MAX_COUNTED_INTERVAL :: duration where "MAX_COUNTED_INTERVAL = 5 * minute"
definition MAX_BRIDGED_INTERVAL :: duration where "MAX_BRIDGED_INTERVAL = 20 * minute"
definition RECOMPUTE_HORIZON :: duration where "RECOMPUTE_HORIZON = 23 * hour + 45 * minute"
definition RAW_LOCATION_RETENTION :: duration where "RAW_LOCATION_RETENTION = 24 * hour"
definition PRIVACY_MAINTENANCE_INTERVAL :: duration where
  "PRIVACY_MAINTENANCE_INTERVAL = 5 * minute"

lemmas interval_defs =
  MAX_MUTUAL_EVIDENCE_AGE_def MAX_SAMPLE_SKEW_def MAX_COUNTED_INTERVAL_def
  MAX_BRIDGED_INTERVAL_def RECOMPUTE_HORIZON_def RAW_LOCATION_RETENTION_def
  PRIVACY_MAINTENANCE_INTERVAL_def

datatype evidence_state =
    St_waiting_for_partner | St_nearby | St_apart | St_poor_accuracy | St_stale

datatype counting_state =
    Ct_sharing_disabled | Ct_waiting_for_partner | Ct_confirming | Ct_nearby | Ct_apart
  | Ct_poor_accuracy | Ct_stale

datatype evidence_kind =
    Ev_observed | Ev_bridged | Ev_mixed | Ev_apart | Ev_poor_accuracy | Ev_unverified

record point =
  latitude :: real
  longitude :: real
  accuracy_m :: real

record proximity_decision =
  measured_distance_m :: real
  minimum_distance_m :: real
  maximum_distance_m :: real
  together :: bool
  uncertain :: bool

record timed_point =
  sample_id :: string
  recorded_at :: instant
  tp_point :: point

record evidence_anchor =
  anchor_recorded_at :: instant
  anchor_state :: evidence_state
  anchor_distance_m :: "real option"
  anchor_left :: "timed_point option"
  anchor_right :: "timed_point option"

text \<open>
  The five coordinate-free components of a minute: observed, bridged, unverified, apart and
  poor-accuracy seconds, in the order of \<^verbatim>\<open>_components\<close>.
\<close>

type_synonym components = "int \<times> int \<times> int \<times> int \<times> int"

record minute_estimate =
  bucket_start :: instant
  duration_seconds :: int
  estimated_distance_m :: "real option"
  evidence_kind_of :: evidence_kind
  observed_seconds :: int
  bridged_seconds :: int
  unverified_seconds :: int
  apart_seconds :: int
  poor_accuracy_seconds :: int

record proximity_timeline =
  anchors :: "evidence_anchor list"
  estimates :: "minute_estimate list"

record live_projection =
  projection_state :: counting_state
  anchor_at :: "instant option"
  live_until :: "instant option"
  mutual_evidence_at :: "instant option"
  provisional_seconds :: int

text \<open>A Python datetime with or without a timezone, for the one function that checks it.\<close>

datatype py_datetime = Naive int | Aware instant

definition raw_location_expires_at :: "py_datetime \<Rightarrow> exc + instant" where
  "raw_location_expires_at t =
     (case t of
        Naive _ \<Rightarrow> Inl (ValueError ''recorded_at must include a timezone offset'')
      | Aware u \<Rightarrow> Inr (u + RAW_LOCATION_RETENTION - PRIVACY_MAINTENANCE_INTERVAL))"

section \<open>Distance and proximity\<close>

definition radians :: "real \<Rightarrow> real" where
  "radians x = x * pi / 180"

definition haversine_value :: "point \<Rightarrow> point \<Rightarrow> real" where
  "haversine_value l r =
     (let lat1 = radians (latitude l); lat2 = radians (latitude r);
          delta_lat = lat2 - lat1; delta_lon = radians (longitude r - longitude l)
      in sin (delta_lat / 2) ^ 2 + cos lat1 * cos lat2 * sin (delta_lon / 2) ^ 2)"

definition haversine_m :: "point \<Rightarrow> point \<Rightarrow> real" where
  "haversine_m l r = 2 * EARTH_RADIUS_M * arcsin (sqrt (haversine_value l r))"

definition decide_proximity :: "point \<Rightarrow> point \<Rightarrow> real \<Rightarrow> proximity_decision" where
  "decide_proximity l r threshold =
     (let measured = haversine_m l r;
          uncertainty = accuracy_m l + accuracy_m r;
          min_d = max 0 (measured - uncertainty);
          max_d = measured + uncertainty;
          definite = max_d \<le> threshold;
          likely = measured \<le> threshold \<and> max (accuracy_m l) (accuracy_m r) \<le> threshold
      in \<lparr> measured_distance_m = measured, minimum_distance_m = min_d,
           maximum_distance_m = max_d, together = (definite \<or> likely),
           uncertain = (min_d \<le> threshold \<and> threshold < max_d) \<rparr>)"

section \<open>Samples to chronological anchors\<close>

definition sample_key :: "timed_point \<Rightarrow> instant \<times> string" where
  "sample_key v = (recorded_at v, sample_id v)"

fun keep_first :: "timed_point list \<Rightarrow> (string \<times> timed_point) list \<Rightarrow> (string \<times> timed_point) list" where
  "keep_first [] unique = unique"
| "keep_first (item # items) unique = keep_first items (setdefault (sample_id item) item unique)"

definition deduplicate :: "timed_point list \<Rightarrow> timed_point list" where
  "deduplicate samples =
     sort_key sample_key (map snd (keep_first (sort_key sample_key samples) []))"

type_synonym sides = "timed_point list \<times> timed_point list"

definition group_one :: "bool \<Rightarrow> timed_point \<Rightarrow> (instant \<times> sides) list \<Rightarrow> (instant \<times> sides) list" where
  "group_one is_right s grouped =
     (let k = recorded_at s;
          (ls, rs) = (case map_of grouped k of None \<Rightarrow> ([], []) | Some v \<Rightarrow> v)
      in AList.update k (if is_right then (ls, rs @ [s]) else (ls @ [s], rs)) grouped)"

definition best :: "timed_point list \<Rightarrow> timed_point option" where
  "best samples =
     (if samples = [] then None
      else Some (arg_min_list (\<lambda>v. (accuracy_m (tp_point v), sample_id v)) samples))"

type_synonym event = "instant \<times> timed_point option \<times> timed_point option"

definition group_events :: "timed_point list \<Rightarrow> timed_point list \<Rightarrow> event list" where
  "group_events ls rs =
     (let grouped = fold (group_one True) rs (fold (group_one False) ls [])
      in map (\<lambda>(k, a, b). (k, best a, best b)) (sort_key fst grouped))"

definition anchor ::
    "instant \<Rightarrow> timed_point option \<Rightarrow> timed_point option \<Rightarrow> real \<Rightarrow> evidence_anchor" where
  "anchor t l r threshold =
     (case (l, r) of
        (Some lp, Some rp) \<Rightarrow>
          (let skew = \<bar>recorded_at lp - recorded_at rp\<bar>;
               older_age = t - min (recorded_at lp) (recorded_at rp)
           in if skew > MAX_SAMPLE_SKEW \<or> older_age > MAX_MUTUAL_EVIDENCE_AGE
              then \<lparr> anchor_recorded_at = t, anchor_state = St_stale, anchor_distance_m = None,
                     anchor_left = l, anchor_right = r \<rparr>
              else (let d = decide_proximity (tp_point lp) (tp_point rp) threshold;
                        st = (if together d then St_nearby
                              else if minimum_distance_m d > threshold then St_apart
                              else St_poor_accuracy)
                    in \<lparr> anchor_recorded_at = t, anchor_state = st,
                         anchor_distance_m = Some (measured_distance_m d),
                         anchor_left = l, anchor_right = r \<rparr>))
      | _ \<Rightarrow> \<lparr> anchor_recorded_at = t, anchor_state = St_waiting_for_partner,
               anchor_distance_m = None, anchor_left = l, anchor_right = r \<rparr>)"

text \<open>\<^verbatim>\<open>new or latest\<close>: a sample object is always true in Python.\<close>

fun newer :: "'a option \<Rightarrow> 'a option \<Rightarrow> 'a option" where
  "newer None latest = latest"
| "newer (Some x) latest = Some x"

fun build_anchors ::
    "real \<Rightarrow> timed_point option \<Rightarrow> timed_point option \<Rightarrow> event list \<Rightarrow> evidence_anchor list" where
  "build_anchors threshold l r [] = []"
| "build_anchors threshold l r ((t, new_l, new_r) # events) =
     (let l' = newer new_l l; r' = newer new_r r
      in anchor t l' r' threshold # build_anchors threshold l' r' events)"

section \<open>Minutes\<close>

type_synonym estimate_dict = "(instant \<times> minute_estimate) list"

definition components_of :: "minute_estimate option \<Rightarrow> components" where
  "components_of item =
     (case item of
        None \<Rightarrow> (0, 0, 0, 0, 0)
      | Some e \<Rightarrow> (observed_seconds e, bridged_seconds e, unverified_seconds e,
                   apart_seconds e, poor_accuracy_seconds e))"

fun merge_components :: "components \<Rightarrow> evidence_kind \<Rightarrow> int \<Rightarrow> components" where
  "merge_components (ob, br, un, ap, po) Ev_observed n = (min 60 (ob + n), br, un, ap, po)"
| "merge_components (ob, br, un, ap, po) Ev_bridged n =
     (ob, min 60 (br + n), un - min un n, ap, po)"
| "merge_components (ob, br, un, ap, po) Ev_unverified n = (ob, br, min 60 (un + n), ap, po)"
| "merge_components (ob, br, un, ap, po) Ev_apart n = (ob, br, un, min 60 (ap + n), po)"
| "merge_components (ob, br, un, ap, po) Ev_poor_accuracy n = (ob, br, un, ap, min 60 (po + n))"
| "merge_components (ob, br, un, ap, po) Ev_mixed n = (ob, br, un, ap, po)"

definition merged_components :: "minute_estimate option \<Rightarrow> evidence_kind \<Rightarrow> int \<Rightarrow> components" where
  "merged_components existing kind span_seconds =
     merge_components (components_of existing) kind span_seconds"

fun component_kind :: "components \<Rightarrow> evidence_kind" where
  "component_kind (ob, br, un, ap, po) =
     (case map fst (filter (\<lambda>(_, n). n \<noteq> 0)
             [(Ev_observed, ob), (Ev_bridged, br), (Ev_unverified, un), (Ev_apart, ap),
              (Ev_poor_accuracy, po)]) of
        [k] \<Rightarrow> k
      | _ \<Rightarrow> Ev_mixed)"

definition max_distance :: "real option \<Rightarrow> real option \<Rightarrow> real option" where
  "max_distance a b =
     (let values = map the (filter (\<lambda>v. v \<noteq> None) [a, b])
      in if values = [] then None else Some (Max (set values)))"

definition merged_distance :: "minute_estimate option \<Rightarrow> real option \<Rightarrow> real option" where
  "merged_distance existing incoming =
     max_distance (case existing of None \<Rightarrow> None | Some e \<Rightarrow> estimated_distance_m e) incoming"

text \<open>\<^verbatim>\<open>MinuteEstimate(minute, total, merged_distance, merged_kind, *components)\<close>.\<close>

fun make_estimate :: "instant \<Rightarrow> components \<Rightarrow> real option \<Rightarrow> minute_estimate" where
  "make_estimate m (ob, br, un, ap, po) distance =
     \<lparr> bucket_start = m, duration_seconds = min 60 (ob + br),
       estimated_distance_m = distance,
       evidence_kind_of = component_kind (ob, br, un, ap, po),
       observed_seconds = ob, bridged_seconds = br, unverified_seconds = un,
       apart_seconds = ap, poor_accuracy_seconds = po \<rparr>"

lemma make_estimate_fields:
  "bucket_start (make_estimate m c d) = m"
  "duration_seconds (make_estimate m c d) = min 60 (fst c + fst (snd c))"
  "estimated_distance_m (make_estimate m c d) = d"
  "evidence_kind_of (make_estimate m c d) = component_kind c"
  "components_of (Some (make_estimate m c d)) = c"
  by (cases c; simp add: components_of_def)+

declare make_estimate.simps [simp del]

definition merge_segment ::
    "estimate_dict \<Rightarrow> instant \<Rightarrow> int \<Rightarrow> real option \<Rightarrow> evidence_kind \<Rightarrow> estimate_dict" where
  "merge_segment es m span_seconds distance kind =
     (if span_seconds > 0 then
        (let existing = map_of es m
         in AList.update m
              (make_estimate m (merged_components existing kind span_seconds)
                 (merged_distance existing distance)) es)
      else es)"

function split_minutes ::
    "estimate_dict \<Rightarrow> instant \<Rightarrow> instant \<Rightarrow> real option \<Rightarrow> evidence_kind \<Rightarrow> estimate_dict" where
  "split_minutes es cursor stop distance kind =
     (if cursor < stop then
        (let m = minute_floor cursor;
             seg_end = min stop (m + minute);
             span_seconds = whole_seconds (seg_end - cursor)
         in split_minutes (merge_segment es m span_seconds distance kind)
              seg_end stop distance kind)
      else es)"
  by pat_completeness auto
termination
proof (relation "measure (\<lambda>(es, cursor, stop, distance, kind). nat (stop - cursor))")
  show "wf (measure (\<lambda>(es :: estimate_dict, cursor, stop :: int, distance :: real option,
          kind :: evidence_kind). nat (stop - cursor)))" by simp
next
  fix es :: estimate_dict and cursor stop :: int and distance :: "real option"
    and kind :: evidence_kind and m seg_end span_seconds :: int
  assume a: "cursor < stop" "m = minute_floor cursor" "seg_end = min stop (m + minute)"
  have "0 \<le> cursor mod minute" "cursor mod minute < minute" by auto
  with a have "cursor < seg_end" by (auto simp: minute_floor_def)
  with a(1) show "((merge_segment es m span_seconds distance kind, seg_end, stop, distance, kind),
      es, cursor, stop, distance, kind)
     \<in> measure (\<lambda>(es, cursor, stop, distance, kind). nat (stop - cursor))"
    by simp
qed

declare split_minutes.simps [simp del]

text \<open>Conditional unfolding equations, which terminate on a concrete interval.\<close>

lemma split_minutes_done: "stop \<le> cursor \<Longrightarrow> split_minutes es cursor stop d k = es"
  by (simp add: split_minutes.simps [of es cursor stop d k])

lemma split_minutes_step:
  "cursor < stop \<Longrightarrow> split_minutes es cursor stop d k =
     split_minutes
       (merge_segment es (minute_floor cursor)
          (whole_seconds (min stop (minute_floor cursor + minute) - cursor)) d k)
       (min stop (minute_floor cursor + minute)) stop d k"
  by (simp add: split_minutes.simps [of es cursor stop d k] Let_def)

section \<open>Intervals and bridges\<close>

definition clipped :: "instant \<Rightarrow> instant \<Rightarrow> instant option \<Rightarrow> instant option \<Rightarrow> instant \<times> instant" where
  "clipped t u clip_start clip_end =
     ((case clip_start of None \<Rightarrow> t | Some c \<Rightarrow> max t c),
      (case clip_end of None \<Rightarrow> u | Some c \<Rightarrow> min u c))"

definition pair_kind :: "evidence_anchor \<Rightarrow> evidence_anchor \<Rightarrow> evidence_kind" where
  "pair_kind p c =
     (let gap = anchor_recorded_at c - anchor_recorded_at p in
      if anchor_state p = St_nearby \<and> anchor_state c = St_nearby \<and> gap \<le> MAX_COUNTED_INTERVAL
      then Ev_observed
      else if anchor_state p = St_apart \<or> anchor_state c = St_apart then Ev_apart
      else if anchor_state p = St_poor_accuracy \<or> anchor_state c = St_poor_accuracy
      then Ev_poor_accuracy
      else Ev_unverified)"

definition interval_distance :: "evidence_anchor \<Rightarrow> evidence_anchor \<Rightarrow> real option" where
  "interval_distance p c = max_distance (anchor_distance_m p) (anchor_distance_m c)"

definition add_pair_interval ::
    "estimate_dict \<Rightarrow> evidence_anchor \<Rightarrow> evidence_anchor \<Rightarrow> instant option \<Rightarrow> instant option
       \<Rightarrow> estimate_dict" where
  "add_pair_interval es p c clip_start clip_end =
     (if anchor_recorded_at c \<le> anchor_recorded_at p then es
      else (let (start, stop) =
                  clipped (anchor_recorded_at p) (anchor_recorded_at c) clip_start clip_end
            in if stop \<le> start then es
               else split_minutes es start stop (interval_distance p c) (pair_kind p c)))"

fun add_pair_intervals ::
    "estimate_dict \<Rightarrow> evidence_anchor list \<Rightarrow> instant option \<Rightarrow> instant option \<Rightarrow> estimate_dict" where
  "add_pair_intervals es (p # c # rest) clip_start clip_end =
     add_pair_intervals (add_pair_interval es p c clip_start clip_end) (c # rest)
       clip_start clip_end"
| "add_pair_intervals es _ clip_start clip_end = es"

definition add_bridge ::
    "estimate_dict \<Rightarrow> evidence_anchor \<Rightarrow> evidence_anchor \<Rightarrow> instant option \<Rightarrow> instant option
       \<Rightarrow> estimate_dict" where
  "add_bridge es p c clip_start clip_end =
     (let (start, stop) =
            clipped (anchor_recorded_at p) (anchor_recorded_at c) clip_start clip_end
      in if stop \<le> start then es
         else split_minutes es start stop (interval_distance p c) Ev_bridged)"

definition is_bridge :: "evidence_anchor \<Rightarrow> evidence_anchor \<Rightarrow> bool" where
  "is_bridge p c \<longleftrightarrow>
     (let gap = anchor_recorded_at c - anchor_recorded_at p
      in MAX_COUNTED_INTERVAL < gap \<and> gap \<le> MAX_BRIDGED_INTERVAL)"

text \<open>The loop of \<^verbatim>\<open>_add_confirmed_bridges\<close> with its two loop variables.\<close>

fun confirmed_bridges ::
    "estimate_dict \<Rightarrow> evidence_anchor option \<Rightarrow> bool \<Rightarrow> evidence_anchor list
       \<Rightarrow> instant option \<Rightarrow> instant option \<Rightarrow> estimate_dict" where
  "confirmed_bridges es last_nearby blocked [] clip_start clip_end = es"
| "confirmed_bridges es last_nearby blocked (c # rest) clip_start clip_end =
     (if anchor_state c = St_apart \<or> anchor_state c = St_poor_accuracy then
        confirmed_bridges es None True rest clip_start clip_end
      else if anchor_state c \<noteq> St_nearby then
        confirmed_bridges es last_nearby blocked rest clip_start clip_end
      else
        (let es' = (case last_nearby of
                      Some l \<Rightarrow> (if \<not> blocked \<and> is_bridge l c
                                 then add_bridge es l c clip_start clip_end else es)
                    | None \<Rightarrow> es)
         in confirmed_bridges es' (Some c) False rest clip_start clip_end))"

definition add_confirmed_bridges ::
    "estimate_dict \<Rightarrow> evidence_anchor list \<Rightarrow> instant option \<Rightarrow> instant option \<Rightarrow> estimate_dict" where
  "add_confirmed_bridges es as clip_start clip_end =
     confirmed_bridges es None False as clip_start clip_end"

definition build_proximity_timeline ::
    "timed_point list \<Rightarrow> timed_point list \<Rightarrow> real \<Rightarrow> instant option \<Rightarrow> instant option
       \<Rightarrow> proximity_timeline" where
  "build_proximity_timeline ls rs threshold clip_start clip_end =
     (let events = group_events (deduplicate ls) (deduplicate rs);
          as = build_anchors threshold None None events;
          direct = add_pair_intervals [] as clip_start clip_end;
          es = add_confirmed_bridges direct as clip_start clip_end
      in \<lparr> anchors = as, estimates = map snd (sort_key fst es) \<rparr>)"

definition estimate_nearby_minutes ::
    "timed_point list \<Rightarrow> timed_point list \<Rightarrow> real \<Rightarrow> minute_estimate list" where
  "estimate_nearby_minutes ls rs threshold =
     filter (\<lambda>item. duration_seconds item > 0)
       (estimates (build_proximity_timeline ls rs threshold None None))"

section \<open>Live projection\<close>

definition unavailable_projection :: "bool \<Rightarrow> instant option \<Rightarrow> live_projection" where
  "unavailable_projection sharing_enabled mutual_at =
     \<lparr> projection_state =
         (if sharing_enabled then Ct_waiting_for_partner else Ct_sharing_disabled),
       anchor_at = None, live_until = None, mutual_evidence_at = mutual_at,
       provisional_seconds = 0 \<rparr>"

definition mutual_evidence :: "evidence_anchor \<Rightarrow> instant option" where
  "mutual_evidence a =
     (case (anchor_left a, anchor_right a) of
        (Some l, Some r) \<Rightarrow> Some (min (recorded_at l) (recorded_at r))
      | _ \<Rightarrow> None)"

definition confirmed_for_projection ::
    "evidence_anchor option \<Rightarrow> evidence_anchor \<Rightarrow> instant \<Rightarrow> bool" where
  "confirmed_for_projection previous current now =
     (case previous of
        None \<Rightarrow> False
      | Some p \<Rightarrow> anchor_state p = St_nearby
          \<and> anchor_recorded_at current - anchor_recorded_at p \<le> MAX_COUNTED_INTERVAL
          \<and> anchor_recorded_at current \<le> now)"

fun counting_of :: "evidence_state \<Rightarrow> counting_state" where
  "counting_of St_waiting_for_partner = Ct_waiting_for_partner"
| "counting_of St_nearby = Ct_nearby"
| "counting_of St_apart = Ct_apart"
| "counting_of St_poor_accuracy = Ct_poor_accuracy"
| "counting_of St_stale = Ct_stale"

definition idle_projection :: "counting_state \<Rightarrow> instant \<Rightarrow> live_projection" where
  "idle_projection st mutual_at =
     \<lparr> projection_state = st, anchor_at = None, live_until = None,
       mutual_evidence_at = Some mutual_at, provisional_seconds = 0 \<rparr>"

definition project_live :: "proximity_timeline \<Rightarrow> instant \<Rightarrow> bool \<Rightarrow> live_projection" where
  "project_live timeline now sharing_enabled =
     (case rev (anchors timeline) of
        [] \<Rightarrow> unavailable_projection sharing_enabled None
      | current # before \<Rightarrow>
          (case mutual_evidence current of
             None \<Rightarrow> unavailable_projection sharing_enabled None
           | Some mutual_at \<Rightarrow>
               (if \<not> sharing_enabled then idle_projection Ct_sharing_disabled mutual_at
                else
                  (let until = mutual_at + MAX_MUTUAL_EVIDENCE_AGE in
                   if anchor_state current = St_stale \<or> until \<le> now
                   then idle_projection Ct_stale mutual_at
                   else if anchor_state current \<noteq> St_nearby
                   then idle_projection (counting_of (anchor_state current)) mutual_at
                   else
                     (let previous = (case before of [] \<Rightarrow> None | p # _ \<Rightarrow> Some p) in
                      if \<not> confirmed_for_projection previous current now
                      then idle_projection Ct_confirming mutual_at
                      else
                        (let projected_until = min now until;
                             provisional =
                               max 0 (whole_seconds (projected_until - anchor_recorded_at current))
                         in \<lparr> projection_state = Ct_nearby,
                              anchor_at = Some (anchor_recorded_at current),
                              live_until = Some until, mutual_evidence_at = Some mutual_at,
                              provisional_seconds = provisional \<rparr>))))))"

end
