(* ===== verification/Location_Minutes.thy ===== *)
theory Location_Minutes
  imports Location
begin

text \<open>
  Second-by-second accounting of the minute dictionary. \<open>span s e m\<close> is the number of
  whole seconds an interval contributes to a minute; the direct intervals of a chronological
  anchor list never overlap, a bridge only covers intervals that were unverified, so every
  minute's five components add up to at most sixty seconds and no cap is ever reached.
\<close>

section \<open>Overlap of an interval with a minute\<close>

definition overlap :: "instant \<Rightarrow> instant \<Rightarrow> instant \<Rightarrow> int" where
  "overlap s e m = max 0 (min e (m + minute) - max s m)"

definition span :: "instant \<Rightarrow> instant \<Rightarrow> instant \<Rightarrow> int" where
  "span s e m = overlap s e m div second"

text \<open>Seconds of minute \<open>m\<close> that have passed at instant \<open>t\<close>.\<close>

definition elapsed :: "instant \<Rightarrow> instant \<Rightarrow> int" where
  "elapsed t m = max 0 (min t (m + minute) - m) div second"

lemma span_nonneg [simp]: "0 \<le> span s e m"
  by (simp add: span_def overlap_def)

lemma elapsed_nonneg [simp]: "0 \<le> elapsed t m"
  by (simp add: elapsed_def)

lemma elapsed_le_60: "elapsed t m \<le> 60"
proof -
  have "max 0 (min t (m + minute) - m) \<le> 60 * second" by simp
  then show ?thesis unfolding elapsed_def by simp
qed

lemma elapsed_mono: "t \<le> u \<Longrightarrow> elapsed t m \<le> elapsed u m"
  unfolding elapsed_def by (rule zdiv_mono1) auto

lemma div_add_le: "(a::int) div n + b div n \<le> (a + b) div n" if "0 < n"
proof -
  have "(a div n + b div n) * n \<le> a + b"
    by (metis add_mono distrib_right mult.commute minus_mod_eq_mult_div
        pos_mod_sign that diff_le_eq le_add_same_cancel1)
  then show ?thesis
    by (metis that zdiv_mono1 nonzero_mult_div_cancel_right less_irrefl)
qed

lemma elapsed_span:
  assumes "t \<le> s" "e \<le> u"  "t \<le> u"
  shows "elapsed t m + span s e m \<le> elapsed u m"
proof -
  have "max 0 (min t (m + minute) - m) + overlap s e m \<le> max 0 (min u (m + minute) - m)"
    using assms by (auto simp: overlap_def)
  then have "(max 0 (min t (m + minute) - m) + overlap s e m) div second \<le> elapsed u m"
    unfolding elapsed_def by (intro zdiv_mono1) auto
  then show ?thesis
    unfolding elapsed_def span_def using div_add_le [of second] by (smt (verit))
qed

section \<open>Splitting an interval into minutes\<close>

definition on_minute :: "instant \<Rightarrow> bool" where
  "on_minute m \<longleftrightarrow> m mod minute = 0"

lemma on_minute_floor [simp]: "on_minute (minute_floor t)"
  by (simp add: on_minute_def minute_floor_def minus_mod_eq_div_mult)

lemma minute_floor_bounds: "minute_floor t \<le> t" "t < minute_floor t + minute"
  by (simp_all add: minute_floor_def)

text \<open>Two different minutes are at least a minute apart.\<close>

lemma on_minute_apart: "on_minute m \<Longrightarrow> on_minute k \<Longrightarrow> m < k \<Longrightarrow> m + minute \<le> k"
  unfolding on_minute_def by (auto elim!: dvdE simp: mod_eq_0_iff_dvd)

definition comps :: "estimate_dict \<Rightarrow> instant \<Rightarrow> components" where
  "comps es m = components_of (map_of es m)"

lemma comps_merge_segment:
  "comps (merge_segment es k n d kind) m =
     (if m = k \<and> 0 < n then merge_components (comps es m) kind n else comps es m)"
  by (simp add: comps_def merge_segment_def merged_components_def update_conv' Let_def
      make_estimate_fields)

lemma comps_split_minutes:
  "comps (split_minutes es s e d kind) m =
     (if on_minute m \<and> 0 < span s e m then merge_components (comps es m) kind (span s e m)
      else comps es m)"
proof (induction es s e d kind rule: split_minutes.induct)
  case (1 es s e d kind)
  show ?case
  proof (cases "s < e")
    case False
    then have "span s e m = 0" by (simp add: span_def overlap_def)
    with False show ?thesis by (simp add: split_minutes.simps [of es s e d kind])
  next
    case True
    define k where "k = minute_floor s"
    define u where "u = min e (k + minute)"
    define n where "n = whole_seconds (u - s)"
    note floor = minute_floor_bounds [of s, folded k_def]
    have u: "s < u" "u \<le> e" using True floor by (auto simp: u_def)
    have n: "n = span s e k"
      using u floor by (simp add: n_def u_def whole_seconds_def span_def overlap_def)
    have step: "comps (split_minutes es s e d kind) m =
        (if on_minute m \<and> 0 < span u e m
         then merge_components (comps (merge_segment es k n d kind) m) kind (span u e m)
         else comps (merge_segment es k n d kind) m)"
      using "1.IH" [OF True k_def u_def n_def] True
      by (simp add: split_minutes.simps [of es s e d kind] Let_def k_def u_def n_def)
    show ?thesis
    proof (cases "m = k")
      case True
      have "span u e k = 0" by (auto simp: span_def overlap_def u_def)
      with True step show ?thesis by (simp add: comps_merge_segment n k_def)
    next
      case False
      have "span u e m = span s e m" if "on_minute m"
      proof -
        have "m + minute \<le> k \<or> k + minute \<le> m"
          using False that on_minute_apart on_minute_floor k_def by (metis linorder_less_linear)
        then have "overlap u e m = overlap s e m"
          using floor u by (auto simp: overlap_def u_def)
        then show ?thesis by (simp add: span_def)
      qed
      with False step show ?thesis by (auto simp: comps_merge_segment)
    qed
  qed
qed

section \<open>The direct pass\<close>

fun total :: "components \<Rightarrow> int" where
  "total (ob, br, un, ap, po) = ob + br + un + ap + po"

text \<open>The seconds known to be together, apart or inaccurate: all but the unverified ones.\<close>

fun known :: "components \<Rightarrow> int" where
  "known (ob, br, un, ap, po) = ob + br + ap + po"

fun comps_nonneg :: "components \<Rightarrow> bool" where
  "comps_nonneg (ob, br, un, ap, po) \<longleftrightarrow> 0 \<le> ob \<and> 0 \<le> br \<and> 0 \<le> un \<and> 0 \<le> ap \<and> 0 \<le> po"

fun unverified_of :: "components \<Rightarrow> int" where
  "unverified_of (ob, br, un, ap, po) = un"

abbreviation chronological :: "evidence_anchor list \<Rightarrow> bool" where
  "chronological as \<equiv> sorted_wrt (\<lambda>p c. anchor_recorded_at p < anchor_recorded_at c) as"

text \<open>The seconds of minute \<open>m\<close> that one pair of consecutive anchors covers.\<close>

definition pair_span ::
    "instant option \<Rightarrow> instant option \<Rightarrow> evidence_anchor \<Rightarrow> evidence_anchor \<Rightarrow> instant \<Rightarrow> int" where
  "pair_span cs ce p c m =
     (let (s, e) = clipped (anchor_recorded_at p) (anchor_recorded_at c) cs ce in span s e m)"

lemma pair_span_nonneg [simp]: "0 \<le> pair_span cs ce p c m"
  by (simp add: pair_span_def clipped_def)

lemma elapsed_pair_span:
  assumes "anchor_recorded_at p \<le> anchor_recorded_at c"
  shows "elapsed (anchor_recorded_at p) m + pair_span cs ce p c m \<le> elapsed (anchor_recorded_at c) m"
  using assms by (auto simp: pair_span_def clipped_def intro!: elapsed_span split: option.splits)

lemma pair_span_le_60:
  assumes "anchor_recorded_at p \<le> anchor_recorded_at c"
  shows "pair_span cs ce p c m \<le> 60"
  using elapsed_pair_span [OF assms, of m cs ce] elapsed_le_60 [of "anchor_recorded_at c" m]
    elapsed_nonneg [of "anchor_recorded_at p" m] by linarith

lemma span_empty: "e \<le> s \<Longrightarrow> span s e m = 0"
  by (simp add: span_def overlap_def)

lemma merge_zero:
  assumes "comps_nonneg c" "total c \<le> 60"
  shows "merge_components c kind 0 = c"
  using assms by (cases c; cases kind) auto

lemma comps_add_pair_interval:
  assumes "anchor_recorded_at p < anchor_recorded_at c"
    and "comps_nonneg (comps es m)" "total (comps es m) \<le> 60"
  shows "comps (add_pair_interval es p c cs ce) m =
     (if on_minute m then merge_components (comps es m) (pair_kind p c) (pair_span cs ce p c m)
      else comps es m)"
  using assms merge_zero [OF assms(2,3)]
  by (auto simp: add_pair_interval_def pair_span_def comps_split_minutes span_empty
      not_less less_le split: prod.splits)

lemma comps_add_bridge:
  assumes "comps_nonneg (comps es m)" "total (comps es m) \<le> 60"
  shows "comps (add_bridge es p c cs ce) m =
     (if on_minute m then merge_components (comps es m) Ev_bridged (pair_span cs ce p c m)
      else comps es m)"
  using assms merge_zero [OF assms]
  by (auto simp: add_bridge_def pair_span_def comps_split_minutes span_empty
      not_less less_le split: prod.splits)

text \<open>What one direct interval does to a minute that still has room for it.\<close>

lemma merge_direct:
  assumes "comps_nonneg c" "0 \<le> n" "total c + n \<le> 60" "kind \<noteq> Ev_bridged" "kind \<noteq> Ev_mixed"
  shows "comps_nonneg (merge_components c kind n)"
    and "total (merge_components c kind n) = total c + n"
    and "known (merge_components c kind n) = known c + (if kind = Ev_unverified then 0 else n)"
  using assms by (cases c; cases kind; force)+

lemma pair_kind_direct [simp]: "pair_kind p c \<noteq> Ev_bridged" "pair_kind p c \<noteq> Ev_mixed"
  by (auto simp: pair_kind_def Let_def)

text \<open>Known seconds contributed by the pairs of a list of anchors.\<close>

fun known_span ::
    "instant option \<Rightarrow> instant option \<Rightarrow> instant \<Rightarrow> evidence_anchor list \<Rightarrow> int" where
  "known_span cs ce m (p # c # rest) =
     (if pair_kind p c = Ev_unverified then 0 else pair_span cs ce p c m)
       + known_span cs ce m (c # rest)"
| "known_span cs ce m _ = 0"

lemma known_span_nonneg [simp]: "0 \<le> known_span cs ce m as"
  by (induction cs ce m as rule: known_span.induct) auto

lemma direct_pass:
  assumes "chronological (p # rest)" "on_minute m" "comps_nonneg (comps es m)"
    and "total (comps es m) \<le> elapsed (anchor_recorded_at p) m"
  shows "comps_nonneg (comps (add_pair_intervals es (p # rest) cs ce) m)
    \<and> total (comps (add_pair_intervals es (p # rest) cs ce) m) \<le> 60
    \<and> known (comps (add_pair_intervals es (p # rest) cs ce) m)
        = known (comps es m) + known_span cs ce m (p # rest)"
  using assms
proof (induction rest arbitrary: es p)
  case Nil
  then show ?case using elapsed_le_60 [of "anchor_recorded_at p" m] by simp
next
  case (Cons c rest)
  define es' where "es' = add_pair_interval es p c cs ce"
  define n where "n = pair_span cs ce p c m"
  from Cons.prems(1) have lt: "anchor_recorded_at p < anchor_recorded_at c" by simp
  have step: "elapsed (anchor_recorded_at p) m + n \<le> elapsed (anchor_recorded_at c) m"
    using elapsed_pair_span [of p c] lt by (simp add: n_def)
  then have room: "total (comps es m) + n \<le> 60"
    using Cons.prems(4) elapsed_le_60 [of "anchor_recorded_at c" m] by linarith
  have merged: "comps es' m = merge_components (comps es m) (pair_kind p c) n"
    using comps_add_pair_interval [OF lt Cons.prems(3), of cs ce] Cons.prems(2,4)
      elapsed_le_60 [of "anchor_recorded_at p" m]
    by (simp add: es'_def n_def)
  note m = merge_direct [OF Cons.prems(3) _ room, of "pair_kind p c", folded merged]
  have n: "0 \<le> n" by (simp add: n_def)
  have "total (comps es' m) \<le> elapsed (anchor_recorded_at c) m"
    using m(2) n step Cons.prems(4) by simp
  from Cons.IH [of c es', OF _ Cons.prems(2) m(1) this] Cons.prems(1) n m(3)
  show ?case by (auto simp: es'_def n_def)
qed

section \<open>The bridge pass\<close>

text \<open>Seconds that the confirmed bridges add to minute \<open>m\<close>, along the loop of the code.\<close>

fun bridge_span ::
    "instant option \<Rightarrow> instant option \<Rightarrow> instant \<Rightarrow> evidence_anchor option \<Rightarrow> bool
       \<Rightarrow> evidence_anchor list \<Rightarrow> int" where
  "bridge_span cs ce m last_n blocked [] = 0"
| "bridge_span cs ce m last_n blocked (c # rest) =
     (if anchor_state c = St_apart \<or> anchor_state c = St_poor_accuracy then
        bridge_span cs ce m None True rest
      else if anchor_state c \<noteq> St_nearby then bridge_span cs ce m last_n blocked rest
      else
        (case last_n of
           Some l \<Rightarrow> (if \<not> blocked \<and> is_bridge l c then pair_span cs ce l c m else 0)
         | None \<Rightarrow> 0) + bridge_span cs ce m (Some c) False rest)"

lemma bridge_span_nonneg [simp]: "0 \<le> bridge_span cs ce m last_n blocked as"
  by (induction as arbitrary: last_n blocked) (auto split: option.splits)

lemma merge_bridge:
  assumes "comps_nonneg c" "0 \<le> n" "total c \<le> 60" "known c + n \<le> 60"
  shows "comps_nonneg (merge_components c Ev_bridged n)"
    and "total (merge_components c Ev_bridged n) \<le> 60"
    and "known (merge_components c Ev_bridged n) = known c + n"
  using assms by (cases c; force)+

lemma bridge_pass:
  assumes "on_minute m" "comps_nonneg (comps es m)" "total (comps es m) \<le> 60"
    and "known (comps es m) + bridge_span cs ce m last_n blocked as \<le> 60"
  shows "comps_nonneg (comps (confirmed_bridges es last_n blocked as cs ce) m)
    \<and> total (comps (confirmed_bridges es last_n blocked as cs ce) m) \<le> 60"
  using assms
proof (induction as arbitrary: es last_n blocked)
  case Nil
  then show ?case by simp
next
  case (Cons c rest)
  show ?case
  proof (cases "\<exists>l. anchor_state c = St_nearby \<and> last_n = Some l \<and> \<not> blocked \<and> is_bridge l c")
    case False
    with Cons show ?thesis by (auto split: option.splits)
  next
    case True
    then obtain l where l: "anchor_state c = St_nearby" "last_n = Some l" "\<not> blocked" "is_bridge l c"
      by blast
    define es' where "es' = add_bridge es l c cs ce"
    define n where "n = pair_span cs ce l c m"
    have room: "known (comps es m) + n + bridge_span cs ce m (Some c) False rest \<le> 60"
      using Cons.prems(4) l by (simp add: n_def)
    have merged: "comps es' m = merge_components (comps es m) Ev_bridged n"
      using comps_add_bridge [OF Cons.prems(2,3)] Cons.prems(1) by (simp add: es'_def n_def)
    have "known (comps es m) + n \<le> 60" "0 \<le> n"
      using room bridge_span_nonneg [of cs ce m "Some c" False rest] pair_span_nonneg [of cs ce l c m]
      unfolding n_def by linarith+
    note m = merge_bridge [OF Cons.prems(2) this(2) Cons.prems(3) this(1), folded merged]
    have "comps_nonneg (comps (confirmed_bridges es' (Some c) False rest cs ce) m)
      \<and> total (comps (confirmed_bridges es' (Some c) False rest cs ce) m) \<le> 60"
      using Cons.IH [OF Cons.prems(1) m(1,2), of "Some c" False] m(3) room by simp
    with l show ?thesis by (simp add: es'_def)
  qed
qed

text \<open>
  What the loop of the code keeps true of its variables: the last nearby anchor is the newest
  anchor that is neither apart nor inaccurate, and nothing known lies after it.
\<close>

definition loop_inv :: "evidence_anchor option \<Rightarrow> evidence_anchor \<Rightarrow> bool" where
  "loop_inv last_n p \<longleftrightarrow>
     (case last_n of
        None \<Rightarrow> anchor_state p \<noteq> St_nearby
      | Some l \<Rightarrow> anchor_recorded_at l \<le> anchor_recorded_at p
          \<and> anchor_state p \<noteq> St_apart \<and> anchor_state p \<noteq> St_poor_accuracy
          \<and> (anchor_state p = St_nearby \<longrightarrow> l = p))"

definition covered_to :: "evidence_anchor option \<Rightarrow> evidence_anchor \<Rightarrow> instant" where
  "covered_to last_n p = (case last_n of None \<Rightarrow> anchor_recorded_at p | Some l \<Rightarrow> anchor_recorded_at l)"

lemma loop_step:
  assumes "loop_inv last_n p" "anchor_recorded_at p < anchor_recorded_at c"
    and "x \<le> elapsed (covered_to last_n p) m"
    and "last' = (if anchor_state c = St_apart \<or> anchor_state c = St_poor_accuracy then None
                else if anchor_state c \<noteq> St_nearby then last_n else Some c)"
    and "x' = x + (if pair_kind p c = Ev_unverified then 0 else pair_span cs ce p c m)
           + (if anchor_state c = St_nearby
              then (case last_n of None \<Rightarrow> 0
                    | Some l \<Rightarrow> if is_bridge l c then pair_span cs ce l c m else 0) else 0)"
  shows "loop_inv last' c" and "x' \<le> elapsed (covered_to last' c) m"
proof -
  show "loop_inv last' c"
    using assms(1,2,4) by (auto simp: loop_inv_def split: option.splits)
  have mono: "elapsed (covered_to last_n p) m \<le> elapsed (anchor_recorded_at p) m"
    using assms(1) by (auto simp: covered_to_def loop_inv_def intro: elapsed_mono split: option.splits)
  have pc: "elapsed (anchor_recorded_at p) m + pair_span cs ce p c m
      \<le> elapsed (anchor_recorded_at c) m"
    using assms(2) by (intro elapsed_pair_span) simp
  show "x' \<le> elapsed (covered_to last' c) m"
  proof (cases last_n)
    case None
    then have "covered_to last' c = anchor_recorded_at c"
      using assms(4) by (auto simp: covered_to_def)
    moreover have "x' \<le> x + pair_span cs ce p c m"
      using assms(5) None by simp
    ultimately show ?thesis using pc mono assms(3) by simp
  next
    case (Some l)
    have lc: "elapsed (anchor_recorded_at l) m + pair_span cs ce l c m
        \<le> elapsed (anchor_recorded_at c) m"
      using assms(1,2) Some by (intro elapsed_pair_span) (auto simp: loop_inv_def)
    show ?thesis
      using assms(1-5) Some pc mono lc elapsed_mono [of "anchor_recorded_at p" "anchor_recorded_at c" m]
      by (auto simp: loop_inv_def covered_to_def pair_kind_def is_bridge_def Let_def
          split: if_splits)
  qed
qed

lemma known_and_bridged:
  assumes "chronological (p # rest)" "loop_inv last_n p" "x \<le> elapsed (covered_to last_n p) m"
    and "blocked \<Longrightarrow> last_n = None"
  shows "x + known_span cs ce m (p # rest) + bridge_span cs ce m last_n blocked rest \<le> 60"
  using assms
proof (induction rest arbitrary: p last_n blocked x)
  case Nil
  then show ?case using elapsed_le_60 [of "covered_to last_n p" m] by simp
next
  case (Cons c rest)
  define last' where "last' = (if anchor_state c = St_apart \<or> anchor_state c = St_poor_accuracy then None
                else if anchor_state c \<noteq> St_nearby then last_n else Some c)"
  define blocked' where "blocked' = (if anchor_state c = St_apart \<or> anchor_state c = St_poor_accuracy
                then True else if anchor_state c \<noteq> St_nearby then blocked else False)"
  define x' where "x' = x + (if pair_kind p c = Ev_unverified then 0 else pair_span cs ce p c m)
           + (if anchor_state c = St_nearby
              then (case last_n of None \<Rightarrow> 0
                    | Some l \<Rightarrow> if is_bridge l c then pair_span cs ce l c m else 0) else 0)"
  have lt: "anchor_recorded_at p < anchor_recorded_at c" using Cons.prems(1) by simp
  note s = loop_step [OF Cons.prems(2) lt Cons.prems(3) last'_def x'_def]
  have "x' + known_span cs ce m (c # rest) + bridge_span cs ce m last' blocked' rest \<le> 60"
    using Cons.prems(1,4) by (intro Cons.IH s) (auto simp: last'_def blocked'_def split: if_splits)
  then show ?case
    using Cons.prems(4) by (auto simp: x'_def last'_def blocked'_def split: option.splits if_splits)
qed

end
