(* ===== verification/Location_Timeline.thy ===== *)
theory Location_Timeline
  imports Location_Minutes
begin

text \<open>
  The timeline as a whole: its anchors are strictly chronological, its estimates satisfy every
  check constraint of the table they are stored in and stay inside the clip window, it depends
  on the set of samples only, and the live projection it authorizes is bounded.
\<close>

section \<open>Events and anchors\<close>

lemma distinct_group_one:
  "distinct (map fst grouped) \<Longrightarrow> distinct (map fst (group_one b s grouped))"
  by (auto simp: group_one_def Let_def distinct_update split: option.splits prod.splits)

lemma distinct_group_fold:
  "distinct (map fst grouped) \<Longrightarrow> distinct (map fst (fold (group_one b) ss grouped))"
  by (induction ss arbitrary: grouped) (auto intro: distinct_group_one)

lemma sorted_map_fst_sort_key: "sorted (map fst (sort_key fst xs))"
  by (rule sorted_sort_key)

lemma distinct_map_fst_sort_key:
  "distinct (map fst xs) \<Longrightarrow> distinct (map fst (sort_key fst xs))"
  by (metis distinct_map distinct_sort set_sort)

lemma events_chronological:
  "sorted_wrt (<) (map fst (group_events ls rs))"
proof -
  define g where "g = fold (group_one True) rs (fold (group_one False) ls [])"
  have "distinct (map fst g)"
    by (simp add: g_def distinct_group_fold)
  then have "sorted_wrt (<) (map fst (sort_key fst g))"
    by (simp add: strict_sorted_iff sorted_map_fst_sort_key distinct_map_fst_sort_key)
  moreover have "map fst (group_events ls rs) = map fst (sort_key fst g)"
    by (simp add: group_events_def g_def comp_def case_prod_beta)
  ultimately show ?thesis by simp
qed

lemma anchor_fields [simp]:
  "anchor_recorded_at (anchor t l r threshold) = t"
  "anchor_left (anchor t l r threshold) = l"
  "anchor_right (anchor t l r threshold) = r"
  by (auto simp: anchor_def Let_def split: option.splits)

lemma anchor_times:
  "map anchor_recorded_at (build_anchors threshold l r events) = map fst events"
  by (induction events arbitrary: l r) (auto simp: Let_def)

lemma chronological_iff: "chronological as \<longleftrightarrow> sorted_wrt (<) (map anchor_recorded_at as)"
  by (simp add: sorted_wrt_map)

lemma anchors_chronological:
  "chronological (anchors (build_proximity_timeline ls rs threshold cs ce))"
  unfolding chronological_iff
  by (simp add: build_proximity_timeline_def Let_def anchor_times events_chronological)

section \<open>The estimates of a timeline\<close>

text \<open>
  The check constraints of the \<^verbatim>\<open>together_buckets\<close> table, which receives the estimates.
\<close>

definition together_bucket_check :: "minute_estimate \<Rightarrow> bool" where
  "together_bucket_check e \<longleftrightarrow>
     (0 \<le> duration_seconds e \<and> duration_seconds e \<le> 60)
     \<and> (0 \<le> observed_seconds e \<and> observed_seconds e \<le> 60
        \<and> 0 \<le> bridged_seconds e \<and> bridged_seconds e \<le> 60
        \<and> 0 \<le> unverified_seconds e \<and> unverified_seconds e \<le> 60
        \<and> 0 \<le> apart_seconds e \<and> apart_seconds e \<le> 60
        \<and> 0 \<le> poor_accuracy_seconds e \<and> poor_accuracy_seconds e \<le> 60)
     \<and> duration_seconds e = observed_seconds e + bridged_seconds e
     \<and> observed_seconds e + bridged_seconds e + unverified_seconds e + apart_seconds e
         + poor_accuracy_seconds e \<le> 60"

lemma make_estimate_check:
  "comps_nonneg c \<Longrightarrow> total c \<le> 60 \<Longrightarrow> together_bucket_check (make_estimate m c d)"
  by (cases c) (auto simp: together_bucket_check_def make_estimate.simps)

text \<open>Every entry is a \<^verbatim>\<open>MinuteEstimate\<close> filed under its own minute, inside the window.\<close>

definition in_window :: "instant option \<Rightarrow> instant option \<Rightarrow> instant \<Rightarrow> bool" where
  "in_window cs ce m \<longleftrightarrow>
     (case cs of None \<Rightarrow> True | Some s \<Rightarrow> minute_floor s \<le> m)
     \<and> (case ce of None \<Rightarrow> True | Some e \<Rightarrow> m < e)"

definition is_estimate :: "instant \<Rightarrow> minute_estimate \<Rightarrow> bool" where
  "is_estimate m e \<longleftrightarrow> e = make_estimate m (components_of (Some e)) (estimated_distance_m e)"

lemma is_estimate_make [simp]: "is_estimate m (make_estimate m c d)"
  by (simp add: is_estimate_def make_estimate_fields)

lemma is_estimateD:
  assumes "is_estimate m e"
  shows "bucket_start e = m" and "evidence_kind_of e = component_kind (components_of (Some e))"
  using assms unfolding is_estimate_def by (metis make_estimate_fields(1), metis make_estimate_fields(4,5))

definition dict_ok :: "instant option \<Rightarrow> instant option \<Rightarrow> estimate_dict \<Rightarrow> bool" where
  "dict_ok cs ce es \<longleftrightarrow> distinct (map fst es)
     \<and> (\<forall>m e. map_of es m = Some e \<longrightarrow> on_minute m \<and> in_window cs ce m \<and> is_estimate m e)"

lemma dict_ok_Nil [simp]: "dict_ok cs ce []"
  by (simp add: dict_ok_def)

lemma dict_okD:
  assumes "dict_ok cs ce es" "(m, e) \<in> set es"
  shows "map_of es m = Some e" "on_minute m" "in_window cs ce m" "is_estimate m e"
  using assms by (auto simp: dict_ok_def)

lemma dict_ok_merge_segment:
  "dict_ok cs ce es \<Longrightarrow> on_minute m \<Longrightarrow> in_window cs ce m \<Longrightarrow> dict_ok cs ce (merge_segment es m n d kind)"
  by (auto simp: dict_ok_def merge_segment_def Let_def distinct_update update_conv'
      simp del: map_of_eq_Some_iff split: if_splits)

lemma minute_floor_mono: "s \<le> t \<Longrightarrow> minute_floor s \<le> minute_floor t"
  by (smt (verit) minute_floor_bounds on_minute_apart on_minute_floor)

lemma dict_ok_split_minutes:
  assumes "dict_ok cs ce es"
    and "\<And>s. cs = Some s \<Longrightarrow> s \<le> t" and "\<And>e. ce = Some e \<Longrightarrow> u \<le> e"
  shows "dict_ok cs ce (split_minutes es t u d kind)"
  using assms
proof (induction es t u d kind rule: split_minutes.induct)
  case (1 es t u d kind)
  note floor = minute_floor_bounds [of t]
  show ?case
  proof (cases "t < u")
    case False
    with "1.prems" show ?thesis by (simp add: split_minutes.simps [of es t u d kind])
  next
    case True
    have "in_window cs ce (minute_floor t)"
      using "1.prems"(2,3) True floor minute_floor_mono
      by (fastforce simp: in_window_def split: option.splits)
    with True show ?thesis
      using floor "1.prems"
      by (subst split_minutes.simps) (auto simp: Let_def intro!: "1.IH" dict_ok_merge_segment)
  qed
qed

lemma clipped_in: "clipped t u cs ce = (s, e) \<Longrightarrow> (\<forall>c. cs = Some c \<longrightarrow> c \<le> s) \<and> (\<forall>c. ce = Some c \<longrightarrow> e \<le> c)"
  by (auto simp: clipped_def)

lemma dict_ok_add_pair_interval:
  "dict_ok cs ce es \<Longrightarrow> dict_ok cs ce (add_pair_interval es p c cs ce)"
  by (auto simp: add_pair_interval_def dest: clipped_in intro!: dict_ok_split_minutes split: prod.splits)

lemma dict_ok_add_bridge: "dict_ok cs ce es \<Longrightarrow> dict_ok cs ce (add_bridge es p c cs ce)"
  by (auto simp: add_bridge_def dest: clipped_in intro!: dict_ok_split_minutes split: prod.splits)

lemma dict_ok_add_pair_intervals:
  "dict_ok cs ce es \<Longrightarrow> dict_ok cs ce (add_pair_intervals es as cs ce)"
  by (induction es as cs ce rule: add_pair_intervals.induct) (auto intro: dict_ok_add_pair_interval)

lemma dict_ok_confirmed_bridges:
  "dict_ok cs ce es \<Longrightarrow> dict_ok cs ce (confirmed_bridges es last_n blocked as cs ce)"
  by (induction as arbitrary: es last_n blocked)
    (auto simp: Let_def intro: dict_ok_add_bridge split: option.splits)

text \<open>The accounting of both passes together.\<close>

lemma passes_within_minute:
  assumes "chronological as" "on_minute m"
  shows "comps_nonneg (comps (add_confirmed_bridges (add_pair_intervals [] as cs ce) as cs ce) m)
    \<and> total (comps (add_confirmed_bridges (add_pair_intervals [] as cs ce) as cs ce) m) \<le> 60"
proof (cases as)
  case Nil
  then show ?thesis by (simp add: add_confirmed_bridges_def comps_def components_of_def)
next
  case (Cons p rest)
  have empty: "comps [] m = (0, 0, 0, 0, 0)" by (simp add: comps_def components_of_def)
  define es where "es = add_pair_intervals [] as cs ce"
  have direct: "comps_nonneg (comps es m) \<and> total (comps es m) \<le> 60
      \<and> known (comps es m) = known_span cs ce m as"
    using direct_pass [of p rest m "[]" cs ce] assms by (simp add: Cons es_def empty)
  have "known_span cs ce m as + bridge_span cs ce m None False as \<le> 60"
  proof (cases "anchor_state p = St_nearby")
    case True
    then show ?thesis
      using known_and_bridged [of p rest "Some p" 0 m False cs ce] assms(1)
      by (simp add: Cons loop_inv_def)
  next
    case False
    then show ?thesis
      using known_and_bridged [of p rest None 0 m "anchor_state p = St_apart \<or> anchor_state p = St_poor_accuracy" cs ce]
        assms(1) by (auto simp: Cons loop_inv_def split: if_splits)
  qed
  then show ?thesis
    unfolding add_confirmed_bridges_def es_def [symmetric]
    using direct by (intro bridge_pass assms(2)) auto
qed

lemma timeline_estimates_ok:
  assumes "e \<in> set (estimates (build_proximity_timeline ls rs threshold cs ce))"
  shows "together_bucket_check e" and "on_minute (bucket_start e)"
    and "in_window cs ce (bucket_start e)"
    and "evidence_kind_of e = component_kind (components_of (Some e))"
proof -
  define as where "as = anchors (build_proximity_timeline ls rs threshold cs ce)"
  define es where "es = add_confirmed_bridges (add_pair_intervals [] as cs ce) as cs ce"
  have ok: "dict_ok cs ce es"
    by (simp add: es_def add_confirmed_bridges_def dict_ok_confirmed_bridges
        dict_ok_add_pair_intervals)
  from assms obtain m where "(m, e) \<in> set es"
    by (auto simp: build_proximity_timeline_def es_def as_def Let_def)
  note e = dict_okD [OF ok this]
  have "comps es m = components_of (Some e)" by (simp add: comps_def e(1))
  then have "comps_nonneg (components_of (Some e))" "total (components_of (Some e)) \<le> 60"
    using passes_within_minute [OF _ e(2), of as cs ce] anchors_chronological
    by (auto simp: es_def as_def)
  then show "together_bucket_check e"
    using e(4) make_estimate_check unfolding is_estimate_def by metis
  show "on_minute (bucket_start e)" "in_window cs ce (bucket_start e)"
    using e(2,3) is_estimateD(1) [OF e(4)] by simp_all
  show "evidence_kind_of e = component_kind (components_of (Some e))"
    by (rule is_estimateD(2) [OF e(4)])
qed

lemma timeline_buckets_distinct:
  "sorted_wrt (<) (map bucket_start (estimates (build_proximity_timeline ls rs threshold cs ce)))"
proof -
  define as where "as = anchors (build_proximity_timeline ls rs threshold cs ce)"
  define es where "es = add_confirmed_bridges (add_pair_intervals [] as cs ce) as cs ce"
  have ok: "dict_ok cs ce es"
    by (simp add: es_def add_confirmed_bridges_def dict_ok_confirmed_bridges
        dict_ok_add_pair_intervals)
  have "\<forall>x \<in> set (sort_key fst es). bucket_start (snd x) = fst x"
    using dict_okD(4) [OF ok] is_estimateD(1) by auto
  then have "map bucket_start (map snd (sort_key fst es)) = map fst (sort_key fst es)"
    by simp
  moreover have "sorted_wrt (<) (map fst (sort_key fst es))"
    using ok by (simp add: dict_ok_def strict_sorted_iff distinct_map_fst_sort_key)
  moreover have "estimates (build_proximity_timeline ls rs threshold cs ce) = map snd (sort_key fst es)"
    by (simp add: build_proximity_timeline_def es_def as_def Let_def)
  ultimately show ?thesis by (simp only:)
qed

section \<open>Retries and order of arrival do not matter\<close>

lemma keep_first_distinct:
  "distinct (map fst unique) \<Longrightarrow> distinct (map fst (keep_first items unique))"
  by (induction items arbitrary: unique) (auto intro: distinct_setdefault)

lemma keep_first_keys:
  "(\<forall>(k, v) \<in> set unique. sample_id v = k)
    \<Longrightarrow> (\<forall>(k, v) \<in> set (keep_first items unique). sample_id v = k)"
proof (induction items arbitrary: unique)
  case Nil
  then show ?case by simp
next
  case (Cons item items)
  have "\<forall>(k, v) \<in> set (setdefault (sample_id item) item unique). sample_id v = k"
    using Cons.prems by (auto simp: setdefault_def)
  then show ?case by (simp add: Cons.IH)
qed

text \<open>The dictionary holds the first sample of each id in the order of the list.\<close>

lemma map_of_keep_first:
  "map_of (keep_first items unique) k =
     (case map_of unique k of Some v \<Rightarrow> Some v | None \<Rightarrow> find (\<lambda>v. sample_id v = k) items)"
  by (induction items arbitrary: unique) (auto simp: map_of_setdefault split: option.splits)

text \<open>Samples a couple's phone uploads: the key (instant, id) determines the sample.\<close>

abbreviation keyed :: "timed_point list \<Rightarrow> bool" where
  "keyed samples \<equiv> inj_on sample_key (set samples)"

text \<open>The samples kept: of every id, the one with the least key.\<close>

definition least_of_id :: "timed_point set \<Rightarrow> timed_point set" where
  "least_of_id A = {v \<in> A. \<forall>w \<in> A. sample_id w = sample_id v \<longrightarrow> sample_key v \<le> sample_key w}"

lemma find_sorted:
  assumes "sorted (map key xs)" "find p xs = Some v"
  shows "v \<in> set xs" "p v" "\<And>w. w \<in> set xs \<Longrightarrow> p w \<Longrightarrow> key v \<le> key w"
  using assms by (induction xs) (auto split: if_splits)

lemma set_deduplicate:
  assumes "keyed samples"
  shows "set (deduplicate samples) = least_of_id (set samples)"
proof -
  define xs where "xs = sort_key sample_key samples"
  define d where "d = keep_first xs []"
  have xs: "set xs = set samples" "sorted (map sample_key xs)"
    by (simp_all add: xs_def)
  have keys: "\<forall>(k, v) \<in> set d. sample_id v = k"
    unfolding d_def by (rule keep_first_keys) simp
  have "distinct (map fst d)" by (simp add: d_def keep_first_distinct)
  then have d: "(k, v) \<in> set d \<longleftrightarrow> find (\<lambda>w. sample_id w = k) xs = Some v" for k v
    by (simp add: d_def map_of_keep_first flip: map_of_eq_Some_iff)
  have "v \<in> set (map snd d) \<longleftrightarrow> v \<in> least_of_id (set samples)" for v
  proof
    assume "v \<in> set (map snd d)"
    then have "find (\<lambda>w. sample_id w = sample_id v) xs = Some v"
      using keys d by fastforce
    from find_sorted [OF xs(2) this] show "v \<in> least_of_id (set samples)"
      by (simp add: least_of_id_def xs(1))
  next
    assume v: "v \<in> least_of_id (set samples)"
    then have "v \<in> set xs" by (simp add: least_of_id_def xs(1))
    then obtain w where w: "find (\<lambda>w. sample_id w = sample_id v) xs = Some w"
      by (metis (mono_tags, lifting) find_None_iff not_None_eq)
    note w' = find_sorted [OF xs(2) w]
    have "sample_key w = sample_key v"
      using v w'(1,2) w'(3) [OF \<open>v \<in> set xs\<close>] by (auto simp: least_of_id_def xs(1) intro: antisym)
    then have "w = v"
      using assms w'(1) \<open>v \<in> set xs\<close> by (auto simp: xs(1) dest: inj_onD)
    with w d show "v \<in> set (map snd d)" by force
  qed
  then show ?thesis by (auto simp: deduplicate_def d_def xs_def)
qed

lemma sample_ids_deduplicate: "distinct (map sample_id (deduplicate samples))"
proof -
  define d where "d = keep_first (sort_key sample_key samples) []"
  have "\<forall>(k, v) \<in> set d. sample_id v = k"
    unfolding d_def by (rule keep_first_keys) simp
  then have "map sample_id (map snd d) = map fst d" by auto
  moreover have "distinct (map fst d)" by (simp add: d_def keep_first_distinct)
  ultimately have ids: "distinct (map sample_id (map snd d))" by (simp only:)
  then have "distinct (map snd d)" "inj_on sample_id (set (map snd d))"
    unfolding distinct_map [of sample_id] by auto
  then show ?thesis
    unfolding deduplicate_def d_def [symmetric] distinct_map [of sample_id]
    by (simp add: distinct_sort)
qed

lemma deduplicate_cong:
  assumes "set xs = set ys" "keyed xs"
  shows "deduplicate xs = deduplicate ys"
proof -
  have sets: "set (deduplicate xs) = set (deduplicate ys)"
    using set_deduplicate assms by metis
  have "inj_on sample_key (set (deduplicate xs))"
    using assms(2) by (rule inj_on_subset) (auto simp: set_deduplicate [OF assms(2)] least_of_id_def)
  moreover have "sorted (map sample_key (deduplicate zs))" for zs
    by (simp add: deduplicate_def)
  moreover have "distinct (deduplicate zs)" for zs
    using sample_ids_deduplicate by (metis distinct_map)
  ultimately show ?thesis
    by (intro map_sorted_distinct_set_unique [where f = sample_key])
      (auto simp: sets distinct_map inj_on_subset)
qed

end
