(* ===== verification/Proximity.thy ===== *)
theory Proximity
  imports Location_Timeline
begin

text \<open>
  Properties of \<^verbatim>\<open>domain/location.py\<close>: the great-circle distance is defined and
  bounded, proximity decisions are symmetric and never contradictory, a timeline depends on
  the set of samples only and satisfies the constraints of the table that stores it, and the
  live projection is authorized by two phones and bounded by five minutes.
\<close>

section \<open>Distance\<close>

definition on_earth :: "point \<Rightarrow> bool" where
  "on_earth p \<longleftrightarrow> \<bar>latitude p\<bar> \<le> 90"

lemma cos_latitude_nonneg: "on_earth p \<Longrightarrow> 0 \<le> cos (radians (latitude p))"
proof -
  assume "on_earth p"
  then have "latitude p \<le> 90" "- 90 \<le> latitude p"
    by (auto simp: on_earth_def abs_le_iff)
  then have "latitude p * pi \<le> 90 * pi" "- 90 * pi \<le> latitude p * pi"
    by (intro mult_right_mono; simp)+
  then show ?thesis
    unfolding radians_def by (intro cos_ge_zero) auto
qed

text \<open>The product of the cosines is at most the squared cosine of half the difference.\<close>

lemma cos_product_le: "cos a * cos b \<le> cos ((b - a) / 2) ^ 2" for a b :: real
proof -
  have "cos a * cos b = (cos (a - b) + cos (a + b)) / 2" by (rule cos_times_cos)
  also have "\<dots> \<le> (cos (a - b) + 1) / 2" by simp
  also have "cos (a - b) = cos (2 * ((b - a) / 2))"
    using cos_minus [of "b - a"] by (simp only: minus_diff_eq nonzero_mult_div_cancel_left
      times_divide_eq_right)
  also have "\<dots> = 2 * cos ((b - a) / 2) ^ 2 - 1"
    by (rule cos_double_cos)
  finally show ?thesis by simp
qed

lemma haversine_value_range:
  assumes "on_earth l" "on_earth r"
  shows "0 \<le> haversine_value l r" and "haversine_value l r \<le> 1"
proof -
  define a b where "a = radians (latitude l)" and "b = radians (latitude r)"
  define s where "s = sin (radians (longitude r - longitude l) / 2)"
  have v: "haversine_value l r = sin ((b - a) / 2) ^ 2 + cos a * cos b * s ^ 2"
    by (simp add: haversine_value_def Let_def a_def b_def s_def)
  have nonneg: "0 \<le> cos a * cos b"
    using assms cos_latitude_nonneg by (simp add: a_def b_def)
  then show "0 \<le> haversine_value l r" by (simp add: v)
  have "s ^ 2 \<le> 1" by (simp add: s_def abs_square_le_1)
  then have "cos a * cos b * s ^ 2 \<le> cos a * cos b"
    using nonneg mult_left_mono [of "s ^ 2" 1 "cos a * cos b"] by simp
  then have "haversine_value l r \<le> sin ((b - a) / 2) ^ 2 + cos ((b - a) / 2) ^ 2"
    using cos_product_le [of a b] unfolding v by linarith
  then show "haversine_value l r \<le> 1" by simp
qed

lemma haversine_value_sym: "haversine_value l r = haversine_value r l"
proof -
  have "sin ((x - y) / 2) ^ 2 = sin ((y - x) / 2) ^ 2" for x y :: real
    using sin_minus [of "(y - x) / 2"] by (simp add: minus_divide_left)
  moreover have "radians (x - y) = radians x - radians y" for x y
    by (simp add: radians_def field_simps)
  ultimately show ?thesis by (simp add: haversine_value_def Let_def mult.commute)
qed

lemma haversine_sym: "haversine_m l r = haversine_m r l"
  by (simp add: haversine_m_def haversine_value_sym)

lemma haversine_bounds:
  assumes "on_earth l" "on_earth r"
  shows "0 \<le> haversine_m l r" and "haversine_m l r \<le> EARTH_RADIUS_M * pi"
proof -
  note v = haversine_value_range [OF assms]
  have s: "0 \<le> sqrt (haversine_value l r)" "sqrt (haversine_value l r) \<le> 1"
    using v by (auto intro: real_le_lsqrt)
  then have "0 \<le> arcsin (sqrt (haversine_value l r))"
    using arcsin_le_arcsin [of 0 "sqrt (haversine_value l r)"] by simp
  moreover have "arcsin (sqrt (haversine_value l r)) \<le> pi / 2"
    using s by (intro arcsin_ubound) linarith+
  ultimately show "0 \<le> haversine_m l r" "haversine_m l r \<le> EARTH_RADIUS_M * pi"
    by (simp_all add: haversine_m_def EARTH_RADIUS_M_def)
qed

lemma haversine_self: "haversine_m p p = 0"
  by (simp add: haversine_m_def haversine_value_def radians_def Let_def)

text \<open>
  On valid latitudes the haversine argument never leaves the domain of asin, so the
  distance is defined; it is symmetric, zero for one point, and at most half the equator.
\<close>

theorem haversine_well_defined:
  assumes "\<bar>latitude l\<bar> \<le> 90" "\<bar>latitude r\<bar> \<le> 90"
  shows "0 \<le> haversine_value l r \<and> haversine_value l r \<le> 1
    \<and> 0 \<le> haversine_m l r \<and> haversine_m l r \<le> EARTH_RADIUS_M * pi
    \<and> haversine_m l r = haversine_m r l \<and> haversine_m l l = 0"
  using assms haversine_value_range [of l r] haversine_bounds [of l r]
  by (simp add: on_earth_def haversine_self haversine_sym)

definition north_pole :: point where
  "north_pole = \<lparr>latitude = 90, longitude = 0, accuracy_m = 10\<rparr>"
definition south_pole :: point where
  "south_pole = \<lparr>latitude = -90, longitude = 0, accuracy_m = 10\<rparr>"

lemma pole_value: "haversine_value north_pole south_pole = 1"
proof -
  have "radians (-90) - radians 90 = - pi" by (simp add: radians_def)
  then show ?thesis by (simp add: haversine_value_def Let_def north_pole_def south_pole_def radians_def)
qed

theorem haversine_well_defined_witness:
  "haversine_value north_pole south_pole = 1
    \<and> haversine_m north_pole south_pole = EARTH_RADIUS_M * pi
    \<and> haversine_m north_pole south_pole = haversine_m south_pole north_pole"
proof -
  have "haversine_m north_pole south_pole = EARTH_RADIUS_M * pi"
    by (simp add: haversine_m_def pole_value)
  moreover have "\<bar>latitude north_pole\<bar> \<le> 90" "\<bar>latitude south_pole\<bar> \<le> 90"
    by (simp_all add: north_pole_def south_pole_def)
  ultimately show ?thesis
    using haversine_well_defined [of north_pole south_pole] pole_value by simp
qed

section \<open>Proximity decisions\<close>

lemma decide_proximity_sym: "decide_proximity l r threshold = decide_proximity r l threshold"
  unfolding decide_proximity_def Let_def haversine_sym [of l r]
  by (simp add: add.commute max.commute)

text \<open>
  A proximity decision is symmetric in the two phones, its bounds enclose the measured
  distance, and a pair is never counted together and certainly apart at once; certainty that
  both are inside the threshold always counts.
\<close>

theorem proximity_consistent:
  assumes "0 \<le> accuracy_m l" "0 \<le> accuracy_m r" "\<bar>latitude l\<bar> \<le> 90" "\<bar>latitude r\<bar> \<le> 90"
  shows "decide_proximity l r threshold = decide_proximity r l threshold
      \<and> minimum_distance_m (decide_proximity l r threshold)
        \<le> measured_distance_m (decide_proximity l r threshold)
      \<and> measured_distance_m (decide_proximity l r threshold)
        \<le> maximum_distance_m (decide_proximity l r threshold)
      \<and> (together (decide_proximity l r threshold)
          \<longrightarrow> \<not> threshold < minimum_distance_m (decide_proximity l r threshold))
      \<and> (maximum_distance_m (decide_proximity l r threshold) \<le> threshold
          \<longrightarrow> together (decide_proximity l r threshold)
            \<and> \<not> uncertain (decide_proximity l r threshold))"
proof -
  have "0 \<le> haversine_m l r"
    using assms haversine_bounds by (simp add: on_earth_def)
  with assms show ?thesis
    by (intro conjI decide_proximity_sym) (auto simp: decide_proximity_def Let_def)
qed

text \<open>Two phones at one place, 40 and 70 metres accurate.\<close>

definition home_a :: point where
  "home_a = \<lparr>latitude = 45, longitude = 9, accuracy_m = 40\<rparr>"
definition home_b :: point where
  "home_b = \<lparr>latitude = 45, longitude = 9, accuracy_m = 70\<rparr>"

lemma haversine_home [simp]: "haversine_m home_a home_b = 0" "haversine_m home_b home_a = 0"
  by (simp_all add: haversine_m_def haversine_value_def radians_def Let_def home_a_def home_b_def)

theorem proximity_consistent_witness:
  "decide_proximity home_a home_b 100 = decide_proximity home_b home_a 100
    \<and> minimum_distance_m (decide_proximity home_a home_b 100) = 0
    \<and> maximum_distance_m (decide_proximity home_a home_b 100) = 110
    \<and> together (decide_proximity home_a home_b 100)"
proof -
  have fields: "accuracy_m home_a = 40" "accuracy_m home_b = 70"
    "\<bar>latitude home_a\<bar> \<le> 90" "\<bar>latitude home_b\<bar> \<le> 90"
    by (simp_all add: home_a_def home_b_def)
  then have "minimum_distance_m (decide_proximity home_a home_b 100) = 0"
    "maximum_distance_m (decide_proximity home_a home_b 100) = 110"
    "together (decide_proximity home_a home_b 100)"
    by (simp_all add: decide_proximity_def)
  then show ?thesis
    using proximity_consistent [of home_a home_b 100] fields by simp
qed

section \<open>Timelines\<close>

text \<open>
  C37 Every minute estimate of every timeline satisfies the check constraints of the
  \<^verbatim>\<open>together_buckets\<close> table: the five components are non-negative and never
  add up to more than sixty seconds, the counted duration is exactly observed plus bridged
  time, and the minute lies inside the clip window. No second is counted twice.
\<close>

theorem timeline_satisfies_bucket_checks:
  "sorted_wrt (<) (map bucket_start (estimates (build_proximity_timeline ls rs threshold cs ce)))
   \<and> (\<forall>e \<in> set (estimates (build_proximity_timeline ls rs threshold cs ce)).
        together_bucket_check e \<and> bucket_start e mod minute = 0
        \<and> (\<forall>s. cs = Some s \<longrightarrow> minute_floor s \<le> bucket_start e)
        \<and> (\<forall>u. ce = Some u \<longrightarrow> bucket_start e < u)
        \<and> evidence_kind_of e = component_kind (components_of (Some e)))"
  using timeline_buckets_distinct [of ls rs threshold cs ce]
    timeline_estimates_ok [of _ ls rs threshold cs ce]
  by (auto simp: in_window_def on_minute_def)

text \<open>Two phones together at home, reporting at 0 and at 90 seconds.\<close>

definition demo_sample :: "string \<Rightarrow> instant \<Rightarrow> point \<Rightarrow> timed_point" where
  "demo_sample i t p = \<lparr>sample_id = i, recorded_at = t, tp_point = p\<rparr>"

lemma demo_sample_fields [simp]:
  "sample_id (demo_sample i t p) = i" "recorded_at (demo_sample i t p) = t"
  "tp_point (demo_sample i t p) = p"
  by (simp_all add: demo_sample_def)

definition demo_left :: "timed_point list" where
  "demo_left = [demo_sample ''b'' 90000000 home_a, demo_sample ''a'' 0 home_a]"
definition demo_right :: "timed_point list" where
  "demo_right = [demo_sample ''c'' 0 home_b, demo_sample ''d'' 90000000 home_b]"

lemma together_home [simp]: "together (decide_proximity home_a home_b 100)"
  by (simp add: decide_proximity_def) (simp add: home_a_def home_b_def)

definition demo_anchors :: "evidence_anchor list" where
  "demo_anchors =
     [anchor 0 (Some (demo_sample ''a'' 0 home_a)) (Some (demo_sample ''c'' 0 home_b)) 100,
      anchor 90000000 (Some (demo_sample ''b'' 90000000 home_a))
        (Some (demo_sample ''d'' 90000000 home_b)) 100]"

lemma build_demo:
  "build_anchors 100 None None (group_events (deduplicate demo_left) (deduplicate demo_right))
   = demo_anchors"
proof -
  have dedup: "deduplicate demo_left = rev demo_left" "deduplicate demo_right = demo_right"
    by (simp_all add: deduplicate_def demo_left_def demo_right_def sample_key_def setdefault_def)
  show ?thesis
    by (simp only: dedup)
      (simp add: group_events_def demo_left_def demo_right_def group_one_def best_def
        demo_anchors_def)
qed

lemma demo_states [simp]:
  "anchor_state (anchor t (Some (demo_sample i t home_a)) (Some (demo_sample j t home_b)) 100)
     = St_nearby"
  by (simp add: anchor_def interval_defs)

lemma demo_split:
  "split_minutes [] 0 90000000 d Ev_observed =
     [(0, make_estimate 0 (60, 0, 0, 0, 0) (merged_distance None d)),
      (60000000, make_estimate 60000000 (30, 0, 0, 0, 0) (merged_distance None d))]"
  by (simp add: split_minutes_done split_minutes_step minute_floor_def whole_seconds_def
      merge_segment_def merged_components_def components_of_def Let_def make_estimate_fields)

lemma demo_passes:
  "add_confirmed_bridges (add_pair_intervals [] demo_anchors None None) demo_anchors None None
   = split_minutes [] 0 90000000 (interval_distance (demo_anchors ! 0) (demo_anchors ! 1)) Ev_observed"
  by (simp add: demo_anchors_def add_pair_interval_def clipped_def pair_kind_def interval_defs
      add_confirmed_bridges_def is_bridge_def)

lemma demo_timeline:
  "map (\<lambda>e. (bucket_start e, duration_seconds e))
     (estimates (build_proximity_timeline demo_left demo_right 100 None None))
   = [(0, 60), (minute, 30)]"
  unfolding build_proximity_timeline_def Let_def build_demo demo_passes demo_split
  by (simp add: make_estimate_fields)

theorem timeline_satisfies_bucket_checks_witness:
  "\<exists>e \<in> set (estimates (build_proximity_timeline demo_left demo_right 100 None None)).
     together_bucket_check e \<and> bucket_start e = minute \<and> duration_seconds e = 30"
proof -
  have "(minute, 30) \<in> set (map (\<lambda>e. (bucket_start e, duration_seconds e))
      (estimates (build_proximity_timeline demo_left demo_right 100 None None)))"
    unfolding demo_timeline by simp
  then show ?thesis
    using timeline_satisfies_bucket_checks [of demo_left demo_right 100 None None] by auto
qed

text \<open>
  C38 A timeline depends only on the set of samples of each phone: duplicated uploads and any
  order of arrival give the same anchors and the same minutes, provided an instant and a
  sample id determine the sample.
\<close>

theorem timeline_order_insensitive:
  assumes "set ls = set ls'" "set rs = set rs'"
    and "inj_on sample_key (set ls)" "inj_on sample_key (set rs)"
  shows "build_proximity_timeline ls rs threshold cs ce
       = build_proximity_timeline ls' rs' threshold cs ce"
  using deduplicate_cong [OF assms(1,3)] deduplicate_cong [OF assms(2,4)]
  by (simp add: build_proximity_timeline_def)

theorem timeline_order_insensitive_witness:
  "build_proximity_timeline (rev demo_left @ demo_left) demo_right 100 None None
   = build_proximity_timeline demo_left demo_right 100 None None"
  by (rule timeline_order_insensitive)
    (auto simp: demo_left_def demo_right_def sample_key_def inj_on_def)

section \<open>Live projection\<close>

definition samples_by :: "instant \<Rightarrow> timed_point option \<Rightarrow> bool" where
  "samples_by t s \<longleftrightarrow> (\<forall>v. s = Some v \<longrightarrow> recorded_at v \<le> t)"

definition groups_ok :: "(instant \<times> sides) list \<Rightarrow> bool" where
  "groups_ok g \<longleftrightarrow> (\<forall>(k, a, b) \<in> set g. \<forall>v \<in> set a \<union> set b. recorded_at v = k)"

lemma groups_ok_update:
  "groups_ok g \<Longrightarrow> (\<forall>v \<in> set a \<union> set b. recorded_at v = k)
    \<Longrightarrow> groups_ok (AList.update k (a, b) g)"
  by (induction g) (auto simp: groups_ok_def split: if_splits)

lemma groups_ok_group_one: "groups_ok g \<Longrightarrow> groups_ok (group_one right s g)"
proof -
  assume g: "groups_ok g"
  obtain a b where ab: "(case map_of g (recorded_at s) of None \<Rightarrow> ([], []) | Some v \<Rightarrow> v) = (a, b)"
    by (meson surj_pair)
  then have "\<forall>v \<in> set a \<union> set b. recorded_at v = recorded_at s"
    using g by (auto simp: groups_ok_def split: option.splits dest!: map_of_SomeD)
  then show ?thesis
    using g by (simp add: group_one_def ab Let_def groups_ok_update)
qed

lemma groups_ok_fold: "groups_ok g \<Longrightarrow> groups_ok (fold (group_one right) ss g)"
  by (induction ss arbitrary: g) (auto intro: groups_ok_group_one)

lemma best_mem: "best ss = Some v \<Longrightarrow> v \<in> set ss"
  using arg_min_list_in by (fastforce simp: best_def split: if_splits)

lemma events_fresh:
  assumes "(t, a, b) \<in> set (group_events ls rs)"
  shows "samples_by t a" "samples_by t b"
proof -
  define g where "g = fold (group_one True) rs (fold (group_one False) ls [])"
  have "groups_ok g" unfolding g_def by (intro groups_ok_fold) (simp add: groups_ok_def)
  moreover from assms obtain xs ys where "(t, xs, ys) \<in> set g" "a = best xs" "b = best ys"
    by (auto simp: group_events_def g_def)
  ultimately show "samples_by t a" "samples_by t b"
    by (auto simp: samples_by_def groups_ok_def dest!: best_mem)
qed

lemma samples_by_mono: "samples_by t s \<Longrightarrow> t \<le> u \<Longrightarrow> samples_by u s"
  by (auto simp: samples_by_def)

lemma samples_by_newer: "samples_by t s \<Longrightarrow> samples_by t r \<Longrightarrow> samples_by t (newer s r)"
  by (cases s) (auto simp: samples_by_def)

lemma anchors_fresh:
  assumes "sorted_wrt (<) (map fst events)" "\<forall>(t, a, b) \<in> set events. samples_by t a \<and> samples_by t b"
    and "\<forall>t \<in> fst ` set events. samples_by t l \<and> samples_by t r"
    and "c \<in> set (build_anchors threshold l r events)"
  shows "samples_by (anchor_recorded_at c) (anchor_left c)
    \<and> samples_by (anchor_recorded_at c) (anchor_right c)"
  using assms
proof (induction events arbitrary: l r)
  case Nil
  then show ?case by simp
next
  case (Cons e events)
  obtain t a b where e: "e = (t, a, b)" by (cases e)
  have now: "samples_by t (newer a l)" "samples_by t (newer b r)"
    using Cons.prems(2,3) by (auto simp: e intro: samples_by_newer)
  then have later: "\<forall>u \<in> fst ` set events. samples_by u (newer a l) \<and> samples_by u (newer b r)"
    using Cons.prems(1) by (force simp: e intro: samples_by_mono)
  from Cons.prems(4) consider "c = anchor t (newer a l) (newer b r) threshold"
    | "c \<in> set (build_anchors threshold (newer a l) (newer b r) events)"
    by (auto simp: e Let_def)
  then show ?case
  proof cases
    case 1
    with now show ?thesis by simp
  next
    case 2
    with Cons.prems(1,2) later show ?thesis
      by (intro Cons.IH) (auto simp: e)
  qed
qed

lemma timeline_mutual_evidence:
  assumes "c \<in> set (anchors (build_proximity_timeline ls rs threshold cs ce))"
    and "mutual_evidence c = Some u"
  shows "u \<le> anchor_recorded_at c"
proof -
  have "samples_by (anchor_recorded_at c) (anchor_left c)"
    using assms(1) events_fresh events_chronological
    by (intro conjunct1 [OF anchors_fresh [where l = None and r = None]])
      (fastforce simp: build_proximity_timeline_def Let_def samples_by_def)+
  then show ?thesis
    using assms(2) by (auto simp: mutual_evidence_def samples_by_def min_def split: option.splits)
qed

text \<open>
  The live counter ticks only when sharing is on and the last two anchors, at most five
  minutes apart, were both nearby; it stops at the deadline, five minutes after the older of
  the two phones' samples, and never shows more than 300 provisional seconds.
\<close>

theorem live_projection_bounded:
  assumes "p = project_live (build_proximity_timeline ls rs threshold cs ce) now sharing_enabled"
  shows "0 \<le> provisional_seconds p \<and> provisional_seconds p \<le> 300
    \<and> (projection_state p \<noteq> Ct_nearby \<longrightarrow> provisional_seconds p = 0 \<and> live_until p = None)
    \<and> (projection_state p = Ct_nearby \<longrightarrow> sharing_enabled
        \<and> (\<exists>prev cur rest mutual_at.
              rev (anchors (build_proximity_timeline ls rs threshold cs ce)) = cur # prev # rest
            \<and> anchor_state prev = St_nearby \<and> anchor_state cur = St_nearby
            \<and> anchor_recorded_at cur - anchor_recorded_at prev \<le> MAX_COUNTED_INTERVAL
            \<and> mutual_evidence cur = Some mutual_at
            \<and> live_until p = Some (mutual_at + MAX_MUTUAL_EVIDENCE_AGE)
            \<and> now < mutual_at + MAX_MUTUAL_EVIDENCE_AGE
            \<and> anchor_recorded_at cur + provisional_seconds p * second \<le> now))"
proof -
  define tl where "tl = build_proximity_timeline ls rs threshold cs ce"
  have bound: "\<forall>cur \<in> set (rev (anchors tl)). \<forall>u. mutual_evidence cur = Some u
      \<longrightarrow> u \<le> anchor_recorded_at cur"
    using timeline_mutual_evidence by (simp add: tl_def)
  have state: "counting_of st = Ct_nearby \<longleftrightarrow> st = St_nearby" for st
    by (cases st) simp_all
  show ?thesis
    using bound unfolding assms tl_def [symmetric]
    by (auto simp: project_live_def unavailable_projection_def idle_projection_def Let_def state
        confirmed_for_projection_def interval_defs whole_seconds_def
        split: list.splits option.splits)
qed

text \<open>Ten seconds after the second report of the demo, ten seconds are shown as provisional.\<close>

theorem live_projection_bounded_witness:
  "projection_state (project_live (build_proximity_timeline demo_left demo_right 100 None None)
       (100 * second) True) = Ct_nearby
   \<and> provisional_seconds (project_live (build_proximity_timeline demo_left demo_right 100 None None)
       (100 * second) True) = 10
   \<and> (\<exists>prev cur rest.
        rev (anchors (build_proximity_timeline demo_left demo_right 100 None None))
          = cur # prev # rest \<and> anchor_state cur = St_nearby)"
proof -
  define p where
    "p = project_live (build_proximity_timeline demo_left demo_right 100 None None) (100 * second) True"
  have as: "anchors (build_proximity_timeline demo_left demo_right 100 None None) = demo_anchors"
    by (simp add: build_proximity_timeline_def Let_def build_demo)
  obtain a b where ab: "demo_anchors = [a, b]"
    and nearby: "anchor_state a = St_nearby" "anchor_state b = St_nearby"
    and times: "anchor_recorded_at a = 0" "anchor_recorded_at b = 90 * second"
    and mutual: "mutual_evidence b = Some (90 * second)"
    using that [OF demo_anchors_def] by (simp add: mutual_evidence_def anchor_def interval_defs Let_def)
  have "projection_state p = Ct_nearby \<and> provisional_seconds p = 10"
    by (simp add: p_def project_live_def as ab nearby times mutual confirmed_for_projection_def
        interval_defs whole_seconds_def)
  then show ?thesis
    using live_projection_bounded [OF p_def] by (auto simp: p_def)
qed

end
