(* ===== verification/Events.thy ===== *)
theory Events
  imports Accounts Interfaces
begin

text \<open>
  The couple's activity feed (\<^verbatim>\<open>activity_service.py\<close>) and partner notifications
  (\<^verbatim>\<open>notification_service.py\<close>, the tables of \<^verbatim>\<open>notification_models.py\<close> and
  the handlers of \<^verbatim>\<open>routes/notifications.py\<close> that keep preferences and devices):
  who is told about what, at most how often, and on which installations.

  A key written as an f-string, e.g. \<^verbatim>\<open>f"quiz:{day.quiz_date}:{kind}"\<close>, is the list of its
  parts. The surrogate id of a delivery is read by no code and left out. The clock is read once
  per request.
\<close>

section \<open>Rows\<close>

datatype notification_kind =
    Nk_smooch_received | Nk_note_editing
  | Nk_quiz_available | Nk_quiz_partner_finished | Nk_quiz_results_ready
  | Nk_countdown_created | Nk_countdown_rescheduled | Nk_together_time_corrected

datatype key_part = Lit string | Id uuid | Day date | Num int | At_time instant
  | Kind notification_kind

type_synonym dedupe_key = "key_part list"

record activity_event =
  act_couple_id :: uuid
  act_actor_id :: "uuid option"
  act_sequence :: nat
  act_dedupe_key :: dedupe_key
  act_kind :: string
  act_target_type :: "string option"
  act_target_id :: "uuid option"
  act_target_title :: "string option"
  act_emoji :: "ustring option"
  act_created_at :: instant

record notification_preference =
  np_account_id :: uuid
  np_master_enabled :: bool
  np_smooches_enabled :: bool
  np_note_editing_enabled :: bool
  np_daily_quiz_enabled :: bool
  np_countdowns_enabled :: bool
  np_together_time_enabled :: bool
  np_weekly_summary_enabled :: bool
  np_updated_at :: instant

record notification_device =
  nd_id :: uuid
  nd_account_id :: uuid
  nd_device_id :: uuid
  nd_platform :: string
  nd_app_version_code :: int
  nd_notifications_enabled :: bool
  nd_last_seen_at :: instant
  nd_disabled_at :: "instant option"

record notification_event =
  ne_id :: uuid
  ne_recipient_id :: uuid
  ne_couple_id :: uuid
  ne_actor_id :: "uuid option"
  ne_kind :: notification_kind
  ne_source_id :: uuid
  ne_dedupe_key :: dedupe_key
  ne_created_at :: instant
  ne_expires_at :: instant
  ne_legacy_consumed_at :: "instant option"

record notification_delivery =
  nl_event_id :: uuid
  nl_device_id :: uuid
  nl_created_at :: instant
  nl_displayed_at :: "instant option"

record events_db = core_db +
  activity_events :: "activity_event list"
  preferences :: "notification_preference list"
  devices :: "notification_device list"
  events :: "notification_event list"
  deliveries :: "notification_delivery list"

section \<open>Activity feed\<close>

definition max_sequence :: "'a events_db_scheme \<Rightarrow> uuid \<Rightarrow> nat" where
  "max_sequence db couple_id =
     Max (insert 0 (act_sequence ` set (select (\<lambda>e. act_couple_id e = couple_id) (activity_events db))))"

text \<open>\<open>content\<close> is the row of the keyword arguments; its sequence is overwritten.\<close>

definition record_activity :: "'a events_db_scheme \<Rightarrow> activity_event \<Rightarrow> 'a events_db_scheme" where
  "record_activity db content =
     (case scalar (\<lambda>e. act_couple_id e = act_couple_id content
                      \<and> act_dedupe_key e = act_dedupe_key content) (activity_events db) of
        Some _ \<Rightarrow> db
      | None \<Rightarrow>
          (let current = max_sequence db (act_couple_id content)
           in db\<lparr>activity_events :=
                   activity_events db @ [content\<lparr>act_sequence := current + 1\<rparr>]\<rparr>))"

section \<open>Preferences\<close>

definition EVENT_TTL :: duration where "EVENT_TTL = 24 * hour"
definition ACTIVE_DEVICE_WINDOW :: duration where "ACTIVE_DEVICE_WINDOW = 30 * day"
definition NOTE_EDIT_COOLDOWN :: duration where "NOTE_EDIT_COOLDOWN = 30 * minute"

datatype preference_field =
    Smooches_enabled | Note_editing_enabled | Daily_quiz_enabled | Countdowns_enabled
  | Together_time_enabled

fun preference :: "preference_field \<Rightarrow> notification_preference \<Rightarrow> bool" where
  "preference Smooches_enabled p = np_smooches_enabled p"
| "preference Note_editing_enabled p = np_note_editing_enabled p"
| "preference Daily_quiz_enabled p = np_daily_quiz_enabled p"
| "preference Countdowns_enabled p = np_countdowns_enabled p"
| "preference Together_time_enabled p = np_together_time_enabled p"

definition PREFERENCE_KINDS :: "(preference_field \<times> notification_kind list) list" where
  "PREFERENCE_KINDS =
     [(Smooches_enabled, [Nk_smooch_received]),
      (Note_editing_enabled, [Nk_note_editing]),
      (Daily_quiz_enabled, [Nk_quiz_available, Nk_quiz_partner_finished, Nk_quiz_results_ready]),
      (Countdowns_enabled, [Nk_countdown_created, Nk_countdown_rescheduled]),
      (Together_time_enabled, [Nk_together_time_corrected])]"

definition default_preferences :: "uuid \<Rightarrow> instant \<Rightarrow> notification_preference" where
  "default_preferences account_id now =
     \<lparr>np_account_id = account_id, np_master_enabled = True, np_smooches_enabled = True,
      np_note_editing_enabled = True, np_daily_quiz_enabled = True, np_countdowns_enabled = True,
      np_together_time_enabled = True, np_weekly_summary_enabled = True, np_updated_at = now\<rparr>"

definition preferences_for ::
    "'a events_db_scheme \<Rightarrow> uuid \<Rightarrow> instant \<Rightarrow> exc + 'a events_db_scheme \<times> notification_preference"
where
  "preferences_for db account_id now =
     (let db' = db\<lparr>preferences :=
                 insert_new np_account_id (default_preferences account_id now) (preferences db)\<rparr>
      in case scalar (\<lambda>p. np_account_id p = account_id) (preferences db') of
           None \<Rightarrow> Inl (RuntimeError ''Notification preferences could not be initialized'')
         | Some p \<Rightarrow> Inr (db', p))"

section \<open>Deliveries\<close>

definition delivery_key :: "notification_delivery \<Rightarrow> uuid \<times> uuid" where
  "delivery_key l = (nl_event_id l, nl_device_id l)"

definition new_delivery :: "uuid \<Rightarrow> uuid \<Rightarrow> instant \<Rightarrow> notification_delivery" where
  "new_delivery event_id device_id now =
     \<lparr>nl_event_id = event_id, nl_device_id = device_id, nl_created_at = now,
      nl_displayed_at = None\<rparr>"

definition insert_deliveries ::
    "notification_delivery list \<Rightarrow> 'a events_db_scheme \<Rightarrow> 'a events_db_scheme" where
  "insert_deliveries rows db = db\<lparr>deliveries := fold (insert_new delivery_key) rows (deliveries db)\<rparr>"

definition receives :: "notification_event \<Rightarrow> instant \<Rightarrow> notification_device \<Rightarrow> bool" where
  "receives event now d \<longleftrightarrow>
     nd_account_id d = ne_recipient_id event \<and> nd_disabled_at d = None
     \<and> nd_notifications_enabled d \<and> now - ACTIVE_DEVICE_WINDOW \<le> nd_last_seen_at d"

definition create_active_deliveries ::
    "'a events_db_scheme \<Rightarrow> notification_event \<Rightarrow> instant \<Rightarrow> 'a events_db_scheme" where
  "create_active_deliveries db event now =
     insert_deliveries
       (map (\<lambda>d. new_delivery (ne_id event) (nd_id d) now) (select (receives event now) (devices db)))
       db"

definition pending_for :: "'a events_db_scheme \<Rightarrow> notification_device \<Rightarrow> instant \<Rightarrow> notification_event \<Rightarrow> bool"
where
  "pending_for db device now e \<longleftrightarrow>
     ne_recipient_id e = nd_account_id device \<and> now < ne_expires_at e
     \<and> list_ex (\<lambda>m. mem_couple_id m = ne_couple_id e \<and> mem_account_id m = nd_account_id device
                    \<and> is_active m) (members db)
     \<and> \<not> list_ex (\<lambda>l. nl_event_id l = ne_id e \<and> nl_device_id l = nd_id device) (deliveries db)"

definition ensure_pending_deliveries ::
    "'a events_db_scheme \<Rightarrow> notification_device \<Rightarrow> instant \<Rightarrow> 'a events_db_scheme" where
  "ensure_pending_deliveries db device now =
     insert_deliveries
       (map (\<lambda>e. new_delivery (ne_id e) (nd_id device) now) (select (pending_for db device now) (events db)))
       db"

section \<open>Creating events\<close>

definition event_key :: "notification_event \<Rightarrow> uuid \<times> dedupe_key" where
  "event_key e = (ne_recipient_id e, ne_dedupe_key e)"

text \<open>
  \<^verbatim>\<open>session.add(event)\<close>, \<^verbatim>\<open>flush\<close> (which may violate the primary key
  or the unique dedupe key) and the deliveries of the event.
\<close>

definition publish ::
    "'a events_db_scheme \<Rightarrow> notification_event \<Rightarrow> instant \<Rightarrow> exc + 'a events_db_scheme \<times> uuid option" where
  "publish db event now =
     bind_exc (insert_unique ne_id event (events db)) (\<lambda>_.
     bind_exc (insert_unique event_key event (events db)) (\<lambda>rows.
       Inr (create_active_deliveries (db\<lparr>events := rows\<rparr>) event now, Some (ne_recipient_id event))))"

definition enqueue_partner_event ::
    "'a events_db_scheme \<Rightarrow> instant \<Rightarrow> uuid \<Rightarrow> uuid \<Rightarrow> uuid \<Rightarrow> uuid option \<Rightarrow> notification_kind \<Rightarrow> uuid
       \<Rightarrow> dedupe_key \<Rightarrow> preference_field \<Rightarrow> exc + 'a events_db_scheme \<times> uuid option" where
  "enqueue_partner_event db now event_id recipient_id couple_id actor_id kind source_id key field =
     bind_exc (preferences_for db recipient_id now) (\<lambda>(db, p).
       if \<not> np_master_enabled p \<or> \<not> preference field p then Inr (db, None)
       else (case scalar (\<lambda>e. ne_recipient_id e = recipient_id \<and> ne_dedupe_key e = key) (events db) of
               Some _ \<Rightarrow> Inr (db, None)
             | None \<Rightarrow>
                 publish db
                   \<lparr>ne_id = event_id, ne_recipient_id = recipient_id, ne_couple_id = couple_id,
                    ne_actor_id = actor_id, ne_kind = kind, ne_source_id = source_id,
                    ne_dedupe_key = key, ne_created_at = now, ne_expires_at = now + EVENT_TTL, ne_legacy_consumed_at = None\<rparr> now))"

definition enqueue_countdown_event ::
    "'a events_db_scheme \<Rightarrow> instant \<Rightarrow> uuid \<Rightarrow> uuid \<Rightarrow> uuid \<Rightarrow> uuid \<Rightarrow> notification_kind \<Rightarrow> uuid
       \<Rightarrow> exc + 'a events_db_scheme \<times> uuid option" where
  "enqueue_countdown_event db now event_id couple_id countdown_id actor_id kind operation_id =
     (case partner_id_for db couple_id actor_id of
        None \<Rightarrow> Inr (db, None)
      | Some recipient_id \<Rightarrow>
          enqueue_partner_event db now event_id recipient_id couple_id (Some actor_id) kind
            countdown_id [Lit ''countdown:'', Kind kind, Lit '':'', Id operation_id] Countdowns_enabled)"

definition enqueue_quiz_event ::
    "'a events_db_scheme \<Rightarrow> instant \<Rightarrow> uuid \<Rightarrow> uuid \<Rightarrow> uuid \<Rightarrow> date \<Rightarrow> uuid \<Rightarrow> uuid option \<Rightarrow> notification_kind
       \<Rightarrow> exc + 'a events_db_scheme \<times> uuid option" where
  "enqueue_quiz_event db now event_id couple_id day_id quiz_date recipient_id actor_id kind =
     enqueue_partner_event db now event_id recipient_id couple_id actor_id kind day_id
       [Lit ''quiz:'', Day quiz_date, Lit '':'', Kind kind] Daily_quiz_enabled"

definition enqueue_together_correction_event ::
    "'a events_db_scheme \<Rightarrow> instant \<Rightarrow> uuid \<Rightarrow> uuid \<Rightarrow> uuid \<Rightarrow> uuid \<Rightarrow> date \<Rightarrow> nat
       \<Rightarrow> exc + 'a events_db_scheme \<times> uuid option" where
  "enqueue_together_correction_event db now event_id couple_id actor_id day_id d revision =
     (case partner_id_for db couple_id actor_id of
        None \<Rightarrow> Inr (db, None)
      | Some recipient_id \<Rightarrow>
          enqueue_partner_event db now event_id recipient_id couple_id (Some actor_id)
            Nk_together_time_corrected day_id
            [Lit ''together-day:'', Day d, Lit '':'', Num (int revision)] Together_time_enabled)"

text \<open>
  \<^verbatim>\<open>enqueue_smooch_event\<close> reads the smooch row: its ids, its sender and recipient (null
  once the account is gone) and when it was sent.
\<close>

definition enqueue_smooch_event ::
    "'a events_db_scheme \<Rightarrow> instant \<Rightarrow> uuid \<Rightarrow> uuid \<Rightarrow> uuid \<Rightarrow> uuid option \<Rightarrow> uuid option \<Rightarrow> instant
       \<Rightarrow> exc + 'a events_db_scheme \<times> uuid option" where
  "enqueue_smooch_event db now event_id couple_id smooch_id sender recipient sent_at =
     (case (recipient, sender) of
        (Some recipient_id, Some sender_id) \<Rightarrow>
          bind_exc (preferences_for db recipient_id now) (\<lambda>(db, p).
            if \<not> np_master_enabled p \<or> \<not> np_smooches_enabled p then Inr (db, None)
            else publish db
                   \<lparr>ne_id = event_id, ne_recipient_id = recipient_id, ne_couple_id = couple_id,
                    ne_actor_id = Some sender_id, ne_kind = Nk_smooch_received,
                    ne_source_id = smooch_id, ne_dedupe_key = [Lit ''smooch:'', Id smooch_id],
                    ne_created_at = sent_at, ne_expires_at = sent_at + EVENT_TTL, ne_legacy_consumed_at = None\<rparr> now)
      | _ \<Rightarrow> Inr (db, None))"

definition recent_note_edit ::
    "uuid \<Rightarrow> uuid \<Rightarrow> uuid \<Rightarrow> instant \<Rightarrow> notification_event \<Rightarrow> bool" where
  "recent_note_edit recipient_id actor_id note_id now e \<longleftrightarrow>
     ne_recipient_id e = recipient_id \<and> ne_actor_id e = Some actor_id
     \<and> ne_kind e = Nk_note_editing \<and> ne_source_id e = note_id
     \<and> now - NOTE_EDIT_COOLDOWN < ne_created_at e"

definition enqueue_note_edit_event ::
    "'a events_db_scheme \<Rightarrow> instant \<Rightarrow> uuid \<Rightarrow> uuid \<Rightarrow> uuid \<Rightarrow> uuid \<Rightarrow> bool
       \<Rightarrow> exc + 'a events_db_scheme \<times> uuid option" where
  "enqueue_note_edit_event db now event_id couple_id actor_id note_id partner_viewing =
     (if partner_viewing then Inr (db, None)
      else (case partner_id_for db couple_id actor_id of
              None \<Rightarrow> Inr (db, None)
            | Some recipient_id \<Rightarrow>
                bind_exc (preferences_for db recipient_id now) (\<lambda>(db, p).
                  if \<not> np_master_enabled p \<or> \<not> np_note_editing_enabled p then Inr (db, None)
                  else (case scalar (recent_note_edit recipient_id actor_id note_id now) (events db) of
                          Some _ \<Rightarrow> Inr (db, None)
                        | None \<Rightarrow>
                            publish db
                              \<lparr>ne_id = event_id, ne_recipient_id = recipient_id,
                               ne_couple_id = couple_id, ne_actor_id = Some actor_id,
                               ne_kind = Nk_note_editing, ne_source_id = note_id,
                               ne_dedupe_key = [Lit ''note-edit:'', Id note_id, Lit '':'', Id actor_id,
                                                Lit '':'', At_time now],
                               ne_created_at = now, ne_expires_at = now + EVENT_TTL, ne_legacy_consumed_at = None\<rparr> now))))"

section \<open>Discarding events\<close>

text \<open>Deleting an event or a device deletes its deliveries (\<^verbatim>\<open>ON DELETE CASCADE\<close>).\<close>

definition delete_events :: "(notification_event \<Rightarrow> bool) \<Rightarrow> 'a events_db_scheme \<Rightarrow> 'a events_db_scheme" where
  "delete_events p db =
     (let gone = map ne_id (select p (events db))
      in db\<lparr>events := delete_where p (events db),
            deliveries := delete_where (\<lambda>l. nl_event_id l \<in> set gone) (deliveries db)\<rparr>)"

definition delete_devices :: "(notification_device \<Rightarrow> bool) \<Rightarrow> 'a events_db_scheme \<Rightarrow> 'a events_db_scheme" where
  "delete_devices p db =
     (let gone = map nd_id (select p (devices db))
      in db\<lparr>devices := delete_where p (devices db),
            deliveries := delete_where (\<lambda>l. nl_device_id l \<in> set gone) (deliveries db)\<rparr>)"

definition disabled_kinds :: "notification_preference \<Rightarrow> notification_kind list" where
  "disabled_kinds p =
     concat (map snd (filter (\<lambda>(field, kinds). \<not> np_master_enabled p \<or> \<not> preference field p)
       PREFERENCE_KINDS))"

definition discard_disabled_events ::
    "'a events_db_scheme \<Rightarrow> notification_preference \<Rightarrow> 'a events_db_scheme" where
  "discard_disabled_events db p =
     (let disabled = disabled_kinds p
      in if disabled = [] then db
         else delete_events
           (\<lambda>e. ne_recipient_id e = np_account_id p \<and> ne_kind e \<in> set disabled) db)"

definition purge_notification_state :: "'a events_db_scheme \<Rightarrow> instant \<Rightarrow> 'a events_db_scheme" where
  "purge_notification_state db now =
     delete_devices (\<lambda>d. nd_last_seen_at d \<le> now - 90 * day)
       (delete_events (\<lambda>e. ne_created_at e \<le> now - 7 * day) db)"

section \<open>Handlers\<close>

definition get_preferences ::
    "'a events_db_scheme \<Rightarrow> uuid \<Rightarrow> instant \<Rightarrow> exc + 'a events_db_scheme \<times> notification_preference" where
  "get_preferences db actor_id now = preferences_for db actor_id now"

text \<open>\<open>payload\<close> carries the seven choices; its account and time are not read.\<close>

definition update_preferences ::
    "'a events_db_scheme \<Rightarrow> uuid \<Rightarrow> notification_preference \<Rightarrow> instant
       \<Rightarrow> exc + 'a events_db_scheme \<times> notification_preference" where
  "update_preferences db actor_id payload now =
     bind_exc (preferences_for db actor_id now) (\<lambda>(db, item).
       let item' = payload\<lparr>np_account_id := np_account_id item, np_updated_at := now\<rparr>;
           db' = db\<lparr>preferences :=
                    update_where (\<lambda>p. np_account_id p = actor_id) (\<lambda>_. item') (preferences db)\<rparr>
       in Inr (discard_disabled_events db' item', item'))"

definition register_device ::
    "'a events_db_scheme \<Rightarrow> uuid \<Rightarrow> uuid \<Rightarrow> uuid \<Rightarrow> string \<Rightarrow> int \<Rightarrow> bool \<Rightarrow> instant
       \<Rightarrow> exc + 'a events_db_scheme \<times> notification_device" where
  "register_device db actor_id fresh device_id platform version enabled now =
     (let same = (\<lambda>d. nd_account_id d = actor_id \<and> nd_device_id d = device_id);
          row = \<lparr>nd_id = fresh, nd_account_id = actor_id, nd_device_id = device_id,
                 nd_platform = platform, nd_app_version_code = version,
                 nd_notifications_enabled = enabled, nd_last_seen_at = now, nd_disabled_at = None\<rparr>;
          heartbeat = (\<lambda>d. d\<lparr>nd_platform := platform, nd_app_version_code := version,
                         nd_notifications_enabled := enabled, nd_last_seen_at := now,
                         nd_disabled_at := None\<rparr>)
      in bind_exc
           (if list_ex same (devices db) then Inr (update_where same heartbeat (devices db))
            else insert_unique nd_id row (devices db)) (\<lambda>rows.
         let db' = db\<lparr>devices := rows\<rparr>
         in case scalar same rows of
              None \<Rightarrow> Inl (HTTPException 409 ''Device registration failed'')
            | Some device \<Rightarrow>
                Inr (if enabled then ensure_pending_deliveries db' device now else db', device)))"

definition disable_device ::
    "'a events_db_scheme \<Rightarrow> uuid \<Rightarrow> uuid \<Rightarrow> instant \<Rightarrow> 'a events_db_scheme" where
  "disable_device db actor_id device_id now =
     db\<lparr>devices :=
       update_where (\<lambda>d. nd_account_id d = actor_id \<and> nd_device_id d = device_id)
         (\<lambda>d. d\<lparr>nd_disabled_at := Some now, nd_notifications_enabled := False\<rparr>) (devices db)\<rparr>"

definition owned_device :: "'a events_db_scheme \<Rightarrow> uuid \<Rightarrow> uuid \<Rightarrow> exc + notification_device" where
  "owned_device db account_id device_id =
     (case scalar (\<lambda>d. nd_account_id d = account_id \<and> nd_device_id d = device_id
                       \<and> nd_disabled_at d = None) (devices db) of
        None \<Rightarrow> Inl (HTTPException 404 ''Notification device is unavailable'')
      | Some d \<Rightarrow> Inr d)"

end
