(* ===== verification/Notifications.thy ===== *)
theory Notifications
  imports Events
begin

text \<open>
  Properties of the notification service: the invariant of its tables under every operation,
  respect for the recipient's choices, and the cooldown of note-editing alerts.
\<close>

section \<open>Requests\<close>

datatype countdown_change = Created | Rescheduled
datatype quiz_change = Available | Partner_finished | Results_ready

fun countdown_kind :: "countdown_change \<Rightarrow> notification_kind" where
  "countdown_kind Created = Nk_countdown_created"
| "countdown_kind Rescheduled = Nk_countdown_rescheduled"

fun quiz_kind :: "quiz_change \<Rightarrow> notification_kind" where
  "quiz_kind Available = Nk_quiz_available"
| "quiz_kind Partner_finished = Nk_quiz_partner_finished"
| "quiz_kind Results_ready = Nk_quiz_results_ready"

text \<open>The alerts the services ask for, with the arguments they pass.\<close>

datatype alert =
    Countdown_alert uuid uuid uuid countdown_change uuid
  | Quiz_alert uuid uuid date uuid "uuid option" quiz_change
  | Correction_alert uuid uuid uuid date nat
  | Smooch_alert uuid uuid "uuid option" "uuid option" instant
  | Note_edit_alert uuid uuid uuid bool

fun enqueue ::
    "'a events_db_scheme \<Rightarrow> instant \<Rightarrow> uuid \<Rightarrow> alert \<Rightarrow> exc + 'a events_db_scheme \<times> uuid option" where
  "enqueue db now i (Countdown_alert k c a ch op) =
     enqueue_countdown_event db now i k c a (countdown_kind ch) op"
| "enqueue db now i (Quiz_alert k q d r a ch) =
     enqueue_quiz_event db now i k q d r a (quiz_kind ch)"
| "enqueue db now i (Correction_alert k a q d n) =
     enqueue_together_correction_event db now i k a q d n"
| "enqueue db now i (Smooch_alert k s sender recipient t) =
     enqueue_smooch_event db now i k s sender recipient t"
| "enqueue db now i (Note_edit_alert k a n viewing) =
     enqueue_note_edit_event db now i k a n viewing"

fun alert_field :: "alert \<Rightarrow> preference_field" where
  "alert_field (Countdown_alert k c a ch op) = Countdowns_enabled"
| "alert_field (Quiz_alert k q d r a ch) = Daily_quiz_enabled"
| "alert_field (Correction_alert k a q d n) = Together_time_enabled"
| "alert_field (Smooch_alert k s sender recipient t) = Smooches_enabled"
| "alert_field (Note_edit_alert k a n viewing) = Note_editing_enabled"

datatype notification_op =
    Alert instant uuid alert
  | Get_preferences uuid instant
  | Update_preferences uuid notification_preference instant
  | Register_device uuid uuid uuid string int bool instant
  | Disable_device uuid uuid instant
  | Purge instant

fun handle_notification ::
    "'a events_db_scheme \<Rightarrow> notification_op \<Rightarrow> exc + 'a events_db_scheme \<times> unit" where
  "handle_notification db (Alert now i a) = map_sum id (\<lambda>(db, _). (db, ())) (enqueue db now i a)"
| "handle_notification db (Get_preferences a now) =
     map_sum id (\<lambda>(db, _). (db, ())) (get_preferences db a now)"
| "handle_notification db (Update_preferences a p now) =
     map_sum id (\<lambda>(db, _). (db, ())) (update_preferences db a p now)"
| "handle_notification db (Register_device a i d p v e now) =
     map_sum id (\<lambda>(db, _). (db, ())) (register_device db a i d p v e now)"
| "handle_notification db (Disable_device a d now) = Inr (disable_device db a d now, ())"
| "handle_notification db (Purge now) = Inr (purge_notification_state db now, ())"

section \<open>Invariant\<close>

text \<open>An alert's dedupe key names the alert it was made for.\<close>

definition key_ok :: "notification_event \<Rightarrow> bool" where
  "key_ok e \<longleftrightarrow>
     (\<forall>n a t. ne_dedupe_key e = [Lit ''note-edit:'', Id n, Lit '':'', Id a, Lit '':'', At_time t] \<longrightarrow>
        ne_kind e = Nk_note_editing \<and> ne_actor_id e = Some a \<and> ne_source_id e = n
        \<and> ne_created_at e = t)
     \<and> (\<forall>s. ne_dedupe_key e = [Lit ''smooch:'', Id s] \<longrightarrow>
          ne_kind e = Nk_smooch_received \<and> ne_source_id e = s)"

definition wanted :: "notification_preference list \<Rightarrow> notification_event \<Rightarrow> bool" where
  "wanted ps e \<longleftrightarrow>
     (\<forall>p \<in> set ps. np_account_id p = ne_recipient_id e \<longrightarrow> ne_kind e \<notin> set (disabled_kinds p))"

definition delivery_ok ::
    "notification_event list \<Rightarrow> notification_device list \<Rightarrow> notification_delivery \<Rightarrow> bool" where
  "delivery_ok es ds l \<longleftrightarrow>
     (\<exists>e \<in> set es. \<exists>d \<in> set ds. nl_event_id l = ne_id e \<and> nl_device_id l = nd_id d
        \<and> nd_account_id d = ne_recipient_id e)"

definition device_key :: "notification_device \<Rightarrow> uuid \<times> uuid" where
  "device_key d = (nd_account_id d, nd_device_id d)"

text \<open>
  The unique constraints of the tables; every alert is one its recipient still wants; every
  delivery belongs to an installation of the recipient of its event.
\<close>

definition events_ok :: "'a events_db_scheme \<Rightarrow> bool" where
  "events_ok db \<longleftrightarrow>
     distinct (map np_account_id (preferences db))
     \<and> distinct (map nd_id (devices db)) \<and> distinct (map device_key (devices db))
     \<and> distinct (map ne_id (events db)) \<and> distinct (map event_key (events db))
     \<and> distinct (map delivery_key (deliveries db))
     \<and> (\<forall>e \<in> set (events db). key_ok e \<and> wanted (preferences db) e)
     \<and> (\<forall>l \<in> set (deliveries db). delivery_ok (events db) (devices db) l)"

lemma in_disabled_kinds:
  "k \<in> set (disabled_kinds p) \<longleftrightarrow>
     (\<exists>field kinds. (field, kinds) \<in> set PREFERENCE_KINDS \<and> k \<in> set kinds
        \<and> (\<not> np_master_enabled p \<or> \<not> preference field p))"
  by (auto simp: disabled_kinds_def)

lemma default_wants_all [simp]: "disabled_kinds (default_preferences a now) = []"
  by (simp add: disabled_kinds_def default_preferences_def PREFERENCE_KINDS_def)

text \<open>The column an alert is checked against is the column that governs its kind.\<close>

fun field_of :: "notification_kind \<Rightarrow> preference_field" where
  "field_of Nk_smooch_received = Smooches_enabled"
| "field_of Nk_note_editing = Note_editing_enabled"
| "field_of Nk_quiz_available = Daily_quiz_enabled"
| "field_of Nk_quiz_partner_finished = Daily_quiz_enabled"
| "field_of Nk_quiz_results_ready = Daily_quiz_enabled"
| "field_of Nk_countdown_created = Countdowns_enabled"
| "field_of Nk_countdown_rescheduled = Countdowns_enabled"
| "field_of Nk_together_time_corrected = Together_time_enabled"

lemma disabled_iff_field:
  "k \<in> set (disabled_kinds p) \<longleftrightarrow> \<not> np_master_enabled p \<or> \<not> preference (field_of k) p"
  by (cases k) (auto simp: disabled_kinds_def PREFERENCE_KINDS_def)

lemma countdown_field [simp]: "field_of (countdown_kind ch) = Countdowns_enabled"
  by (cases ch) simp_all

lemma quiz_field [simp]: "field_of (quiz_kind ch) = Daily_quiz_enabled"
  by (cases ch) simp_all

section \<open>Preferences\<close>

lemma preferences_for_Inr:
  "\<exists>p. preferences_for db a now
     = Inr (db\<lparr>preferences := insert_new np_account_id (default_preferences a now) (preferences db)\<rparr>, p)
     \<and> np_account_id p = a
     \<and> p \<in> set (insert_new np_account_id (default_preferences a now) (preferences db))"
proof -
  let ?ps = "insert_new np_account_id (default_preferences a now) (preferences db)"
  have "a \<in> np_account_id ` set ?ps"
    by (simp add: keys_insert_new default_preferences_def)
  then obtain p where "scalar (\<lambda>p. np_account_id p = a) ?ps = Some p"
    by (cases "scalar (\<lambda>p. np_account_id p = a) ?ps") (auto simp: scalar_None)
  then show ?thesis
    using scalar_Some by (fastforce simp: preferences_for_def Let_def)
qed

lemma preferences_forE:
  assumes "preferences_for db a now = Inr (db', p)"
  shows "db' = db\<lparr>preferences := insert_new np_account_id (default_preferences a now) (preferences db)\<rparr>"
    and "np_account_id p = a" and "p \<in> set (preferences db')"
  using preferences_for_Inr [of db a now] assms by auto

lemma events_ok_default:
  "events_ok db \<Longrightarrow>
     events_ok (db\<lparr>preferences := insert_new np_account_id (default_preferences a now) (preferences db)\<rparr>)"
  by (auto simp: events_ok_def distinct_insert_new wanted_def set_insert_new)

lemma events_ok_preferences_for:
  "preferences_for db a now = Inr (db', p) \<Longrightarrow> events_ok db \<Longrightarrow> events_ok db'"
  by (drule preferences_forE(1)) (simp add: events_ok_default)

section \<open>Deliveries\<close>

lemma insert_deliveries_frame [simp]:
  "events (insert_deliveries rows db) = events db"
  "devices (insert_deliveries rows db) = devices db"
  "preferences (insert_deliveries rows db) = preferences db"
  "members (insert_deliveries rows db) = members db"
  "activity_events (insert_deliveries rows db) = activity_events db"
  by (simp_all add: insert_deliveries_def)

lemma events_ok_insert_deliveries:
  assumes "events_ok db" and "\<forall>r \<in> set rows. delivery_ok (events db) (devices db) r"
  shows "events_ok (insert_deliveries rows db)"
  using assms set_fold_insert_new [of delivery_key rows "deliveries db"]
  by (auto simp: events_ok_def insert_deliveries_def distinct_fold_insert_new)

lemma new_delivery_ok:
  "e \<in> set es \<Longrightarrow> d \<in> set ds \<Longrightarrow> nd_account_id d = ne_recipient_id e
     \<Longrightarrow> delivery_ok es ds (new_delivery (ne_id e) (nd_id d) now)"
  by (auto simp: delivery_ok_def new_delivery_def)

lemma events_ok_active_deliveries:
  assumes "events_ok db" "event \<in> set (events db)"
  shows "events_ok (create_active_deliveries db event now)"
  unfolding create_active_deliveries_def using assms
  by (intro events_ok_insert_deliveries) (auto simp: select_def receives_def intro: new_delivery_ok)

lemma events_ok_pending_deliveries:
  assumes "events_ok db" "device \<in> set (devices db)"
  shows "events_ok (ensure_pending_deliveries db device now)"
  unfolding ensure_pending_deliveries_def using assms
  by (intro events_ok_insert_deliveries) (auto simp: select_def pending_for_def intro: new_delivery_ok)

section \<open>Publishing\<close>

lemma publish_Inr:
  assumes "publish db event now = Inr (db', r)"
  shows "db' = create_active_deliveries (db\<lparr>events := events db @ [event]\<rparr>) event now"
    and "r = Some (ne_recipient_id event)"
    and "ne_id event \<notin> ne_id ` set (events db)" and "event_key event \<notin> event_key ` set (events db)"
  using assms by (auto simp: publish_def bind_exc_Inr_iff insert_unique_Inr)

lemma publish_fresh:
  "ne_id event \<notin> ne_id ` set (events db) \<Longrightarrow> event_key event \<notin> event_key ` set (events db)
     \<Longrightarrow> \<exists>db'. publish db event now = Inr (db', Some (ne_recipient_id event))"
  by (simp add: publish_def insert_unique_fresh)

lemma events_ok_publish:
  assumes "publish db event now = Inr (db', r)" "events_ok db" "key_ok event"
    and "wanted (preferences db) event"
  shows "events_ok db'"
proof -
  have "events_ok (db\<lparr>events := events db @ [event]\<rparr>)"
    using publish_Inr [OF assms(1)] assms(2-4) by (auto simp: events_ok_def delivery_ok_def)
  then show ?thesis
    by (simp add: publish_Inr(1) [OF assms(1)] events_ok_active_deliveries)
qed

text \<open>A choice that is switched on keeps the alert, as accounts have one preference row.\<close>

lemma wanted_by:
  assumes "distinct (map np_account_id ps)" "p \<in> set ps" "np_account_id p = ne_recipient_id e"
    and "np_master_enabled p" "preference (field_of (ne_kind e)) p"
  shows "wanted ps e"
  unfolding wanted_def
proof (intro ballI impI)
  fix q assume "q \<in> set ps" "np_account_id q = ne_recipient_id e"
  then have "q = p"
    using assms(1-3) by (auto simp: distinct_map inj_on_def)
  then show "ne_kind e \<notin> set (disabled_kinds q)"
    using assms(4,5) by (simp add: disabled_iff_field)
qed

section \<open>Every alert\<close>

text \<open>What one call of the service may do: nothing but default preferences, or one alert.\<close>

definition alert_effect ::
    "'a events_db_scheme \<Rightarrow> instant \<Rightarrow> preference_field \<Rightarrow> 'a events_db_scheme \<Rightarrow> uuid option \<Rightarrow> bool" where
  "alert_effect db now field db' r \<longleftrightarrow>
     (case r of
        None \<Rightarrow> events db' = events db \<and> deliveries db' = deliveries db
      | Some recipient \<Rightarrow>
          (\<exists>p \<in> set (preferences db'). np_account_id p = recipient
             \<and> np_master_enabled p \<and> preference field p)
          \<and> (\<exists>e. events db' = events db @ [e] \<and> ne_recipient_id e = recipient
               \<and> field_of (ne_kind e) = field \<and> ne_expires_at e = ne_created_at e + EVENT_TTL
               \<and> event_key e \<notin> event_key ` set (events db)
               \<and> (\<forall>l \<in> set (deliveries db'). l \<in> set (deliveries db)
                    \<or> (\<exists>d \<in> set (devices db). l = new_delivery (ne_id e) (nd_id d) now
                         \<and> receives e now d))))"

lemma active_deliveries_new:
  "l \<in> set (deliveries (create_active_deliveries db event now)) \<Longrightarrow>
     l \<in> set (deliveries db)
     \<or> (\<exists>d \<in> set (devices db). l = new_delivery (ne_id event) (nd_id d) now \<and> receives event now d)"
  using set_fold_insert_new
  by (fastforce simp: create_active_deliveries_def insert_deliveries_def select_def)

lemma alert_effect_publish:
  assumes "publish db event now = Inr (db', r)"
    and "p \<in> set (preferences db)" "np_account_id p = ne_recipient_id event" "np_master_enabled p"
    and "preference field p" "field_of (ne_kind event) = field"
    and "ne_expires_at event = ne_created_at event + EVENT_TTL"
  shows "alert_effect db now field db' r"
proof -
  note pub = publish_Inr [OF assms(1)]
  have "\<forall>l \<in> set (deliveries db'). l \<in> set (deliveries db)
      \<or> (\<exists>d \<in> set (devices db). l = new_delivery (ne_id event) (nd_id d) now \<and> receives event now d)"
    using active_deliveries_new unfolding pub(1) by fastforce
  then show ?thesis
    using assms(2-7) pub
    by (auto simp: alert_effect_def create_active_deliveries_def intro!: bexI [of _ p])
qed

text \<open>\<open>db1\<close> is the database after the preference row was ensured.\<close>

definition alert_ok ::
    "'a events_db_scheme \<Rightarrow> instant \<Rightarrow> preference_field \<Rightarrow> 'a events_db_scheme \<Rightarrow> uuid option \<Rightarrow> bool" where
  "alert_ok db now field db' r \<longleftrightarrow>
     alert_effect db now field db' r \<and> (events_ok db \<longrightarrow> events_ok db')"

lemma alert_ok_none [simp]: "alert_ok db now field db None"
  by (simp add: alert_ok_def alert_effect_def)

lemma alert_ok_default:
  assumes "preferences_for db a now = Inr (db1, p)" "alert_ok db1 now field db' r"
  shows "alert_ok db now field db' r"
proof -
  note db1 = preferences_forE(1) [OF assms(1)]
  then have "events db1 = events db" "deliveries db1 = deliveries db" "devices db1 = devices db"
    by simp_all
  with assms(2) events_ok_preferences_for [OF assms(1)] show ?thesis
    by (cases r) (simp_all add: alert_ok_def alert_effect_def)
qed

lemma alert_ok_publish:
  assumes "publish db event now = Inr (db', r)"
    and "p \<in> set (preferences db)" "np_account_id p = ne_recipient_id event" "np_master_enabled p"
    and "preference field p" "field_of (ne_kind event) = field" "key_ok event"
    and "ne_expires_at event = ne_created_at event + EVENT_TTL"
  shows "alert_ok db now field db' r"
  unfolding alert_ok_def
proof
  show "alert_effect db now field db' r"
    using assms by (intro alert_effect_publish) auto
  show "events_ok db \<longrightarrow> events_ok db'"
    using events_ok_publish [OF assms(1)] assms
    by (metis events_ok_def wanted_by)
qed

lemma alert_ok_partner_event:
  assumes "enqueue_partner_event db now i recipient k actor kind source key field = Inr (db', r)"
    and "field_of kind = field"
    and "hd key \<noteq> Lit ''note-edit:''" "hd key \<noteq> Lit ''smooch:''"
  shows "alert_ok db now field db' r"
proof -
  from assms(1) obtain db1 p where p: "preferences_for db recipient now = Inr (db1, p)"
    and rest: "(if \<not> np_master_enabled p \<or> \<not> preference field p then Inr (db1, None)
       else (case scalar (\<lambda>e. ne_recipient_id e = recipient \<and> ne_dedupe_key e = key) (events db1) of
               Some _ \<Rightarrow> Inr (db1, None)
             | None \<Rightarrow> publish db1
                   \<lparr>ne_id = i, ne_recipient_id = recipient, ne_couple_id = k,
                    ne_actor_id = actor, ne_kind = kind, ne_source_id = source,
                    ne_dedupe_key = key, ne_created_at = now, ne_expires_at = now + EVENT_TTL, ne_legacy_consumed_at = None\<rparr> now))
       = Inr (db', r)"
    by (auto simp: enqueue_partner_event_def bind_exc_Inr_iff)
  have "alert_ok db1 now field db' r"
  proof (cases "np_master_enabled p \<and> preference field p
      \<and> scalar (\<lambda>e. ne_recipient_id e = recipient \<and> ne_dedupe_key e = key) (events db1) = None")
    case True
    with rest have "publish db1
        \<lparr>ne_id = i, ne_recipient_id = recipient, ne_couple_id = k, ne_actor_id = actor,
         ne_kind = kind, ne_source_id = source, ne_dedupe_key = key, ne_created_at = now,
         ne_expires_at = now + EVENT_TTL, ne_legacy_consumed_at = None\<rparr> now = Inr (db', r)"
      by simp
    then show ?thesis
      by (rule alert_ok_publish [where p = p])
        (use True assms(2-4) preferences_forE(2,3) [OF p] in \<open>auto simp: key_ok_def\<close>)
  next
    case False
    with rest show ?thesis by (auto split: if_splits option.splits)
  qed
  then show ?thesis by (rule alert_ok_default [OF p])
qed

lemma alert_ok_smooch:
  assumes "enqueue_smooch_event db now i k s sender recipient t = Inr (db', r)"
  shows "alert_ok db now Smooches_enabled db' r"
proof (cases recipient; cases sender)
  fix rc sd assume some: "recipient = Some rc" "sender = Some sd"
  from assms obtain db1 p where p: "preferences_for db rc now = Inr (db1, p)"
    and rest: "(if \<not> np_master_enabled p \<or> \<not> np_smooches_enabled p then Inr (db1, None)
       else publish db1
              \<lparr>ne_id = i, ne_recipient_id = rc, ne_couple_id = k, ne_actor_id = Some sd,
               ne_kind = Nk_smooch_received, ne_source_id = s,
               ne_dedupe_key = [Lit ''smooch:'', Id s], ne_created_at = t,
               ne_expires_at = t + EVENT_TTL, ne_legacy_consumed_at = None\<rparr> now) = Inr (db', r)"
    by (auto simp: enqueue_smooch_event_def bind_exc_Inr_iff some)
  have "alert_ok db1 now Smooches_enabled db' r"
  proof (cases "np_master_enabled p \<and> np_smooches_enabled p")
    case True
    with rest show ?thesis
      by (intro alert_ok_publish [where p = p])
        (use True preferences_forE(2,3) [OF p] in \<open>auto simp: key_ok_def\<close>)
  next
    case False
    with rest show ?thesis by (auto split: if_splits)
  qed
  then show ?thesis by (rule alert_ok_default [OF p])
qed (use assms in \<open>auto simp: enqueue_smooch_event_def\<close>)

lemma alert_ok_note_edit:
  assumes "enqueue_note_edit_event db now i k a n viewing = Inr (db', r)"
  shows "alert_ok db now Note_editing_enabled db' r"
proof (cases "viewing \<or> partner_id_for db k a = None")
  case True
  with assms show ?thesis by (auto simp: enqueue_note_edit_event_def split: if_splits)
next
  case False
  then obtain rc where rc: "\<not> viewing" "partner_id_for db k a = Some rc" by auto
  let ?e = "\<lparr>ne_id = i, ne_recipient_id = rc, ne_couple_id = k, ne_actor_id = Some a,
    ne_kind = Nk_note_editing, ne_source_id = n,
    ne_dedupe_key = [Lit ''note-edit:'', Id n, Lit '':'', Id a, Lit '':'', At_time now],
    ne_created_at = now, ne_expires_at = now + EVENT_TTL, ne_legacy_consumed_at = None\<rparr>"
  from assms obtain db1 p where p: "preferences_for db rc now = Inr (db1, p)"
    and rest: "(if \<not> np_master_enabled p \<or> \<not> np_note_editing_enabled p then Inr (db1, None)
       else (case scalar (recent_note_edit rc a n now) (events db1) of
               Some _ \<Rightarrow> Inr (db1, None) | None \<Rightarrow> publish db1 ?e now)) = Inr (db', r)"
    by (auto simp: enqueue_note_edit_event_def bind_exc_Inr_iff rc)
  have "alert_ok db1 now Note_editing_enabled db' r"
  proof (cases "np_master_enabled p \<and> np_note_editing_enabled p
      \<and> scalar (recent_note_edit rc a n now) (events db1) = None")
    case True
    with rest have "publish db1 ?e now = Inr (db', r)" by simp
    then show ?thesis
      by (rule alert_ok_publish [where p = p])
        (use True preferences_forE(2,3) [OF p] in \<open>auto simp: key_ok_def\<close>)
  next
    case False
    with rest show ?thesis by (auto split: if_splits option.splits)
  qed
  then show ?thesis by (rule alert_ok_default [OF p])
qed

lemma enqueue_ok:
  assumes "enqueue db now i a = Inr (db', r)"
  shows "alert_ok db now (alert_field a) db' r"
  using assms
  by (cases a)
    (auto simp: enqueue_countdown_event_def enqueue_quiz_event_def enqueue_together_correction_event_def
      intro: alert_ok_smooch alert_ok_note_edit split: option.splits
      elim!: alert_ok_partner_event)

text \<open>Raising an alert writes only the notification tables.\<close>

definition only_alerts :: "'a events_db_scheme \<Rightarrow> 'a events_db_scheme \<Rightarrow> bool" where
  "only_alerts db db' \<longleftrightarrow> (\<exists>p e l. db' = db\<lparr>preferences := p, events := e, deliveries := l\<rparr>)"

lemma only_alerts_refl [intro]: "only_alerts db db"
  unfolding only_alerts_def
  by (rule exI [of _ "preferences db"], rule exI [of _ "events db"], rule exI [of _ "deliveries db"]) simp

lemma only_alerts_preferences:
  assumes "preferences_for db a now = Inr (db1, p)"
  shows "only_alerts db db1"
proof -
  let ?ps = "insert_new np_account_id (default_preferences a now) (preferences db)"
  have "db\<lparr>preferences := ?ps\<rparr> = db\<lparr>preferences := ?ps, events := events db, deliveries := deliveries db\<rparr>"
    by simp
  then show ?thesis
    unfolding only_alerts_def preferences_forE(1) [OF assms] by blast
qed

lemma only_alerts_publish:
  assumes "publish db1 e now = Inr (db', r)" "only_alerts db db1"
  shows "only_alerts db db'"
proof -
  from assms(2) obtain p es l where "db1 = db\<lparr>preferences := p, events := es, deliveries := l\<rparr>"
    by (auto simp: only_alerts_def)
  then show ?thesis
    unfolding only_alerts_def publish_Inr(1) [OF assms(1)] create_active_deliveries_def
      insert_deliveries_def by auto
qed

lemma only_alerts_partner:
  "enqueue_partner_event db now i rc k a kd src key fd = Inr (db', r) \<Longrightarrow> only_alerts db db'"
  by (auto simp: enqueue_partner_event_def bind_exc_Inr_iff split: if_splits option.splits
      dest: only_alerts_preferences elim!: only_alerts_publish)

lemma enqueue_frame:
  assumes "enqueue db now i a = Inr (db', r)"
  shows "only_alerts db db'"
  using assms
  by (cases a) (auto simp: enqueue_countdown_event_def enqueue_quiz_event_def
      enqueue_together_correction_event_def enqueue_smooch_event_def enqueue_note_edit_event_def
      bind_exc_Inr_iff split: option.splits if_splits
      dest: only_alerts_preferences only_alerts_partner elim!: only_alerts_publish)

lemma correction_event_frame:
  "enqueue_together_correction_event db now i k a q d n = Inr (db', r) \<Longrightarrow> only_alerts db db'"
  using enqueue_frame [of db now i "Correction_alert k a q d n"] by simp

lemma smooch_event_frame:
  "enqueue_smooch_event db now i k s sender rc t = Inr (db', r) \<Longrightarrow> only_alerts db db'"
  using enqueue_frame [of db now i "Smooch_alert k s sender rc t"] by simp

lemma note_edit_event_frame:
  "enqueue_note_edit_event db now i k a n viewing = Inr (db', r) \<Longrightarrow> only_alerts db db'"
  using enqueue_frame [of db now i "Note_edit_alert k a n viewing"] by simp

section \<open>Every operation\<close>

lemma events_ok_delete_events: "events_ok db \<Longrightarrow> events_ok (delete_events p db)"
  by (fastforce simp: events_ok_def delete_events_def Let_def set_delete_where distinct_delete_where
      delivery_ok_def select_def)

lemma events_ok_delete_devices: "events_ok db \<Longrightarrow> events_ok (delete_devices p db)"
  by (fastforce simp: events_ok_def delete_devices_def Let_def set_delete_where distinct_delete_where
      delivery_ok_def select_def)

lemma events_ok_purge: "events_ok db \<Longrightarrow> events_ok (purge_notification_state db now)"
  by (simp add: purge_notification_state_def events_ok_delete_events events_ok_delete_devices)

text \<open>Replacing one member's choices and then discarding what they no longer want.\<close>

definition set_preferences ::
    "notification_preference \<Rightarrow> 'a events_db_scheme \<Rightarrow> 'a events_db_scheme" where
  "set_preferences item db = db\<lparr>preferences :=
     update_where (\<lambda>p. np_account_id p = np_account_id item) (\<lambda>_. item) (preferences db)\<rparr>"

lemma discard_set_preferences:
  "events (discard_disabled_events (set_preferences item db) item)
     = filter (\<lambda>e. \<not> (ne_recipient_id e = np_account_id item \<and> ne_kind e \<in> set (disabled_kinds item)))
         (events db)"
  "preferences (discard_disabled_events (set_preferences item db) item)
     = preferences (set_preferences item db)"
  "devices (discard_disabled_events (set_preferences item db) item) = devices db"
  by (auto simp: discard_disabled_events_def set_preferences_def delete_events_def Let_def
      delete_where_def)

lemma preferences_discard [simp]: "preferences (discard_disabled_events db item) = preferences db"
  by (simp add: discard_disabled_events_def delete_events_def Let_def)

lemma discard_deliveries_iff:
  "deliveries (discard_disabled_events (set_preferences item db) item)
     = (if disabled_kinds item = [] then deliveries db
        else filter (\<lambda>l. nl_event_id l \<notin> ne_id ` {e \<in> set (events db).
               ne_recipient_id e = np_account_id item \<and> ne_kind e \<in> set (disabled_kinds item)})
             (deliveries db))"
  by (simp add: discard_disabled_events_def set_preferences_def delete_events_def Let_def
      delete_where_def select_def)

lemma discard_deliveries:
  "set (deliveries (discard_disabled_events (set_preferences item db) item))
     \<subseteq> {l \<in> set (deliveries db). \<forall>e \<in> set (events db). ne_id e = nl_event_id l \<longrightarrow>
          \<not> (ne_recipient_id e = np_account_id item \<and> ne_kind e \<in> set (disabled_kinds item))}"
  "distinct (map delivery_key (deliveries db)) \<Longrightarrow>
     distinct (map delivery_key (deliveries (discard_disabled_events (set_preferences item db) item)))"
  by (auto simp: discard_deliveries_iff distinct_map_filter image_iff)

lemma events_ok_set_preferences:
  assumes "events_ok db"
  shows "events_ok (discard_disabled_events (set_preferences item db) item)"
proof -
  let ?db = "discard_disabled_events (set_preferences item db) item"
  have prefs: "distinct (map np_account_id (preferences ?db))"
    unfolding discard_set_preferences using assms
    by (simp add: set_preferences_def events_ok_def map_replace_row)
  have wanted: "\<forall>e \<in> set (events ?db). key_ok e \<and> wanted (preferences ?db) e"
    unfolding discard_set_preferences using assms
    by (auto simp: events_ok_def wanted_def set_preferences_def set_update_where)
  have "\<forall>l \<in> set (deliveries ?db). delivery_ok (events ?db) (devices ?db) l"
  proof
    fix l assume l: "l \<in> set (deliveries ?db)"
    then have "l \<in> set (deliveries db)" using discard_deliveries(1) by blast
    then obtain e d where ed: "e \<in> set (events db)" "d \<in> set (devices db)" "nl_event_id l = ne_id e"
        "nl_device_id l = nd_id d" "nd_account_id d = ne_recipient_id e"
      using assms by (auto simp: events_ok_def delivery_ok_def)
    then have "e \<in> set (events ?db)"
      using discard_deliveries(1) [of item db] l by (auto simp: discard_set_preferences)
    with ed show "delivery_ok (events ?db) (devices ?db) l"
      by (auto simp: delivery_ok_def discard_set_preferences)
  qed
  with prefs wanted discard_deliveries(2) [of db item] assms show ?thesis
    by (simp add: events_ok_def discard_set_preferences distinct_map_filter)
qed

lemma update_preferences_Inr:
  assumes "update_preferences db a payload now = Inr (db', r)"
  obtains db1 where "r = payload\<lparr>np_account_id := a, np_updated_at := now\<rparr>"
    and "db1 = db\<lparr>preferences := insert_new np_account_id (default_preferences a now) (preferences db)\<rparr>"
    and "db' = discard_disabled_events (set_preferences r db1) r"
  using assms preferences_forE(1,2)
  by (fastforce simp: update_preferences_def bind_exc_Inr_iff Let_def set_preferences_def)

lemma events_ok_update_preferences:
  "update_preferences db a payload now = Inr (db', r) \<Longrightarrow> events_ok db \<Longrightarrow> events_ok db'"
  by (erule update_preferences_Inr) (simp add: events_ok_set_preferences events_ok_default)

text \<open>Rows of \<^verbatim>\<open>notification_devices\<close> keep their id, account and installation.\<close>

lemma events_ok_update_devices:
  assumes "events_ok db"
    and "\<And>d. nd_id (f d) = nd_id d \<and> nd_account_id (f d) = nd_account_id d \<and> nd_device_id (f d) = nd_device_id d"
  shows "events_ok (db\<lparr>devices := update_where p f (devices db)\<rparr>)"
proof -
  have "delivery_ok es (update_where p f ds) l" if "delivery_ok es ds l" for es ds l
  proof -
    from that obtain e d where "e \<in> set es" "d \<in> set ds" "nl_event_id l = ne_id e"
        "nl_device_id l = nd_id d" "nd_account_id d = ne_recipient_id e"
      by (auto simp: delivery_ok_def)
    with assms(2) show ?thesis
      unfolding delivery_ok_def update_where_def
      by (intro bexI [of _ e] bexI [of _ "if p d then f d else d"]) auto
  qed
  with assms show ?thesis
    by (simp add: events_ok_def map_update_where device_key_def)
qed

lemma events_ok_add_device:
  "events_ok db \<Longrightarrow> nd_id d \<notin> nd_id ` set (devices db) \<Longrightarrow> device_key d \<notin> device_key ` set (devices db)
     \<Longrightarrow> events_ok (db\<lparr>devices := devices db @ [d]\<rparr>)"
  by (auto simp: events_ok_def delivery_ok_def) blast

lemma register_device_Inr:
  assumes "register_device db a i dev plat v enabled now = Inr (db', d)"
  obtains rows where
    "(if list_ex (\<lambda>d. nd_account_id d = a \<and> nd_device_id d = dev) (devices db)
      then Inr (update_where (\<lambda>d. nd_account_id d = a \<and> nd_device_id d = dev)
             (\<lambda>d. d\<lparr>nd_platform := plat, nd_app_version_code := v, nd_notifications_enabled := enabled,
                    nd_last_seen_at := now, nd_disabled_at := None\<rparr>) (devices db))
      else insert_unique nd_id
             \<lparr>nd_id = i, nd_account_id = a, nd_device_id = dev, nd_platform = plat,
              nd_app_version_code = v, nd_notifications_enabled = enabled, nd_last_seen_at = now,
              nd_disabled_at = None\<rparr> (devices db)) = Inr rows"
    and "scalar (\<lambda>d. nd_account_id d = a \<and> nd_device_id d = dev) rows = Some d"
    and "db' = (if enabled then ensure_pending_deliveries (db\<lparr>devices := rows\<rparr>) d now
                else db\<lparr>devices := rows\<rparr>)"
  using assms by (auto simp: register_device_def bind_exc_Inr_iff Let_def split: option.splits)

lemma register_device_preferences:
  "register_device db a i dev plat v enabled now = Inr (db', d) \<Longrightarrow> preferences db' = preferences db"
  by (erule register_device_Inr) (simp add: ensure_pending_deliveries_def)

lemma events_ok_register_device:
  assumes "register_device db a i dev plat v enabled now = Inr (db', d)" "events_ok db"
  shows "events_ok db'"
proof -
  let ?same = "\<lambda>d. nd_account_id d = a \<and> nd_device_id d = dev"
  let ?beat = "\<lambda>d. d\<lparr>nd_platform := plat, nd_app_version_code := v,
    nd_notifications_enabled := enabled, nd_last_seen_at := now, nd_disabled_at := None\<rparr>"
  let ?row = "\<lparr>nd_id = i, nd_account_id = a, nd_device_id = dev, nd_platform = plat,
    nd_app_version_code = v, nd_notifications_enabled = enabled, nd_last_seen_at = now,
    nd_disabled_at = None\<rparr>"
  from assms(1) obtain rows where
    rows: "(if list_ex ?same (devices db) then Inr (update_where ?same ?beat (devices db))
            else insert_unique nd_id ?row (devices db)) = Inr rows"
    and d: "scalar ?same rows = Some d"
    and db': "db' = (if enabled then ensure_pending_deliveries (db\<lparr>devices := rows\<rparr>) d now
                     else db\<lparr>devices := rows\<rparr>)"
    by (rule register_device_Inr)
  have "events_ok (db\<lparr>devices := rows\<rparr>)"
  proof (cases "list_ex ?same (devices db)")
    case True
    with rows assms(2) show ?thesis by (auto intro!: events_ok_update_devices)
  next
    case False
    then have "device_key ?row \<notin> device_key ` set (devices db)"
      by (auto simp: list_ex_iff device_key_def)
    with False rows assms(2) show ?thesis
      by (auto simp: insert_unique_Inr intro!: events_ok_add_device)
  qed
  with scalar_Some [OF d] show ?thesis
    by (auto simp: db' intro: events_ok_pending_deliveries)
qed

lemma events_ok_disable_device: "events_ok db \<Longrightarrow> events_ok (disable_device db a dev now)"
  by (auto simp: disable_device_def intro!: events_ok_update_devices)

text \<open>The interface of the service: every operation keeps the invariant.\<close>

interpretation notifications: preserving handle_notification events_ok
proof
  fix db db' :: "'a events_db_scheme" and op r
  assume "events_ok db" "handle_notification db op = Inr (db', r)"
  then show "events_ok db'"
  proof (cases op)
    case (Alert now i a)
    with \<open>handle_notification db op = _\<close> obtain q where "enqueue db now i a = Inr (db', q)"
      by (cases "enqueue db now i a") auto
    from enqueue_ok [OF this] \<open>events_ok db\<close> show ?thesis by (simp add: alert_ok_def)
  next
    case (Get_preferences a now)
    with \<open>handle_notification db op = _\<close> obtain p where "preferences_for db a now = Inr (db', p)"
      by (cases "preferences_for db a now") (auto simp: get_preferences_def)
    then show ?thesis using \<open>events_ok db\<close> by (rule events_ok_preferences_for)
  next
    case (Update_preferences a payload now)
    with \<open>handle_notification db op = _\<close> obtain p where "update_preferences db a payload now = Inr (db', p)"
      by (cases "update_preferences db a payload now") auto
    then show ?thesis using \<open>events_ok db\<close> by (rule events_ok_update_preferences)
  next
    case (Register_device a i dev plat v enabled now)
    with \<open>handle_notification db op = _\<close> obtain d
      where "register_device db a i dev plat v enabled now = Inr (db', d)"
      by (cases "register_device db a i dev plat v enabled now") auto
    then show ?thesis using \<open>events_ok db\<close> by (rule events_ok_register_device)
  qed (auto simp: events_ok_disable_device events_ok_purge)
qed

section \<open>Properties\<close>


text \<open>A couple with one phone registered by account 12.\<close>

definition orbit_core :: core_db where
  "orbit_core =
     \<lparr>accounts = [], sessions = [],
      couples = [\<lparr>cpl_id = 7, cpl_created_at = 0, cpl_updated_at = 0, cpl_ended_at = None,
        cpl_proximity_threshold_m = 100, cpl_proximity_processed_through = None,
        cpl_proximity_algorithm_version = 4, cpl_home_timezone = ''UTC''\<rparr>],
      members = [\<lparr>mem_couple_id = 7, mem_account_id = 11, mem_joined_at = 0, mem_left_at = None,
                   mem_intimacy_enabled = True, mem_location_enabled = True\<rparr>,
                 \<lparr>mem_couple_id = 7, mem_account_id = 12, mem_joined_at = 0, mem_left_at = None,
                   mem_intimacy_enabled = True, mem_location_enabled = True\<rparr>]\<rparr>"

definition orbit_db :: events_db where
  "orbit_db = core_db.extend orbit_core
     \<lparr>activity_events = [], preferences = [],
      devices = [\<lparr>nd_id = 50, nd_account_id = 12, nd_device_id = 9, nd_platform = ''android'',
        nd_app_version_code = 40, nd_notifications_enabled = True, nd_last_seen_at = 0,
        nd_disabled_at = None\<rparr>],
      events = [], deliveries = []\<rparr>"

lemma orbit_db_fields [simp]:
  "accounts orbit_db = []" "sessions orbit_db = []"
  "couples orbit_db = couples orbit_core" "members orbit_db = members orbit_core"
  "activity_events orbit_db = []" "preferences orbit_db = []" "events orbit_db = []"
  "deliveries orbit_db = []"
  "devices orbit_db = [\<lparr>nd_id = 50, nd_account_id = 12, nd_device_id = 9, nd_platform = ''android'',
     nd_app_version_code = 40, nd_notifications_enabled = True, nd_last_seen_at = 0,
     nd_disabled_at = None\<rparr>]"
  by (simp_all add: orbit_db_def orbit_core_def core_db.extend_def)

lemma orbit_partner [simp]:
  "partner_id_for orbit_db 7 11 = Some 12" "partner_id_for orbit_db 7 12 = Some 11"
  by (simp_all add: partner_id_for_def scalar_def is_active_def orbit_core_def)

lemma orbit_events_ok [simp]: "events_ok orbit_db"
  by (simp add: events_ok_def)


text \<open>
  C11 A call of the notification service adds at most one alert. It does so only while the
  recipient's master switch and the switch of that kind of alert are on, the alert expires
  after a day, its dedupe key is new for the recipient, and its deliveries go to the
  recipient's own enabled installations, seen in the last thirty days. Otherwise no alert and no
  delivery changes.
\<close>

theorem alert_respects_choices:
  assumes "enqueue db now i a = Inr (db', r)"
  shows "case r of
      None \<Rightarrow> events db' = events db \<and> deliveries db' = deliveries db
    | Some recipient \<Rightarrow>
        (\<exists>p \<in> set (preferences db'). np_account_id p = recipient
           \<and> np_master_enabled p \<and> preference (alert_field a) p)
        \<and> (\<exists>e. events db' = events db @ [e] \<and> ne_recipient_id e = recipient
             \<and> field_of (ne_kind e) = alert_field a \<and> ne_expires_at e = ne_created_at e + EVENT_TTL
             \<and> (\<forall>old \<in> set (events db). event_key old \<noteq> event_key e)
             \<and> (\<forall>l \<in> set (deliveries db') - set (deliveries db).
                  nl_event_id l = ne_id e \<and> nl_displayed_at l = None
                  \<and> (\<exists>d \<in> set (devices db). nd_id d = nl_device_id l \<and> nd_account_id d = recipient
                       \<and> nd_disabled_at d = None \<and> nd_notifications_enabled d
                       \<and> now - ACTIVE_DEVICE_WINDOW \<le> nd_last_seen_at d)))"
proof -
  have "alert_effect db now (alert_field a) db' r"
    using enqueue_ok [OF assms] by (simp add: alert_ok_def)
  then show ?thesis
  proof (cases r)
    case None
    with \<open>alert_effect db now (alert_field a) db' r\<close> show ?thesis by (simp add: alert_effect_def)
  next
    case (Some rc)
    with \<open>alert_effect db now (alert_field a) db' r\<close> obtain e where e:
      "\<exists>p \<in> set (preferences db'). np_account_id p = rc \<and> np_master_enabled p \<and> preference (alert_field a) p"
      "events db' = events db @ [e]" "ne_recipient_id e = rc" "field_of (ne_kind e) = alert_field a"
      "ne_expires_at e = ne_created_at e + EVENT_TTL" "event_key e \<notin> event_key ` set (events db)"
      and new: "\<forall>l \<in> set (deliveries db'). l \<in> set (deliveries db)
        \<or> (\<exists>d \<in> set (devices db). l = new_delivery (ne_id e) (nd_id d) now \<and> receives e now d)"
      by (auto simp: alert_effect_def)
    have "\<forall>l \<in> set (deliveries db') - set (deliveries db).
        nl_event_id l = ne_id e \<and> nl_displayed_at l = None
        \<and> (\<exists>d \<in> set (devices db). nd_id d = nl_device_id l \<and> nd_account_id d = rc
             \<and> nd_disabled_at d = None \<and> nd_notifications_enabled d
             \<and> now - ACTIVE_DEVICE_WINDOW \<le> nd_last_seen_at d)"
      using new e(3) by (force simp: new_delivery_def receives_def)
    moreover have "\<forall>old \<in> set (events db). event_key old \<noteq> event_key e"
      using e(6) by (metis imageI)
    ultimately show ?thesis
      unfolding Some option.case using e(1-5) by blast
  qed
qed

lemma orbit_alert:
  "\<exists>db'. enqueue orbit_db 1000 60 (Note_edit_alert 7 11 5 False) = Inr (db', Some 12)
     \<and> map ne_created_at (events db') = [1000] \<and> map nl_device_id (deliveries db') = [50]"
  by (simp add: enqueue_note_edit_event_def preferences_for_def insert_new_def scalar_def Let_def
      default_preferences_def publish_def insert_unique_def create_active_deliveries_def
      insert_deliveries_def select_def receives_def new_delivery_def ACTIVE_DEVICE_WINDOW_def)

theorem alert_respects_choices_witness:
  "\<exists>db'. enqueue orbit_db 1000 60 (Note_edit_alert 7 11 5 False) = Inr (db', Some 12)
     \<and> (\<exists>p \<in> set (preferences db'). np_account_id p = 12 \<and> np_note_editing_enabled p)"
proof -
  from orbit_alert obtain db' where
    db': "enqueue orbit_db 1000 60 (Note_edit_alert 7 11 5 False) = Inr (db', Some 12)"
    by blast
  from alert_respects_choices [OF this] db' show ?thesis by auto
qed

section \<open>Choices are kept\<close>

text \<open>Operations other than a change of this member's choices.\<close>

fun keeps_choices :: "uuid \<Rightarrow> notification_op \<Rightarrow> bool" where
  "keeps_choices a (Update_preferences b p now) \<longleftrightarrow> a \<noteq> b"
| "keeps_choices a op \<longleftrightarrow> True"

lemma preference_kept_alert:
  assumes "enqueue db now i al = Inr (db', r)" "p \<in> set (preferences db)"
  shows "p \<in> set (preferences db')"
proof -
  have pub: "p \<in> set (preferences db2)"
    if "publish db1 e t = Inr (db2, q)" "p \<in> set (preferences db1)" for db1 e t db2 q
    using publish_Inr(1) [OF that(1)] that(2) by (simp add: create_active_deliveries_def)
  have pref: "p \<in> set (preferences db1)"
    if "preferences_for db b now = Inr (db1, q)" for b db1 q
    using preferences_forE(1) [OF that] assms(2) by (auto simp: set_insert_new)
  have partner: "p \<in> set (preferences db2)"
    if "enqueue_partner_event db now i rc k ac kd src key fd = Inr (db2, q)" for rc k ac kd src key fd db2 q
    using that by (auto simp: enqueue_partner_event_def bind_exc_Inr_iff dest!: pref
        split: if_splits option.splits dest: pub)
  show ?thesis
    using assms
    by (cases al) (auto simp: enqueue_countdown_event_def enqueue_quiz_event_def
        enqueue_together_correction_event_def enqueue_smooch_event_def enqueue_note_edit_event_def
        bind_exc_Inr_iff split: option.splits if_splits dest!: pref dest: pub partner)
qed

lemma preference_kept:
  assumes "keeps_choices (np_account_id p) op" "p \<in> set (preferences db)"
  shows "p \<in> set (preferences (step handle_notification db op))"
proof (cases op)
  case (Alert now i a)
  then show ?thesis
    using assms(2) preference_kept_alert [of db now i a]
    by (cases "enqueue db now i a") (auto simp: step_def)
next
  case (Get_preferences b now)
  then show ?thesis
    using assms(2) preferences_for_Inr [of db b now]
    by (auto simp: step_def get_preferences_def set_insert_new)
next
  case (Update_preferences b payload now)
  show ?thesis
  proof (cases "update_preferences db b payload now")
    case (Inl e)
    with Update_preferences assms(2) show ?thesis by (simp add: step_def)
  next
    case (Inr x)
    then obtain db' r where x: "update_preferences db b payload now = Inr (db', r)"
      by (cases x) auto
    then have "p \<in> set (preferences db')"
      by (rule update_preferences_Inr) (use assms Update_preferences in
        \<open>auto simp: set_preferences_def set_insert_new set_update_where\<close>)
    with Update_preferences x show ?thesis by (simp add: step_def)
  qed
next
  case (Register_device b i dev plat v en now)
  with assms(2) show ?thesis
    by (cases "register_device db b i dev plat v en now")
      (auto simp: step_def dest: register_device_preferences)
qed (use assms(2) in \<open>simp_all add: step_def disable_device_def purge_notification_state_def
       delete_events_def delete_devices_def Let_def\<close>)

lemma preference_kept_run:
  "list_all (keeps_choices (np_account_id p)) ops \<Longrightarrow> p \<in> set (preferences db)
     \<Longrightarrow> p \<in> set (preferences (run_ops handle_notification db ops))"
  by (induction ops arbitrary: db) (auto intro: preference_kept)

lemma update_preferences_stored:
  "update_preferences db a payload now = Inr (db', item) \<Longrightarrow>
     item \<in> set (preferences db') \<and> np_account_id item = a
     \<and> disabled_kinds item = disabled_kinds payload"
proof (erule update_preferences_Inr)
  fix db1
  assume item: "item = payload\<lparr>np_account_id := a, np_updated_at := now\<rparr>"
    and db1: "db1 = db\<lparr>preferences := insert_new np_account_id (default_preferences a now) (preferences db)\<rparr>"
    and db': "db' = discard_disabled_events (set_preferences item db1) item"
  have "preference f item = preference f payload" for f
    by (cases f) (simp_all add: item)
  then have "disabled_kinds item = disabled_kinds payload"
    by (simp add: disabled_kinds_def item)
  moreover have "a \<in> np_account_id ` set (preferences db1)"
    by (simp add: db1 keys_insert_new default_preferences_def)
  then have "item \<in> set (preferences db')"
    by (auto simp: db' set_preferences_def set_update_where item)
  ultimately show ?thesis by (simp add: item)
qed

text \<open>
  Opting out is retroactive and lasts: once a member has saved their choices, no alert of a
  kind they switched off is stored for them, whatever alerts are raised afterwards, until they
  change their choices again.
\<close>

theorem opt_out_lasts:
  assumes "events_ok db" "update_preferences db a payload now = Inr (db', item)"
    and "list_all (keeps_choices a) ops"
    and "e \<in> set (events (run_ops handle_notification db' ops))" "ne_recipient_id e = a"
  shows "np_master_enabled payload \<and> preference (field_of (ne_kind e)) payload"
proof -
  note item = update_preferences_stored [OF assms(2)]
  have "events_ok (run_ops handle_notification db' ops)"
    by (intro notifications.inv_run) (rule events_ok_update_preferences [OF assms(2,1)])
  moreover have "item \<in> set (preferences (run_ops handle_notification db' ops))"
    using item assms(3) preference_kept_run by blast
  ultimately have "ne_kind e \<notin> set (disabled_kinds item)"
    using assms(4,5) item unfolding events_ok_def wanted_def by metis
  with item show ?thesis by (simp add: disabled_iff_field)
qed

definition quiet :: notification_preference where
  "quiet = (default_preferences 12 0)\<lparr>np_note_editing_enabled := False\<rparr>"

theorem opt_out_lasts_witness:
  "\<exists>db' item. update_preferences orbit_db 12 quiet 500 = Inr (db', item)
     \<and> (\<forall>e \<in> set (events (run_ops handle_notification db'
             [Alert 1000 60 (Note_edit_alert 7 11 5 False),
              Alert 2000 61 (Smooch_alert 7 3 (Some 11) (Some 12) 2000)])).
          ne_recipient_id e = 12 \<longrightarrow> ne_kind e \<noteq> Nk_note_editing)"
proof -
  obtain db' item where u: "update_preferences orbit_db 12 quiet 500 = Inr (db', item)"
    by (simp add: update_preferences_def preferences_for_def insert_new_def scalar_def Let_def
        default_preferences_def)
  have "ne_kind e \<noteq> Nk_note_editing"
    if "e \<in> set (events (run_ops handle_notification db'
             [Alert 1000 60 (Note_edit_alert 7 11 5 False),
              Alert 2000 61 (Smooch_alert 7 3 (Some 11) (Some 12) 2000)]))"
      "ne_recipient_id e = 12" for e
  proof -
    have "np_master_enabled quiet \<and> preference (field_of (ne_kind e)) quiet"
      by (rule opt_out_lasts [OF _ u _ that]) simp_all
    then show ?thesis by (auto simp: quiet_def)
  qed
  with u show ?thesis by blast
qed

section \<open>The note-editing cooldown\<close>

text \<open>When a recipient was told that \<open>actor\<close> edits \<open>doc\<close>.\<close>

definition note_edit_log :: "uuid \<Rightarrow> uuid \<Rightarrow> uuid \<Rightarrow> 'a events_db_scheme \<Rightarrow> instant list" where
  "note_edit_log recipient actor doc db =
     map ne_created_at (filter (\<lambda>e. ne_recipient_id e = recipient \<and> ne_actor_id e = Some actor
       \<and> ne_kind e = Nk_note_editing \<and> ne_source_id e = doc) (events db))"

text \<open>A saved edit: the time, the fresh event id, the couple, and whether the partner is looking.\<close>

type_synonym note_edit = "instant \<times> uuid \<times> uuid \<times> bool"

definition notify_edit ::
    "uuid \<Rightarrow> uuid \<Rightarrow> 'a events_db_scheme \<Rightarrow> note_edit \<Rightarrow> exc + 'a events_db_scheme \<times> uuid option" where
  "notify_edit actor doc db edit =
     (case edit of (now, i, k, viewing) \<Rightarrow> enqueue_note_edit_event db now i k actor doc viewing)"

lemma note_edit_admits:
  assumes "enqueue_note_edit_event db now i k actor doc viewing = Inr (db', r)"
  shows "note_edit_log rc actor doc db' = note_edit_log rc actor doc db
    \<or> note_edit_log rc actor doc db' = note_edit_log rc actor doc db @ [now]
      \<and> length (filter (\<lambda>t. now - NOTE_EDIT_COOLDOWN < t) (note_edit_log rc actor doc db)) < 1"
proof (cases "viewing \<or> partner_id_for db k actor = None")
  case True
  with assms show ?thesis by (auto simp: enqueue_note_edit_event_def split: if_splits)
next
  case False
  then obtain rc' where rc': "\<not> viewing" "partner_id_for db k actor = Some rc'" by auto
  from assms obtain db1 p where p: "preferences_for db rc' now = Inr (db1, p)"
    and rest: "(if \<not> np_master_enabled p \<or> \<not> np_note_editing_enabled p then Inr (db1, None)
       else (case scalar (recent_note_edit rc' actor doc now) (events db1) of
               Some _ \<Rightarrow> Inr (db1, None)
             | None \<Rightarrow> publish db1 \<lparr>ne_id = i, ne_recipient_id = rc', ne_couple_id = k,
                 ne_actor_id = Some actor, ne_kind = Nk_note_editing, ne_source_id = doc,
                 ne_dedupe_key = [Lit ''note-edit:'', Id doc, Lit '':'', Id actor, Lit '':'', At_time now],
                 ne_created_at = now, ne_expires_at = now + EVENT_TTL, ne_legacy_consumed_at = None\<rparr> now)) = Inr (db', r)"
    by (auto simp: enqueue_note_edit_event_def bind_exc_Inr_iff rc')
  have same: "events db1 = events db" by (simp add: preferences_forE(1) [OF p])
  show ?thesis
  proof (cases "events db' = events db")
    case True
    then show ?thesis by (simp add: note_edit_log_def)
  next
    case False
    with rest same have none: "scalar (recent_note_edit rc' actor doc now) (events db) = None"
      and "events db' = events db @ [\<lparr>ne_id = i, ne_recipient_id = rc', ne_couple_id = k,
                 ne_actor_id = Some actor, ne_kind = Nk_note_editing, ne_source_id = doc,
                 ne_dedupe_key = [Lit ''note-edit:'', Id doc, Lit '':'', Id actor, Lit '':'', At_time now],
                 ne_created_at = now, ne_expires_at = now + EVENT_TTL, ne_legacy_consumed_at = None\<rparr>]"
      by (auto split: if_splits option.splits dest!: publish_Inr(1) simp: create_active_deliveries_def)
    then show ?thesis
      by (auto simp: note_edit_log_def scalar_None recent_note_edit_def filter_empty_conv)
  qed
qed

interpretation note_edits: rolling_limit "notify_edit actor doc" "note_edit_log recipient actor doc"
    fst 1 NOTE_EDIT_COOLDOWN
  for actor doc recipient
  by unfold_locales (auto simp: notify_edit_def dest: note_edit_admits split: prod.splits)

text \<open>
  However often a document is saved, the partner is alerted at most once in any thirty
  minutes per document and editor.
\<close>

theorem note_edit_cooldown:
  assumes "note_edit_log recipient actor doc db = []" "sorted (map fst edits)"
    and "t \<in> set (note_edit_log recipient actor doc (run_ops (notify_edit actor doc) db edits))"
    and "u \<in> set (note_edit_log recipient actor doc (run_ops (notify_edit actor doc) db edits))"
    and "t \<noteq> u"
  shows "NOTE_EDIT_COOLDOWN \<le> \<bar>t - u\<bar>"
proof (rule ccontr)
  define ts where "ts = note_edit_log recipient actor doc (run_ops (notify_edit actor doc) db edits)"
  assume close: "\<not> NOTE_EDIT_COOLDOWN \<le> \<bar>t - u\<bar>"
  have "never_exceeds 1 NOTE_EDIT_COOLDOWN ts"
    unfolding ts_def using assms(1,2)
    by (intro note_edits.limited_run) (auto simp: never_exceeds_def in_window_at_def)
  then have "length (in_window_at NOTE_EDIT_COOLDOWN (max t u) ts) \<le> 1"
    by (simp add: never_exceeds_def)
  moreover have "{t, u} \<subseteq> set (in_window_at NOTE_EDIT_COOLDOWN (max t u) ts)"
    using assms(3,4) close by (auto simp: in_window_at_def ts_def NOTE_EDIT_COOLDOWN_def)
  then have "card {t, u} \<le> length (in_window_at NOTE_EDIT_COOLDOWN (max t u) ts)"
    by (meson card_length card_mono finite_set le_trans)
  ultimately show False using assms(5) by simp
qed

lemma orbit_edits:
  "note_edit_log 12 11 5 (run_ops (notify_edit 11 5) orbit_db
     [(1000, 60, 7, False), (2000, 61, 7, False), (1800001000, 62, 7, False)])
   = [1000, 1800001000]"
  by (simp add: step_def notify_edit_def enqueue_note_edit_event_def preferences_for_def
      insert_new_def scalar_def Let_def default_preferences_def publish_def insert_unique_def
      create_active_deliveries_def insert_deliveries_def select_def receives_def new_delivery_def
      ACTIVE_DEVICE_WINDOW_def note_edit_log_def recent_note_edit_def NOTE_EDIT_COOLDOWN_def
      event_key_def delivery_key_def partner_id_for_def is_active_def orbit_core_def)

theorem note_edit_cooldown_witness:
  "note_edit_log 12 11 5 (run_ops (notify_edit 11 5) orbit_db
     [(1000, 60, 7, False), (2000, 61, 7, False), (1800001000, 62, 7, False)])
     = [1000, 1800001000]
   \<and> NOTE_EDIT_COOLDOWN \<le> \<bar>1000 - 1800001000\<bar>"
proof
  show "NOTE_EDIT_COOLDOWN \<le> \<bar>1000 - 1800001000\<bar>"
    by (rule note_edit_cooldown [where db = orbit_db and recipient = 12 and actor = 11 and doc = 5
          and edits = "[(1000, 60, 7, False), (2000, 61, 7, False), (1800001000, 62, 7, False)]"])
      (simp_all only: orbit_edits, simp_all add: note_edit_log_def)
qed (rule orbit_edits)

section \<open>Alerts do not fail\<close>

lemma publish_returns:
  assumes "ne_id event \<notin> ne_id ` set (events db)"
    and "\<And>e. e \<in> set (events db) \<Longrightarrow> event_key e \<noteq> event_key event"
  shows "\<exists>db' r. publish db event now = Inr (db', r)"
  using publish_fresh [of event db now] assms by (metis imageE)

lemma preferences_for_events:
  "preferences_for db a now = Inr (db1, p) \<Longrightarrow> events db1 = events db"
  by (drule preferences_forE(1)) simp

lemma partner_event_returns:
  assumes "i \<notin> ne_id ` set (events db)"
  shows "\<exists>db' r. enqueue_partner_event db now i rc k a kd src key fd = Inr (db', r)"
proof -
  obtain db1 p where p: "preferences_for db rc now = Inr (db1, p)"
    using preferences_for_Inr by blast
  show ?thesis
    using assms publish_returns [of _ db1 now]
    by (fastforce simp: enqueue_partner_event_def p preferences_for_events [OF p] scalar_None
        event_key_def split: option.splits)
qed

lemma enqueue_returns:
  assumes "events_ok db" "i \<notin> ne_id ` set (events db)"
    and "\<And>k s sender rc t e. a = Smooch_alert k s sender rc t \<Longrightarrow> e \<in> set (events db)
      \<Longrightarrow> ne_kind e = Nk_smooch_received \<Longrightarrow> ne_source_id e \<noteq> s"
  shows "\<exists>db' r. enqueue db now i a = Inr (db', r)"
proof -
  have keys: "key_ok e" if "e \<in> set (events db)" for e
    using assms(1) that by (simp add: events_ok_def)
  show ?thesis
  proof (cases a)
    case (Smooch_alert k s sender rc t)
    have "event_key e \<noteq> event_key x"
      if "e \<in> set (events db)" "ne_dedupe_key x = [Lit ''smooch:'', Id s]" for e x
      using keys [OF that(1)] assms(3) [OF Smooch_alert that(1)] that(2)
      by (auto simp: event_key_def key_ok_def)
    note fresh = this
    show ?thesis
    proof (cases "rc = None \<or> sender = None")
      case True
      then show ?thesis by (auto simp: Smooch_alert enqueue_smooch_event_def split: option.splits)
    next
      case False
      then obtain r1 s1 where some: "rc = Some r1" "sender = Some s1" by auto
      obtain db1 p where p: "preferences_for db r1 now = Inr (db1, p)"
        using preferences_for_Inr by blast
      have "\<exists>db' r. publish db1
          \<lparr>ne_id = i, ne_recipient_id = r1, ne_couple_id = k, ne_actor_id = Some s1,
           ne_kind = Nk_smooch_received, ne_source_id = s, ne_dedupe_key = [Lit ''smooch:'', Id s],
           ne_created_at = t, ne_expires_at = t + EVENT_TTL, ne_legacy_consumed_at = None\<rparr> now = Inr (db', r)"
        using assms(2) fresh by (intro publish_returns) (simp_all add: preferences_for_events [OF p])
      then show ?thesis
        by (simp add: Smooch_alert enqueue_smooch_event_def some p)
    qed
  next
    case (Note_edit_alert k ac n viewing)
    have "event_key e \<noteq> (rc, [Lit ''note-edit:'', Id n, Lit '':'', Id ac, Lit '':'', At_time now])"
      if "e \<in> set (events db)" "\<not> recent_note_edit rc ac n now e" for e rc
      using keys [OF that(1)] that(2)
      by (auto simp: event_key_def key_ok_def recent_note_edit_def NOTE_EDIT_COOLDOWN_def)
    note fresh = this
    show ?thesis
    proof (cases "viewing \<or> partner_id_for db k ac = None")
      case True
      then show ?thesis by (auto simp: Note_edit_alert enqueue_note_edit_event_def)
    next
      case False
      then obtain r1 where r1: "\<not> viewing" "partner_id_for db k ac = Some r1" by auto
      obtain db1 p where p: "preferences_for db r1 now = Inr (db1, p)"
        using preferences_for_Inr by blast
      show ?thesis
      proof (cases "scalar (recent_note_edit r1 ac n now) (events db1)")
        case (Some e)
        then show ?thesis by (simp add: Note_edit_alert enqueue_note_edit_event_def r1 p)
      next
        case None
        then have old: "\<forall>e \<in> set (events db). \<not> recent_note_edit r1 ac n now e"
          by (simp add: scalar_None preferences_for_events [OF p])
        have "\<exists>db' r. publish db1
          \<lparr>ne_id = i, ne_recipient_id = r1, ne_couple_id = k, ne_actor_id = Some ac,
           ne_kind = Nk_note_editing, ne_source_id = n,
           ne_dedupe_key = [Lit ''note-edit:'', Id n, Lit '':'', Id ac, Lit '':'', At_time now],
           ne_created_at = now, ne_expires_at = now + EVENT_TTL, ne_legacy_consumed_at = None\<rparr> now = Inr (db', r)"
          using assms(2) fresh [where rc = r1] old
          by (intro publish_returns) (simp_all add: preferences_for_events [OF p] event_key_def)
        then show ?thesis
          by (simp add: Note_edit_alert enqueue_note_edit_event_def r1 p None)
      qed
    qed
  qed (auto simp: enqueue_countdown_event_def enqueue_quiz_event_def
      enqueue_together_correction_event_def partner_event_returns assms(2) split: option.splits)
qed

text \<open>
  C40 Raising an alert never fails: with a fresh event id, and a smooch that was not announced
  yet, no call violates a unique constraint of the table, so the transaction that raises it
  is not lost.
\<close>

theorem alerts_never_fail:
  assumes "events_ok db" "i \<notin> ne_id ` set (events db)"
    and "\<And>k s sender rc t e. a = Smooch_alert k s sender rc t \<Longrightarrow> e \<in> set (events db)
      \<Longrightarrow> ne_kind e = Nk_smooch_received \<Longrightarrow> ne_source_id e \<noteq> s"
  shows "\<exists>db' r. enqueue db now i a = Inr (db', r)"
  using assms by (rule enqueue_returns)

theorem alerts_never_fail_witness:
  "\<exists>db' r. enqueue orbit_db 1000 60 (Smooch_alert 7 3 (Some 11) (Some 12) 1000) = Inr (db', r)"
  by (rule alerts_never_fail) simp_all

section \<open>The activity feed\<close>

definition feed :: "uuid \<Rightarrow> 'a events_db_scheme \<Rightarrow> activity_event list" where
  "feed k db = filter (\<lambda>e. act_couple_id e = k) (activity_events db)"

lemma max_sequence_bound: "e \<in> set (feed k db) \<Longrightarrow> act_sequence e \<le> max_sequence db k"
  by (simp add: feed_def max_sequence_def select_def)

lemma feed_record_activity:
  "feed k (record_activity db c) =
     (if act_couple_id c \<noteq> k \<or> act_dedupe_key c \<in> act_dedupe_key ` set (feed k db) then feed k db
      else feed k db @ [c\<lparr>act_sequence := max_sequence db k + 1\<rparr>])"
proof (cases "scalar (\<lambda>e. act_couple_id e = act_couple_id c \<and> act_dedupe_key e = act_dedupe_key c)
    (activity_events db)")
  case None
  then have "record_activity db c = db\<lparr>activity_events := activity_events db
      @ [c\<lparr>act_sequence := max_sequence db (act_couple_id c) + 1\<rparr>]\<rparr>"
    by (simp add: record_activity_def Let_def)
  with None [unfolded scalar_None] show ?thesis by (auto simp: feed_def)
next
  case (Some e)
  from scalar_Some [OF this] Some show ?thesis
    by (auto simp: record_activity_def feed_def intro: rev_image_eqI)
qed

text \<open>
  The activity feed of a couple is an ordered log: however services record into it, its
  sequence numbers are strictly increasing and no dedupe key occurs twice, so repeating a
  recorded event changes nothing and a client that has seen sequence n misses no later event.
\<close>

theorem activity_feed_ordered:
  assumes "sorted_wrt (<) (map act_sequence (feed k db))" "distinct (map act_dedupe_key (feed k db))"
  shows "sorted_wrt (<) (map act_sequence (feed k (fold (\<lambda>c db. record_activity db c) cs db)))
    \<and> distinct (map act_dedupe_key (feed k (fold (\<lambda>c db. record_activity db c) cs db)))
    \<and> (\<exists>later. feed k (fold (\<lambda>c db. record_activity db c) cs db) = feed k db @ later)"
  using assms
proof (induction cs arbitrary: db)
  case Nil
  then show ?case by simp
next
  case (Cons c cs)
  have "sorted_wrt (<) (map act_sequence (feed k (record_activity db c)))"
    using Cons.prems(1) max_sequence_bound [of _ k db]
    by (auto simp: feed_record_activity sorted_wrt_append less_Suc_eq_le)
  moreover have "distinct (map act_dedupe_key (feed k (record_activity db c)))"
    using Cons.prems(2) by (auto simp: feed_record_activity)
  moreover have "\<exists>later. feed k (record_activity db c) = feed k db @ later"
    by (simp add: feed_record_activity)
  ultimately show ?case
    using Cons.IH [of "record_activity db c"] by auto
qed

definition smooch_activity :: activity_event where
  "smooch_activity = \<lparr>act_couple_id = 7, act_actor_id = Some 11, act_sequence = 0,
     act_dedupe_key = [Lit ''smooch:'', Id 3], act_kind = ''smooch_received'',
     act_target_type = Some ''smooch'', act_target_id = Some 3, act_target_title = None,
     act_emoji = None, act_created_at = 1000\<rparr>"

theorem activity_feed_ordered_witness:
  "sorted_wrt (<) (map act_sequence (feed 7
     (fold (\<lambda>c db. record_activity db c) [smooch_activity, smooch_activity] orbit_db)))
   \<and> length (feed 7 (fold (\<lambda>c db. record_activity db c) [smooch_activity, smooch_activity] orbit_db)) = 1"
proof -
  have "length (feed 7 (fold (\<lambda>c db. record_activity db c) [smooch_activity, smooch_activity] orbit_db)) = 1"
    by (simp add: feed_record_activity) (simp add: feed_def smooch_activity_def)
  with activity_feed_ordered [of 7 orbit_db "[smooch_activity, smooch_activity]"] show ?thesis
    by (simp add: feed_def)
qed

end
