(* ===== verification/Together.thy ===== *)
theory Together
  imports Events Location_Timeline
begin

text \<open>
  Together time: raw samples, minute buckets and daily totals of a couple
  (\<^verbatim>\<open>together_time_service.py\<close>, \<^verbatim>\<open>together_history_service.py\<close>,
  \<^verbatim>\<open>routes/together_time_v2.py\<close>). The proximity domain computes a timeline from the
  samples of a bounded range; this layer stores it, sums it per local day and keeps the
  corrections members make.

  The time zone database is the standard library's \<^verbatim>\<open>zoneinfo\<close>: a parameter
  \<open>tz\<close> that maps a key to a zone, a zone being the two conversions between an instant and
  the microseconds of its wall clock. The surrogate ids of samples and buckets are read by no
  code and left out; new day rows take theirs from \<open>new_id\<close>.
\<close>

section \<open>Time zones\<close>

record zone =
  zone_key :: string
  to_wall :: "instant \<Rightarrow> int"
  to_utc :: "int \<Rightarrow> instant"

type_synonym tzdb = "string \<Rightarrow> zone option"

definition utc_zone :: zone where
  "utc_zone = \<lparr>zone_key = ''UTC'', to_wall = (\<lambda>t. t), to_utc = (\<lambda>w. w)\<rparr>"

definition timezone_or_utc :: "tzdb \<Rightarrow> string \<Rightarrow> zone" where
  "timezone_or_utc tz name = (case tz name of None \<Rightarrow> utc_zone | Some z \<Rightarrow> z)"

definition local_date :: "zone \<Rightarrow> instant \<Rightarrow> date" where
  "local_date z t = to_wall z t div day"

definition day_bounds :: "tzdb \<Rightarrow> date \<Rightarrow> string \<Rightarrow> instant \<times> instant" where
  "day_bounds tz target name =
     (let z = timezone_or_utc tz name in (to_utc z (target * day), to_utc z ((target + 1) * day)))"

definition day_seconds :: "instant \<Rightarrow> instant \<Rightarrow> int" where
  "day_seconds start stop = whole_seconds (stop - start)"

section \<open>Rows\<close>

record location_sample =
  ls_sample_id :: uuid
  ls_account_id :: uuid
  ls_couple_id :: uuid
  ls_recorded_at :: instant
  ls_latitude :: real
  ls_longitude :: real
  ls_accuracy_m :: real
  ls_expires_at :: instant

text \<open>The columns a timeline computes are kept together as its estimate of the minute.\<close>

record together_bucket =
  tb_couple_id :: uuid
  tb_estimate :: minute_estimate
  tb_algorithm_version :: int
  tb_corrected_by :: "uuid option"
  tb_correction_reason :: "string option"
  tb_corrected_at :: "instant option"
  tb_created_at :: instant

abbreviation tb_bucket_start :: "together_bucket \<Rightarrow> instant" where
  "tb_bucket_start b \<equiv> bucket_start (tb_estimate b)"
abbreviation tb_duration_seconds :: "together_bucket \<Rightarrow> int" where
  "tb_duration_seconds b \<equiv> duration_seconds (tb_estimate b)"

datatype estimate_method = Legacy_v2 | Mixed_estimate | Current_v3 | Current_v4

record together_day =
  td_id :: uuid
  td_couple_id :: uuid
  td_day :: date
  td_day_timezone :: string
  td_estimated_seconds :: int
  td_estimate_method :: estimate_method
  td_corrected_seconds :: "int option"
  td_revision :: int
  td_corrected_by :: "uuid option"
  td_correction_reason :: "string option"
  td_corrected_at :: "instant option"
  td_updated_at :: instant

definition effective_seconds :: "together_day \<Rightarrow> int" where
  "effective_seconds d =
     (case td_corrected_seconds d of Some s \<Rightarrow> s | None \<Rightarrow> td_estimated_seconds d)"

record time_db = events_db +
  location_samples :: "location_sample list"
  together_buckets :: "together_bucket list"
  together_days :: "together_day list"

definition ALGORITHM_VERSION :: int where "ALGORITHM_VERSION = 4"

section \<open>Ranges to recompute\<close>

definition floor_minute :: "instant \<Rightarrow> instant" where "floor_minute t = minute_floor t"

definition ceil_minute :: "instant \<Rightarrow> instant" where
  "ceil_minute t = (let f = floor_minute t in if t = f then f else f + minute)"

definition merge_range :: "instant \<times> instant \<Rightarrow> (instant \<times> instant) list \<Rightarrow> (instant \<times> instant) list" where
  "merge_range r merged =
     (let (start, stop) = r in
      if stop \<le> start then merged
      else if merged \<noteq> [] \<and> start \<le> snd (last merged)
      then butlast merged @ [(fst (last merged), max (snd (last merged)) stop)]
      else merged @ [(start, stop)])"

definition recompute_ranges :: "instant list \<Rightarrow> instant \<Rightarrow> instant \<Rightarrow> (instant \<times> instant) list" where
  "recompute_ranges changed_at safe_start now =
     (let raw = sort (map (\<lambda>v. (max safe_start (v - MAX_BRIDGED_INTERVAL), min now (v + MAX_BRIDGED_INTERVAL)))
                  (filter (\<lambda>v. safe_start \<le> v \<and> v \<le> now) changed_at))
      in fold merge_range raw [])"

definition days_between :: "tzdb \<Rightarrow> instant \<Rightarrow> instant \<Rightarrow> string \<Rightarrow> date list" where
  "days_between tz start stop name =
     (let z = timezone_or_utc tz name;
          first = local_date z start;
          final = local_date z (max start (stop - 1))
      in [first..final])"

section \<open>Reading samples\<close>

text \<open>\<^verbatim>\<open>str(UUID)\<close>: thirty-two hexadecimal digits in five groups.\<close>

definition hex_char :: "nat \<Rightarrow> char" where "hex_char d = ''0123456789abcdef'' ! d"

definition uuid_str :: "uuid \<Rightarrow> string" where
  "uuid_str u =
     (let h = map (\<lambda>i. hex_char (u div 16 ^ (31 - i) mod 16)) [0..<32]
      in take 8 h @ ''-'' @ take 4 (drop 8 h) @ ''-'' @ take 4 (drop 12 h) @ ''-''
         @ take 4 (drop 16 h) @ ''-'' @ drop 20 h)"

definition timed_point_of :: "location_sample \<Rightarrow> timed_point" where
  "timed_point_of s =
     \<lparr>sample_id = uuid_str (ls_sample_id s), recorded_at = ls_recorded_at s,
      tp_point = \<lparr>latitude = ls_latitude s, longitude = ls_longitude s,
                  accuracy_m = ls_accuracy_m s\<rparr>\<rparr>"

definition timed_points :: "location_sample list \<Rightarrow> uuid \<Rightarrow> timed_point list" where
  "timed_points samples account_id =
     map timed_point_of (filter (\<lambda>s. ls_account_id s = account_id) samples)"

definition sample_order :: "location_sample \<Rightarrow> instant \<times> uuid" where
  "sample_order s = (ls_recorded_at s, ls_sample_id s)"

text \<open>The newest two samples of each member, oldest first.\<close>

definition latest_streams ::
    "'a time_db_scheme \<Rightarrow> uuid \<Rightarrow> uuid list \<Rightarrow> instant \<Rightarrow> timed_point list list" where
  "latest_streams db couple_id member_ids not_after =
     map (\<lambda>member_id.
        let records = take 2 (rev (sort_key sample_order
              (select (\<lambda>s. ls_couple_id s = couple_id \<and> ls_account_id s = member_id
                          \<and> ls_recorded_at s \<le> not_after) (location_samples db))))
        in timed_points (rev records) member_id) member_ids"

definition mutual_sample_freshness :: "timed_point list list \<Rightarrow> instant option" where
  "mutual_sample_freshness streams =
     (if length streams \<noteq> 2 \<or> list_ex (\<lambda>s. s = []) streams then None
      else Some (Min (set (map (\<lambda>s. recorded_at (last s)) streams))))"

section \<open>Replacing buckets\<close>

definition bucket_key :: "together_bucket \<Rightarrow> uuid \<times> instant" where
  "bucket_key b = (tb_couple_id b, tb_bucket_start b)"

definition new_bucket :: "uuid \<Rightarrow> instant \<Rightarrow> minute_estimate \<Rightarrow> together_bucket" where
  "new_bucket couple_id now item =
     \<lparr>tb_couple_id = couple_id, tb_estimate = item, tb_algorithm_version = ALGORITHM_VERSION,
      tb_corrected_by = None, tb_correction_reason = None, tb_corrected_at = None,
      tb_created_at = now\<rparr>"

definition store_estimates ::
    "together_bucket list \<Rightarrow> uuid \<Rightarrow> proximity_timeline \<Rightarrow> instant \<Rightarrow> together_bucket list" where
  "store_estimates rows couple_id timeline now =
     fold (\<lambda>item. insert_new bucket_key (new_bucket couple_id now item)) (estimates timeline) rows"

definition replaceable :: "uuid \<Rightarrow> instant \<Rightarrow> instant \<Rightarrow> together_bucket \<Rightarrow> bool" where
  "replaceable couple_id lower upper b \<longleftrightarrow>
     tb_couple_id b = couple_id \<and> lower \<le> tb_bucket_start b \<and> tb_bucket_start b < upper
     \<and> tb_corrected_at b = None"

definition range_timeline ::
    "'a time_db_scheme \<Rightarrow> couple \<Rightarrow> uuid list \<Rightarrow> instant \<Rightarrow> instant \<Rightarrow> instant \<Rightarrow> proximity_timeline" where
  "range_timeline db c member_ids lower upper now =
     (let context_start = lower - MAX_BRIDGED_INTERVAL;
          context_end = min now (upper + MAX_BRIDGED_INTERVAL);
          samples = sort_key sample_order
            (select (\<lambda>s. ls_couple_id s = cpl_id c \<and> context_start \<le> ls_recorded_at s
                        \<and> ls_recorded_at s \<le> context_end) (location_samples db));
          streams = map (timed_points samples) member_ids
      in build_proximity_timeline (streams ! 0) (streams ! 1) (cpl_proximity_threshold_m c)
           (Some lower) (Some upper))"

definition replace_range ::
    "'a time_db_scheme \<Rightarrow> couple \<Rightarrow> uuid list \<Rightarrow> instant \<Rightarrow> instant \<Rightarrow> instant \<Rightarrow> 'a time_db_scheme \<times> int"
where
  "replace_range db c member_ids start stop now =
     (let lower = floor_minute start;
          upper = ceil_minute stop;
          timeline = range_timeline db c member_ids lower upper now;
          rows = delete_where (replaceable (cpl_id c) lower upper) (together_buckets db)
      in (db\<lparr>together_buckets := store_estimates rows (cpl_id c) timeline now\<rparr>,
          sum_of duration_seconds (estimates timeline)))"

section \<open>Daily totals\<close>

definition estimate_method_of :: "int option \<Rightarrow> int option \<Rightarrow> estimate_method" where
  "estimate_method_of minimum maximum =
     (case (minimum, maximum) of
        (Some lo, Some hi) \<Rightarrow>
          (if ALGORITHM_VERSION \<le> lo then Current_v4
           else if 3 \<le> lo \<and> hi \<le> 3 then Current_v3
           else if hi \<le> 2 then Legacy_v2 else Mixed_estimate)
      | _ \<Rightarrow> Current_v4)"

definition buckets_between ::
    "'a time_db_scheme \<Rightarrow> uuid \<Rightarrow> instant \<Rightarrow> instant \<Rightarrow> together_bucket list" where
  "buckets_between db couple_id start stop =
     select (\<lambda>b. tb_couple_id b = couple_id \<and> start \<le> tb_bucket_start b \<and> tb_bucket_start b < stop)
       (together_buckets db)"

definition upsert_day ::
    "(together_day \<Rightarrow> together_day) \<Rightarrow> together_day \<Rightarrow> together_day list \<Rightarrow> together_day list" where
  "upsert_day f row rows =
     (let same = (\<lambda>d. td_couple_id d = td_couple_id row \<and> td_day d = td_day row)
      in if list_ex same rows then update_where same f rows else rows @ [row])"

definition sync_day ::
    "tzdb \<Rightarrow> (date \<Rightarrow> uuid) \<Rightarrow> couple \<Rightarrow> instant \<Rightarrow> date \<Rightarrow> 'a time_db_scheme \<Rightarrow> 'a time_db_scheme" where
  "sync_day tz new_id c now current db =
     (let zone = timezone_or_utc tz (cpl_home_timezone c);
          (start, stop) = day_bounds tz current (cpl_home_timezone c);
          rows = buckets_between db (cpl_id c) start stop;
          seconds = sum_of tb_duration_seconds rows;
          versions = set (map tb_algorithm_version rows);
          method = (if rows = [] then estimate_method_of None None
                    else estimate_method_of (Some (Min versions)) (Some (Max versions)));
          total = min seconds (day_seconds start stop)
      in db\<lparr>together_days := upsert_day
             (\<lambda>d. d\<lparr>td_day_timezone := zone_key zone, td_estimated_seconds := total,
                    td_estimate_method := method, td_updated_at := now\<rparr>)
             \<lparr>td_id = new_id current, td_couple_id = cpl_id c, td_day = current,
              td_day_timezone = zone_key zone, td_estimated_seconds = total,
              td_estimate_method = method, td_corrected_seconds = None, td_revision = 0,
              td_corrected_by = None, td_correction_reason = None, td_corrected_at = None,
              td_updated_at = now\<rparr>
             (together_days db)\<rparr>)"

definition sync_daily_totals ::
    "tzdb \<Rightarrow> (date \<Rightarrow> uuid) \<Rightarrow> couple \<Rightarrow> date list \<Rightarrow> instant \<Rightarrow> 'a time_db_scheme \<Rightarrow> 'a time_db_scheme" where
  "sync_daily_totals tz new_id c days now db =
     fold (sync_day tz new_id c now) (sort (remdups days)) db"

section \<open>Recomputation\<close>

fun replace_ranges ::
    "tzdb \<Rightarrow> couple \<Rightarrow> uuid list \<Rightarrow> instant \<Rightarrow> (instant \<times> instant) list
       \<Rightarrow> 'a time_db_scheme \<times> int \<times> date list \<Rightarrow> 'a time_db_scheme \<times> int \<times> date list" where
  "replace_ranges tz c member_ids now [] acc = acc"
| "replace_ranges tz c member_ids now ((start, stop) # ranges) (db, sofar, affected) =
     (let (db', seconds) = replace_range db c member_ids start stop now
      in replace_ranges tz c member_ids now ranges
           (db', sofar + seconds, affected @ days_between tz start stop (cpl_home_timezone c)))"

definition recompute_recent_proximity ::
    "tzdb \<Rightarrow> (date \<Rightarrow> uuid) \<Rightarrow> 'a time_db_scheme \<Rightarrow> couple \<Rightarrow> uuid list \<Rightarrow> instant list \<Rightarrow> instant
       \<Rightarrow> exc + 'a time_db_scheme \<times> int" where
  "recompute_recent_proximity tz new_id db c member_ids changed_at now =
     (if length member_ids \<noteq> 2 then Inl (HTTPException 409 ''Pairing state changed; retry'')
      else
        (let safe_start = now - RECOMPUTE_HORIZON;
             ranges = (if cpl_proximity_algorithm_version c < ALGORITHM_VERSION then [(safe_start, now)]
                       else recompute_ranges changed_at safe_start now);
             (db, total, affected) = replace_ranges tz c member_ids now ranges (db, 0, []);
             streams = latest_streams db (cpl_id c) member_ids now;
             db = db\<lparr>couples := update_where (\<lambda>r. cpl_id r = cpl_id c)
                     (\<lambda>r. r\<lparr>cpl_proximity_processed_through := mutual_sample_freshness streams,
                            cpl_proximity_algorithm_version := ALGORITHM_VERSION,
                            cpl_updated_at := now\<rparr>) (couples db)\<rparr>
         in Inr (sync_daily_totals tz new_id c affected now db, total)))"

definition reaggregate_retained_history ::
    "tzdb \<Rightarrow> (date \<Rightarrow> uuid) \<Rightarrow> 'a time_db_scheme \<Rightarrow> couple \<Rightarrow> instant \<Rightarrow> 'a time_db_scheme" where
  "reaggregate_retained_history tz new_id db c now =
     sync_daily_totals tz new_id c (days_between tz (now - 30 * day) now (cpl_home_timezone c)) now db"

definition current_live_projection ::
    "'a time_db_scheme \<Rightarrow> couple \<Rightarrow> uuid list \<Rightarrow> bool \<Rightarrow> instant \<Rightarrow> live_projection" where
  "current_live_projection db c member_ids sharing_enabled now =
     (if length member_ids \<noteq> 2
      then project_live (build_proximity_timeline [] [] 100 None None) now False
      else (let streams = latest_streams db (cpl_id c) member_ids now
            in project_live
                 (build_proximity_timeline (streams ! 0) (streams ! 1) (cpl_proximity_threshold_m c)
                    None None) now sharing_enabled))"

text \<open>\<^verbatim>\<open>relationship_days\<close>: complete UTC days since the accepted date.\<close>

definition relationship_days :: "date option \<Rightarrow> instant \<Rightarrow> int option" where
  "relationship_days start now =
     (case start of None \<Rightarrow> None | Some s \<Rightarrow> Some (max 0 (now div day - s)))"

section \<open>Uploading samples\<close>

record sample_request =
  sr_sample_id :: uuid
  sr_recorded_at :: py_datetime
  sr_latitude :: real
  sr_longitude :: real
  sr_accuracy_m :: real

definition validate_sample_time :: "py_datetime \<Rightarrow> instant \<Rightarrow> exc + instant" where
  "validate_sample_time t now =
     (case t of
        Naive _ \<Rightarrow> Inl (HTTPException 422 ''recorded_at needs an offset'')
      | Aware u \<Rightarrow>
          (if u < now - RECOMPUTE_HORIZON \<or> now + 5 * minute < u
           then Inl (HTTPException 422 ''sample time is outside policy'') else Inr u))"

definition same_sample :: "location_sample \<Rightarrow> uuid \<Rightarrow> instant \<Rightarrow> sample_request \<Rightarrow> bool" where
  "same_sample stored couple_id instant incoming \<longleftrightarrow>
     ls_couple_id stored = couple_id \<and> ls_recorded_at stored = instant
     \<and> ls_latitude stored = sr_latitude incoming \<and> ls_longitude stored = sr_longitude incoming
     \<and> ls_accuracy_m stored = sr_accuracy_m incoming"

definition store_location_sample ::
    "location_sample list \<Rightarrow> uuid \<Rightarrow> uuid \<Rightarrow> sample_request \<Rightarrow> instant
       \<Rightarrow> exc + location_sample list \<times> instant option" where
  "store_location_sample rows account_id couple_id s now =
     bind_exc (validate_sample_time (sr_recorded_at s) now) (\<lambda>u.
       case scalar (\<lambda>r. ls_account_id r = account_id \<and> ls_sample_id r = sr_sample_id s) rows of
         Some existing \<Rightarrow>
           (if \<not> same_sample existing couple_id u s
            then Inl (HTTPException 409 ''sample_id_conflict'') else Inr (rows, None))
       | None \<Rightarrow>
           bind_exc (raw_location_expires_at (Aware u)) (\<lambda>expires.
             Inr (rows @ [\<lparr>ls_sample_id = sr_sample_id s, ls_account_id = account_id,
                            ls_couple_id = couple_id, ls_recorded_at = u,
                            ls_latitude = sr_latitude s, ls_longitude = sr_longitude s,
                            ls_accuracy_m = sr_accuracy_m s, ls_expires_at = expires\<rparr>], Some u)))"

fun store_location_batch ::
    "location_sample list \<Rightarrow> uuid \<Rightarrow> uuid \<Rightarrow> sample_request list \<Rightarrow> instant
       \<Rightarrow> exc + location_sample list \<times> nat \<times> nat \<times> instant list" where
  "store_location_batch rows account_id couple_id [] now = Inr (rows, 0, 0, [])"
| "store_location_batch rows account_id couple_id (s # samples) now =
     bind_exc (store_location_sample rows account_id couple_id s now) (\<lambda>(rows, recorded).
     bind_exc (store_location_batch rows account_id couple_id samples now)
       (\<lambda>(rows, accepted, duplicates, changed_at).
       case recorded of
         None \<Rightarrow> Inr (rows, accepted, duplicates + 1, changed_at)
       | Some u \<Rightarrow> Inr (rows, accepted + 1, duplicates, u # changed_at)))"

definition active_member_ids :: "'a core_db_scheme \<Rightarrow> uuid \<Rightarrow> uuid list" where
  "active_member_ids db couple_id =
     sort (map mem_account_id (select (\<lambda>m. mem_couple_id m = couple_id \<and> is_active m) (members db)))"

record batch_response =
  br_accepted :: nat
  br_duplicates :: nat
  br_nearby_seconds_recomputed :: int

definition upload_locations ::
    "tzdb \<Rightarrow> (date \<Rightarrow> uuid) \<Rightarrow> 'a time_db_scheme \<Rightarrow> uuid \<Rightarrow> uuid \<Rightarrow> sample_request list \<Rightarrow> instant
       \<Rightarrow> exc + 'a time_db_scheme \<times> batch_response" where
  "upload_locations tz new_id db actor_id relationship_id samples now =
     bind_exc (active_member db actor_id) (\<lambda>member.
     bind_exc (lock_couple db (mem_couple_id member)) (\<lambda>c.
     if relationship_id \<noteq> cpl_id c then Inl relationship_inactive_error
     else
     bind_exc (both_members_consent db (cpl_id c) ''location_enabled'') (\<lambda>mutual.
     if \<not> mutual then Inl (HTTPException 403 ''Mutual location sharing is disabled'')
     else
     bind_exc (store_location_batch (location_samples db) actor_id (cpl_id c) samples now)
       (\<lambda>(rows, accepted, duplicates, changed_at).
     bind_exc (recompute_recent_proximity tz new_id (db\<lparr>location_samples := rows\<rparr>) c
                 (active_member_ids db (cpl_id c)) changed_at now) (\<lambda>(db, seconds).
       Inr (db, \<lparr>br_accepted = accepted, br_duplicates = duplicates,
                 br_nearby_seconds_recomputed = seconds\<rparr>))))))"

section \<open>Corrections\<close>

definition bucket_total :: "tzdb \<Rightarrow> 'a time_db_scheme \<Rightarrow> uuid \<Rightarrow> date \<Rightarrow> string \<Rightarrow> int" where
  "bucket_total tz db couple_id target name =
     (let (start, stop) = day_bounds tz target name
      in min (sum_of tb_duration_seconds (buckets_between db couple_id start stop))
           (whole_seconds (stop - start)))"

definition day_key :: "together_day \<Rightarrow> uuid \<times> date" where
  "day_key d = (td_couple_id d, td_day d)"

definition correctable_day ::
    "tzdb \<Rightarrow> uuid \<Rightarrow> 'a time_db_scheme \<Rightarrow> couple \<Rightarrow> date \<Rightarrow> instant \<Rightarrow> exc + 'a time_db_scheme \<times> together_day"
where
  "correctable_day tz fresh db c target now =
     (case scalar (\<lambda>d. day_key d = (cpl_id c, target)) (together_days db) of
        Some item \<Rightarrow> Inr (db, item)
      | None \<Rightarrow>
          (let item = \<lparr>td_id = fresh, td_couple_id = cpl_id c, td_day = target,
                 td_day_timezone = cpl_home_timezone c,
                 td_estimated_seconds = bucket_total tz db (cpl_id c) target (cpl_home_timezone c),
                 td_estimate_method = Current_v4, td_corrected_seconds = None, td_revision = 0,
                 td_corrected_by = None, td_correction_reason = None, td_corrected_at = None,
                 td_updated_at = now\<rparr>
           in Inr (db\<lparr>together_days := together_days db @ [item]\<rparr>, item)))"

definition correct_together_day ::
    "tzdb \<Rightarrow> uuid \<Rightarrow> uuid \<Rightarrow> 'a time_db_scheme \<Rightarrow> uuid \<Rightarrow> date \<Rightarrow> int \<Rightarrow> string option \<Rightarrow> int \<Rightarrow> instant
       \<Rightarrow> exc + 'a time_db_scheme \<times> together_day" where
  "correct_together_day tz fresh event_id db actor_id target seconds reason expected_revision now =
     bind_exc (active_member db actor_id) (\<lambda>member.
     bind_exc (lock_couple db (mem_couple_id member)) (\<lambda>c.
       let z = timezone_or_utc tz (cpl_home_timezone c);
           today = local_date z now
       in if today \<le> target \<or> target < local_date z (cpl_created_at c)
          then Inl (HTTPException 422 ''Choose a completed paired day'')
          else
            (let (start, stop) = day_bounds tz target (cpl_home_timezone c) in
             if whole_seconds (stop - start) < seconds
             then Inl (HTTPException 422 ''Time exceeds this local day'')
             else bind_exc (correctable_day tz fresh db c target now) (\<lambda>(db, item).
               if td_revision item \<noteq> expected_revision
               then Inl (HTTPException 409 ''Together-time day changed; refresh'')
               else
                 (let item' = item\<lparr>td_corrected_seconds := Some seconds,
                         td_correction_reason := reason, td_corrected_by := Some actor_id,
                         td_corrected_at := Some now, td_updated_at := now,
                         td_revision := td_revision item + 1\<rparr>;
                      db = db\<lparr>together_days :=
                         update_where (\<lambda>d. td_id d = td_id item) (\<lambda>_. item') (together_days db)\<rparr>
                  in bind_exc (enqueue_together_correction_event db now event_id (cpl_id c) actor_id
                                 (td_id item') target (nat (td_revision item')))
                       (\<lambda>(db, _). Inr (db, item')))))))"

section \<open>Reading\<close>

record day_breakdown =
  db_observed :: int
  db_bridged :: int
  db_unverified :: int
  db_apart :: int
  db_poor_accuracy :: int

definition day_breakdown_of :: "tzdb \<Rightarrow> 'a time_db_scheme \<Rightarrow> uuid \<Rightarrow> date \<Rightarrow> string \<Rightarrow> day_breakdown" where
  "day_breakdown_of tz db couple_id target name =
     (let (start, stop) = day_bounds tz target name;
          rows = map tb_estimate (buckets_between db couple_id start stop)
      in \<lparr>db_observed = sum_of observed_seconds rows, db_bridged = sum_of bridged_seconds rows,
          db_unverified = sum_of unverified_seconds rows, db_apart = sum_of apart_seconds rows,
          db_poor_accuracy = sum_of poor_accuracy_seconds rows\<rparr>)"

definition observed_total :: "'a time_db_scheme \<Rightarrow> uuid \<Rightarrow> int" where
  "observed_total db couple_id =
     sum_of effective_seconds (select (\<lambda>d. td_couple_id d = couple_id) (together_days db))"

definition includes_legacy_estimates :: "'a time_db_scheme \<Rightarrow> uuid \<Rightarrow> bool" where
  "includes_legacy_estimates db couple_id =
     list_ex (\<lambda>d. td_couple_id d = couple_id \<and> td_corrected_seconds d = None
                  \<and> td_estimate_method d \<in> {Legacy_v2, Mixed_estimate}) (together_days db)"

datatype confidence = Unavailable | Low | Medium | High

definition confidence_of :: "live_projection \<Rightarrow> instant \<Rightarrow> confidence" where
  "confidence_of projection now =
     (case mutual_evidence_at projection of
        None \<Rightarrow> Unavailable
      | Some t \<Rightarrow>
          (let age = now - t in
           if projection_state projection = Ct_nearby \<and> age \<le> 2 * minute then High
           else if age \<le> 5 * minute then Medium
           else if age \<le> 24 * hour then Low else Unavailable))"

record together_summary =
  ts_relationship_id :: uuid
  ts_home_timezone :: string
  ts_paired_at :: instant
  ts_paired_days :: int
  ts_nearby_observed_seconds :: int
  ts_nearby_estimated_seconds :: int
  ts_nearby_provisional_seconds :: int
  ts_counting_state :: counting_state
  ts_counting_anchor_at :: "instant option"
  ts_counting_live_until :: "instant option"
  ts_nearby_last_processed_at :: "instant option"
  ts_nearby_confidence :: confidence
  ts_includes_legacy_estimates :: bool
  ts_proximity_threshold_m :: real
  ts_location_enabled_by_me :: bool
  ts_location_enabled_by_both :: bool

definition together_summary_v3 :: "'a time_db_scheme \<Rightarrow> uuid \<Rightarrow> instant \<Rightarrow> exc + together_summary" where
  "together_summary_v3 db actor_id now =
     bind_exc (active_member db actor_id) (\<lambda>member.
     bind_exc (lock_couple db (mem_couple_id member)) (\<lambda>c.
     bind_exc (both_members_consent db (cpl_id c) ''location_enabled'') (\<lambda>mutual.
       let observed = observed_total db (cpl_id c);
           p = current_live_projection db c (active_member_ids db (cpl_id c)) mutual now
       in Inr \<lparr>ts_relationship_id = cpl_id c, ts_home_timezone = cpl_home_timezone c,
               ts_paired_at = cpl_created_at c,
               ts_paired_days = max 0 ((now - cpl_created_at c) div day),
               ts_nearby_observed_seconds = observed,
               ts_nearby_estimated_seconds = observed + provisional_seconds p,
               ts_nearby_provisional_seconds = provisional_seconds p,
               ts_counting_state = projection_state p, ts_counting_anchor_at = anchor_at p,
               ts_counting_live_until = live_until p,
               ts_nearby_last_processed_at = mutual_evidence_at p,
               ts_nearby_confidence = confidence_of p now,
               ts_includes_legacy_estimates = includes_legacy_estimates db (cpl_id c),
               ts_proximity_threshold_m = cpl_proximity_threshold_m c,
               ts_location_enabled_by_me = mem_location_enabled member,
               ts_location_enabled_by_both = mutual\<rparr>)))"

text \<open>
  A day of the history; the corrector's account stands for the display name that
  \<^verbatim>\<open>relationship_name_service\<close> resolves. \<open>None\<close> as the method means "corrected".
\<close>

record history_day =
  hd_day :: date
  hd_estimated_seconds :: int
  hd_corrected :: bool
  hd_method :: "estimate_method option"
  hd_revision :: int
  hd_corrected_by :: "uuid option"
  hd_reason :: "string option"
  hd_day_length_seconds :: int
  hd_breakdown :: day_breakdown

definition history_response :: "tzdb \<Rightarrow> 'a time_db_scheme \<Rightarrow> couple \<Rightarrow> date \<Rightarrow> history_day" where
  "history_response tz db c target =
     (let (start, stop) = day_bounds tz target (cpl_home_timezone c);
          len = whole_seconds (stop - start);
          breakdown = day_breakdown_of tz db (cpl_id c) target (cpl_home_timezone c)
      in case scalar (\<lambda>d. day_key d = (cpl_id c, target)) (together_days db) of
           None \<Rightarrow> \<lparr>hd_day = target, hd_estimated_seconds = 0, hd_corrected = False,
                    hd_method = Some Current_v4, hd_revision = 0, hd_corrected_by = None,
                    hd_reason = None, hd_day_length_seconds = len, hd_breakdown = breakdown\<rparr>
         | Some item \<Rightarrow>
             \<lparr>hd_day = target, hd_estimated_seconds = effective_seconds item,
              hd_corrected = td_corrected_seconds item \<noteq> None,
              hd_method = (if td_corrected_seconds item \<noteq> None then None
                           else Some (td_estimate_method item)),
              hd_revision = td_revision item, hd_corrected_by = td_corrected_by item,
              hd_reason = td_correction_reason item, hd_day_length_seconds = len,
              hd_breakdown = breakdown\<rparr>)"

definition together_history ::
    "tzdb \<Rightarrow> 'a time_db_scheme \<Rightarrow> uuid \<Rightarrow> nat \<Rightarrow> instant \<Rightarrow> exc + history_day list" where
  "together_history tz db actor_id days now =
     bind_exc (active_member db actor_id) (\<lambda>member.
     bind_exc (lock_couple db (mem_couple_id member)) (\<lambda>c.
       let today = local_date (timezone_or_utc tz (cpl_home_timezone c)) now
       in Inr (map (\<lambda>offset. history_response tz db c (today - int offset)) (rev [0..<days]))))"

text \<open>One local day as minutes, oldest first (\<^verbatim>\<open>routes/together_time_details.py\<close>).\<close>

definition together_day_details ::
    "tzdb \<Rightarrow> 'a time_db_scheme \<Rightarrow> uuid \<Rightarrow> date \<Rightarrow> exc + int \<times> minute_estimate list" where
  "together_day_details tz db actor_id target =
     bind_exc (active_member db actor_id) (\<lambda>member.
     bind_exc (lock_couple db (mem_couple_id member)) (\<lambda>c.
       let (start, stop) = day_bounds tz target (cpl_home_timezone c)
       in Inr (whole_seconds (stop - start),
               sort_key bucket_start (map tb_estimate (buckets_between db (cpl_id c) start stop)))))"

end
