(* ===== verification/Together_Ranges.thy ===== *)
theory Together_Ranges
  imports Together
begin

text \<open>
  The ranges an upload makes stale, and what replacing one range does to the minute buckets.
\<close>

section \<open>Merging impact windows\<close>

definition covers :: "(instant \<times> instant) list \<Rightarrow> instant \<Rightarrow> bool" where
  "covers rs t \<longleftrightarrow> (\<exists>r \<in> set rs. fst r \<le> t \<and> t < snd r)"

definition separated :: "(instant \<times> instant) list \<Rightarrow> bool" where
  "separated rs \<longleftrightarrow> sorted_wrt (\<lambda>r s. snd r < fst s) rs \<and> (\<forall>r \<in> set rs. fst r < snd r)"

lemma covers_simps [simp]:
  "covers [] t \<longleftrightarrow> False"
  "covers (r # rs) t \<longleftrightarrow> (fst r \<le> t \<and> t < snd r) \<or> covers rs t"
  "covers (rs @ rs') t \<longleftrightarrow> covers rs t \<or> covers rs' t"
  by (auto simp: covers_def)

lemma merge_range_step:
  assumes "separated rs" "\<forall>r \<in> set rs. fst r \<le> start"
  shows "separated (merge_range (start, stop) rs)"
    and "covers (merge_range (start, stop) rs) t \<longleftrightarrow> covers rs t \<or> start \<le> t \<and> t < stop"
    and "\<forall>r \<in> set (merge_range (start, stop) rs). fst r \<le> start
      \<and> (\<forall>lo. start \<ge> lo \<and> (\<forall>q \<in> set rs. lo \<le> fst q) \<longrightarrow> lo \<le> fst r)
      \<and> (\<forall>hi. stop \<le> hi \<and> (\<forall>q \<in> set rs. snd q \<le> hi) \<longrightarrow> snd r \<le> hi)"
proof -
  consider "stop \<le> start" | "start < stop" "rs = []"
    | init a b where "start < stop" "rs = init @ [(a, b)]" "start \<le> b"
    | init a b where "start < stop" "rs = init @ [(a, b)]" "b < start"
    by (cases rs rule: rev_cases; cases "stop \<le> start") (auto, force)
  then show "separated (merge_range (start, stop) rs)"
    and "covers (merge_range (start, stop) rs) t \<longleftrightarrow> covers rs t \<or> start \<le> t \<and> t < stop"
    and "\<forall>r \<in> set (merge_range (start, stop) rs). fst r \<le> start
      \<and> (\<forall>lo. start \<ge> lo \<and> (\<forall>q \<in> set rs. lo \<le> fst q) \<longrightarrow> lo \<le> fst r)
      \<and> (\<forall>hi. stop \<le> hi \<and> (\<forall>q \<in> set rs. snd q \<le> hi) \<longrightarrow> snd r \<le> hi)"
    using assms
    by (cases; fastforce simp: merge_range_def separated_def sorted_wrt_append)+
qed

lemma fold_merge_range:
  assumes "sorted raw" "separated rs" "\<forall>r \<in> set rs. \<forall>q \<in> set raw. fst r \<le> fst q"
  shows "separated (fold merge_range raw rs)
      \<and> (covers (fold merge_range raw rs) t \<longleftrightarrow> covers rs t \<or> covers raw t)
      \<and> ((\<forall>q \<in> set (raw @ rs). lo \<le> fst q \<and> snd q \<le> hi)
          \<longrightarrow> (\<forall>q \<in> set (fold merge_range raw rs). lo \<le> fst q \<and> snd q \<le> hi))"
  using assms
proof (induction raw arbitrary: rs)
    case Nil
    then show ?case by simp
  next
    case (Cons r raw)
    obtain start stop where r: "r = (start, stop)" by (cases r)
    note m = merge_range_step [of rs start stop]
    have le: "\<forall>r \<in> set rs. fst r \<le> start" using Cons.prems(3) by (auto simp: r)
    note m = m [OF Cons.prems(2) le]
    have later: "start \<le> fst q" if "q \<in> set raw" for q
      using Cons.prems(1) that by (auto simp: r less_eq_prod_def)
    have "fst x \<le> fst q" if "x \<in> set (merge_range (start, stop) rs)" "q \<in> set raw" for x q
      using m(3) later [OF that(2)] that(1) by (blast intro: order_trans)
    then have front: "\<forall>x \<in> set (merge_range (start, stop) rs). \<forall>q \<in> set raw. fst x \<le> fst q"
      by blast
    have sorted: "sorted raw" using Cons.prems(1) by simp
    have low: "\<forall>q \<in> set (merge_range (start, stop) rs). lo \<le> fst q \<and> snd q \<le> hi"
      if "\<forall>q \<in> set ((r # raw) @ rs). lo \<le> fst q \<and> snd q \<le> hi"
      using m(3) that by (auto simp: r)
    note IH = Cons.IH [OF sorted m(1) front]
    show ?case
    proof (intro conjI impI)
      show "separated (fold merge_range (r # raw) rs)" using IH by (simp add: r)
      show "covers (fold merge_range (r # raw) rs) t \<longleftrightarrow> covers rs t \<or> covers (r # raw) t"
        using IH m(2) by (auto simp: r)
      assume "\<forall>q \<in> set ((r # raw) @ rs). lo \<le> fst q \<and> snd q \<le> hi"
      from low [OF this] this have "\<forall>q \<in> set (raw @ merge_range (start, stop) rs). lo \<le> fst q \<and> snd q \<le> hi"
        by auto
      with IH show "\<forall>q \<in> set (fold merge_range (r # raw) rs). lo \<le> fst q \<and> snd q \<le> hi"
        by (simp add: r)
    qed
qed

text \<open>
  The ranges to recompute are exactly the union of the twenty-minute impact windows of the
  accepted observations, clipped to the raw-data horizon, as disjoint chronological ranges: no
  instant is missed, none is processed twice, and no other instant is touched.
\<close>

theorem recompute_ranges_exact:
  "separated (recompute_ranges changed_at safe_start now)
   \<and> (\<forall>t. covers (recompute_ranges changed_at safe_start now) t \<longleftrightarrow>
        (\<exists>v. v \<in> set changed_at \<and> safe_start \<le> v \<and> v \<le> now \<and> safe_start \<le> t \<and> t < now
           \<and> v - MAX_BRIDGED_INTERVAL \<le> t \<and> t < v + MAX_BRIDGED_INTERVAL))"
proof -
  define raw where "raw = sort (map (\<lambda>v. (max safe_start (v - MAX_BRIDGED_INTERVAL), min now (v + MAX_BRIDGED_INTERVAL)))
    (filter (\<lambda>v. safe_start \<le> v \<and> v \<le> now) changed_at))"
  have r: "recompute_ranges changed_at safe_start now = fold merge_range raw []"
    by (simp add: recompute_ranges_def raw_def)
  have "covers raw t \<longleftrightarrow>
      (\<exists>v. v \<in> set changed_at \<and> safe_start \<le> v \<and> v \<le> now \<and> safe_start \<le> t \<and> t < now
         \<and> v - MAX_BRIDGED_INTERVAL \<le> t \<and> t < v + MAX_BRIDGED_INTERVAL)" for t
    by (auto simp: covers_def raw_def)
  then show ?thesis
    using fold_merge_range [of raw "[]" _ 0 0] by (simp add: r raw_def separated_def)
qed

lemma recompute_ranges_bounds:
  "\<forall>q \<in> set (recompute_ranges changed_at safe_start now). safe_start \<le> fst q \<and> snd q \<le> now"
proof -
  define raw where "raw = sort (map (\<lambda>v. (max safe_start (v - MAX_BRIDGED_INTERVAL), min now (v + MAX_BRIDGED_INTERVAL)))
    (filter (\<lambda>v. safe_start \<le> v \<and> v \<le> now) changed_at))"
  have "\<forall>q \<in> set (raw @ []). safe_start \<le> fst q \<and> snd q \<le> now"
    by (auto simp: raw_def)
  then show ?thesis
    using fold_merge_range [of raw "[]" 0 safe_start now]
    by (simp add: recompute_ranges_def raw_def [symmetric] Let_def separated_def)
       (simp add: raw_def)
qed

section \<open>Replacing one range\<close>

lemma bucket_key_new [simp]: "bucket_key (new_bucket k now e) = (k, bucket_start e)"
  by (simp add: bucket_key_def new_bucket_def)

lemma set_store_estimates:
  assumes "distinct (map bucket_start es)"
  shows "set (fold (\<lambda>item. insert_new bucket_key (new_bucket k now item)) es rows)
    = set rows \<union> new_bucket k now ` {e \<in> set es. (k, bucket_start e) \<notin> bucket_key ` set rows}"
  using assms
proof (induction es arbitrary: rows)
  case Nil
  then show ?case by simp
next
  case (Cons e es)
  have "bucket_start x \<noteq> bucket_start e" if "x \<in> set es" for x
    using Cons.prems that by (auto simp: rev_image_eqI)
  with Cons show ?case
    by (auto simp: set_insert_new)
qed

lemma distinct_store_estimates:
  "distinct (map bucket_key rows) \<Longrightarrow>
     distinct (map bucket_key (fold (\<lambda>item. insert_new bucket_key (new_bucket k now item)) es rows))"
  by (induction es arbitrary: rows) (simp_all add: distinct_insert_new)

lemma range_timeline_is:
  "\<exists>ls rs threshold. range_timeline db c ms lo hi now
     = build_proximity_timeline ls rs threshold (Some lo) (Some hi)"
  unfolding range_timeline_def Let_def by blast

lemma timeline_starts_distinct:
  "distinct (map bucket_start (estimates (range_timeline db c ms lo hi now)))"
  using timeline_buckets_distinct range_timeline_is [of db c ms lo hi now]
  by (metis strict_sorted_iff)

lemma range_timeline_window:
  assumes "e \<in> set (estimates (range_timeline db c ms lo hi now))" "lo mod minute = 0"
  shows "lo \<le> bucket_start e \<and> bucket_start e < hi \<and> together_bucket_check e"
proof -
  obtain ls rs th where "range_timeline db c ms lo hi now
      = build_proximity_timeline ls rs th (Some lo) (Some hi)"
    using range_timeline_is by blast
  with assms(1) have e: "e \<in> set (estimates (build_proximity_timeline ls rs th (Some lo) (Some hi)))"
    by simp
  from timeline_estimates_ok(1,3) [OF e] assms(2) show ?thesis
    by (simp add: in_window_def minute_floor_def)
qed

lemma floor_minute_aligned [simp]: "floor_minute t mod minute = 0"
  by (simp add: floor_minute_def minute_floor_def minus_mod_eq_mult_div)

lemma floor_minute_le: "floor_minute t \<le> t"
  by (simp add: floor_minute_def minute_floor_def)

lemma le_ceil_minute: "t \<le> ceil_minute t"
proof -
  have "t mod minute \<le> minute" by (rule order_less_imp_le, rule pos_mod_bound) simp
  then show ?thesis
    by (simp add: ceil_minute_def Let_def floor_minute_def minute_floor_def)
qed

text \<open>What is kept of the buckets, and what the timeline of the range says.\<close>

definition kept_buckets :: "couple \<Rightarrow> instant \<Rightarrow> instant \<Rightarrow> together_bucket list \<Rightarrow> together_bucket list" where
  "kept_buckets c start stop rows =
     delete_where (replaceable (cpl_id c) (floor_minute start) (ceil_minute stop)) rows"

lemma replace_range_buckets:
  "together_buckets (fst (replace_range db c ms start stop now))
   = fold (\<lambda>item. insert_new bucket_key (new_bucket (cpl_id c) now item))
       (estimates (range_timeline db c ms (floor_minute start) (ceil_minute stop) now))
       (kept_buckets c start stop (together_buckets db))"
  by (simp add: replace_range_def Let_def store_estimates_def kept_buckets_def)

lemma replace_range_frame:
  "fst (replace_range db c ms start stop now)
   = db\<lparr>together_buckets := together_buckets (fst (replace_range db c ms start stop now))\<rparr>"
  by (simp add: replace_range_def Let_def)

lemma range_timeline_samples:
  "location_samples db' = location_samples db \<Longrightarrow>
     range_timeline db' c ms lo hi now = range_timeline db c ms lo hi now"
  by (simp add: range_timeline_def)

definition buckets_ok :: "together_bucket list \<Rightarrow> bool" where
  "buckets_ok rows \<longleftrightarrow>
     distinct (map bucket_key rows) \<and> (\<forall>b \<in> set rows. together_bucket_check (tb_estimate b))"

lemma set_replace_range:
  "set (together_buckets (fst (replace_range db c ms start stop now)))
   = set (kept_buckets c start stop (together_buckets db))
     \<union> new_bucket (cpl_id c) now `
         {e \<in> set (estimates (range_timeline db c ms (floor_minute start) (ceil_minute stop) now)).
            (cpl_id c, bucket_start e) \<notin> bucket_key ` set (kept_buckets c start stop (together_buckets db))}"
  by (simp add: replace_range_buckets set_store_estimates timeline_starts_distinct)

lemma buckets_ok_replace_range:
  assumes "buckets_ok (together_buckets db)"
  shows "buckets_ok (together_buckets (fst (replace_range db c ms start stop now)))"
proof -
  have "distinct (map bucket_key (kept_buckets c start stop (together_buckets db)))"
    using assms by (simp add: buckets_ok_def kept_buckets_def distinct_delete_where)
  then have "distinct (map bucket_key (together_buckets (fst (replace_range db c ms start stop now))))"
    by (simp add: replace_range_buckets distinct_store_estimates)
  moreover have "together_bucket_check (tb_estimate b)"
    if "b \<in> set (together_buckets (fst (replace_range db c ms start stop now)))" for b
  proof -
    note b = that
    consider "b \<in> set (kept_buckets c start stop (together_buckets db))"
      | e where "b = new_bucket (cpl_id c) now e"
        "e \<in> set (estimates (range_timeline db c ms (floor_minute start) (ceil_minute stop) now))"
      using b by (auto simp: set_replace_range)
    then show ?thesis
    proof cases
      case 1
      with assms show ?thesis by (simp add: buckets_ok_def kept_buckets_def set_delete_where)
    next
      case 2
      with range_timeline_window [OF 2(2) floor_minute_aligned] show ?thesis
        by (simp add: new_bucket_def)
    qed
  qed
  ultimately show ?thesis by (simp add: buckets_ok_def)
qed

lemma kept_buckets_again:
  "kept_buckets c start stop (together_buckets (fst (replace_range db c ms start stop now)))
   = kept_buckets c start stop (together_buckets db)"
proof -
  define es where "es = estimates (range_timeline db c ms (floor_minute start) (ceil_minute stop) now)"
  have es: "replaceable (cpl_id c) (floor_minute start) (ceil_minute stop) (new_bucket (cpl_id c) now e)"
    if "e \<in> set es" for e
    using range_timeline_window [of e db c ms "floor_minute start" "ceil_minute stop" now] that
    by (simp add: es_def replaceable_def new_bucket_def)
  have "kept_buckets c start stop (fold (\<lambda>item. insert_new bucket_key (new_bucket (cpl_id c) now item)) es rows)
      = kept_buckets c start stop rows" for rows
    using es
  proof (induction es arbitrary: rows)
    case Nil
    then show ?case by simp
  next
    case (Cons e es)
    then show ?case by (simp add: insert_new_def kept_buckets_def delete_where_def)
  qed
  from this [of "kept_buckets c start stop (together_buckets db)"] show ?thesis
    by (simp add: replace_range_buckets es_def) (simp add: kept_buckets_def delete_where_def)
qed

text \<open>
  C22 Replacing a range touches only this couple's uncorrected minutes of the range: every
  other bucket, and every corrected one, stays as it was; the range then holds exactly the minutes
  of the recomputed timeline that no corrected bucket claims; keys and check constraints of the
  table still hold; and replacing it again changes nothing.
\<close>

theorem replace_range_exact:
  assumes "buckets_ok (together_buckets db)"
    and "db' = fst (replace_range db c ms start stop now)"
  shows "buckets_ok (together_buckets db')
    \<and> (\<forall>b. tb_couple_id b \<noteq> cpl_id c \<or> tb_corrected_at b \<noteq> None
         \<or> tb_bucket_start b < floor_minute start \<or> ceil_minute stop \<le> tb_bucket_start b
         \<longrightarrow> (b \<in> set (together_buckets db') \<longleftrightarrow> b \<in> set (together_buckets db)))
    \<and> (\<forall>b. tb_couple_id b = cpl_id c \<and> tb_corrected_at b = None
         \<and> floor_minute start \<le> tb_bucket_start b \<and> tb_bucket_start b < ceil_minute stop
         \<longrightarrow> (b \<in> set (together_buckets db') \<longleftrightarrow>
               (\<exists>e \<in> set (estimates (range_timeline db c ms (floor_minute start) (ceil_minute stop) now)).
                  b = new_bucket (cpl_id c) now e
                  \<and> (\<forall>old \<in> set (together_buckets db).
                       tb_corrected_at old \<noteq> None \<and> tb_couple_id old = cpl_id c
                       \<longrightarrow> tb_bucket_start old \<noteq> bucket_start e))))
    \<and> fst (replace_range db' c ms start stop now) = db'"
proof (intro conjI allI impI)
  show "buckets_ok (together_buckets db')"
    using assms by (simp add: buckets_ok_replace_range)
  show "fst (replace_range db' c ms start stop now) = db'"
  proof -
    have "range_timeline db' c ms lo hi now = range_timeline db c ms lo hi now" for lo hi
      by (rule range_timeline_samples) (simp add: assms(2) replace_range_def Let_def)
    moreover have "kept_buckets c start stop (together_buckets db')
        = kept_buckets c start stop (together_buckets db)"
      unfolding assms(2) by (rule kept_buckets_again)
    ultimately have "together_buckets (fst (replace_range db' c ms start stop now)) = together_buckets db'"
      unfolding replace_range_buckets [of db'] assms(2) [THEN arg_cong, of together_buckets]
        replace_range_buckets [of db] by simp
    then show ?thesis by (subst replace_range_frame) simp
  qed
next
  fix b assume out: "tb_couple_id b \<noteq> cpl_id c \<or> tb_corrected_at b \<noteq> None
    \<or> tb_bucket_start b < floor_minute start \<or> ceil_minute stop \<le> tb_bucket_start b"
  have "b \<noteq> new_bucket (cpl_id c) now e"
    if "e \<in> set (estimates (range_timeline db c ms (floor_minute start) (ceil_minute stop) now))" for e
    using range_timeline_window [OF that] out by (auto simp: new_bucket_def)
  then have "b \<in> set (together_buckets db') \<longleftrightarrow> b \<in> set (kept_buckets c start stop (together_buckets db))"
    unfolding assms(2) set_replace_range by blast
  also have "\<dots> \<longleftrightarrow> b \<in> set (together_buckets db)"
    using out by (auto simp: kept_buckets_def set_delete_where replaceable_def)
  finally show "b \<in> set (together_buckets db') \<longleftrightarrow> b \<in> set (together_buckets db)" .
next
  fix b assume inside: "tb_couple_id b = cpl_id c \<and> tb_corrected_at b = None
    \<and> floor_minute start \<le> tb_bucket_start b \<and> tb_bucket_start b < ceil_minute stop"
  have "b \<notin> set (kept_buckets c start stop (together_buckets db))"
    using inside by (simp add: kept_buckets_def set_delete_where replaceable_def)
  moreover have "(cpl_id c, bucket_start e) \<notin> bucket_key ` set (kept_buckets c start stop (together_buckets db))
      \<longleftrightarrow> (\<forall>old \<in> set (together_buckets db). tb_corrected_at old \<noteq> None \<and> tb_couple_id old = cpl_id c
            \<longrightarrow> tb_bucket_start old \<noteq> bucket_start e)"
    if "e \<in> set (estimates (range_timeline db c ms (floor_minute start) (ceil_minute stop) now))" for e
  proof -
    have "old \<in> set (kept_buckets c start stop (together_buckets db))
        \<and> bucket_key old = (cpl_id c, bucket_start e)
      \<longleftrightarrow> old \<in> set (together_buckets db) \<and> tb_corrected_at old \<noteq> None
        \<and> tb_couple_id old = cpl_id c \<and> tb_bucket_start old = bucket_start e" for old
      using range_timeline_window [OF that floor_minute_aligned]
      by (auto simp: kept_buckets_def set_delete_where replaceable_def bucket_key_def)
    then show ?thesis unfolding image_iff by (metis (no_types))
  qed
  ultimately show "b \<in> set (together_buckets db') \<longleftrightarrow>
      (\<exists>e \<in> set (estimates (range_timeline db c ms (floor_minute start) (ceil_minute stop) now)).
         b = new_bucket (cpl_id c) now e
         \<and> (\<forall>old \<in> set (together_buckets db). tb_corrected_at old \<noteq> None \<and> tb_couple_id old = cpl_id c
              \<longrightarrow> tb_bucket_start old \<noteq> bucket_start e))"
    unfolding assms(2) set_replace_range by blast
qed

end
