(* ===== verification/Together_Time.thy ===== *)
theory Together_Time
  imports Together_Ranges Proximity Notifications
begin

text \<open>
  Properties of the together-time routes: what an upload stores and for whom, replays of an
  upload, the daily totals, and corrections.
\<close>

section \<open>Storing samples\<close>

definition sample_key_of :: "location_sample \<Rightarrow> uuid \<times> uuid" where
  "sample_key_of s = (ls_account_id s, ls_sample_id s)"

text \<open>The row a request describes is stored.\<close>

definition stored :: "uuid \<Rightarrow> uuid \<Rightarrow> location_sample list \<Rightarrow> sample_request \<Rightarrow> bool" where
  "stored a k rows s \<longleftrightarrow>
     (\<exists>u r. sr_recorded_at s = Aware u
        \<and> scalar (\<lambda>r. ls_account_id r = a \<and> ls_sample_id r = sr_sample_id s) rows = Some r
        \<and> same_sample r k u s)"

definition policy_row :: "uuid \<Rightarrow> uuid \<Rightarrow> instant \<Rightarrow> location_sample \<Rightarrow> bool" where
  "policy_row a k now r \<longleftrightarrow>
     ls_account_id r = a \<and> ls_couple_id r = k
     \<and> now - RECOMPUTE_HORIZON \<le> ls_recorded_at r \<and> ls_recorded_at r \<le> now + 5 * minute
     \<and> ls_expires_at r = ls_recorded_at r + (RAW_LOCATION_RETENTION - PRIVACY_MAINTENANCE_INTERVAL)"

lemma scalar_append_Some: "scalar p rows = Some r \<Longrightarrow> scalar p (rows @ extra) = Some r"
  by (induction rows) (auto simp: scalar_def split: if_splits)

lemma scalar_append_None: "scalar p rows = None \<Longrightarrow> scalar p (rows @ extra) = scalar p extra"
  by (induction rows) (auto simp: scalar_def split: if_splits)

lemma scalar_single [simp]: "scalar p [r] = (if p r then Some r else None)"
  by (simp add: scalar_def)

lemma stored_append: "stored a k rows s \<Longrightarrow> stored a k (rows @ extra) s"
  by (auto simp: stored_def intro: scalar_append_Some)

lemma store_location_sample_Inr:
  assumes "store_location_sample rows a k s now = Inr (rows', recorded)"
  shows "\<exists>new. rows' = rows @ new \<and> stored a k rows' s
    \<and> (recorded = None \<longrightarrow> new = []) \<and> (recorded \<noteq> None \<longrightarrow> (\<exists>r. new = [r] \<and> policy_row a k now r
         \<and> recorded = Some (ls_recorded_at r) \<and> sample_key_of r \<notin> sample_key_of ` set rows))"
proof -
  from assms obtain u where u: "sr_recorded_at s = Aware u"
      "\<not> (u < now - RECOMPUTE_HORIZON \<or> now + 5 * minute < u)"
    and rest: "(case scalar (\<lambda>r. ls_account_id r = a \<and> ls_sample_id r = sr_sample_id s) rows of
         Some existing \<Rightarrow>
           (if \<not> same_sample existing k u s
            then Inl (HTTPException 409 ''sample_id_conflict'') else Inr (rows, None))
       | None \<Rightarrow>
           bind_exc (raw_location_expires_at (Aware u)) (\<lambda>expires.
             Inr (rows @ [\<lparr>ls_sample_id = sr_sample_id s, ls_account_id = a,
                            ls_couple_id = k, ls_recorded_at = u,
                            ls_latitude = sr_latitude s, ls_longitude = sr_longitude s,
                            ls_accuracy_m = sr_accuracy_m s, ls_expires_at = expires\<rparr>], Some u)))
      = Inr (rows', recorded)"
    by (auto simp: store_location_sample_def bind_exc_Inr_iff validate_sample_time_def
        split: py_datetime.splits if_splits)
  show ?thesis
  proof (cases "scalar (\<lambda>r. ls_account_id r = a \<and> ls_sample_id r = sr_sample_id s) rows")
    case (Some r)
    with rest have "rows' = rows" "recorded = None" "same_sample r k u s"
      by (auto split: if_splits)
    with Some u show ?thesis by (auto simp: stored_def)
  next
    case None
    define r where "r = \<lparr>ls_sample_id = sr_sample_id s, ls_account_id = a, ls_couple_id = k,
      ls_recorded_at = u, ls_latitude = sr_latitude s, ls_longitude = sr_longitude s,
      ls_accuracy_m = sr_accuracy_m s,
      ls_expires_at = u + RAW_LOCATION_RETENTION - PRIVACY_MAINTENANCE_INTERVAL\<rparr>"
    have r: "rows' = rows @ [r]" "recorded = Some u"
      "ls_account_id r = a" "ls_sample_id r = sr_sample_id s" "same_sample r k u s"
      "ls_couple_id r = k" "ls_recorded_at r = u"
      "ls_expires_at r = u + RAW_LOCATION_RETENTION - PRIVACY_MAINTENANCE_INTERVAL"
      using rest None by (simp_all add: raw_location_expires_at_def same_sample_def r_def)
    moreover have "stored a k rows' s"
      using None r u(1) by (simp add: stored_def scalar_append_None)
    moreover have "sample_key_of r \<notin> sample_key_of ` set rows"
      using None r(3,4) by (auto simp: scalar_None sample_key_of_def)
    ultimately show ?thesis using u(2) by (auto simp: policy_row_def)
  qed
qed

lemma store_location_sample_replay:
  assumes "stored a k rows s" "store_location_sample rows a k s now = Inr (rows', recorded)"
  shows "rows' = rows \<and> recorded = None"
  using assms
  by (auto simp: store_location_sample_def stored_def bind_exc_Inr_iff validate_sample_time_def
      split: if_splits py_datetime.splits)

lemma store_location_batch_Inr:
  assumes "store_location_batch rows a k samples now = Inr (rows', accepted, duplicates, changed)"
  shows "\<exists>new. rows' = rows @ new \<and> length new = accepted \<and> accepted + duplicates = length samples
    \<and> changed = map ls_recorded_at new \<and> (\<forall>r \<in> set new. policy_row a k now r)
    \<and> (\<forall>s \<in> set samples. stored a k rows' s)
    \<and> (distinct (map sample_key_of rows) \<longrightarrow> distinct (map sample_key_of rows'))"
  using assms
proof (induction samples arbitrary: rows rows' accepted duplicates changed)
  case Nil
  then show ?case by simp
next
  case (Cons s samples)
  from Cons.prems obtain rows1 recorded acc dup ch where
    one: "store_location_sample rows a k s now = Inr (rows1, recorded)"
    and rest: "store_location_batch rows1 a k samples now = Inr (rows', acc, dup, ch)"
    and out: "(accepted, duplicates, changed) = (case recorded of
        None \<Rightarrow> (acc, dup + 1, ch) | Some u \<Rightarrow> (acc + 1, dup, u # ch))"
    by (auto simp: bind_exc_Inr_iff split: option.splits)
  from store_location_sample_Inr [OF one] obtain n1 where n1: "rows1 = rows @ n1"
    "stored a k rows1 s" "recorded = None \<longrightarrow> n1 = []"
    "recorded \<noteq> None \<longrightarrow> (\<exists>r. n1 = [r] \<and> policy_row a k now r
       \<and> recorded = Some (ls_recorded_at r) \<and> sample_key_of r \<notin> sample_key_of ` set rows)"
    by blast
  from Cons.IH [OF rest] obtain n2 where n2: "rows' = rows1 @ n2" "length n2 = acc"
    "acc + dup = length samples" "ch = map ls_recorded_at n2" "\<forall>r \<in> set n2. policy_row a k now r"
    "\<forall>s \<in> set samples. stored a k rows' s"
    "distinct (map sample_key_of rows1) \<longrightarrow> distinct (map sample_key_of rows')"
    by blast
  have "stored a k rows' s" using n1(2) n2(1) by (simp add: stored_append)
  moreover have "distinct (map sample_key_of rows) \<longrightarrow> distinct (map sample_key_of rows')"
    using n1 n2(7) by (cases recorded) auto
  ultimately show ?case
    using n1 n2 out by (intro exI [of _ "n1 @ n2"]) (cases recorded; auto)
qed

lemma store_location_batch_replay:
  assumes "\<forall>s \<in> set samples. stored a k rows s"
    and "store_location_batch rows a k samples now = Inr (rows', accepted, duplicates, changed)"
  shows "rows' = rows \<and> accepted = 0 \<and> duplicates = length samples \<and> changed = []"
  using assms
proof (induction samples arbitrary: rows' accepted duplicates changed)
  case Nil
  then show ?case by simp
next
  case (Cons s samples)
  from Cons.prems(2) obtain rows1 recorded acc dup ch where
    one: "store_location_sample rows a k s now = Inr (rows1, recorded)"
    and rest: "store_location_batch rows1 a k samples now = Inr (rows', acc, dup, ch)"
    and out: "(accepted, duplicates, changed) = (case recorded of
        None \<Rightarrow> (acc, dup + 1, ch) | Some u \<Rightarrow> (acc + 1, dup, u # ch))"
    by (auto simp: bind_exc_Inr_iff split: option.splits)
  have "rows1 = rows" "recorded = None"
    using store_location_sample_replay [OF _ one] Cons.prems(1) by auto
  with Cons.IH [of rows' acc dup ch] Cons.prems(1) rest out show ?case by simp
qed

section \<open>Frames of the recomputation\<close>

lemma sync_day_frame: "\<exists>x. sync_day tz new_id c now d db = db\<lparr>together_days := x\<rparr>"
  unfolding sync_day_def Let_def
  by (cases "day_bounds tz d (cpl_home_timezone c)") (simp only: prod.case, blast)

lemma sync_daily_totals_frame:
  "\<exists>x. sync_daily_totals tz new_id c days now db = db\<lparr>together_days := x\<rparr>"
proof -
  have "\<exists>x. fold (sync_day tz new_id c now) ds db = db\<lparr>together_days := x\<rparr>" for ds
  proof (induction ds arbitrary: db)
    case Nil
    show ?case by (rule exI [of _ "together_days db"]) simp
  next
    case (Cons d ds)
    obtain x where "sync_day tz new_id c now d db = db\<lparr>together_days := x\<rparr>"
      using sync_day_frame by blast
    with Cons.IH [of "db\<lparr>together_days := x\<rparr>"] show ?case by simp
  qed
  then show ?thesis by (simp add: sync_daily_totals_def)
qed

lemma replace_ranges_frame:
  "replace_ranges tz c ms now ranges (db, n, ds) = (db', n', ds') \<Longrightarrow>
    \<exists>x. db' = db\<lparr>together_buckets := x\<rparr> \<and> (buckets_ok (together_buckets db) \<longrightarrow> buckets_ok x)"
proof (induction ranges arbitrary: db n ds)
  case Nil
  then have "db' = db\<lparr>together_buckets := together_buckets db\<rparr>" by simp
  then show ?case by blast
next
  case (Cons r ranges)
  obtain start stop where r: "r = (start, stop)" by (cases r)
  define x where "x = together_buckets (fst (replace_range db c ms start stop now))"
  obtain s where one: "replace_range db c ms start stop now = (db\<lparr>together_buckets := x\<rparr>, s)"
    using replace_range_frame [of db c ms start stop now]
    by (cases "replace_range db c ms start stop now") (simp add: x_def)
  have "buckets_ok (together_buckets db) \<longrightarrow> buckets_ok x"
    using buckets_ok_replace_range [of db c ms start stop now] by (simp add: x_def)
  with Cons.IH [of "db\<lparr>together_buckets := x\<rparr>"] Cons.prems one show ?case
    by (simp add: r) blast
qed

section \<open>Daily totals\<close>

definition day_total :: "tzdb \<Rightarrow> couple \<Rightarrow> 'a time_db_scheme \<Rightarrow> date \<Rightarrow> int" where
  "day_total tz c db d =
     (let (start, stop) = day_bounds tz d (cpl_home_timezone c)
      in min (sum_of tb_duration_seconds (buckets_between db (cpl_id c) start stop))
           (day_seconds start stop))"

text \<open>The columns a member's correction wrote.\<close>

definition correction_of :: "together_day \<Rightarrow>
    uuid \<times> int option \<times> int \<times> uuid option \<times> string option \<times> instant option" where
  "correction_of d = (td_id d, td_corrected_seconds d, td_revision d, td_corrected_by d,
     td_correction_reason d, td_corrected_at d)"

text \<open>What synchronizing one day does: the row of that day is written, the others kept.\<close>

lemma sync_day_cases:
  obtains f row where
    "sync_day tz new_id c now d db = db\<lparr>together_days := upsert_day f row (together_days db)\<rparr>"
    "day_key row = (cpl_id c, d)" "td_estimated_seconds row = day_total tz c db d"
    "td_corrected_seconds row = None" "td_id row = new_id d"
    "\<And>x. td_estimated_seconds (f x) = day_total tz c db d"
    "\<And>x. day_key (f x) = day_key x" "\<And>x. correction_of (f x) = correction_of x"
proof (cases "day_bounds tz d (cpl_home_timezone c)")
  case (Pair start stop)
  show ?thesis
    by (rule that) (unfold sync_day_def Let_def Pair prod.case, rule refl,
      simp_all add: day_key_def correction_of_def day_total_def Pair)
qed

lemma upsert_day_iff:
  "upsert_day f row rows =
     (if day_key row \<in> day_key ` set rows then update_where (\<lambda>d. day_key d = day_key row) f rows
      else rows @ [row])"
  by (auto simp: upsert_day_def Let_def list_ex_iff day_key_def image_iff)

lemma sync_day_rows:
  assumes "distinct (map day_key (together_days db))" "db' = sync_day tz new_id c now d db"
  shows "distinct (map day_key (together_days db'))"
    and "\<exists>r \<in> set (together_days db'). day_key r = (cpl_id c, d)
           \<and> td_estimated_seconds r = day_total tz c db d"
    and "\<And>r. day_key r \<noteq> (cpl_id c, d) \<Longrightarrow>
           r \<in> set (together_days db') \<longleftrightarrow> r \<in> set (together_days db)"
    and "\<And>r. r \<in> set (together_days db) \<Longrightarrow>
           \<exists>r' \<in> set (together_days db'). day_key r' = day_key r \<and> correction_of r' = correction_of r"
proof -
  obtain f row where
    s: "sync_day tz new_id c now d db = db\<lparr>together_days := upsert_day f row (together_days db)\<rparr>"
    and row: "day_key row = (cpl_id c, d)" "td_estimated_seconds row = day_total tz c db d"
    and f: "\<And>x. td_estimated_seconds (f x) = day_total tz c db d"
      "\<And>x. day_key (f x) = day_key x" "\<And>x. correction_of (f x) = correction_of x"
    by (rule sync_day_cases [of tz new_id c now d db]) blast
  have days: "together_days db' = upsert_day f row (together_days db)"
    by (simp add: assms(2) s)
  show "distinct (map day_key (together_days db'))"
    using assms(1) by (simp add: days upsert_day_iff map_update_where f)
  show "\<exists>r \<in> set (together_days db'). day_key r = (cpl_id c, d)
      \<and> td_estimated_seconds r = day_total tz c db d"
  proof (cases "day_key row \<in> day_key ` set (together_days db)")
    case True
    then obtain x where "x \<in> set (together_days db)" "day_key x = day_key row" by auto
    with True row f show ?thesis
      by (intro bexI [of _ "f x"]) (auto simp: days upsert_day_iff set_update_where)
  next
    case False
    with row show ?thesis by (auto simp: days upsert_day_iff)
  qed
  show "r \<in> set (together_days db') \<longleftrightarrow> r \<in> set (together_days db)"
    if "day_key r \<noteq> (cpl_id c, d)" for r
    using that row f by (auto simp: days upsert_day_iff set_update_where)
  show "\<exists>r' \<in> set (together_days db'). day_key r' = day_key r \<and> correction_of r' = correction_of r"
    if "r \<in> set (together_days db)" for r
  proof (cases "day_key row \<in> day_key ` set (together_days db)")
    case True
    then have "together_days db' = update_where (\<lambda>d. day_key d = day_key row) f (together_days db)"
      by (simp add: days upsert_day_iff)
    with update_where_mem [OF that, of "\<lambda>d. day_key d = day_key row" f] f show ?thesis
      by (intro bexI [of _ "if day_key r = day_key row then f r else r"]) simp_all
  next
    case False
    with that show ?thesis by (auto simp: days upsert_day_iff)
  qed
qed

lemma day_total_days [simp]:
  "day_total tz c (db\<lparr>together_days := x\<rparr>) d = day_total tz c db d"
  by (simp add: day_total_def buckets_between_def)

lemma fold_sync_day_rows:
  assumes "distinct (map day_key (together_days db))" "distinct ds"
    and "db' = fold (sync_day tz new_id c now) ds db"
  shows "distinct (map day_key (together_days db'))
    \<and> (\<forall>d \<in> set ds. \<exists>r \<in> set (together_days db'). day_key r = (cpl_id c, d)
         \<and> td_estimated_seconds r = day_total tz c db d)
    \<and> (\<forall>r. fst (day_key r) \<noteq> cpl_id c \<or> snd (day_key r) \<notin> set ds \<longrightarrow>
         (r \<in> set (together_days db') \<longleftrightarrow> r \<in> set (together_days db)))
    \<and> (\<forall>r \<in> set (together_days db). \<exists>r' \<in> set (together_days db').
         day_key r' = day_key r \<and> correction_of r' = correction_of r)"
  using assms
proof (induction ds arbitrary: db)
  case Nil
  then show ?case by auto
next
  case (Cons d ds)
  define db1 where "db1 = sync_day tz new_id c now d db"
  note one = sync_day_rows [OF Cons.prems(1) db1_def]
  obtain x where x: "db1 = db\<lparr>together_days := x\<rparr>"
    using sync_day_frame unfolding db1_def by blast
  have total: "day_total tz c db1 e = day_total tz c db e" for e by (simp add: x)
  have d: "distinct ds" "d \<notin> set ds" using Cons.prems(2) by simp_all
  have db': "db' = fold (sync_day tz new_id c now) ds db1"
    using Cons.prems(3) by (simp add: db1_def)
  note IH = Cons.IH [OF one(1) d(1) db']
  have first: "\<exists>r \<in> set (together_days db'). day_key r = (cpl_id c, d)
      \<and> td_estimated_seconds r = day_total tz c db d"
  proof -
    from one(2) obtain r where r: "r \<in> set (together_days db1)" "day_key r = (cpl_id c, d)"
        "td_estimated_seconds r = day_total tz c db d" by blast
    then have "r \<in> set (together_days db')" using IH d(2) by (metis snd_conv)
    with r show ?thesis by blast
  qed
  show ?case
  proof (intro conjI)
    show "distinct (map day_key (together_days db'))" using IH by blast
    show "\<forall>e \<in> set (d # ds). \<exists>r \<in> set (together_days db'). day_key r = (cpl_id c, e)
        \<and> td_estimated_seconds r = day_total tz c db e"
      using IH first by (simp add: total)
    show "\<forall>r. fst (day_key r) \<noteq> cpl_id c \<or> snd (day_key r) \<notin> set (d # ds) \<longrightarrow>
        (r \<in> set (together_days db') \<longleftrightarrow> r \<in> set (together_days db))"
    proof (intro allI impI)
      fix r assume out: "fst (day_key r) \<noteq> cpl_id c \<or> snd (day_key r) \<notin> set (d # ds)"
      then have "day_key r \<noteq> (cpl_id c, d)" by auto
      from one(3) [OF this] IH out show "r \<in> set (together_days db') \<longleftrightarrow> r \<in> set (together_days db)"
        by auto
    qed
    show "\<forall>r \<in> set (together_days db). \<exists>r' \<in> set (together_days db').
        day_key r' = day_key r \<and> correction_of r' = correction_of r"
      using one(4) IH by metis
  qed
qed

text \<open>
  C23 Synchronizing daily totals writes, for each affected day, the sum of the couple's minute
  buckets inside the day's real bounds, capped at the day's length; it leaves every other day
  alone, keeps one row per day, and never changes a member's correction or its revision.
\<close>

theorem daily_totals_exact:
  assumes "distinct (map day_key (together_days db))"
    and "db' = sync_daily_totals tz new_id c days now db"
  shows "distinct (map day_key (together_days db'))
    \<and> (\<forall>d \<in> set days. \<exists>r \<in> set (together_days db'). day_key r = (cpl_id c, d)
         \<and> td_estimated_seconds r = day_total tz c db d)
    \<and> (\<forall>r. fst (day_key r) \<noteq> cpl_id c \<or> snd (day_key r) \<notin> set days \<longrightarrow>
         (r \<in> set (together_days db') \<longleftrightarrow> r \<in> set (together_days db)))
    \<and> (\<forall>r \<in> set (together_days db). \<exists>r' \<in> set (together_days db').
         day_key r' = day_key r \<and> correction_of r' = correction_of r)"
  using fold_sync_day_rows [OF assms(1) _ assms(2) [unfolded sync_daily_totals_def]] by simp

section \<open>Uploads\<close>

lemma recompute_Inr:
  assumes "recompute_recent_proximity tz new_id db c ms changed now = Inr (db', n)"
  obtains x y z days where
    "db' = db\<lparr>together_buckets := x, couples := y, together_days := z\<rparr>"
    "buckets_ok (together_buckets db) \<longrightarrow> buckets_ok x"
    "y = update_where (\<lambda>r. cpl_id r = cpl_id c) (\<lambda>r. r\<lparr>cpl_proximity_processed_through :=
         mutual_sample_freshness (latest_streams (db\<lparr>together_buckets := x\<rparr>) (cpl_id c) ms now),
         cpl_proximity_algorithm_version := ALGORITHM_VERSION, cpl_updated_at := now\<rparr>) (couples db)"
    "db' = sync_daily_totals tz new_id c days now (db\<lparr>together_buckets := x, couples := y\<rparr>)"
    "ALGORITHM_VERSION \<le> cpl_proximity_algorithm_version c \<longrightarrow> changed = [] \<longrightarrow>
       x = together_buckets db \<and> days = []"
proof -
  define ranges where "ranges = (if cpl_proximity_algorithm_version c < ALGORITHM_VERSION
    then [(now - RECOMPUTE_HORIZON, now)] else recompute_ranges changed (now - RECOMPUTE_HORIZON) now)"
  obtain db1 n1 days where rr: "replace_ranges tz c ms now ranges (db, 0, []) = (db1, n1, days)"
    by (cases "replace_ranges tz c ms now ranges (db, 0, [])")
  from replace_ranges_frame [OF rr] obtain x where
    x: "db1 = db\<lparr>together_buckets := x\<rparr>" "buckets_ok (together_buckets db) \<longrightarrow> buckets_ok x" by blast
  define y where "y = update_where (\<lambda>r. cpl_id r = cpl_id c) (\<lambda>r. r\<lparr>cpl_proximity_processed_through :=
         mutual_sample_freshness (latest_streams (db\<lparr>together_buckets := x\<rparr>) (cpl_id c) ms now),
         cpl_proximity_algorithm_version := ALGORITHM_VERSION, cpl_updated_at := now\<rparr>) (couples db)"
  have db': "db' = sync_daily_totals tz new_id c days now (db\<lparr>together_buckets := x, couples := y\<rparr>)"
    using assms rr by (simp add: recompute_recent_proximity_def Let_def ranges_def [symmetric] x(1)
        y_def split: if_splits)
  obtain z where z: "db' = db\<lparr>together_buckets := x, couples := y, together_days := z\<rparr>"
    using sync_daily_totals_frame db' by blast
  have "x = together_buckets db \<and> days = []"
    if "ALGORITHM_VERSION \<le> cpl_proximity_algorithm_version c" "changed = []"
  proof -
    have "ranges = []" using that by (simp add: ranges_def recompute_ranges_def)
    with rr x(1) have e: "db\<lparr>together_buckets := x\<rparr> = db" and "days = []" by simp_all
    have "together_buckets (db\<lparr>together_buckets := x\<rparr>) = together_buckets db" by (simp only: e)
    with \<open>days = []\<close> show ?thesis by simp
  qed
  then show thesis by (intro that [OF z x(2) y_def db']) blast
qed

lemma upload_locations_Inr:
  assumes "upload_locations tz new_id db a k samples now = Inr (db', r)"
  obtains m c rows changed where
    "active_member db a = Inr m" "lock_couple db (mem_couple_id m) = Inr c" "k = cpl_id c"
    "both_members_consent db (cpl_id c) ''location_enabled'' = Inr True"
    "store_location_batch (location_samples db) a (cpl_id c) samples now
       = Inr (rows, br_accepted r, br_duplicates r, changed)"
    "recompute_recent_proximity tz new_id (db\<lparr>location_samples := rows\<rparr>) c
       (active_member_ids db (cpl_id c)) changed now = Inr (db', br_nearby_seconds_recomputed r)"
  using assms by (auto simp: upload_locations_def bind_exc_Inr_iff split: if_splits)

text \<open>
  C2 Raw coordinates are stored only for an active member of a live couple in which both
  switched location sharing on, only under that couple, only for times between the recompute horizon
  and five minutes ahead, and always with an expiry less than a day after the observation;
  an upload stores exactly its accepted samples, appended, and removes none.
\<close>

theorem upload_respects_consent:
  assumes "upload_locations tz new_id db a k samples now = Inr (db', r)"
  shows "\<exists>new. location_samples db' = location_samples db @ new \<and> length new = br_accepted r
    \<and> br_accepted r + br_duplicates r = length samples
    \<and> (\<exists>c \<in> set (couples db). cpl_id c = k \<and> cpl_ended_at c = None)
    \<and> (\<exists>m \<in> set (members db). mem_account_id m = a \<and> mem_couple_id m = k \<and> mem_left_at m = None)
    \<and> length (filter (\<lambda>m. mem_couple_id m = k \<and> mem_left_at m = None \<and> mem_location_enabled m)
          (members db)) = 2
    \<and> (\<forall>s \<in> set new. ls_account_id s = a \<and> ls_couple_id s = k
         \<and> now - RECOMPUTE_HORIZON \<le> ls_recorded_at s \<and> ls_recorded_at s \<le> now + 5 * minute
         \<and> ls_expires_at s < ls_recorded_at s + 24 * hour)"
proof (rule upload_locations_Inr [OF assms])
  fix m c rows changed
  assume u: "active_member db a = Inr m" "lock_couple db (mem_couple_id m) = Inr c" "k = cpl_id c"
    "both_members_consent db (cpl_id c) ''location_enabled'' = Inr True"
    "store_location_batch (location_samples db) a (cpl_id c) samples now
       = Inr (rows, br_accepted r, br_duplicates r, changed)"
    "recompute_recent_proximity tz new_id (db\<lparr>location_samples := rows\<rparr>) c
       (active_member_ids db (cpl_id c)) changed now = Inr (db', br_nearby_seconds_recomputed r)"
  note m = active_member_Inr [OF u(1)] and c = lock_couple_Inr [OF u(2)]
  from store_location_batch_Inr [OF u(5)] obtain new where new: "rows = location_samples db @ new"
    "length new = br_accepted r" "br_accepted r + br_duplicates r = length samples"
    "\<forall>s \<in> set new. policy_row a (cpl_id c) now s" by blast
  have "location_samples db' = rows" by (rule recompute_Inr [OF u(6)]) simp
  moreover have "\<forall>s \<in> set new. ls_account_id s = a \<and> ls_couple_id s = k
      \<and> now - RECOMPUTE_HORIZON \<le> ls_recorded_at s \<and> ls_recorded_at s \<le> now + 5 * minute
      \<and> ls_expires_at s < ls_recorded_at s + 24 * hour"
    using new(4) u(3) by (auto simp: policy_row_def interval_defs)
  moreover have "length (filter (\<lambda>m. mem_couple_id m = k \<and> mem_left_at m = None
      \<and> mem_location_enabled m) (members db)) = 2"
    using u(3,4) by (simp add: both_members_consent_def consent_column_def select_def is_active_def)
  ultimately show ?thesis
    using new(1-3) m c u(3) by (intro exI [of _ new]) (auto simp: is_active_def)
qed

text \<open>
  C25 Uploads are retry-safe: repeating a batch that was stored, at any later time at which it is
  accepted, reports every sample as a duplicate and changes no sample, minute bucket or
  daily total.
\<close>

theorem upload_retry_safe:
  assumes "upload_locations tz new_id db a k samples now = Inr (db1, r1)"
    and "upload_locations tz new_id' db1 a k samples now' = Inr (db2, r2)"
  shows "br_accepted r2 = 0 \<and> br_duplicates r2 = length samples
    \<and> location_samples db2 = location_samples db1 \<and> together_buckets db2 = together_buckets db1
    \<and> together_days db2 = together_days db1"
proof (rule upload_locations_Inr [OF assms(1)], rule upload_locations_Inr [OF assms(2)])
  fix m c rows changed m' c' rows' changed'
  assume u: "k = cpl_id c"
    "store_location_batch (location_samples db) a (cpl_id c) samples now
       = Inr (rows, br_accepted r1, br_duplicates r1, changed)"
    "recompute_recent_proximity tz new_id (db\<lparr>location_samples := rows\<rparr>) c
       (active_member_ids db (cpl_id c)) changed now = Inr (db1, br_nearby_seconds_recomputed r1)"
  assume v: "lock_couple db1 (mem_couple_id m') = Inr c'" "k = cpl_id c'"
    "store_location_batch (location_samples db1) a (cpl_id c') samples now'
       = Inr (rows', br_accepted r2, br_duplicates r2, changed')"
    "recompute_recent_proximity tz new_id' (db1\<lparr>location_samples := rows'\<rparr>) c'
       (active_member_ids db1 (cpl_id c')) changed' now' = Inr (db2, br_nearby_seconds_recomputed r2)"
  have rows: "location_samples db1 = rows" by (rule recompute_Inr [OF u(3)]) simp
  have "\<forall>s \<in> set samples. stored a k rows s"
    using store_location_batch_Inr [OF u(2)] u(1) by blast
  from store_location_batch_replay [OF this] v(2,3) rows
  have replay: "rows' = location_samples db1" "br_accepted r2 = 0" "br_duplicates r2 = length samples"
    "changed' = []" by auto
  have "cpl_proximity_algorithm_version c' = ALGORITHM_VERSION"
  proof (rule recompute_Inr [OF u(3)])
    fix x y z days
    assume "db1 = db\<lparr>location_samples := rows\<rparr>\<lparr>together_buckets := x, couples := y, together_days := z\<rparr>"
      and "y = update_where (\<lambda>r. cpl_id r = cpl_id c) (\<lambda>r. r\<lparr>cpl_proximity_processed_through :=
         mutual_sample_freshness (latest_streams (db\<lparr>location_samples := rows\<rparr>\<lparr>together_buckets := x\<rparr>)
           (cpl_id c) (active_member_ids db (cpl_id c)) now),
         cpl_proximity_algorithm_version := ALGORITHM_VERSION, cpl_updated_at := now\<rparr>)
         (couples (db\<lparr>location_samples := rows\<rparr>))"
    then have "c' \<in> set y" using lock_couple_Inr [OF v(1)] by simp
    with \<open>y = _\<close> u(1) v(2) show ?thesis by (auto simp: set_update_where)
  qed
  then show ?thesis
  proof (rule_tac recompute_Inr [OF v(4)])
    fix x y z days
    assume "cpl_proximity_algorithm_version c' = ALGORITHM_VERSION"
      and z: "db2 = db1\<lparr>location_samples := rows'\<rparr>\<lparr>together_buckets := x, couples := y, together_days := z\<rparr>"
      and s: "db2 = sync_daily_totals tz new_id' c' days now'
        (db1\<lparr>location_samples := rows'\<rparr>\<lparr>together_buckets := x, couples := y\<rparr>)"
      and "ALGORITHM_VERSION \<le> cpl_proximity_algorithm_version c' \<longrightarrow> changed' = [] \<longrightarrow>
        x = together_buckets (db1\<lparr>location_samples := rows'\<rparr>) \<and> days = []"
    then have "x = together_buckets db1" "days = []" using replay(4) by simp_all
    with s replay show ?thesis by (simp add: sync_daily_totals_def)
  qed
qed

section \<open>Corrections\<close>

type_synonym upload_op = "(date \<Rightarrow> uuid) \<times> uuid \<times> uuid \<times> sample_request list \<times> instant"

definition handle_upload ::
    "tzdb \<Rightarrow> 'a time_db_scheme \<Rightarrow> upload_op \<Rightarrow> exc + 'a time_db_scheme \<times> batch_response" where
  "handle_upload tz db op =
     (case op of (new_id, a, k, samples, now) \<Rightarrow> upload_locations tz new_id db a k samples now)"

lemma upload_days:
  assumes "upload_locations tz new_id db a k samples now = Inr (db', r)"
    and "distinct (map day_key (together_days db))"
  shows "distinct (map day_key (together_days db'))
    \<and> (\<forall>d \<in> set (together_days db). \<exists>d' \<in> set (together_days db').
         day_key d' = day_key d \<and> correction_of d' = correction_of d)"
proof (rule upload_locations_Inr [OF assms(1)])
  fix m c rows changed
  assume "recompute_recent_proximity tz new_id (db\<lparr>location_samples := rows\<rparr>) c
       (active_member_ids db (cpl_id c)) changed now = Inr (db', br_nearby_seconds_recomputed r)"
  then show ?thesis
  proof (rule recompute_Inr)
    fix x y z days
    assume s: "db' = sync_daily_totals tz new_id c days now
        (db\<lparr>location_samples := rows\<rparr>\<lparr>together_buckets := x, couples := y\<rparr>)"
    then show ?thesis
      using fold_sync_day_rows [OF _ _ s [unfolded sync_daily_totals_def]] assms(2) by simp
  qed
qed

definition has_correction :: "uuid \<times> date \<Rightarrow>
    uuid \<times> int option \<times> int \<times> uuid option \<times> string option \<times> instant option
      \<Rightarrow> 'a time_db_scheme \<Rightarrow> bool" where
  "has_correction key corr db \<longleftrightarrow>
     distinct (map day_key (together_days db))
     \<and> (\<exists>d \<in> set (together_days db). day_key d = key \<and> correction_of d = corr)"

interpretation uploads: preserving "handle_upload tz" "has_correction key corr" for tz key corr
proof
  fix db db' :: "'a time_db_scheme" and op r
  assume h: "has_correction key corr db" "handle_upload tz db op = Inr (db', r)"
  obtain new_id a k samples now where op: "op = (new_id, a, k, samples, now)"
    by (cases op) auto
  with h(2) have "upload_locations tz new_id db a k samples now = Inr (db', r)"
    by (simp add: handle_upload_def)
  note days = upload_days [OF this]
  from h(1) obtain d where "d \<in> set (together_days db)" "day_key d = key" "correction_of d = corr"
    and "distinct (map day_key (together_days db))"
    by (auto simp: has_correction_def)
  with days show "has_correction key corr db'"
    unfolding has_correction_def by metis
qed

text \<open>
  C21 A correction is final for the estimator: no sequence of uploads changes its value, its
  revision, its author or its reason, and the day goes on counting with it.
\<close>

theorem corrections_survive_uploads:
  assumes "distinct (map day_key (together_days db))"
    and "d \<in> set (together_days db)" "td_corrected_seconds d \<noteq> None"
  shows "\<exists>d' \<in> set (together_days (run_ops (handle_upload tz) db ops)).
    day_key d' = day_key d \<and> td_revision d' = td_revision d
    \<and> td_corrected_seconds d' = td_corrected_seconds d \<and> td_corrected_by d' = td_corrected_by d
    \<and> td_correction_reason d' = td_correction_reason d
    \<and> effective_seconds d' = effective_seconds d"
proof -
  have "has_correction (day_key d) (correction_of d) db"
    using assms(1,2) by (auto simp: has_correction_def)
  then have "has_correction (day_key d) (correction_of d) (run_ops (handle_upload tz) db ops)"
    by (rule uploads.inv_run)
  then obtain d' where "d' \<in> set (together_days (run_ops (handle_upload tz) db ops))"
      "day_key d' = day_key d" "correction_of d' = correction_of d"
    by (auto simp: has_correction_def)
  with assms(3) show ?thesis
    by (intro bexI [of _ d']) (auto simp: correction_of_def effective_seconds_def)
qed

lemma correct_together_day_Inr:
  assumes "correct_together_day tz fresh ev db a target seconds reason expected now = Inr (db', item')"
  obtains m c db1 item db2 where
    "active_member db a = Inr m" "lock_couple db (mem_couple_id m) = Inr c"
    "target < local_date (timezone_or_utc tz (cpl_home_timezone c)) now"
    "local_date (timezone_or_utc tz (cpl_home_timezone c)) (cpl_created_at c) \<le> target"
    "seconds \<le> whole_seconds (snd (day_bounds tz target (cpl_home_timezone c))
       - fst (day_bounds tz target (cpl_home_timezone c)))"
    "correctable_day tz fresh db c target now = Inr (db1, item)"
    "td_revision item = expected"
    "item' = item\<lparr>td_corrected_seconds := Some seconds, td_correction_reason := reason,
       td_corrected_by := Some a, td_corrected_at := Some now, td_updated_at := now,
       td_revision := expected + 1\<rparr>"
    "db2 = db1\<lparr>together_days := update_where (\<lambda>d. td_id d = td_id item) (\<lambda>_. item') (together_days db1)\<rparr>"
    "only_alerts db2 db'"
proof -
  from assms obtain m c where mc: "active_member db a = Inr m" "lock_couple db (mem_couple_id m) = Inr c"
    by (auto simp: correct_together_day_def bind_exc_Inr_iff)
  obtain start stop where b: "day_bounds tz target (cpl_home_timezone c) = (start, stop)"
    by (cases "day_bounds tz target (cpl_home_timezone c)")
  from assms mc b obtain db1 item where
    w: "\<not> (local_date (timezone_or_utc tz (cpl_home_timezone c)) now \<le> target
         \<or> target < local_date (timezone_or_utc tz (cpl_home_timezone c)) (cpl_created_at c))"
      "\<not> whole_seconds (stop - start) < seconds"
    and item: "correctable_day tz fresh db c target now = Inr (db1, item)"
    and rest: "(if td_revision item \<noteq> expected
               then Inl (HTTPException 409 ''Together-time day changed; refresh'')
               else
                 (let item' = item\<lparr>td_corrected_seconds := Some seconds,
                         td_correction_reason := reason, td_corrected_by := Some a,
                         td_corrected_at := Some now, td_updated_at := now,
                         td_revision := td_revision item + 1\<rparr>;
                      db = db1\<lparr>together_days :=
                         update_where (\<lambda>d. td_id d = td_id item) (\<lambda>_. item') (together_days db1)\<rparr>
                  in bind_exc (enqueue_together_correction_event db now ev (cpl_id c) a
                                 (td_id item') target (nat (td_revision item')))
                       (\<lambda>(db, _). Inr (db, item')))) = Inr (db', item')"
    by (auto simp: correct_together_day_def bind_exc_Inr_iff Let_def simp del: bind_exc.simps
        split: if_splits)
  from rest have "td_revision item = expected"
    and i: "item' = item\<lparr>td_corrected_seconds := Some seconds, td_correction_reason := reason,
       td_corrected_by := Some a, td_corrected_at := Some now, td_updated_at := now,
       td_revision := expected + 1\<rparr>"
    and a: "only_alerts (db1\<lparr>together_days :=
       update_where (\<lambda>d. td_id d = td_id item) (\<lambda>_. item') (together_days db1)\<rparr>) db'"
    by (auto simp: Let_def bind_exc_Inr_iff split: if_splits dest: correction_event_frame)
  with w show thesis
    by (intro that [OF mc _ _ _ item _ i refl a]) (simp_all add: b)
qed

lemma correctable_day_Inr:
  assumes "correctable_day tz fresh db c target now = Inr (db1, item)"
  shows "day_key item = (cpl_id c, target) \<and> item \<in> set (together_days db1)
    \<and> (\<exists>x. db1 = db\<lparr>together_days := x\<rparr>)
    \<and> (distinct (map day_key (together_days db)) \<longrightarrow> distinct (map day_key (together_days db1)))"
proof (cases "scalar (\<lambda>d. day_key d = (cpl_id c, target)) (together_days db)")
  case None
  with assms have item: "db1 = db\<lparr>together_days := together_days db @ [item]\<rparr>" "day_key item = (cpl_id c, target)"
    by (auto simp: correctable_day_def Let_def day_key_def)
  with None have "distinct (map day_key (together_days db)) \<longrightarrow> distinct (map day_key (together_days db1))"
    by (auto simp: scalar_None)
  with item show ?thesis by auto
next
  case (Some d)
  with assms have "db1 = db" "item = d" by (simp_all add: correctable_day_def)
  moreover have "db = db\<lparr>together_days := together_days db\<rparr>" by simp
  ultimately show ?thesis using scalar_Some [OF Some] by metis
qed

text \<open>
  Corrections are not lost: a correction stores the requested value and raises the
  revision by one, and a second correction of the same day by either partner that still
  expects the old revision is refused, whenever it is made.
\<close>

theorem correction_optimistic:
  assumes "correct_together_day tz fresh ev db a target seconds reason expected now = Inr (db1, item)"
    and "distinct (map day_key (together_days db))"
    and "active_member db1 b = Inr m" "mem_couple_id m = td_couple_id item"
  shows "td_revision item = expected + 1 \<and> effective_seconds item = seconds
    \<and> item \<in> set (together_days db1)
    \<and> (\<exists>e. correct_together_day tz fresh' ev' db1 b target seconds' reason' expected now' = Inl e)"
proof (rule correct_together_day_Inr [OF assms(1)])
  fix m1 c d0 item0 db2
  assume first: "correctable_day tz fresh db c target now = Inr (d0, item0)"
    "item = item0\<lparr>td_corrected_seconds := Some seconds, td_correction_reason := reason,
       td_corrected_by := Some a, td_corrected_at := Some now, td_updated_at := now,
       td_revision := expected + 1\<rparr>"
    "db2 = d0\<lparr>together_days := update_where (\<lambda>d. td_id d = td_id item0) (\<lambda>_. item) (together_days d0)\<rparr>"
    "only_alerts db2 db1"
  note c0 = correctable_day_Inr [OF first(1)]
  have days: "together_days db1 = update_where (\<lambda>d. td_id d = td_id item0) (\<lambda>_. item) (together_days d0)"
    using first(3,4) by (auto simp: only_alerts_def)
  have key: "day_key item = (cpl_id c, target)" using c0 first(2) by (simp add: day_key_def)
  have stored: "item \<in> set (together_days db1)"
    using c0 by (auto simp: days set_update_where)
  have only: "td_revision d = expected + 1"
    if "d \<in> set (together_days db1)" "day_key d = (cpl_id c, target)" for d
  proof (cases "d = item")
    case True
    then show ?thesis by (simp add: first(2))
  next
    case False
    with that(1) have "d \<in> set (together_days d0)" "td_id d \<noteq> td_id item0"
      by (auto simp: days set_update_where)
    moreover have "distinct (map day_key (together_days d0))" using c0 assms(2) by blast
    ultimately have "d = item0"
      using c0 that(2) by (auto simp: distinct_map inj_on_def)
    with \<open>td_id d \<noteq> td_id item0\<close> show ?thesis by simp
  qed
  have "correct_together_day tz fresh' ev' db1 b target seconds' reason' expected now' \<noteq> Inr (x, y)" for x y
  proof
    assume "correct_together_day tz fresh' ev' db1 b target seconds' reason' expected now' = Inr (x, y)"
    then show False
    proof (rule correct_together_day_Inr)
      fix m' c' d1 i1
      assume second: "active_member db1 b = Inr m'" "lock_couple db1 (mem_couple_id m') = Inr c'"
        "correctable_day tz fresh' db1 c' target now' = Inr (d1, i1)" "td_revision i1 = expected"
      have c': "cpl_id c' = cpl_id c"
        using lock_couple_Inr [OF second(2)] second(1) assms(3,4) key by (simp add: day_key_def)
      from scalar_None [of "\<lambda>d. day_key d = (cpl_id c', target)" "together_days db1"] stored key c'
      obtain d where d: "scalar (\<lambda>d. day_key d = (cpl_id c', target)) (together_days db1) = Some d"
        by (cases "scalar (\<lambda>d. day_key d = (cpl_id c', target)) (together_days db1)") auto
      with second(3) have "i1 = d" by (simp add: correctable_day_def)
      with scalar_Some [OF d] only second(4) c' show False by simp
    qed
  qed
  then have "\<exists>e. correct_together_day tz fresh' ev' db1 b target seconds' reason' expected now' = Inl e"
    by (cases "correct_together_day tz fresh' ev' db1 b target seconds' reason' expected now'") auto
  then show ?thesis using stored first(2) by (simp add: effective_seconds_def)
qed

section \<open>Witnesses\<close>

definition minute_of :: "instant \<Rightarrow> int \<Rightarrow> minute_estimate" where
  "minute_of t seconds =
     \<lparr>bucket_start = t, duration_seconds = seconds, estimated_distance_m = None,
      evidence_kind_of = Ev_observed, observed_seconds = seconds, bridged_seconds = 0,
      unverified_seconds = 0, apart_seconds = 0, poor_accuracy_seconds = 0\<rparr>"

definition corrected_minute :: together_bucket where
  "corrected_minute = (new_bucket 7 0 (minute_of 0 60))\<lparr>tb_corrected_at := Some 5\<rparr>"

definition plain_minute :: together_bucket where
  "plain_minute = new_bucket 7 0 (minute_of 60000000 30)"

definition corrected_day :: together_day where
  "corrected_day = \<lparr>td_id = 70, td_couple_id = 7, td_day = 0, td_day_timezone = ''UTC'',
     td_estimated_seconds = 90, td_estimate_method = Current_v4, td_corrected_seconds = Some 3600,
     td_revision = 1, td_corrected_by = Some 11, td_correction_reason = None,
     td_corrected_at = Some 5, td_updated_at = 5\<rparr>"

definition orbit_time :: time_db where
  "orbit_time = events_db.extend orbit_db
     \<lparr>location_samples = [], together_buckets = [corrected_minute, plain_minute],
      together_days = [corrected_day]\<rparr>"

lemma orbit_time_fields [simp]:
  "couples orbit_time = couples orbit_core" "members orbit_time = members orbit_core"
  "location_samples orbit_time = []" "together_buckets orbit_time = [corrected_minute, plain_minute]"
  "together_days orbit_time = [corrected_day]"
  by (simp_all add: orbit_time_def orbit_db_def events_db.extend_def core_db.extend_def orbit_core_def)

definition orbit_couple :: couple where "orbit_couple = hd (couples orbit_core)"

lemma orbit_couple_fields [simp]:
  "cpl_id orbit_couple = 7" "cpl_home_timezone orbit_couple = ''UTC''"
  "cpl_proximity_algorithm_version orbit_couple = 4" "cpl_created_at orbit_couple = 0"
  "cpl_ended_at orbit_couple = None"
  by (simp_all add: orbit_couple_def orbit_core_def)

lemma orbit_couples: "couples orbit_core = [orbit_couple]"
  by (simp add: orbit_couple_def orbit_core_def)

lemma orbit_members [simp]:
  "\<exists>m. active_member orbit_time 11 = Inr m \<and> mem_couple_id m = 7"
  "\<exists>m. active_member orbit_time 12 = Inr m \<and> mem_couple_id m = 7"
  by (simp_all add: active_member_def scalar_def is_active_def orbit_core_def)

lemma orbit_minute_fields [simp]:
  "tb_couple_id corrected_minute = 7" "tb_bucket_start corrected_minute = 0"
  "tb_couple_id plain_minute = 7" "tb_bucket_start plain_minute = 60000000"
  "tb_corrected_at corrected_minute = Some 5" "tb_corrected_at plain_minute = None"
  "tb_duration_seconds corrected_minute = 60" "tb_duration_seconds plain_minute = 30"
  by (simp_all add: corrected_minute_def plain_minute_def new_bucket_def minute_of_def)

lemma orbit_buckets_ok: "buckets_ok (together_buckets orbit_time)"
  by (simp add: buckets_ok_def bucket_key_def corrected_minute_def plain_minute_def new_bucket_def
      minute_of_def together_bucket_check_def)

theorem replace_range_exact_witness:
  "buckets_ok (together_buckets (fst (replace_range orbit_time orbit_couple [11, 12] 0 minute 0)))
   \<and> corrected_minute \<in> set (together_buckets (fst (replace_range orbit_time orbit_couple [11, 12] 0 minute 0)))"
  using replace_range_exact [OF orbit_buckets_ok refl, of orbit_couple "[11, 12]" 0 minute 0]
  by auto

theorem daily_totals_exact_witness:
  "day_total (\<lambda>_. None) orbit_couple orbit_time 0 = 90
   \<and> (\<exists>r \<in> set (together_days (sync_daily_totals (\<lambda>_. None) (\<lambda>_. 71) orbit_couple [0] 100 orbit_time)).
        day_key r = (7, 0) \<and> td_estimated_seconds r = 90)"
proof -
  have t: "day_total (\<lambda>_. None) orbit_couple orbit_time 0 = 90"
    by (simp add: day_total_def day_bounds_def timezone_or_utc_def utc_zone_def buckets_between_def
        select_def day_seconds_def whole_seconds_def)
  moreover have "distinct (map day_key (together_days orbit_time))" by simp
  from daily_totals_exact [OF this refl, where days = "[0]" and c = orbit_couple and tz = "\<lambda>_. None"
      and new_id = "\<lambda>_. 71" and now = 100] t
  have "\<exists>r \<in> set (together_days (sync_daily_totals (\<lambda>_. None) (\<lambda>_. 71) orbit_couple [0] 100 orbit_time)).
      day_key r = (7, 0) \<and> td_estimated_seconds r = 90"
    by simp
  ultimately show ?thesis by simp
qed

definition orbit_sample :: sample_request where
  "orbit_sample = \<lparr>sr_sample_id = 900, sr_recorded_at = Aware 1000, sr_latitude = 45,
     sr_longitude = 9, sr_accuracy_m = 20\<rparr>"

lemma recompute_returns:
  "length ms = 2 \<Longrightarrow> \<exists>db' n. recompute_recent_proximity tz new_id db c ms changed now = Inr (db', n)"
  by (simp add: recompute_recent_proximity_def Let_def split: prod.splits)

lemma upload_returns:
  assumes "active_member db a = Inr m" "lock_couple db (mem_couple_id m) = Inr c"
    and "both_members_consent db (cpl_id c) ''location_enabled'' = Inr True"
    and "store_location_batch (location_samples db) a (cpl_id c) samples now
       = Inr (rows, accepted, duplicates, changed)"
    and "length (active_member_ids db (cpl_id c)) = 2"
  shows "\<exists>db' r. upload_locations tz new_id db a (cpl_id c) samples now = Inr (db', r)"
proof -
  obtain db' n where "recompute_recent_proximity tz new_id (db\<lparr>location_samples := rows\<rparr>) c
      (active_member_ids db (cpl_id c)) changed now = Inr (db', n)"
    using recompute_returns [OF assms(5)] by blast
  with assms(1-4) show ?thesis by (simp add: upload_locations_def)
qed

lemma orbit_consent:
  "both_members_consent orbit_time 7 ''location_enabled'' = Inr True"
  "length (active_member_ids orbit_time 7) = 2"
  by (simp_all add: both_members_consent_def consent_column_def select_def is_active_def
      orbit_core_def active_member_ids_def)

lemma orbit_upload:
  "\<exists>db' r. upload_locations (\<lambda>_. None) (\<lambda>_. 71) orbit_time 11 7 [orbit_sample] 2000 = Inr (db', r)"
proof -
  obtain m where m: "active_member orbit_time 11 = Inr m" "mem_couple_id m = 7"
    using orbit_members(1) by blast
  have "lock_couple orbit_time (mem_couple_id m) = Inr orbit_couple"
    by (simp add: m lock_couple_def scalar_def orbit_couples)
  from upload_returns [OF m(1) this] orbit_consent show ?thesis
    by (simp add: store_location_sample_def orbit_sample_def validate_sample_time_def
        interval_defs scalar_def raw_location_expires_at_def)
qed

theorem upload_respects_consent_witness:
  "\<exists>db' r. upload_locations (\<lambda>_. None) (\<lambda>_. 71) orbit_time 11 7 [orbit_sample] 2000 = Inr (db', r)
     \<and> length (location_samples db') = br_accepted r \<and> br_accepted r + br_duplicates r = 1"
proof -
  obtain db' r where u:
    "upload_locations (\<lambda>_. None) (\<lambda>_. 71) orbit_time 11 7 [orbit_sample] 2000 = Inr (db', r)"
    using orbit_upload by blast
  from upload_respects_consent [OF u] u show ?thesis by auto
qed

theorem corrections_survive_uploads_witness:
  "\<exists>d' \<in> set (together_days (run_ops (handle_upload (\<lambda>_. None)) orbit_time
      [((\<lambda>_. 71), 11, 7, [orbit_sample], 2000)])). effective_seconds d' = 3600"
proof -
  have "effective_seconds corrected_day = 3600" "td_corrected_seconds corrected_day \<noteq> None"
    by (simp_all add: effective_seconds_def corrected_day_def)
  then show ?thesis
    using corrections_survive_uploads [of orbit_time corrected_day "\<lambda>_. None"
        "[((\<lambda>_. 71), 11, 7, [orbit_sample], 2000)]"] by auto
qed

lemma orbit_replay:
  assumes "upload_locations (\<lambda>_. None) (\<lambda>_. 71) orbit_time 11 7 [orbit_sample] 2000 = Inr (db1, r)"
  shows "\<exists>db2 r2. upload_locations (\<lambda>_. None) (\<lambda>_. 72) db1 11 7 [orbit_sample] 3000 = Inr (db2, r2)"
proof (rule upload_locations_Inr [OF assms])
  fix m c rows changed
  assume c: "7 = cpl_id c" and batch: "store_location_batch (location_samples orbit_time) 11 (cpl_id c)
      [orbit_sample] 2000 = Inr (rows, br_accepted r, br_duplicates r, changed)"
    and rec: "recompute_recent_proximity (\<lambda>_. None) (\<lambda>_. 71) (orbit_time\<lparr>location_samples := rows\<rparr>) c
      (active_member_ids orbit_time (cpl_id c)) changed 2000 = Inr (db1, br_nearby_seconds_recomputed r)"
  show ?thesis
  proof (rule recompute_Inr [OF rec])
    fix x y z days
    assume db1: "db1 = orbit_time\<lparr>location_samples := rows\<rparr>\<lparr>together_buckets := x, couples := y,
        together_days := z\<rparr>"
      and y: "y = update_where (\<lambda>r. cpl_id r = cpl_id c) (\<lambda>r. r\<lparr>cpl_proximity_processed_through :=
         mutual_sample_freshness (latest_streams (orbit_time\<lparr>location_samples := rows\<rparr>
           \<lparr>together_buckets := x\<rparr>) (cpl_id c) (active_member_ids orbit_time (cpl_id c)) 2000),
         cpl_proximity_algorithm_version := ALGORITHM_VERSION, cpl_updated_at := 2000\<rparr>)
         (couples (orbit_time\<lparr>location_samples := rows\<rparr>))"
    obtain m1 where m1: "active_member db1 11 = Inr m1" "mem_couple_id m1 = 7"
      using orbit_members(1) by (auto simp: active_member_def db1)
    obtain c1 where c1: "lock_couple db1 (mem_couple_id m1) = Inr c1" "cpl_id c1 = 7"
      using c by (simp add: m1 lock_couple_def scalar_def db1 y orbit_couples update_where_def)
    have "stored 11 7 rows orbit_sample"
      using store_location_batch_Inr [OF batch] c by simp
    then obtain e where "store_location_sample rows 11 7 orbit_sample 3000 = Inr (rows, e)"
      by (auto simp: stored_def store_location_sample_def orbit_sample_def validate_sample_time_def
          interval_defs)
    moreover from store_location_sample_replay [OF \<open>stored 11 7 rows orbit_sample\<close> this]
    have "e = None" by simp
    ultimately have b: "store_location_batch (location_samples db1) 11 (cpl_id c1) [orbit_sample] 3000
        = Inr (rows, 0, 1, [])"
      by (simp add: db1 c1(2))
    have mem: "members db1 = members orbit_time" by (simp add: db1)
    have "both_members_consent db1 (cpl_id c1) ''location_enabled'' = Inr True"
      using orbit_consent(1) unfolding c1(2) both_members_consent_def mem .
    moreover have "length (active_member_ids db1 (cpl_id c1)) = 2"
      using orbit_consent(2) unfolding c1(2) by (simp add: active_member_ids_def db1)
    ultimately show ?thesis
      using upload_returns [OF m1(1) c1(1) _ b] c1(2) by simp
  qed
qed

theorem upload_retry_safe_witness:
  "\<exists>db1 r1 db2 r2. upload_locations (\<lambda>_. None) (\<lambda>_. 71) orbit_time 11 7 [orbit_sample] 2000 = Inr (db1, r1)
     \<and> upload_locations (\<lambda>_. None) (\<lambda>_. 72) db1 11 7 [orbit_sample] 3000 = Inr (db2, r2)
     \<and> br_accepted r2 = 0 \<and> br_duplicates r2 = 1 \<and> location_samples db2 = location_samples db1"
proof -
  obtain db1 r1 where u: "upload_locations (\<lambda>_. None) (\<lambda>_. 71) orbit_time 11 7 [orbit_sample] 2000 = Inr (db1, r1)"
    using orbit_upload by blast
  obtain db2 r2 where v: "upload_locations (\<lambda>_. None) (\<lambda>_. 72) db1 11 7 [orbit_sample] 3000 = Inr (db2, r2)"
    using orbit_replay [OF u] by blast
  from upload_retry_safe [OF u v] u v show ?thesis by auto
qed

lemma orbit_correction:
  "\<exists>db1 item m. correct_together_day (\<lambda>_. None) 71 60 orbit_time 11 0 1800 None 1 (3 * day) = Inr (db1, item)
     \<and> active_member db1 12 = Inr m \<and> mem_couple_id m = td_couple_id item"
proof -
  obtain m where m: "active_member orbit_time 11 = Inr m" "mem_couple_id m = 7"
    using orbit_members(1) by blast
  have lock: "lock_couple orbit_time (mem_couple_id m) = Inr orbit_couple"
    by (simp add: m lock_couple_def scalar_def orbit_couples)
  define item where "item = corrected_day\<lparr>td_corrected_seconds := Some 1800, td_correction_reason := None,
      td_corrected_by := Some 11, td_corrected_at := Some (3 * day), td_updated_at := 3 * day, td_revision := 2\<rparr>"
  define db2 where "db2 = orbit_time\<lparr>together_days := [item]\<rparr>"
  have "events_ok db2"
    by (simp add: events_ok_def db2_def orbit_time_def orbit_db_def events_db.extend_def
        core_db.extend_def orbit_core_def)
  moreover have "60 \<notin> ne_id ` set (events db2)"
    by (simp add: db2_def orbit_time_def orbit_db_def events_db.extend_def core_db.extend_def orbit_core_def)
  ultimately have "\<exists>db1 q. enqueue_together_correction_event db2 (3 * day) 60 7 11 70 0 2 = Inr (db1, q)"
    using partner_event_returns [of 60 db2]
    by (cases "partner_id_for db2 7 11") (simp_all add: enqueue_together_correction_event_def)
  then obtain db1 q where q:
    "enqueue_together_correction_event db2 (3 * day) 60 7 11 70 0 2 = Inr (db1, q)"
    by blast
  have "correctable_day (\<lambda>_. None) 71 orbit_time orbit_couple 0 (3 * day) = Inr (orbit_time, corrected_day)"
    by (simp add: correctable_day_def scalar_def day_key_def corrected_day_def)
  then have c: "correct_together_day (\<lambda>_. None) 71 60 orbit_time 11 0 1800 None 1 (3 * day) = Inr (db1, item)"
    using m lock q
    by (simp add: correct_together_day_def timezone_or_utc_def utc_zone_def local_date_def Let_def
        day_bounds_def whole_seconds_def update_where_def db2_def item_def corrected_day_def)
  have "members db1 = members orbit_time"
    using correction_event_frame [OF q] by (auto simp: only_alerts_def db2_def)
  then have "active_member db1 12 = active_member orbit_time 12" by (simp add: active_member_def)
  with c orbit_members(2) show ?thesis by (auto simp: item_def corrected_day_def)
qed

theorem correction_optimistic_witness:
  "\<exists>db1 item e. correct_together_day (\<lambda>_. None) 71 60 orbit_time 11 0 1800 None 1 (3 * day) = Inr (db1, item)
     \<and> effective_seconds item = 1800
     \<and> correct_together_day (\<lambda>_. None) 72 61 db1 12 0 5 None 1 (4 * day) = Inl e"
proof -
  obtain db1 item m where c:
    "correct_together_day (\<lambda>_. None) 71 60 orbit_time 11 0 1800 None 1 (3 * day) = Inr (db1, item)"
    "active_member db1 12 = Inr m" "mem_couple_id m = td_couple_id item"
    using orbit_correction by blast
  have "distinct (map day_key (together_days orbit_time))" by simp
  from correction_optimistic [OF c(1) this c(2,3)] c(1) show ?thesis by blast
qed

end
