(* ===== verification/Notes_OT.thy ===== *)
theory Notes_OT
  imports Prelude
begin

text \<open>
  Edits of a shared note and their transformation (\<^verbatim>\<open>domain/notes.py\<close>). A body is the
  list of its Unicode code points, so positions and lengths count what Python counts.
\<close>

type_synonym note_text = "nat list"

datatype edit = Insert int note_text | Delete int int

definition apply_edit :: "note_text \<Rightarrow> edit \<Rightarrow> exc + note_text" where
  "apply_edit body e =
     (case e of
        Insert p t \<Rightarrow>
          (if p < 0 \<or> int (length body) < p then Inl (InvalidEdit ''position is outside the note'')
           else if t = [] then Inl (InvalidEdit ''insert text must not be empty'')
           else Inr (take (nat p) body @ t @ drop (nat p) body))
      | Delete p n \<Rightarrow>
          (if p < 0 \<or> int (length body) < p then Inl (InvalidEdit ''position is outside the note'')
           else if n \<le> 0 \<or> int (length body) < p + n
           then Inl (InvalidEdit ''delete range is outside the note'')
           else Inr (take (nat p) body @ drop (nat (p + n)) body)))"

fun against_insert :: "edit \<Rightarrow> int \<Rightarrow> note_text \<Rightarrow> bool \<Rightarrow> edit" where
  "against_insert (Insert p t) q u incoming_wins_tie =
     (let shift = int (length u);
          should_shift = q < p \<or> p = q \<and> \<not> incoming_wins_tie
      in Insert (if should_shift then p + shift else p) t)"
| "against_insert (Delete p n) q u incoming_wins_tie =
     (let shift = int (length u)
      in if q \<le> p then Delete (p + shift) n
         else if p + n \<le> q then Delete p n
         else Delete p (n + shift))"

fun against_delete :: "edit \<Rightarrow> int \<Rightarrow> int \<Rightarrow> edit" where
  "against_delete (Insert p t) start n =
     (if p \<le> start then Insert p t else Insert (max start (p - n)) t)"
| "against_delete (Delete p m) start n =
     (let stop = start + n;
          incoming_end = p + m;
          new_start = p - min n (max 0 (p - start));
          overlap = max 0 (min incoming_end stop - max p start)
      in Delete new_start (max 0 (m - overlap)))"

fun transform :: "edit \<Rightarrow> edit \<Rightarrow> bool \<Rightarrow> edit" where
  "transform incoming (Insert q u) incoming_wins_tie = against_insert incoming q u incoming_wins_tie"
| "transform incoming (Delete q n) incoming_wins_tie = against_delete incoming q n"

text \<open>
  \<^verbatim>\<open>_apply_non_empty_edit\<close> of \<^verbatim>\<open>note_edit_service.py\<close>: a deletion that a
  concurrent one has swallowed leaves the body alone.
\<close>

definition apply_non_empty_edit :: "note_text \<Rightarrow> edit \<Rightarrow> exc + note_text" where
  "apply_non_empty_edit body e =
     (case e of Delete p n \<Rightarrow> (if n = 0 then Inr body else apply_edit body e)
      | Insert p t \<Rightarrow> apply_edit body e)"

section \<open>Edits that apply\<close>

text \<open>The range an edit needs; a transformed deletion may have become empty.\<close>

fun fits :: "nat \<Rightarrow> edit \<Rightarrow> bool" where
  "fits len (Insert p t) \<longleftrightarrow> 0 \<le> p \<and> p \<le> int len \<and> t \<noteq> []"
| "fits len (Delete p n) \<longleftrightarrow> 0 \<le> p \<and> 0 \<le> n \<and> p + n \<le> int len"

fun effect :: "note_text \<Rightarrow> edit \<Rightarrow> note_text" where
  "effect s (Insert p t) = take (nat p) s @ t @ drop (nat p) s"
| "effect s (Delete p n) = take (nat p) s @ drop (nat (p + n)) s"

lemma apply_fits: "fits (length s) e \<Longrightarrow> apply_non_empty_edit s e = Inr (effect s e)"
  by (cases e) (auto simp: apply_non_empty_edit_def apply_edit_def)

lemma apply_Inr_fits:
  "apply_edit s e = Inr s' \<Longrightarrow> fits (length s) e \<and> s' = effect s e \<and> apply_non_empty_edit s e = Inr s'"
  by (cases e) (auto simp: apply_non_empty_edit_def apply_edit_def split: if_splits)

text \<open>The length of a body after an edit.\<close>

fun growth :: "edit \<Rightarrow> int" where
  "growth (Insert p t) = int (length t)"
| "growth (Delete p n) = - n"

lemma length_effect: "fits (length s) e \<Longrightarrow> int (length (effect s e)) = int (length s) + growth e"
  by (cases e) auto

text \<open>A concurrent edit that applied to the same body still applies after the other.\<close>

lemma transform_fits:
  assumes "fits len a" "fits len b"
  shows "fits (nat (int len + growth a)) (transform b a tie)"
  using assms by (cases a; cases b) (auto simp: Let_def)

section \<open>Convergence\<close>

text \<open>Insertion strictly inside a concurrent deletion, the pair where the order matters.\<close>

fun inside :: "edit \<Rightarrow> edit \<Rightarrow> bool" where
  "inside (Insert p t) (Delete q n) \<longleftrightarrow> q < p \<and> p < q + n"
| "inside _ _ \<longleftrightarrow> False"

text \<open>A body cut at four positions.\<close>

lemma segments:
  assumes "a \<le> b" "b \<le> c" "c \<le> d" "d \<le> length s"
  obtains x y z w v where "s = x @ y @ z @ w @ v" "a = length x" "b = length x + length y"
    "c = length x + length y + length z" "d = length x + length y + length z + length w"
proof -
  have cut: "drop i s = take (j - i) (drop i s) @ drop j s" if "i \<le> j" for i j
    using that append_take_drop_id [of "j - i" "drop i s"] by simp
  have "s = take a s @ take (b - a) (drop a s) @ take (c - b) (drop b s) @ take (d - c) (drop c s) @ drop d s"
    using cut [OF assms(1)] cut [OF assms(2)] cut [OF assms(3)] append_take_drop_id [of a s] by metis
  then show thesis by (rule that) (use assms in auto)
qed

lemma cut_at:
  assumes "0 \<le> a" "a \<le> b" "b \<le> c" "c \<le> d" "d \<le> int (length s)"
  obtains x y z w v where "s = x @ y @ z @ w @ v" "a = int (length x)" "b = int (length x + length y)"
    "c = int (length x + length y + length z)" "d = int (length x + length y + length z + length w)"
proof -
  from assms have "nat a \<le> nat b" "nat b \<le> nat c" "nat c \<le> nat d" "nat d \<le> length s" by simp_all
  then obtain x y z w v where cut: "s = x @ y @ z @ w @ v" "nat a = length x"
    "nat b = length x + length y" "nat c = length x + length y + length z"
    "nat d = length x + length y + length z + length w"
    by (rule segments)
  have "a = int (nat a)" "b = int (nat b)" "c = int (nat c)" "d = int (nat d)"
    using assms by simp_all
  then show thesis
    by (intro that [OF cut(1)]) (simp_all only: cut(2-5))
qed

lemma converge_insert_insert_less:
  assumes "0 \<le> p" "p < q" "q \<le> int (length s)"
  shows "effect (effect s (Insert p t)) (transform (Insert q u) (Insert p t) tie)
    = effect (effect s (Insert q u)) (transform (Insert p t) (Insert q u) tie')"
proof -
  from assms have "0 \<le> p" "p \<le> q" "q \<le> q" "q \<le> q" "q \<le> int (length s)" by simp_all
  then obtain x y z w v where "s = x @ y @ z @ w @ v" "p = int (length x)"
      "q = int (length x + length y)" "q = int (length x + length y + length z)"
      "q = int (length x + length y + length z + length w)"
    by (rule cut_at)
  with assms(2) show ?thesis by (simp add: Let_def)
qed

lemma converge_insert_insert:
  assumes "fits (length s) (Insert p t)" "fits (length s) (Insert q u)"
  shows "effect (effect s (Insert p t)) (transform (Insert q u) (Insert p t) tie)
    = effect (effect s (Insert q u)) (transform (Insert p t) (Insert q u) (\<not> tie))"
proof -
  consider "p < q" | "q < p" | "p = q" by linarith
  then show ?thesis
  proof cases
    case 1
    with assms show ?thesis by (intro converge_insert_insert_less) auto
  next
    case 2
    with assms show ?thesis by (intro converge_insert_insert_less [symmetric]) auto
  next
    case 3
    from assms(1) have "0 \<le> p" "p \<le> p" "p \<le> int (length s)" by simp_all
    then obtain x y z w v where "s = x @ y @ z @ w @ v" "p = int (length x)"
      "p = int (length x + length y)" "p = int (length x + length y + length z)"
      "p = int (length x + length y + length z + length w)"
      using cut_at [OF \<open>0 \<le> p\<close> \<open>p \<le> p\<close> \<open>p \<le> p\<close> \<open>p \<le> p\<close>] by blast
    with 3 show ?thesis by (cases tie) (simp_all add: Let_def)
  qed
qed

lemma converge_insert_delete:
  assumes "fits (length s) (Insert p t)" "fits (length s) (Delete q n)"
    and "\<not> inside (Insert p t) (Delete q n)"
  shows "effect (effect s (Insert p t)) (transform (Delete q n) (Insert p t) tie)
    = effect (effect s (Delete q n)) (transform (Insert p t) (Delete q n) tie')"
proof -
  note f = assms [simplified]
  consider "p \<le> q" | "q < p" "q + n \<le> p" using f by linarith
  then show ?thesis
  proof cases
    case 1
    have "0 \<le> p" "p \<le> q" "q \<le> q + n" "q + n \<le> q + n" "q + n \<le> int (length s)" using f 1 by simp_all
    then obtain x y z w v where "s = x @ y @ z @ w @ v" "p = int (length x)"
        "q = int (length x + length y)" "q + n = int (length x + length y + length z)"
        "q + n = int (length x + length y + length z + length w)"
      by (rule cut_at)
    moreover from this have "n = int (length z)" by simp
    ultimately show ?thesis by (simp add: Let_def)
  next
    case 2
    have "0 \<le> q" "q \<le> q + n" "q + n \<le> p" "p \<le> p" "p \<le> int (length s)" using f 2 by simp_all
    then obtain x y z w v where "s = x @ y @ z @ w @ v" "q = int (length x)"
        "q + n = int (length x + length y)" "p = int (length x + length y + length z)"
        "p = int (length x + length y + length z + length w)"
      by (rule cut_at)
    moreover from this have "n = int (length y)" by simp
    ultimately show ?thesis using 2 by (simp add: Let_def)
  qed
qed

lemma converge_delete_delete_le:
  assumes "fits (length s) (Delete p m)" "fits (length s) (Delete q n)" "p \<le> q"
  shows "effect (effect s (Delete p m)) (transform (Delete q n) (Delete p m) tie)
    = effect (effect s (Delete q n)) (transform (Delete p m) (Delete q n) tie')"
proof -
  note f = assms [simplified]
  consider "p + m \<le> q" | "q \<le> p + m" "p + m \<le> q + n" | "q + n \<le> p + m" by linarith
  then show ?thesis
  proof cases
    case 1
    have "0 \<le> p" "p \<le> p + m" "p + m \<le> q" "q \<le> q + n" "q + n \<le> int (length s)" using f 1 by simp_all
    then obtain x y z w v where "s = x @ y @ z @ w @ v" "p = int (length x)"
        "p + m = int (length x + length y)" "q = int (length x + length y + length z)"
        "q + n = int (length x + length y + length z + length w)"
      by (rule cut_at)
    moreover from this have "m = int (length y)" "n = int (length w)" by simp_all
    ultimately show ?thesis by (simp add: Let_def)
  next
    case 2
    have "0 \<le> p" "p \<le> q" "q \<le> p + m" "p + m \<le> q + n" "q + n \<le> int (length s)" using f 2 by simp_all
    then obtain x y z w v where "s = x @ y @ z @ w @ v" "p = int (length x)"
        "q = int (length x + length y)" "p + m = int (length x + length y + length z)"
        "q + n = int (length x + length y + length z + length w)"
      by (rule cut_at)
    moreover from this have "m = int (length y + length z)" "n = int (length z + length w)" by simp_all
    ultimately show ?thesis by (simp add: Let_def)
  next
    case 3
    have "0 \<le> p" "p \<le> q" "q \<le> q + n" "q + n \<le> p + m" "p + m \<le> int (length s)" using f 3 by simp_all
    then obtain x y z w v where "s = x @ y @ z @ w @ v" "p = int (length x)"
        "q = int (length x + length y)" "q + n = int (length x + length y + length z)"
        "p + m = int (length x + length y + length z + length w)"
      by (rule cut_at)
    moreover from this have "m = int (length y + length z + length w)" "n = int (length z)" by simp_all
    ultimately show ?thesis by (simp add: Let_def)
  qed
qed

lemma converge_delete_delete:
  assumes "fits (length s) (Delete p m)" "fits (length s) (Delete q n)"
  shows "effect (effect s (Delete p m)) (transform (Delete q n) (Delete p m) tie)
    = effect (effect s (Delete q n)) (transform (Delete p m) (Delete q n) tie')"
proof (cases "p \<le> q")
  case True
  with assms show ?thesis by (rule converge_delete_delete_le)
next
  case False
  then have "q \<le> p" by simp
  with assms(2,1) show ?thesis by (rule converge_delete_delete_le [symmetric])
qed

lemma converge_fits:
  assumes "fits (length s) a" "fits (length s) b" "\<not> inside a b" "\<not> inside b a"
  shows "effect (effect s a) (transform b a tie) = effect (effect s b) (transform a b (\<not> tie))"
proof (cases a)
  case a: (Insert p t)
  show ?thesis
  proof (cases b)
    case b: (Insert q u)
    show ?thesis using assms(1,2) unfolding a b by (rule converge_insert_insert)
  next
    case b: (Delete q n)
    show ?thesis using assms(1-3) unfolding a b by (rule converge_insert_delete)
  qed
next
  case a: (Delete p m)
  show ?thesis
  proof (cases b)
    case b: (Insert q u)
    show ?thesis using assms(2,1,4) unfolding a b by (rule converge_insert_delete [symmetric])
  next
    case b: (Delete q n)
    show ?thesis using assms(1,2) unfolding a b by (rule converge_delete_delete)
  qed
qed

text \<open>
  C18 Concurrent edits of one body converge: applied in either order, the later one
  transformed against the earlier, with complementary tie winners, they give the same text,
  and the transformed edit always applies. The one exception is an insertion strictly inside a
  concurrent deletion.
\<close>

theorem concurrent_edits_converge:
  assumes "apply_edit s a = Inr s_a" "apply_edit s b = Inr s_b"
    and "\<not> inside a b" "\<not> inside b a"
  shows "\<exists>merged. apply_non_empty_edit s_a (transform b a tie) = Inr merged
    \<and> apply_non_empty_edit s_b (transform a b (\<not> tie)) = Inr merged"
proof -
  note a = apply_Inr_fits [OF assms(1)] and b = apply_Inr_fits [OF assms(2)]
  have "fits (length s_a) (transform b a tie)"
    using transform_fits [of "length s" a b tie] length_effect [of s a] a b by (metis nat_int)
  moreover have "fits (length s_b) (transform a b (\<not> tie))"
    using transform_fits [of "length s" b a "\<not> tie"] length_effect [of s b] a b by (metis nat_int)
  ultimately show ?thesis
    using apply_fits converge_fits [OF _ _ assms(3,4)] a b by metis
qed

theorem concurrent_edits_converge_witness:
  "\<exists>merged. apply_non_empty_edit [1, 2, 9, 4] (transform (Delete 2 1) (Insert 2 [9]) True) = Inr merged
     \<and> apply_non_empty_edit [1, 2] (transform (Insert 2 [9]) (Delete 2 1) False) = Inr merged"
proof -
  have "apply_edit [1, 2, 4] (Insert 2 [9]) = Inr [1, 2, 9, 4]" "apply_edit [1, 2, 4] (Delete 2 1) = Inr [1, 2]"
    by (simp_all add: apply_edit_def)
  from concurrent_edits_converge [OF this, of True] show ?thesis by simp
qed

text \<open>In the excepted pair the order of arrival decides whether the inserted text survives.\<close>

lemma insertion_inside_deletion_depends_on_order:
  "apply_non_empty_edit [1, 9, 2] (transform (Delete 0 2) (Insert 1 [9]) tie) = Inr []
   \<and> apply_non_empty_edit [] (transform (Insert 1 [9]) (Delete 0 2) tie) = Inr [9]
   \<and> apply_edit [1, 2] (Insert 1 [9]) = Inr [1, 9, 2] \<and> apply_edit [1, 2] (Delete 0 2) = Inr []"
  by (simp add: apply_non_empty_edit_def apply_edit_def Let_def)

section \<open>Transforming against a history\<close>

text \<open>
  The loop of \<^verbatim>\<open>_transform_since\<close> over the stored operations, each with the id that
  breaks ties: the smaller operation id wins.
\<close>

definition transform_all :: "nat \<Rightarrow> edit \<Rightarrow> (nat \<times> edit) list \<Rightarrow> edit" where
  "transform_all op_id incoming ops =
     fold (\<lambda>(applied_id, applied) e. transform e applied (op_id < applied_id)) ops incoming"

text \<open>Replaying stored edits from a body; None when one of them does not apply.\<close>

fun replay :: "note_text \<Rightarrow> edit list \<Rightarrow> note_text option" where
  "replay body [] = Some body"
| "replay body (e # es) =
     (case apply_non_empty_edit body e of Inl _ \<Rightarrow> None | Inr body' \<Rightarrow> replay body' es)"

lemma apply_non_empty_fits:
  "apply_non_empty_edit s e = Inr s' \<Longrightarrow> (\<exists>p. e = Delete p 0) \<or> fits (length s) e \<and> s' = effect s e"
  by (cases e) (auto simp: apply_non_empty_edit_def apply_edit_def split: if_splits)

lemma replay_append:
  "replay body (es @ es') = (case replay body es of None \<Rightarrow> None | Some b \<Rightarrow> replay b es')"
  by (induction es arbitrary: body) (auto split: sum.splits)

lemma transform_all_fits:
  assumes "fits (length body) incoming" "replay body (map snd ops) = Some body'"
    and "\<forall>(i, e) \<in> set ops. \<exists>n. fits n e"
  shows "fits (length body') (transform_all op_id incoming ops)"
  using assms
proof (induction ops arbitrary: body incoming)
  case Nil
  then show ?case by (simp add: transform_all_def)
next
  case (Cons o_e ops)
  obtain i e where oe: "o_e = (i, e)" by (cases o_e)
  from Cons.prems(2) obtain b1 where b1: "apply_non_empty_edit body e = Inr b1" "replay b1 (map snd ops) = Some body'"
    by (auto simp: oe split: sum.splits)
  have "fits (length b1) (transform incoming e (op_id < i))"
  proof (cases "\<exists>p. e = Delete p 0")
    case True
    then obtain p where "e = Delete p 0" ..
    with b1(1) Cons.prems(1,3) show ?thesis
      by (cases incoming) (auto simp: oe apply_non_empty_edit_def Let_def)
  next
    case False
    then have "fits (length body) e" "b1 = effect body e"
      using apply_non_empty_fits [OF b1(1)] by auto
    then show ?thesis
      using transform_fits [OF _ Cons.prems(1)] length_effect by (metis nat_int)
  qed
  from Cons.IH [OF this b1(2)] Cons.prems(3) show ?case
    by (simp add: transform_all_def oe)
qed

end
