(* ===== verification/Notes.thy ===== *)
theory Notes
  imports Notes_OT Together
begin

text \<open>
  Shared notes (\<^verbatim>\<open>note_edit_service.py\<close>, \<^verbatim>\<open>routes/notes.py\<close>): live edits
  serialized per couple, note creation with recovery of lost retries, and the metadata operations
  rename, archive and restore. The notification hub and the sockets only carry results.
\<close>

section \<open>Rows\<close>

record note_row =
  nt_id :: uuid
  nt_creation_operation_id :: uuid
  nt_couple_id :: uuid
  nt_title :: string
  nt_body :: note_text
  nt_revision :: nat
  nt_metadata_revision :: nat
  nt_archived_at :: "instant option"
  nt_purge_after :: "instant option"
  nt_created_at :: instant
  nt_updated_at :: instant

text \<open>The JSON column of an applied edit.\<close>

record stored_edit =
  se_kind :: string
  se_position :: "int option"
  se_text :: "note_text option"
  se_length :: "int option"

record note_operation =
  no_note_id :: uuid
  no_operation_id :: uuid
  no_actor_id :: "uuid option"
  no_base_revision :: nat
  no_resulting_revision :: nat
  no_edit :: stored_edit
  no_applied_at :: instant

record note_response =
  nr_id :: uuid
  nr_title :: string
  nr_body :: note_text
  nr_revision :: nat
  nr_metadata_revision :: nat
  nr_updated_at :: instant
  nr_archived_at :: "instant option"
  nr_purge_after :: "instant option"

record note_metadata_operation =
  nm_note_id :: uuid
  nm_operation_id :: uuid
  nm_actor_id :: "uuid option"
  nm_resulting_revision :: nat
  nm_result :: note_response
  nm_applied_at :: instant

record notes_db = time_db +
  note_rows :: "note_row list"
  note_operations :: "note_operation list"
  note_metadata_operations :: "note_metadata_operation list"

section \<open>Messages\<close>

record edit_message =
  em_operation_id :: uuid
  em_base_revision :: nat
  em_kind :: string
  em_position :: nat
  em_text :: "note_text option"
  em_length :: "nat option"

definition invalid_fields :: exc where
  "invalid_fields = InvalidEdit ''edit fields do not match kind''"

text \<open>An empty text or a zero length is as false as an absent one.\<close>

definition parse_edit :: "edit_message \<Rightarrow> exc + edit" where
  "parse_edit m =
     (case (em_text m, em_length m) of
        (text, len) \<Rightarrow>
          (if em_kind m = ''insert'' \<and> text \<noteq> None \<and> the text \<noteq> []
           then Inr (Insert (int (em_position m)) (the text))
           else if em_kind m = ''delete'' \<and> len \<noteq> None \<and> the len \<noteq> 0
           then Inr (Delete (int (em_position m)) (int (the len)))
           else Inl invalid_fields))"

fun store_edit :: "edit \<Rightarrow> stored_edit" where
  "store_edit (Insert p t) =
     \<lparr>se_kind = ''insert'', se_position = Some p, se_text = Some t, se_length = None\<rparr>"
| "store_edit (Delete p n) =
     \<lparr>se_kind = ''delete'', se_position = Some p, se_text = None, se_length = Some n\<rparr>"

definition restore_edit :: "stored_edit \<Rightarrow> exc + edit" where
  "restore_edit payload =
     (case se_position payload of
        None \<Rightarrow> Inl (InvalidEdit ''stored edit position is invalid'')
      | Some p \<Rightarrow>
          (if se_kind payload = ''insert'' \<and> se_text payload \<noteq> None
           then Inr (Insert p (the (se_text payload)))
           else if se_kind payload = ''delete'' \<and> se_length payload \<noteq> None
           then Inr (Delete p (the (se_length payload)))
           else Inl (InvalidEdit ''stored edit shape is invalid'')))"

lemma restore_store [simp]: "restore_edit (store_edit e) = Inr e"
  by (cases e) (simp_all add: restore_edit_def)

datatype note_reply =
    Ack uuid nat note_text bool bool
  | Conflict nat note_text

section \<open>Authorization\<close>

definition authorized_couple ::
    "'a notes_db_scheme \<Rightarrow> uuid \<Rightarrow> uuid \<Rightarrow> string \<Rightarrow> instant \<Rightarrow> exc + uuid" where
  "authorized_couple db note_id account_id token_hash now =
     (case scalar (\<lambda>a. acc_id a = account_id) (accounts db) of
        None \<Rightarrow> Inl NoteAccessRevoked
      | Some a \<Rightarrow>
          (if acc_suspended_at a \<noteq> None \<or> acc_deleted_at a \<noteq> None then Inl NoteAccessRevoked
           else if scalar (\<lambda>s. ses_account_id s = account_id \<and> ses_token_hash s = token_hash
                               \<and> session_live now s) (sessions db) = None
           then Inl NoteAccessRevoked
           else
             (case scalar (\<lambda>m. mem_account_id m = account_id \<and> is_active m
                    \<and> list_ex (\<lambda>n. nt_couple_id n = mem_couple_id m \<and> nt_id n = note_id
                                   \<and> nt_archived_at n = None) (note_rows db)) (members db) of
                None \<Rightarrow> Inl NoteAccessRevoked
              | Some m \<Rightarrow>
                  (case lock_couple db (mem_couple_id m) of
                     Inl _ \<Rightarrow> Inl NoteAccessRevoked
                   | Inr _ \<Rightarrow> Inr (mem_couple_id m)))))"

section \<open>Applying an edit\<close>

definition find_note :: "'a notes_db_scheme \<Rightarrow> uuid \<Rightarrow> note_row option" where
  "find_note db note_id = scalar (\<lambda>n. nt_id n = note_id) (note_rows db)"

definition find_operation :: "'a notes_db_scheme \<Rightarrow> uuid \<Rightarrow> uuid \<Rightarrow> note_operation option" where
  "find_operation db note_id operation_id =
     scalar (\<lambda>o'. no_note_id o' = note_id \<and> no_operation_id o' = operation_id) (note_operations db)"

definition operations_since :: "'a notes_db_scheme \<Rightarrow> uuid \<Rightarrow> nat \<Rightarrow> note_operation list" where
  "operations_since db note_id base =
     sort_key no_resulting_revision
       (select (\<lambda>o'. no_note_id o' = note_id \<and> base < no_resulting_revision o') (note_operations db))"

fun transform_each :: "uuid \<Rightarrow> edit \<Rightarrow> note_operation list \<Rightarrow> exc + edit" where
  "transform_each op_id e [] = Inr e"
| "transform_each op_id e (o' # ops) =
     bind_exc (restore_edit (no_edit o')) (\<lambda>applied.
       transform_each op_id (transform e applied (op_id < no_operation_id o')) ops)"

text \<open>\<^verbatim>\<open>_transform_since\<close>; None is the conflict that a missing operation causes.\<close>

definition transform_since ::
    "'a notes_db_scheme \<Rightarrow> note_row \<Rightarrow> edit_message \<Rightarrow> edit \<Rightarrow> exc + edit option" where
  "transform_since db n m incoming =
     (if em_base_revision m = nt_revision n then Inr (Some incoming)
      else
        (let ops = operations_since db (nt_id n) (em_base_revision m) in
         if int (length ops) \<noteq> int (nt_revision n) - int (em_base_revision m) then Inr None
         else bind_exc (transform_each (em_operation_id m) incoming ops) (\<lambda>e. Inr (Some e))))"

definition duplicate_ack :: "note_operation \<Rightarrow> note_row option \<Rightarrow> edit_message \<Rightarrow> note_reply" where
  "duplicate_ack existing n m =
     Ack (em_operation_id m)
       (case n of Some n \<Rightarrow> nt_revision n | None \<Rightarrow> no_resulting_revision existing)
       (case n of Some n \<Rightarrow> nt_body n | None \<Rightarrow> [])
       (int (no_base_revision existing) \<noteq> int (no_resulting_revision existing) - 1) True"

definition conflict :: "note_row option \<Rightarrow> note_reply" where
  "conflict n = (case n of None \<Rightarrow> Conflict 0 [] | Some n \<Rightarrow> Conflict (nt_revision n) (nt_body n))"

definition note_activity ::
    "uuid \<Rightarrow> uuid \<Rightarrow> string \<Rightarrow> dedupe_key \<Rightarrow> uuid \<Rightarrow> string \<Rightarrow> instant \<Rightarrow> activity_event" where
  "note_activity couple_id actor_id kind key note_id title now =
     \<lparr>act_couple_id = couple_id, act_actor_id = Some actor_id, act_sequence = 0,
      act_dedupe_key = key, act_kind = kind, act_target_type = Some ''note'',
      act_target_id = Some note_id, act_target_title = Some title, act_emoji = None,
      act_created_at = now\<rparr>"

text \<open>The two writes of an applied edit: the note and its operation.\<close>

definition write_edit ::
    "'a notes_db_scheme \<Rightarrow> note_row \<Rightarrow> uuid \<Rightarrow> edit_message \<Rightarrow> edit \<Rightarrow> note_text \<Rightarrow> instant
       \<Rightarrow> 'a notes_db_scheme \<times> note_row" where
  "write_edit db n account_id m e body now =
     (let n' = n\<lparr>nt_body := body, nt_revision := nt_revision n + 1, nt_updated_at := now\<rparr>;
          o' = \<lparr>no_note_id = nt_id n, no_operation_id = em_operation_id m,
                no_actor_id = Some account_id, no_base_revision = em_base_revision m,
                no_resulting_revision = nt_revision n', no_edit = store_edit e,
                no_applied_at = now\<rparr>
      in (db\<lparr>note_rows := update_where (\<lambda>r. nt_id r = nt_id n) (\<lambda>_. n') (note_rows db),
             note_operations := note_operations db @ [o']\<rparr>, n'))"

definition apply_locked ::
    "'a notes_db_scheme \<Rightarrow> uuid \<Rightarrow> uuid \<Rightarrow> uuid \<Rightarrow> edit_message \<Rightarrow> bool \<Rightarrow> instant \<Rightarrow> uuid
       \<Rightarrow> exc + 'a notes_db_scheme \<times> note_reply \<times> uuid option" where
  "apply_locked db note_id account_id couple_id m partner_viewing now event_id =
     (case find_operation db note_id (em_operation_id m) of
        Some existing \<Rightarrow> Inr (db, duplicate_ack existing (find_note db note_id) m, None)
      | None \<Rightarrow>
          (case find_note db note_id of
             None \<Rightarrow> Inr (db, conflict None, None)
           | Some n \<Rightarrow>
               if nt_revision n < em_base_revision m then Inr (db, conflict (Some n), None)
               else
                 bind_exc (parse_edit m) (\<lambda>incoming.
                 bind_exc (transform_since db n m incoming) (\<lambda>transformed.
                   case transformed of
                     None \<Rightarrow> Inr (db, conflict (Some n), None)
                   | Some e \<Rightarrow>
                       bind_exc (apply_non_empty_edit (nt_body n) e) (\<lambda>body.
                         let (db', n') = write_edit db n account_id m e body now;
                             db'' = record_activity db'
                               (note_activity couple_id account_id ''note_updated''
                                 [Lit ''note:edit:'', Id (em_operation_id m)] (nt_id n) (nt_title n) now);
                             reply = Ack (em_operation_id m) (nt_revision n') (nt_body n')
                               (int (em_base_revision m) \<noteq> int (nt_revision n') - 1) False
                         in if nt_body n' = nt_body n then Inr (db'', reply, None)
                            else bind_exc (enqueue_note_edit_event db'' now event_id couple_id account_id
                                             note_id partner_viewing)
                                   (\<lambda>(db''', notified). Inr (db''', reply, notified)))))))"

definition apply_note_edit ::
    "'a notes_db_scheme \<Rightarrow> uuid \<Rightarrow> uuid \<Rightarrow> edit_message \<Rightarrow> string \<Rightarrow> bool \<Rightarrow> instant \<Rightarrow> uuid
       \<Rightarrow> exc + 'a notes_db_scheme \<times> note_reply \<times> uuid option" where
  "apply_note_edit db note_id account_id m token_hash partner_viewing now event_id =
     bind_exc (authorized_couple db note_id account_id token_hash now) (\<lambda>couple_id.
       apply_locked db note_id account_id couple_id m partner_viewing now event_id)"

section \<open>Creating and listing notes\<close>

definition CREATE_RECOVERY_WINDOW :: duration where "CREATE_RECOVERY_WINDOW = 5 * minute"

definition note_response_of :: "note_row \<Rightarrow> note_response" where
  "note_response_of n =
     \<lparr>nr_id = nt_id n, nr_title = nt_title n, nr_body = nt_body n, nr_revision = nt_revision n,
      nr_metadata_revision = nt_metadata_revision n, nr_updated_at = nt_updated_at n,
      nr_archived_at = nt_archived_at n, nr_purge_after = nt_purge_after n\<rparr>"

definition recent_equivalent ::
    "'a notes_db_scheme \<Rightarrow> uuid \<Rightarrow> string \<Rightarrow> note_text \<Rightarrow> instant \<Rightarrow> note_row option" where
  "recent_equivalent db couple_id title body now =
     scalar_by (\<lambda>n. (- nt_updated_at n, nt_id n))
       (\<lambda>n. nt_couple_id n = couple_id \<and> nt_archived_at n = None \<and> nt_title n = title
            \<and> nt_body n = body \<and> now - CREATE_RECOVERY_WINDOW \<le> nt_updated_at n) (note_rows db)"

definition create_note ::
    "'a notes_db_scheme \<Rightarrow> uuid \<Rightarrow> uuid \<Rightarrow> string \<Rightarrow> note_text \<Rightarrow> instant \<Rightarrow> uuid \<Rightarrow> uuid
       \<Rightarrow> exc + 'a notes_db_scheme \<times> note_response" where
  "create_note db actor_id operation_id title body now fresh event_id =
     bind_exc (active_member db actor_id) (\<lambda>member.
     bind_exc (lock_couple db (mem_couple_id member)) (\<lambda>_.
       case scalar (\<lambda>n. nt_creation_operation_id n = operation_id) (note_rows db) of
         Some prior \<Rightarrow>
           (if nt_couple_id prior \<noteq> mem_couple_id member
            then Inl (HTTPException 409 ''Operation ID was already used'')
            else Inr (db, note_response_of prior))
       | None \<Rightarrow>
           (case recent_equivalent db (mem_couple_id member) title body now of
              Some equivalent \<Rightarrow> Inr (db, note_response_of equivalent)
            | None \<Rightarrow>
                (let n = \<lparr>nt_id = fresh, nt_creation_operation_id = operation_id,
                          nt_couple_id = mem_couple_id member, nt_title = title, nt_body = body,
                          nt_revision = 0, nt_metadata_revision = 0, nt_archived_at = None,
                          nt_purge_after = None, nt_created_at = now, nt_updated_at = now\<rparr>
                 in bind_exc (insert_unique nt_id n (note_rows db)) (\<lambda>rows.
                    let db' = record_activity (db\<lparr>note_rows := rows\<rparr>)
                          (note_activity (mem_couple_id member) actor_id ''note_created''
                            [Lit ''note:create:'', Id operation_id] fresh title now)
                    in bind_exc (enqueue_note_edit_event db' now event_id (mem_couple_id member)
                                   actor_id fresh False)
                         (\<lambda>(db'', _). Inr (db'', note_response_of n)))))))"

definition list_notes :: "'a notes_db_scheme \<Rightarrow> uuid \<Rightarrow> exc + note_response list" where
  "list_notes db actor_id =
     bind_exc (active_member db actor_id) (\<lambda>member.
       Inr (map note_response_of (sort_key (\<lambda>n. - nt_updated_at n)
         (select (\<lambda>n. nt_couple_id n = mem_couple_id member \<and> nt_archived_at n = None) (note_rows db)))))"

definition list_archived_notes ::
    "'a notes_db_scheme \<Rightarrow> uuid \<Rightarrow> instant \<Rightarrow> exc + note_response list" where
  "list_archived_notes db actor_id now =
     bind_exc (active_member db actor_id) (\<lambda>member.
       Inr (map note_response_of (sort_key (\<lambda>n. - the (nt_archived_at n))
         (select (\<lambda>n. nt_couple_id n = mem_couple_id member \<and> nt_archived_at n \<noteq> None
                      \<and> (case nt_purge_after n of Some t \<Rightarrow> now < t | None \<Rightarrow> False)) (note_rows db)))))"

definition note_history :: "'a notes_db_scheme \<Rightarrow> uuid \<Rightarrow> uuid \<Rightarrow> exc + note_operation list" where
  "note_history db actor_id note_id =
     bind_exc (active_member db actor_id) (\<lambda>member.
       case scalar (\<lambda>n. nt_id n = note_id \<and> nt_couple_id n = mem_couple_id member) (note_rows db) of
         None \<Rightarrow> Inl (HTTPException 404 ''Note is unavailable'')
       | Some _ \<Rightarrow> Inr (sort_key no_resulting_revision
                        (select (\<lambda>o'. no_note_id o' = note_id) (note_operations db))))"

section \<open>Metadata\<close>

definition locked_note_metadata ::
    "'a notes_db_scheme \<Rightarrow> uuid \<Rightarrow> couple_member \<Rightarrow> uuid
       \<Rightarrow> exc + note_row \<times> note_metadata_operation option" where
  "locked_note_metadata db note_id member operation_id =
     bind_exc (lock_couple db (mem_couple_id member)) (\<lambda>_.
       case scalar (\<lambda>n. nt_id n = note_id \<and> nt_couple_id n = mem_couple_id member) (note_rows db) of
         None \<Rightarrow> Inl (HTTPException 404 ''Note is unavailable'')
       | Some n \<Rightarrow> Inr (n, scalar (\<lambda>o'. nm_note_id o' = nt_id n \<and> nm_operation_id o' = operation_id)
                              (note_metadata_operations db)))"

definition expect_metadata_revision :: "note_row \<Rightarrow> nat \<Rightarrow> exc + unit" where
  "expect_metadata_revision n expected =
     guard (nt_metadata_revision n = expected)
       (HTTPException 409 ''Note metadata changed; refresh'')"

definition finish_metadata ::
    "'a notes_db_scheme \<Rightarrow> note_row \<Rightarrow> uuid \<Rightarrow> uuid \<Rightarrow> instant
       \<Rightarrow> exc + 'a notes_db_scheme \<times> note_response" where
  "finish_metadata db n actor_id operation_id now =
     (let n' = n\<lparr>nt_metadata_revision := nt_metadata_revision n + 1, nt_updated_at := now\<rparr>;
          result = note_response_of n';
          o' = \<lparr>nm_note_id = nt_id n, nm_operation_id = operation_id, nm_actor_id = Some actor_id,
                nm_resulting_revision = nt_metadata_revision n', nm_result = result,
                nm_applied_at = now\<rparr>
      in Inr (db\<lparr>note_rows := update_where (\<lambda>r. nt_id r = nt_id n) (\<lambda>_. n') (note_rows db),
                 note_metadata_operations := note_metadata_operations db @ [o']\<rparr>, result))"

datatype metadata_change = Rename string | Archive | Restore

text \<open>What each of the three handlers checks of the locked note and assigns to it.\<close>

fun change_note :: "metadata_change \<Rightarrow> instant \<Rightarrow> note_row \<Rightarrow> exc + note_row" where
  "change_note (Rename title) now n =
     (if nt_archived_at n \<noteq> None then Inl (HTTPException 409 ''Note is archived'')
      else Inr (n\<lparr>nt_title := title\<rparr>))"
| "change_note Archive now n =
     (if nt_archived_at n \<noteq> None then Inl (HTTPException 409 ''Note is already archived'')
      else Inr (n\<lparr>nt_archived_at := Some now, nt_purge_after := Some (now + 7 * day)\<rparr>))"
| "change_note Restore now n =
     (if nt_archived_at n = None \<or> (case nt_purge_after n of Some t \<Rightarrow> t \<le> now | None \<Rightarrow> False)
      then Inl (HTTPException 409 ''Note cannot be restored'')
      else Inr (n\<lparr>nt_archived_at := None, nt_purge_after := None\<rparr>))"

definition change_metadata ::
    "'a notes_db_scheme \<Rightarrow> uuid \<Rightarrow> uuid \<Rightarrow> uuid \<Rightarrow> nat \<Rightarrow> metadata_change \<Rightarrow> instant
       \<Rightarrow> exc + 'a notes_db_scheme \<times> note_response" where
  "change_metadata db actor_id note_id operation_id expected change now =
     bind_exc (active_member db actor_id) (\<lambda>member.
     bind_exc (locked_note_metadata db note_id member operation_id) (\<lambda>(n, prior).
       case prior of
         Some o' \<Rightarrow> Inr (db, nm_result o')
       | None \<Rightarrow>
           bind_exc (expect_metadata_revision n expected) (\<lambda>_.
           bind_exc (change_note change now n) (\<lambda>n'.
             finish_metadata db n' actor_id operation_id now))))"

definition rename_note ::
    "'a notes_db_scheme \<Rightarrow> uuid \<Rightarrow> uuid \<Rightarrow> uuid \<Rightarrow> nat \<Rightarrow> string \<Rightarrow> instant
       \<Rightarrow> exc + 'a notes_db_scheme \<times> note_response" where
  "rename_note db actor_id note_id operation_id expected title now =
     change_metadata db actor_id note_id operation_id expected (Rename title) now"

definition archive_note ::
    "'a notes_db_scheme \<Rightarrow> uuid \<Rightarrow> uuid \<Rightarrow> uuid \<Rightarrow> nat \<Rightarrow> instant
       \<Rightarrow> exc + 'a notes_db_scheme \<times> note_response" where
  "archive_note db actor_id note_id operation_id expected now =
     change_metadata db actor_id note_id operation_id expected Archive now"

definition restore_note ::
    "'a notes_db_scheme \<Rightarrow> uuid \<Rightarrow> uuid \<Rightarrow> uuid \<Rightarrow> nat \<Rightarrow> instant
       \<Rightarrow> exc + 'a notes_db_scheme \<times> note_response" where
  "restore_note db actor_id note_id operation_id expected now =
     change_metadata db actor_id note_id operation_id expected Restore now"

end
