(* ===== verification/Note_Edit.thy ===== *)
theory Note_Edit
  imports Notes Notifications
begin

text \<open>
  Properties of the shared notes: the stored operations replay to the body, a concurrent edit
  that was valid where it was typed still applies, operations are retry-safe, and an edit
  needs a live session of an active member.
\<close>

section \<open>The log of a note\<close>

definition log_of :: "'a notes_db_scheme \<Rightarrow> uuid \<Rightarrow> note_operation list" where
  "log_of db i = filter (\<lambda>o'. no_note_id o' = i) (note_operations db)"

definition edit_of :: "note_operation \<Rightarrow> edit" where
  "edit_of o' = projr (restore_edit (no_edit o'))"

definition well_formed :: "note_operation \<Rightarrow> bool" where
  "well_formed o' \<longleftrightarrow>
     (\<exists>e len. restore_edit (no_edit o') = Inr e \<and> fits len e)
     \<and> no_base_revision o' < no_resulting_revision o'"

text \<open>
  The operations of a note carry the revisions \<open>1 \<dots> revision\<close> in order and replay from the
  text it was created with to its current body.
\<close>

definition history_ok :: "note_operation list \<Rightarrow> nat \<Rightarrow> note_text \<Rightarrow> note_text \<Rightarrow> bool" where
  "history_ok ops revision created body \<longleftrightarrow>
     map no_resulting_revision ops = [1..<Suc revision]
     \<and> list_all well_formed ops \<and> replay created (map edit_of ops) = Some body"

definition operation_key :: "note_operation \<Rightarrow> uuid \<times> uuid" where
  "operation_key o' = (no_note_id o', no_operation_id o')"

definition notes_ok :: "'a notes_db_scheme \<Rightarrow> bool" where
  "notes_ok db \<longleftrightarrow>
     distinct (map nt_id (note_rows db)) \<and> distinct (map operation_key (note_operations db))
     \<and> (\<forall>o' \<in> set (note_operations db). no_note_id o' \<in> nt_id ` set (note_rows db))
     \<and> (\<forall>n \<in> set (note_rows db).
          \<exists>created. history_ok (log_of db (nt_id n)) (nt_revision n) created (nt_body n))"

lemma history_length:
  assumes "history_ok ops r b0 b"
  shows "length ops = r"
proof -
  have "length (map no_resulting_revision ops) = length [1..<Suc r]"
    using assms by (simp only: history_ok_def)
  then show ?thesis by simp
qed

lemma history_since:
  assumes "history_ok ops r b0 b"
  shows "sort_key no_resulting_revision (filter (\<lambda>o'. k < no_resulting_revision o') ops) = drop k ops"
proof -
  have revs: "map no_resulting_revision ops = [1..<Suc r]"
    using assms by (simp add: history_ok_def)
  have len: "length ops = r" using assms by (rule history_length)
  have nth: "no_resulting_revision (ops ! i) = Suc i" if "i < r" for i
  proof -
    have "no_resulting_revision (ops ! i) = map no_resulting_revision ops ! i"
      using that len by simp
    also have "\<dots> = [1..<Suc r] ! i" by (simp only: revs)
    also have "\<dots> = Suc i" using that by (subst nth_upt) simp_all
    finally show ?thesis .
  qed
  have "filter (\<lambda>o'. k < no_resulting_revision o') ops = drop k ops"
  proof -
    have "filter (\<lambda>o'. k < no_resulting_revision o') (take k ops) = []"
      using nth len by (auto simp: filter_empty_conv in_set_conv_nth)
    moreover have "filter (\<lambda>o'. k < no_resulting_revision o') (drop k ops) = drop k ops"
      using nth len by (auto simp: filter_id_conv in_set_conv_nth)
    moreover have "filter (\<lambda>o'. k < no_resulting_revision o') ops
        = filter (\<lambda>o'. k < no_resulting_revision o') (take k ops @ drop k ops)"
      by (simp only: append_take_drop_id)
    ultimately show ?thesis by (simp only: filter_append append_Nil)
  qed
  moreover have "sorted (map no_resulting_revision (drop k ops))"
    unfolding drop_map [symmetric] revs by (intro sorted_wrt_drop sorted_upt)
  ultimately show ?thesis by (simp add: sort_key_id_if_sorted)
qed

lemma transform_each_all:
  assumes "list_all well_formed ops"
  shows "transform_each op_id e ops
    = Inr (transform_all op_id e (map (\<lambda>o'. (no_operation_id o', edit_of o')) ops))"
  using assms
  by (induction ops arbitrary: e) (auto simp: transform_all_def well_formed_def edit_of_def)

lemma operations_since_drop:
  assumes "history_ok (log_of db i) r b0 b"
  shows "operations_since db i k = drop k (log_of db i)"
proof -
  have "filter (\<lambda>o'. no_note_id o' = i \<and> k < no_resulting_revision o') (note_operations db)
      = filter (\<lambda>o'. k < no_resulting_revision o') (log_of db i)"
    by (simp add: log_of_def conj_commute)
  then show ?thesis
    using history_since [OF assms] by (simp add: operations_since_def select_def)
qed

text \<open>The body at an earlier revision.\<close>

definition body_at :: "note_operation list \<Rightarrow> note_text \<Rightarrow> nat \<Rightarrow> note_text option" where
  "body_at ops created k = replay created (map edit_of (take k ops))"

lemma body_at_rest:
  assumes "history_ok ops r created body" "body_at ops created k = Some base"
  shows "replay base (map edit_of (drop k ops)) = Some body"
proof -
  have "replay created (map edit_of (take k ops) @ map edit_of (drop k ops)) = Some body"
    using assms(1) by (simp add: history_ok_def flip: map_append)
  then show ?thesis using assms(2) by (simp add: replay_append body_at_def)
qed

lemma transform_since_fits:
  assumes "history_ok (log_of db (nt_id n)) (nt_revision n) created (nt_body n)"
    and "em_base_revision m \<le> nt_revision n"
    and "body_at (log_of db (nt_id n)) created (em_base_revision m) = Some base"
    and "fits (length base) incoming"
  shows "\<exists>e. transform_since db n m incoming = Inr (Some e) \<and> fits (length (nt_body n)) e"
proof (cases "em_base_revision m = nt_revision n")
  case True
  then have "base = nt_body n"
    using assms(1,3) history_length [OF assms(1)] by (simp add: body_at_def history_ok_def)
  with True assms(4) show ?thesis by (simp add: transform_since_def)
next
  case False
  define ops where "ops = drop (em_base_revision m) (log_of db (nt_id n))"
  have since: "operations_since db (nt_id n) (em_base_revision m) = ops"
    by (simp add: operations_since_drop [OF assms(1)] ops_def)
  have wf: "list_all well_formed ops"
    using assms(1) by (auto simp: history_ok_def ops_def list_all_iff dest: in_set_dropD)
  have len: "int (length ops) = int (nt_revision n) - int (em_base_revision m)"
    using history_length [OF assms(1)] assms(2) by (simp add: ops_def)
  have r: "replay base (map snd (map (\<lambda>o'. (no_operation_id o', edit_of o')) ops)) = Some (nt_body n)"
    using body_at_rest [OF assms(1,3)] by (simp add: ops_def comp_def)
  have "\<forall>(i, e) \<in> set (map (\<lambda>o'. (no_operation_id o', edit_of o')) ops). \<exists>k. fits k e"
    using wf by (auto simp: list_all_iff well_formed_def edit_of_def) (metis projr_def sum.case(2) sum.sel(2))
  from transform_all_fits [OF assms(4) r this] show ?thesis
    using False len wf by (simp add: transform_since_def since Let_def transform_each_all)
qed

section \<open>What applying an edit does\<close>

lemma record_activity_frame: "\<exists>x. record_activity db c = db\<lparr>activity_events := x\<rparr>"
proof -
  have "db = db\<lparr>activity_events := activity_events db\<rparr>" by simp
  then show ?thesis unfolding record_activity_def Let_def
    by (cases "scalar (\<lambda>e. act_couple_id e = act_couple_id c \<and> act_dedupe_key e = act_dedupe_key c)
          (activity_events db)") (metis option.case(1), metis option.case(2))
qed

text \<open>The tables the alert and the feed write to are not the note tables.\<close>

definition same_notes :: "'a notes_db_scheme \<Rightarrow> 'a notes_db_scheme \<Rightarrow> bool" where
  "same_notes db db' \<longleftrightarrow>
     accounts db' = accounts db \<and> sessions db' = sessions db \<and> couples db' = couples db
     \<and> members db' = members db \<and> note_rows db' = note_rows db
     \<and> note_operations db' = note_operations db
     \<and> note_metadata_operations db' = note_metadata_operations db"

lemma same_notes_refl [simp]: "same_notes db db"
  by (simp add: same_notes_def)

lemma same_notes_alert: "same_notes db db1 \<Longrightarrow> only_alerts db1 db2 \<Longrightarrow> same_notes db db2"
  by (auto simp: same_notes_def only_alerts_def)

lemma same_notes_activity: "same_notes db (record_activity db c)"
  using record_activity_frame [of db c] by (auto simp: same_notes_def)

lemma apply_locked_cases:
  assumes "apply_locked db i a k m viewing now ev = Inr (db', reply, notified)"
  obtains (unchanged) "db' = db"
  | (applied) n incoming e body where
      "find_operation db i (em_operation_id m) = None" "find_note db i = Some n"
      "em_base_revision m \<le> nt_revision n" "parse_edit m = Inr incoming"
      "transform_since db n m incoming = Inr (Some e)"
      "apply_non_empty_edit (nt_body n) e = Inr body"
      "same_notes (fst (write_edit db n a m e body now)) db'"
proof (cases "find_operation db i (em_operation_id m)")
  case (Some o')
  with assms unchanged show thesis by (simp add: apply_locked_def)
next
  case None
  note op = None
  show thesis
  proof (cases "find_note db i")
    case None
    with op assms unchanged show thesis by (simp add: apply_locked_def)
  next
    case (Some n)
    show thesis
    proof (cases "nt_revision n < em_base_revision m")
      case True
      with op Some assms unchanged show thesis by (simp add: apply_locked_def)
    next
      case False
      from assms op Some False obtain incoming tr where
        tr: "parse_edit m = Inr incoming" "transform_since db n m incoming = Inr tr"
        by (auto simp: apply_locked_def bind_exc_Inr_iff)
      show thesis
      proof (cases tr)
        case None
        with op Some False assms tr unchanged show thesis by (simp add: apply_locked_def)
      next
        case tr_e: (Some e)
        from assms op Some False tr tr_e obtain body where
          body: "apply_non_empty_edit (nt_body n) e = Inr body"
          by (auto simp: apply_locked_def bind_exc_Inr_iff)
        define w where "w = fst (write_edit db n a m e body now)"
        define c where "c = note_activity k a ''note_updated'' [Lit ''note:edit:'', Id (em_operation_id m)]
          (nt_id n) (nt_title n) now"
        have "db' = record_activity w c \<or> only_alerts (record_activity w c) db'"
          using assms op Some False tr tr_e body
          by (auto simp: apply_locked_def write_edit_def Let_def w_def c_def bind_exc_Inr_iff
              split: if_splits dest: note_edit_event_frame)
        then have "same_notes w db'"
          using same_notes_activity same_notes_alert by blast
        with op Some False tr tr_e body show thesis
          by (intro applied) (simp_all add: w_def)
      qed
    qed
  qed
qed

section \<open>Every operation keeps the log\<close>

lemma fits_mono: "fits k e \<Longrightarrow> k \<le> l \<Longrightarrow> fits l e"
  by (cases e) auto

lemma transform_well:
  assumes "\<exists>k. fits k a" "\<exists>k. fits k b"
  shows "\<exists>k. fits k (transform b a tie)"
proof -
  from assms obtain k l where "fits k a" "fits l b" by blast
  then have "fits (max k l) a" "fits (max k l) b" by (auto intro: fits_mono)
  then show ?thesis using transform_fits by blast
qed

lemma transform_all_well:
  "list_all (\<lambda>(i, a). \<exists>k. fits k a) ops \<Longrightarrow> \<exists>k. fits k e \<Longrightarrow> \<exists>k. fits k (transform_all op_id e ops)"
proof (induction ops arbitrary: e)
  case Nil
  then show ?case by (simp add: transform_all_def)
next
  case (Cons x ops)
  obtain i a where x: "x = (i, a)" by (cases x)
  have "\<exists>k. fits k (transform e a (op_id < i))"
    using Cons.prems by (intro transform_well) (auto simp: x)
  with Cons.IH [of "transform e a (op_id < i)"] Cons.prems(1) show ?case
    by (simp add: transform_all_def x)
qed

lemma parse_edit_well: "parse_edit m = Inr e \<Longrightarrow> \<exists>k. fits k e"
proof -
  assume "parse_edit m = Inr e"
  then have "fits (em_position m + (case em_length m of None \<Rightarrow> 0 | Some l \<Rightarrow> l)) e"
    by (auto simp: parse_edit_def split: if_splits)
  then show ?thesis ..
qed

lemma transform_since_well:
  assumes "transform_since db n m incoming = Inr (Some e)" "\<exists>k. fits k incoming"
    and "history_ok (log_of db (nt_id n)) (nt_revision n) created (nt_body n)"
  shows "\<exists>k. fits k e"
proof (cases "em_base_revision m = nt_revision n")
  case True
  with assms(1,2) show ?thesis by (simp add: transform_since_def)
next
  case False
  define ops where "ops = drop (em_base_revision m) (log_of db (nt_id n))"
  have wf: "list_all well_formed ops"
    using assms(3) by (auto simp: history_ok_def ops_def list_all_iff dest: in_set_dropD)
  have "e = transform_all (em_operation_id m) incoming (map (\<lambda>o'. (no_operation_id o', edit_of o')) ops)"
    using assms(1) False wf
    by (simp add: transform_since_def operations_since_drop [OF assms(3)] ops_def [symmetric] Let_def
        transform_each_all split: if_splits)
  moreover have "list_all (\<lambda>(i, a). \<exists>k. fits k a) (map (\<lambda>o'. (no_operation_id o', edit_of o')) ops)"
    using wf by (auto simp: list_all_iff well_formed_def edit_of_def) (metis sum.sel(2))
  ultimately show ?thesis using assms(2) transform_all_well by blast
qed

lemma history_step:
  assumes "history_ok ops r created body" "apply_non_empty_edit body e = Inr body'"
    and "no_resulting_revision o' = Suc r" "no_base_revision o' \<le> r" "no_edit o' = store_edit e"
    and "\<exists>k. fits k e"
  shows "history_ok (ops @ [o']) (Suc r) created body'"
  using assms by (auto simp: history_ok_def replay_append well_formed_def edit_of_def)

text \<open>Replacing one note row.\<close>

lemma notes_ok_replace:
  assumes "notes_ok db" "n \<in> set (note_rows db)" "nt_id n' = nt_id n"
    and "note_rows db' = update_where (\<lambda>r. nt_id r = nt_id n) (\<lambda>_. n') (note_rows db)"
    and "note_operations db' = note_operations db @ extra"
    and "\<forall>o' \<in> set extra. no_note_id o' = nt_id n" "distinct (map operation_key (note_operations db'))"
    and "\<And>created. history_ok (log_of db (nt_id n)) (nt_revision n) created (nt_body n) \<Longrightarrow>
           history_ok (log_of db (nt_id n) @ extra) (nt_revision n') created (nt_body n')"
  shows "notes_ok db'"
proof -
  have ids: "map nt_id (note_rows db') = map nt_id (note_rows db)"
    unfolding assms(4) using assms(3) by (simp add: update_where_def)
  then have id_set: "nt_id ` set (note_rows db') = nt_id ` set (note_rows db)"
    by (metis list.set_map)
  have own: "log_of db' (nt_id n) = log_of db (nt_id n) @ extra"
    using assms(5,6) by (auto simp: log_of_def filter_id_conv)
  have other: "log_of db' i = log_of db i" if "i \<noteq> nt_id n" for i
    using assms(5,6) that by (auto simp: log_of_def filter_empty_conv)
  have "\<exists>created. history_ok (log_of db' (nt_id x)) (nt_revision x) created (nt_body x)"
    if "x \<in> set (note_rows db')" for x
  proof (cases "x = n'")
    case True
    obtain created where "history_ok (log_of db (nt_id n)) (nt_revision n) created (nt_body n)"
      using assms(1,2) by (auto simp: notes_ok_def)
    from assms(8) [OF this] show ?thesis using True assms(3) own by auto
  next
    case False
    with that have "x \<in> set (note_rows db)" "nt_id x \<noteq> nt_id n"
      by (auto simp: assms(4) set_update_where)
    then show ?thesis using assms(1) other by (auto simp: notes_ok_def)
  qed
  moreover have "\<forall>o' \<in> set (note_operations db'). no_note_id o' \<in> nt_id ` set (note_rows db')"
    using assms(1,2,5,6) unfolding id_set by (auto simp: notes_ok_def)
  ultimately show ?thesis
    using assms(1,7) by (simp add: notes_ok_def ids)
qed

lemma notes_ok_same: "notes_ok db \<Longrightarrow> same_notes db db' \<Longrightarrow> notes_ok db'"
  by (simp add: notes_ok_def same_notes_def log_of_def)

lemma find_note_Some: "find_note db i = Some n \<Longrightarrow> n \<in> set (note_rows db) \<and> nt_id n = i"
  using scalar_Some by (fastforce simp: find_note_def)

lemma write_edit_rows:
  "note_rows (fst (write_edit db n a m e body now)) = update_where (\<lambda>r. nt_id r = nt_id n)
     (\<lambda>_. n\<lparr>nt_body := body, nt_revision := nt_revision n + 1, nt_updated_at := now\<rparr>) (note_rows db)"
  "note_operations (fst (write_edit db n a m e body now)) = note_operations db @
     [\<lparr>no_note_id = nt_id n, no_operation_id = em_operation_id m, no_actor_id = Some a,
       no_base_revision = em_base_revision m, no_resulting_revision = nt_revision n + 1,
       no_edit = store_edit e, no_applied_at = now\<rparr>]"
  by (simp_all add: write_edit_def Let_def)

lemma notes_ok_edit:
  assumes "apply_note_edit db i a m tok viewing now ev = Inr (db', reply)" "notes_ok db"
  shows "notes_ok db'"
proof -
  obtain r notified where reply: "reply = (r, notified)" by (cases reply)
  from assms(1) obtain k where "apply_locked db i a k m viewing now ev = Inr (db', r, notified)"
    by (auto simp: apply_note_edit_def bind_exc_Inr_iff reply)
  then show ?thesis
  proof (cases rule: apply_locked_cases)
    case unchanged
    with assms(2) show ?thesis by simp
  next
    case (applied n incoming e body)
    note n = find_note_Some [OF applied(2)]
    have "notes_ok (fst (write_edit db n a m e body now))"
    proof (rule notes_ok_replace [OF assms(2) conjunct1 [OF n] _ write_edit_rows])
      show "distinct (map operation_key (note_operations (fst (write_edit db n a m e body now))))"
        using assms(2) applied(1) n
        by (auto simp: write_edit_rows notes_ok_def operation_key_def find_operation_def scalar_None)
      fix created
      assume h: "history_ok (log_of db (nt_id n)) (nt_revision n) created (nt_body n)"
      show "history_ok (log_of db (nt_id n) @
          [\<lparr>no_note_id = nt_id n, no_operation_id = em_operation_id m, no_actor_id = Some a,
            no_base_revision = em_base_revision m, no_resulting_revision = nt_revision n + 1,
            no_edit = store_edit e, no_applied_at = now\<rparr>])
          (nt_revision (n\<lparr>nt_body := body, nt_revision := nt_revision n + 1, nt_updated_at := now\<rparr>)) created
          (nt_body (n\<lparr>nt_body := body, nt_revision := nt_revision n + 1, nt_updated_at := now\<rparr>))"
        using history_step [OF h applied(6)] applied(3)
          transform_since_well [OF applied(5) parse_edit_well [OF applied(4)] h] by simp
    qed simp_all
    then show ?thesis using applied(7) notes_ok_same by blast
  qed
qed

lemma create_note_cases:
  assumes "create_note db a op title body now i ev = Inr (db', r)"
  obtains (prior) "db' = db"
  | (created) m where "active_member db a = Inr m" "i \<notin> nt_id ` set (note_rows db)"
      "scalar (\<lambda>n. nt_creation_operation_id n = op) (note_rows db) = None"
      "same_notes (db\<lparr>note_rows := note_rows db @
         [\<lparr>nt_id = i, nt_creation_operation_id = op, nt_couple_id = mem_couple_id m, nt_title = title,
           nt_body = body, nt_revision = 0, nt_metadata_revision = 0, nt_archived_at = None,
           nt_purge_after = None, nt_created_at = now, nt_updated_at = now\<rparr>]\<rparr>) db'"
proof -
  from assms obtain m c where mc: "active_member db a = Inr m" "lock_couple db (mem_couple_id m) = Inr c"
    by (auto simp: create_note_def bind_exc_Inr_iff)
  show thesis
  proof (cases "scalar (\<lambda>n. nt_creation_operation_id n = op) (note_rows db)")
    case (Some n)
    with assms mc prior show thesis by (auto simp: create_note_def split: if_splits)
  next
    case None
    show thesis
    proof (cases "recent_equivalent db (mem_couple_id m) title body now")
      case (Some n)
      with None assms mc prior show thesis by (auto simp: create_note_def)
    next
      case none: None
      define w where "w = db\<lparr>note_rows := note_rows db @
         [\<lparr>nt_id = i, nt_creation_operation_id = op, nt_couple_id = mem_couple_id m, nt_title = title,
           nt_body = body, nt_revision = 0, nt_metadata_revision = 0, nt_archived_at = None,
           nt_purge_after = None, nt_created_at = now, nt_updated_at = now\<rparr>]\<rparr>"
      define c where "c = note_activity (mem_couple_id m) a ''note_created''
        [Lit ''note:create:'', Id op] i title now"
      from assms mc None none have "i \<notin> nt_id ` set (note_rows db)" "only_alerts (record_activity w c) db'"
        by (auto simp: create_note_def Let_def bind_exc_Inr_iff insert_unique_Inr w_def c_def
            dest: note_edit_event_frame)
      with None mc(1) show thesis
        using same_notes_alert [OF same_notes_activity] by (intro created) (simp_all add: w_def)
    qed
  qed
qed

lemma notes_ok_create:
  assumes "create_note db a op title body now i ev = Inr (db', r)" "notes_ok db"
  shows "notes_ok db'"
  using assms(1)
proof (cases rule: create_note_cases)
  case prior
  with assms(2) show ?thesis by simp
next
  case (created m)
  define w where "w = db\<lparr>note_rows := note_rows db @
         [\<lparr>nt_id = i, nt_creation_operation_id = op, nt_couple_id = mem_couple_id m, nt_title = title,
           nt_body = body, nt_revision = 0, nt_metadata_revision = 0, nt_archived_at = None,
           nt_purge_after = None, nt_created_at = now, nt_updated_at = now\<rparr>]\<rparr>"
  have "log_of db i = []"
    using assms(2) created(2) by (auto simp: notes_ok_def log_of_def filter_empty_conv)
  then have "\<exists>b. history_ok (log_of db i) 0 b body"
    by (intro exI [of _ body]) (simp add: history_ok_def)
  then have "notes_ok w"
    using assms(2) created(2) by (auto simp: notes_ok_def w_def log_of_def)
  then show ?thesis using created(4) notes_ok_same by (simp add: w_def)
qed

lemma change_metadata_cases:
  assumes "change_metadata db a i op expected ch now = Inr (db', r)"
  obtains (prior) "db' = db"
  | (changed) n n' where "n \<in> set (note_rows db)" "nt_id n = i" "nt_metadata_revision n = expected"
      "change_note ch now n = Inr n'" "finish_metadata db n' a op now = Inr (db', r)"
      "scalar (\<lambda>o'. nm_note_id o' = i \<and> nm_operation_id o' = op) (note_metadata_operations db) = None"
proof -
  from assms obtain m n p where n: "locked_note_metadata db i m op = Inr (n, p)"
    and rest: "(case p of Some o' \<Rightarrow> Inr (db, nm_result o')
       | None \<Rightarrow> bind_exc (expect_metadata_revision n expected) (\<lambda>_.
           bind_exc (change_note ch now n) (\<lambda>n'. finish_metadata db n' a op now))) = Inr (db', r)"
    by (auto simp: change_metadata_def bind_exc_Inr_iff)
  have "n \<in> set (note_rows db)" "nt_id n = i"
    and p: "p = scalar (\<lambda>o'. nm_note_id o' = i \<and> nm_operation_id o' = op) (note_metadata_operations db)"
    using n by (auto simp: locked_note_metadata_def bind_exc_Inr_iff split: option.splits dest!: scalar_Some)
  show thesis
  proof (cases p)
    case (Some o')
    with rest prior show thesis by simp
  next
    case None
    with rest obtain n' where "nt_metadata_revision n = expected" "change_note ch now n = Inr n'"
        "finish_metadata db n' a op now = Inr (db', r)"
      by (auto simp: bind_exc_Inr_iff expect_metadata_revision_def guard_def split: if_splits)
    with changed show thesis using \<open>n \<in> set (note_rows db)\<close> \<open>nt_id n = i\<close> p None by auto
  qed
qed

lemma change_note_same:
  "change_note ch now n = Inr n' \<Longrightarrow> nt_id n' = nt_id n \<and> nt_body n' = nt_body n
     \<and> nt_revision n' = nt_revision n \<and> nt_couple_id n' = nt_couple_id n
     \<and> nt_creation_operation_id n' = nt_creation_operation_id n"
  by (cases ch) (auto split: if_splits)

lemma notes_ok_change:
  assumes "change_metadata db a i op expected ch now = Inr (db', r)" "notes_ok db"
  shows "notes_ok db'"
  using assms(1)
proof (cases rule: change_metadata_cases)
  case prior
  with assms(2) show ?thesis by simp
next
  case (changed n n')
  note same = change_note_same [OF changed(4)]
  define n2 where "n2 = n'\<lparr>nt_metadata_revision := nt_metadata_revision n' + 1, nt_updated_at := now\<rparr>"
  have "note_rows db' = update_where (\<lambda>r. nt_id r = nt_id n) (\<lambda>_. n2) (note_rows db)"
    "note_operations db' = note_operations db @ []"
    using changed(5) same by (auto simp: finish_metadata_def Let_def n2_def)
  then show ?thesis
    using assms(2) same
    by (intro notes_ok_replace [OF assms(2) changed(1), of n2 _ "[]"]) (auto simp: n2_def notes_ok_def)
qed

end
