(* ===== verification/Note_Safety.thy ===== *)
theory Note_Safety
  imports Note_Edit
begin

text \<open>
  The properties of the shared notes, over every sequence of the requests that write them: the log
  replays to the body, stale edits are merged, retries are harmless, and an edit needs access.
\<close>

section \<open>Authorization\<close>

lemma authorized_couple_sound:
  assumes "authorized_couple db i a tok now = Inr k"
  shows "\<exists>acc s mem c n. acc \<in> set (accounts db) \<and> acc_id acc = a \<and> acc_suspended_at acc = None
      \<and> acc_deleted_at acc = None \<and> s \<in> set (sessions db) \<and> ses_account_id s = a
      \<and> ses_token_hash s = tok \<and> ses_revoked_at s = None \<and> now < ses_expires_at s
      \<and> mem \<in> set (members db) \<and> mem_account_id mem = a \<and> mem_left_at mem = None
      \<and> c \<in> set (couples db) \<and> cpl_id c = mem_couple_id mem \<and> cpl_ended_at c = None
      \<and> n \<in> set (note_rows db) \<and> nt_id n = i \<and> nt_couple_id n = cpl_id c \<and> nt_archived_at n = None"
proof -
  obtain acc where acc: "scalar (\<lambda>x. acc_id x = a) (accounts db) = Some acc"
      "acc_suspended_at acc = None" "acc_deleted_at acc = None"
    using assms by (auto simp: authorized_couple_def split: option.splits if_splits)
  obtain s where s: "scalar (\<lambda>s. ses_account_id s = a \<and> ses_token_hash s = tok \<and> session_live now s)
      (sessions db) = Some s"
    using assms by (auto simp: authorized_couple_def split: option.splits if_splits)
  obtain mem c where m: "scalar (\<lambda>m. mem_account_id m = a \<and> is_active m
        \<and> list_ex (\<lambda>n. nt_couple_id n = mem_couple_id m \<and> nt_id n = i \<and> nt_archived_at n = None)
            (note_rows db)) (members db) = Some mem"
      and c: "lock_couple db (mem_couple_id mem) = Inr c"
    using assms by (auto simp: authorized_couple_def split: option.splits if_splits sum.splits)
  from scalar_Some [OF m] obtain n where "n \<in> set (note_rows db)" "nt_couple_id n = mem_couple_id mem"
      "nt_id n = i" "nt_archived_at n = None" by (auto simp: list_ex_iff)
  with scalar_Some [OF acc(1)] acc(2,3) scalar_Some [OF s] scalar_Some [OF m] lock_couple_Inr [OF c]
  show ?thesis
    by (intro exI [of _ acc] exI [of _ s] exI [of _ mem] exI [of _ c] exI [of _ n])
      (simp add: session_live_def is_active_def)
qed

section \<open>The requests that write notes\<close>

datatype note_request =
    Edit_note uuid uuid edit_message string bool instant uuid
  | Create_note uuid uuid string note_text instant uuid uuid
  | Change_note uuid uuid uuid nat metadata_change instant

datatype note_result = Edit_result note_reply "uuid option" | Note_result note_response

fun handle_note :: "'a notes_db_scheme \<Rightarrow> note_request \<Rightarrow> exc + 'a notes_db_scheme \<times> note_result" where
  "handle_note db (Edit_note i a m tok viewing now ev) =
     bind_exc (apply_note_edit db i a m tok viewing now ev)
       (\<lambda>(db', r, notified). Inr (db', Edit_result r notified))"
| "handle_note db (Create_note a op title body now i ev) =
     bind_exc (create_note db a op title body now i ev) (\<lambda>(db', r). Inr (db', Note_result r))"
| "handle_note db (Change_note a i op expected ch now) =
     bind_exc (change_metadata db a i op expected ch now) (\<lambda>(db', r). Inr (db', Note_result r))"

interpretation note_log: preserving handle_note notes_ok
proof
  fix db db' :: "'a notes_db_scheme" and op r
  assume "notes_ok db" "handle_note db op = Inr (db', r)"
  then show "notes_ok db'"
    by (cases op)
      (auto simp: bind_exc_Inr_iff intro: notes_ok_edit notes_ok_create notes_ok_change)
qed

fun note_recorded :: "'a notes_db_scheme \<Rightarrow> note_request \<Rightarrow> bool" where
  "note_recorded db (Edit_note i a m tok viewing now ev) \<longleftrightarrow>
     (i, em_operation_id m) \<in> operation_key ` set (note_operations db)"
| "note_recorded db (Create_note a op title body now i ev) \<longleftrightarrow>
     op \<in> nt_creation_operation_id ` set (note_rows db)"
| "note_recorded db (Change_note a i op expected ch now) \<longleftrightarrow>
     (i, op) \<in> (\<lambda>o'. (nm_note_id o', nm_operation_id o')) ` set (note_metadata_operations db)"

lemma recorded_edit:
  "find_operation db i op = None \<longleftrightarrow> (i, op) \<notin> operation_key ` set (note_operations db)"
  by (auto simp: find_operation_def scalar_None operation_key_def)

lemma creation_ids_update:
  assumes "n \<in> set rows" "nt_creation_operation_id n' = nt_creation_operation_id n"
    and "distinct (map nt_id rows)"
  shows "nt_creation_operation_id ` set (update_where (\<lambda>r. nt_id r = nt_id n) (\<lambda>_. n') rows)
    = nt_creation_operation_id ` set rows"
proof -
  have "{r \<in> set rows. nt_id r = nt_id n} = {n}"
    using assms(1,3) by (auto simp: distinct_map inj_on_def)
  then have "set (update_where (\<lambda>r. nt_id r = nt_id n) (\<lambda>_. n') rows) = set rows - {n} \<union> {n'}"
    by (auto simp: set_update_where)
  with assms(1,2) show ?thesis by (auto simp: image_iff)
qed

text \<open>What a request leaves of the tables that remember requests.\<close>

definition note_memory :: "'a notes_db_scheme \<Rightarrow> (uuid \<times> uuid) set \<times> uuid set \<times> (uuid \<times> uuid) set" where
  "note_memory db =
     (operation_key ` set (note_operations db), nt_creation_operation_id ` set (note_rows db),
      (\<lambda>o'. (nm_note_id o', nm_operation_id o')) ` set (note_metadata_operations db))"

lemma note_memory_same: "same_notes db db' \<Longrightarrow> note_memory db' = note_memory db"
  by (simp add: same_notes_def note_memory_def)

lemma write_edit_memory:
  assumes "notes_ok db" "n \<in> set (note_rows db)"
  shows "note_memory (fst (write_edit db n a m e body now)) =
    (insert (nt_id n, em_operation_id m) (fst (note_memory db)), snd (note_memory db))"
proof -
  have "note_metadata_operations (fst (write_edit db n a m e body now)) = note_metadata_operations db"
    by (simp add: write_edit_def Let_def)
  then show ?thesis
    using assms by (simp add: note_memory_def write_edit_rows operation_key_def notes_ok_def creation_ids_update)
qed

lemma finish_metadata_memory:
  assumes "notes_ok db" "n \<in> set (note_rows db)" "change_note ch now n = Inr n'"
    and "finish_metadata db n' a op now = Inr (db', r)"
  shows "note_memory db' = (fst (note_memory db), fst (snd (note_memory db)),
    insert (nt_id n, op) (snd (snd (note_memory db))))"
proof -
  have db': "db' = db\<lparr>note_rows := update_where (\<lambda>x. nt_id x = nt_id n)
        (\<lambda>_. n'\<lparr>nt_metadata_revision := nt_metadata_revision n' + 1, nt_updated_at := now\<rparr>) (note_rows db),
      note_metadata_operations := note_metadata_operations db
        @ [\<lparr>nm_note_id = nt_id n, nm_operation_id = op, nm_actor_id = Some a,
            nm_resulting_revision = nt_metadata_revision n' + 1, nm_result = r, nm_applied_at = now\<rparr>]\<rparr>"
    using assms(4) change_note_same [OF assms(3)] by (auto simp: finish_metadata_def Let_def)
  show ?thesis
    using assms(1) change_note_same [OF assms(3)]
    by (simp add: db' note_memory_def creation_ids_update [OF assms(2)] notes_ok_def)
qed

lemma handle_note_cases:
  assumes "handle_note db op = Inr (db', r)" "notes_ok db"
  obtains (quiet) "db' = db"
  | (written) "note_recorded db' op" "\<not> note_recorded db op"
      "fst (note_memory db) \<subseteq> fst (note_memory db')"
      "fst (snd (note_memory db)) \<subseteq> fst (snd (note_memory db'))"
      "snd (snd (note_memory db)) \<subseteq> snd (snd (note_memory db'))"
proof (cases op)
  case (Edit_note i a m tok viewing now ev)
  with assms(1) obtain k r' notified
    where "apply_locked db i a k m viewing now ev = Inr (db', r', notified)"
    by (auto simp: apply_note_edit_def bind_exc_Inr_iff)
  then show thesis
  proof (cases rule: apply_locked_cases)
    case (applied n incoming e body)
    have n: "n \<in> set (note_rows db)" "nt_id n = i"
      using find_note_Some [OF applied(2)] by simp_all
    have "note_memory db' = (insert (i, em_operation_id m) (fst (note_memory db)), snd (note_memory db))"
      using write_edit_memory [OF assms(2) n(1)] note_memory_same [OF applied(7)] n(2) by simp
    then show thesis
      using applied(1) by (intro written) (auto simp: Edit_note note_memory_def recorded_edit)
  qed (rule quiet)
next
  case (Create_note a c title body now i ev)
  with assms(1) obtain r' where "create_note db a c title body now i ev = Inr (db', r')"
    by (auto simp: bind_exc_Inr_iff)
  then show thesis
  proof (cases rule: create_note_cases)
    case (created m)
    from note_memory_same [OF created(4)] have "note_memory db' =
        (fst (note_memory db), insert c (fst (snd (note_memory db))), snd (snd (note_memory db)))"
      by (simp add: note_memory_def)
    then show thesis
      using created(3) by (intro written) (auto simp: Create_note note_memory_def scalar_None)
  qed (rule quiet)
next
  case (Change_note a i c expected ch now)
  with assms(1) obtain r' where "change_metadata db a i c expected ch now = Inr (db', r')"
    by (auto simp: bind_exc_Inr_iff)
  then show thesis
  proof (cases rule: change_metadata_cases)
    case (changed n n')
    from finish_metadata_memory [OF assms(2) changed(1,4,5)] changed(2) have "note_memory db' =
        (fst (note_memory db), fst (snd (note_memory db)), insert (i, c) (snd (snd (note_memory db))))"
      by simp
    then show thesis
      using changed(6) by (intro written) (auto simp: Change_note note_memory_def scalar_None)
  qed (rule quiet)
qed

lemma note_recorded_memory:
  "note_recorded db op \<longleftrightarrow>
     (case op of Edit_note i a m tok viewing now ev \<Rightarrow> (i, em_operation_id m) \<in> fst (note_memory db)
      | Create_note a c title body now i ev \<Rightarrow> c \<in> fst (snd (note_memory db))
      | Change_note a i c expected ch now \<Rightarrow> (i, c) \<in> snd (snd (note_memory db)))"
  by (cases op) (auto simp: note_memory_def)

interpretation note_retries: retry_safe handle_note notes_ok note_recorded
proof
  fix db db' :: "'a notes_db_scheme" and op r
  assume inv: "notes_ok db" and h: "handle_note db op = Inr (db', r)"
  show "note_recorded db' op \<or> db' = db"
    using h inv by (cases rule: handle_note_cases) auto
next
  fix db db' :: "'a notes_db_scheme" and op op' r
  assume inv: "notes_ok db" and rec: "note_recorded db op" and h: "handle_note db op' = Inr (db', r)"
  from h inv show "note_recorded db' op"
  proof (cases rule: handle_note_cases)
    case quiet
    with rec show ?thesis by simp
  next
    case written
    with rec show ?thesis unfolding note_recorded_memory by (cases op) auto
  qed
next
  fix db db' :: "'a notes_db_scheme" and op r
  assume inv: "notes_ok db" and rec: "note_recorded db op" and h: "handle_note db op = Inr (db', r)"
  from h inv show "db' = db"
    using rec by (cases rule: handle_note_cases) auto
qed

section \<open>The log replays to the body\<close>

text \<open>
  C12 However the members edit, create, rename, archive and restore, every shared note stays the
  result of its own history: its operations carry the revisions 1, 2, ... up to the note's
  revision, each based on an earlier one, and replaying the stored edits from the text it was
  created with never fails and ends in the current body.
\<close>

theorem note_log_replays:
  assumes "notes_ok db" "n \<in> set (note_rows (run_ops handle_note db ops))"
  shows "\<exists>created.
    map no_resulting_revision (log_of (run_ops handle_note db ops) (nt_id n)) = [1..<Suc (nt_revision n)]
    \<and> (\<forall>o' \<in> set (log_of (run_ops handle_note db ops) (nt_id n)). no_base_revision o' < no_resulting_revision o')
    \<and> replay created (map edit_of (log_of (run_ops handle_note db ops) (nt_id n))) = Some (nt_body n)"
  using note_log.inv_run [OF assms(1), of ops] assms(2)
  by (fastforce simp: notes_ok_def history_ok_def well_formed_def list_all_iff)

definition orbit_notes :: notes_db where
  "orbit_notes =
     \<lparr>accounts = [\<lparr>acc_id = 11, acc_email_normalized = ascii ''a@b.de'', acc_password_hash = ''h'',
        acc_display_name = ascii ''Ada'', acc_is_adult = True, acc_accepted_terms_version = ''1'',
        acc_is_admin = False, acc_verified_at = Some 0,
        acc_suspended_at = None, acc_deleted_at = None,
        acc_created_at = 0, acc_updated_at = 0\<rparr>],
      sessions = [\<lparr>ses_account_id = 11, ses_token_hash = ''h'', ses_revoked_at = None,
        ses_expires_at = day, ses_authenticated_at = 0, ses_admin_mfa_verified = False, ses_created_at = 0\<rparr>],
      couples = couples orbit_core, members = members orbit_core,
      activity_events = [], preferences = [], devices = [], events = [], deliveries = [],
      location_samples = [], together_buckets = [], together_days = [],
      note_rows = [\<lparr>nt_id = 5, nt_creation_operation_id = 70, nt_couple_id = 7, nt_title = ''trip'',
        nt_body = [1, 2, 3], nt_revision = 1, nt_metadata_revision = 0, nt_archived_at = None,
        nt_purge_after = None, nt_created_at = 0, nt_updated_at = 0\<rparr>],
      note_operations = [\<lparr>no_note_id = 5, no_operation_id = 90, no_actor_id = Some 12,
        no_base_revision = 0, no_resulting_revision = 1, no_edit = store_edit (Insert 0 [1]),
        no_applied_at = 0\<rparr>],
      note_metadata_operations = []\<rparr>"

lemma orbit_notes_fields [simp]:
  "members orbit_notes = members orbit_core" "couples orbit_notes = couples orbit_core"
  "events orbit_notes = []" "preferences orbit_notes = []" "devices orbit_notes = []"
  "deliveries orbit_notes = []" "activity_events orbit_notes = []"
  "note_metadata_operations orbit_notes = []"
  by (simp_all add: orbit_notes_def)

lemma orbit_notes_ok [simp]: "notes_ok orbit_notes" "events_ok orbit_notes"
proof -
  have "history_ok (log_of orbit_notes 5) 1 [2, 3] [1, 2, 3]"
    by (simp add: orbit_notes_def log_of_def history_ok_def well_formed_def edit_of_def
        restore_edit_def apply_non_empty_edit_def apply_edit_def exI [of _ 0] exI [of _ 1])
  then show "notes_ok orbit_notes"
    by (auto simp: notes_ok_def orbit_notes_def)
  show "events_ok orbit_notes" by (simp add: events_ok_def)
qed

definition old_insert :: edit_message where
  "old_insert = \<lparr>em_operation_id = 91, em_base_revision = 0, em_kind = ''insert'', em_position = 2,
     em_text = Some [8], em_length = None\<rparr>"

theorem note_log_replays_witness:
  "\<exists>n created. n \<in> set (note_rows (run_ops handle_note orbit_notes
      [Change_note 11 5 92 0 Archive 1000, Change_note 11 5 93 1 Restore 2000]))
     \<and> replay created (map edit_of (log_of (run_ops handle_note orbit_notes
      [Change_note 11 5 92 0 Archive 1000, Change_note 11 5 93 1 Restore 2000]) (nt_id n))) = Some (nt_body n)"
proof -
  have "note_rows (run_ops handle_note orbit_notes
      [Change_note 11 5 92 0 Archive 1000, Change_note 11 5 93 1 Restore 2000]) \<noteq> []"
    by (simp add: orbit_notes_def orbit_core_def step_def change_metadata_def active_member_def scalar_def
        is_active_def locked_note_metadata_def lock_couple_def expect_metadata_revision_def guard_def
        finish_metadata_def Let_def update_where_def)
  then obtain n where "n \<in> set (note_rows (run_ops handle_note orbit_notes
      [Change_note 11 5 92 0 Archive 1000, Change_note 11 5 93 1 Restore 2000]))"
    by (metis list.set_intros(1) neq_Nil_conv)
  with note_log_replays [OF orbit_notes_ok(1) this] show ?thesis by blast
qed

section \<open>Retries\<close>

text \<open>
  Any note request that changed the database - an edit, a creation, a rename, an archive or a
  restore - may be sent again by an offline client, after any other requests: the retry changes
  nothing.
\<close>

theorem note_requests_retry_safe:
  assumes "notes_ok db" "handle_note db op = Inr (db', r)" "db' \<noteq> db"
  shows "step handle_note (run_ops handle_note db' ops) op = run_ops handle_note db' ops"
  using assms by (rule note_retries.retry_later)

theorem note_requests_retry_safe_witness:
  "\<exists>db'. step handle_note (run_ops handle_note db' [Change_note 12 5 94 1 Restore 2000])
      (Change_note 11 5 92 0 Archive 1000) = run_ops handle_note db' [Change_note 12 5 94 1 Restore 2000]
     \<and> db' \<noteq> orbit_notes"
proof -
  obtain db' r where h: "handle_note orbit_notes (Change_note 11 5 92 0 Archive 1000) = Inr (db', r)"
      "note_metadata_operations db' \<noteq> []"
    by (simp add: orbit_notes_def orbit_core_def change_metadata_def active_member_def scalar_def
        is_active_def locked_note_metadata_def lock_couple_def expect_metadata_revision_def guard_def
        finish_metadata_def Let_def update_where_def)
  then have "db' \<noteq> orbit_notes" by auto
  with note_requests_retry_safe [OF orbit_notes_ok(1) h(1) this] show ?thesis by blast
qed

section \<open>Who may edit\<close>

text \<open>
  An edit is accepted from a socket only while the account is in good standing, the session the
  socket was opened with is neither revoked nor expired, the account is still an active member of
  the couple that owns the note, the relationship has not ended, and the note is not archived. An
  accepted edit touches no note but that one.
\<close>

theorem note_edit_needs_access:
  assumes "apply_note_edit db i a m tok viewing now ev = Inr (db', r)" "notes_ok db"
  shows "\<exists>acc s mem c n. acc \<in> set (accounts db) \<and> acc_id acc = a \<and> acc_suspended_at acc = None
      \<and> acc_deleted_at acc = None \<and> s \<in> set (sessions db) \<and> ses_account_id s = a
      \<and> ses_token_hash s = tok \<and> ses_revoked_at s = None \<and> now < ses_expires_at s
      \<and> mem \<in> set (members db) \<and> mem_account_id mem = a \<and> mem_left_at mem = None
      \<and> c \<in> set (couples db) \<and> cpl_id c = mem_couple_id mem \<and> cpl_ended_at c = None
      \<and> n \<in> set (note_rows db) \<and> nt_id n = i \<and> nt_couple_id n = cpl_id c \<and> nt_archived_at n = None
      \<and> filter (\<lambda>x. nt_id x \<noteq> i) (note_rows db') = filter (\<lambda>x. nt_id x \<noteq> i) (note_rows db)"
proof -
  obtain reply notified where r: "r = (reply, notified)" by (cases r)
  from assms(1) obtain k where k: "authorized_couple db i a tok now = Inr k"
    and e: "apply_locked db i a k m viewing now ev = Inr (db', reply, notified)"
    by (auto simp: apply_note_edit_def bind_exc_Inr_iff r)
  have "filter (\<lambda>x. nt_id x \<noteq> i) (note_rows db') = filter (\<lambda>x. nt_id x \<noteq> i) (note_rows db)"
    using e
  proof (cases rule: apply_locked_cases)
    case (applied n incoming ed body)
    then show ?thesis using find_note_Some [OF applied(2)]
      by (simp add: same_notes_def write_edit_rows update_where_def filter_map comp_def if_distrib
          cong: if_cong) (auto intro!: map_idI)
  qed simp
  then show ?thesis using authorized_couple_sound [OF k] by blast
qed

lemma orbit_access [simp]: "authorized_couple orbit_notes 5 11 ''h'' 1000 = Inr 7"
  by (simp add: authorized_couple_def orbit_notes_def orbit_core_def scalar_def session_live_def
      is_active_def lock_couple_def)

section \<open>Stale edits are merged\<close>

lemma events_ok_tables:
  "events_ok db \<Longrightarrow> preferences db' = preferences db \<Longrightarrow> devices db' = devices db
     \<Longrightarrow> events db' = events db \<Longrightarrow> deliveries db' = deliveries db \<Longrightarrow> events_ok db'"
  by (simp add: events_ok_def)

lemma activity_tables [simp]:
  "preferences (record_activity db c) = preferences db" "devices (record_activity db c) = devices db"
  "events (record_activity db c) = events db" "deliveries (record_activity db c) = deliveries db"
  using record_activity_frame [of db c] by auto

lemma write_edit_tables [simp]:
  "preferences (fst (write_edit db n a m e body now)) = preferences db"
  "devices (fst (write_edit db n a m e body now)) = devices db"
  "events (fst (write_edit db n a m e body now)) = events db"
  "deliveries (fst (write_edit db n a m e body now)) = deliveries db"
  by (simp_all add: write_edit_def Let_def)

lemma write_edit_note:
  "snd (write_edit db n a m e body now) = n\<lparr>nt_body := body, nt_revision := nt_revision n + 1, nt_updated_at := now\<rparr>"
  by (simp add: write_edit_def Let_def)

lemma apply_locked_accepts:
  assumes "events_ok db" "ev \<notin> ne_id ` set (events db)"
    and "find_operation db i (em_operation_id m) = None" "find_note db i = Some n"
    and "em_base_revision m \<le> nt_revision n" "parse_edit m = Inr incoming"
    and "transform_since db n m incoming = Inr (Some e)" "fits (length (nt_body n)) e"
  shows "\<exists>db' notified. apply_locked db i a k m viewing now ev
      = Inr (db', Ack (em_operation_id m) (nt_revision n + 1) (effect (nt_body n) e)
               (em_base_revision m \<noteq> nt_revision n) False, notified)
    \<and> same_notes (fst (write_edit db n a m e (effect (nt_body n) e) now)) db'"
proof -
  define w where "w = fst (write_edit db n a m e (effect (nt_body n) e) now)"
  define w2 where "w2 = record_activity w (note_activity k a ''note_updated''
    [Lit ''note:edit:'', Id (em_operation_id m)] (nt_id n) (nt_title n) now)"
  have "events_ok w2" using assms(1) by (rule events_ok_tables) (simp_all add: w2_def w_def)
  moreover have "ev \<notin> ne_id ` set (events w2)" using assms(2) by (simp add: w2_def w_def)
  ultimately obtain w3 r where w3: "enqueue_note_edit_event w2 now ev k a i viewing = Inr (w3, r)"
    using enqueue_returns [of w2 ev "Note_edit_alert k a i viewing" now] by auto
  have w: "write_edit db n a m e (effect (nt_body n) e) now = (w,
      n\<lparr>nt_body := effect (nt_body n) e, nt_revision := nt_revision n + 1, nt_updated_at := now\<rparr>)"
    by (simp add: w_def prod_eq_iff write_edit_note)
  have "same_notes w w2" "same_notes w w3"
    using same_notes_activity same_notes_alert [OF same_notes_activity note_edit_event_frame] w3
    by (auto simp: w2_def)
  moreover have "apply_locked db i a k m viewing now ev
      = (if effect (nt_body n) e = nt_body n
         then Inr (w2, Ack (em_operation_id m) (nt_revision n + 1) (effect (nt_body n) e)
               (em_base_revision m \<noteq> nt_revision n) False, None)
         else Inr (w3, Ack (em_operation_id m) (nt_revision n + 1) (effect (nt_body n) e)
               (em_base_revision m \<noteq> nt_revision n) False, r))"
    using assms(3,4,5,6,7) apply_fits [OF assms(8)] w3 by (simp add: apply_locked_def w w2_def)
  ultimately show ?thesis unfolding w_def by auto
qed

text \<open>
  C26 An edit is never lost because the other member was faster: if it was valid in the text at the
  revision it was typed against, however many edits have been applied since, the server accepts
  it. It answers with the next revision, and the body it stores is the outcome of the edit
  transformed against everything applied since.
\<close>

theorem stale_edit_merged:
  assumes "notes_ok db" "events_ok db" "ev \<notin> ne_id ` set (events db)"
    and "authorized_couple db i a tok now = Inr k" "find_operation db i (em_operation_id m) = None"
    and "find_note db i = Some n" "em_base_revision m \<le> nt_revision n" "parse_edit m = Inr incoming"
    and "replay created (map edit_of (log_of db i)) = Some (nt_body n)"
    and "replay created (map edit_of (take (em_base_revision m) (log_of db i))) = Some base"
    and "apply_edit base incoming = Inr typed"
  shows "\<exists>db' e notified. apply_note_edit db i a m tok viewing now ev
      = Inr (db', Ack (em_operation_id m) (nt_revision n + 1) (effect (nt_body n) e)
               (em_base_revision m \<noteq> nt_revision n) False, notified)
    \<and> transform_since db n m incoming = Inr (Some e) \<and> apply_non_empty_edit (nt_body n) e = Inr (effect (nt_body n) e)
    \<and> find_note db' i = Some (n\<lparr>nt_body := effect (nt_body n) e, nt_revision := nt_revision n + 1, nt_updated_at := now\<rparr>)"
proof -
  have n: "n \<in> set (note_rows db)" "nt_id n = i" using find_note_Some [OF assms(6)] by simp_all
  obtain created' where "history_ok (log_of db i) (nt_revision n) created' (nt_body n)"
    using assms(1) n by (auto simp: notes_ok_def)
  then have h: "history_ok (log_of db i) (nt_revision n) created (nt_body n)"
    using assms(9) by (simp add: history_ok_def)
  have "fits (length base) incoming" using apply_Inr_fits [OF assms(11)] by simp
  then obtain e where e: "transform_since db n m incoming = Inr (Some e)" "fits (length (nt_body n)) e"
    using transform_since_fits [of db n created m base incoming] h n(2) assms(7,10)
    by (auto simp: body_at_def)
  obtain db' notified where db': "apply_locked db i a k m viewing now ev
      = Inr (db', Ack (em_operation_id m) (nt_revision n + 1) (effect (nt_body n) e)
               (em_base_revision m \<noteq> nt_revision n) False, notified)"
      and same: "same_notes (fst (write_edit db n a m e (effect (nt_body n) e) now)) db'"
    using apply_locked_accepts [OF assms(2,3,5-8) e] by blast
  have "find_note db' i = Some (n\<lparr>nt_body := effect (nt_body n) e, nt_revision := nt_revision n + 1, nt_updated_at := now\<rparr>)"
    using same assms(6) n(2) by (simp add: same_notes_def write_edit_rows find_note_def scalar_update_key)
  with db' e(1) apply_fits [OF e(2)] assms(4) show ?thesis
    by (auto simp: apply_note_edit_def)
qed

theorem stale_edit_merged_witness:
  "\<exists>db' e notified. apply_note_edit orbit_notes 5 11 old_insert ''h'' False 1000 60
      = Inr (db', Ack 91 2 (effect [1, 2, 3] e) True False, notified)
    \<and> find_note db' 5 = Some (the (find_note orbit_notes 5)\<lparr>nt_body := effect [1, 2, 3] e,
         nt_revision := 2, nt_updated_at := 1000\<rparr>)"
proof -
  have log: "log_of orbit_notes 5 = [\<lparr>no_note_id = 5, no_operation_id = 90, no_actor_id = Some 12,
        no_base_revision = 0, no_resulting_revision = 1, no_edit = store_edit (Insert 0 [1]),
        no_applied_at = 0\<rparr>]" and op: "find_operation orbit_notes 5 91 = None"
    by (simp_all add: log_of_def orbit_notes_def find_operation_def scalar_def)
  obtain n where n: "find_note orbit_notes 5 = Some n" "nt_body n = [1, 2, 3]" "nt_revision n = 1"
    by (simp add: find_note_def orbit_notes_def scalar_def)
  have "\<exists>db' e notified. apply_note_edit orbit_notes 5 11 old_insert ''h'' False 1000 60
      = Inr (db', Ack (em_operation_id old_insert) (nt_revision n + 1) (effect (nt_body n) e)
               (em_base_revision old_insert \<noteq> nt_revision n) False, notified)
    \<and> transform_since orbit_notes n old_insert (Insert 2 [8]) = Inr (Some e)
    \<and> apply_non_empty_edit (nt_body n) e = Inr (effect (nt_body n) e)
    \<and> find_note db' 5 = Some (n\<lparr>nt_body := effect (nt_body n) e, nt_revision := nt_revision n + 1, nt_updated_at := 1000\<rparr>)"
    by (rule stale_edit_merged [OF orbit_notes_ok _ orbit_access _ n(1),
          where created = "[2, 3]" and base = "[2, 3]" and typed = "[2, 3, 8]"])
      (simp_all add: n log op old_insert_def parse_edit_def edit_of_def restore_edit_def
        apply_non_empty_edit_def apply_edit_def)
  then obtain db' e notified where "apply_note_edit orbit_notes 5 11 old_insert ''h'' False 1000 60
      = Inr (db', Ack 91 2 (effect [1, 2, 3] e) True False, notified)"
    "find_note db' 5 = Some (n\<lparr>nt_body := effect [1, 2, 3] e, nt_revision := 2, nt_updated_at := 1000\<rparr>)"
    by (auto simp: n old_insert_def eval_nat_numeral)
  then show ?thesis unfolding n(1) option.sel by blast
qed

theorem note_edit_needs_access_witness:
  "\<exists>db' r acc n. apply_note_edit orbit_notes 5 11 old_insert ''h'' False 1000 60 = Inr (db', r)
     \<and> acc \<in> set (accounts orbit_notes) \<and> acc_id acc = 11 \<and> acc_suspended_at acc = None
     \<and> n \<in> set (note_rows orbit_notes) \<and> nt_id n = 5 \<and> nt_archived_at n = None"
proof -
  obtain n where n: "find_note orbit_notes 5 = Some n" "nt_body n = [1, 2, 3]" "nt_revision n = 1" "nt_id n = 5"
    by (simp add: find_note_def orbit_notes_def scalar_def)
  have "\<exists>db' notified. apply_locked orbit_notes 5 11 7 old_insert False 1000 60
      = Inr (db', Ack (em_operation_id old_insert) (nt_revision n + 1) (effect (nt_body n) (Insert 3 [8]))
               (em_base_revision old_insert \<noteq> nt_revision n) False, notified)
    \<and> same_notes (fst (write_edit orbit_notes n 11 old_insert (Insert 3 [8]) (effect (nt_body n) (Insert 3 [8])) 1000)) db'"
    by (rule apply_locked_accepts [OF orbit_notes_ok(2) _ _ n(1), where incoming = "Insert 2 [8]"])
      (simp_all add: n old_insert_def find_operation_def orbit_notes_def scalar_def parse_edit_def
        transform_since_def operations_since_def select_def Let_def restore_edit_def)
  then obtain db' r where "apply_note_edit orbit_notes 5 11 old_insert ''h'' False 1000 60 = Inr (db', r)"
    by (auto simp: apply_note_edit_def)
  from this note_edit_needs_access [OF this orbit_notes_ok(1)] show ?thesis by blast
qed

section \<open>The undo window of an archived note\<close>

lemma finish_metadata_find:
  assumes "find_note db i = Some n0" "nt_id n = i"
    and "finish_metadata db n a op now = Inr (db', r)"
  shows "find_note db' i = Some (n\<lparr>nt_metadata_revision := nt_metadata_revision n + 1, nt_updated_at := now\<rparr>)"
    and "r = note_response_of (n\<lparr>nt_metadata_revision := nt_metadata_revision n + 1, nt_updated_at := now\<rparr>)"
    and "core_db.truncate db' = core_db.truncate db"
  using assms by (auto simp: finish_metadata_def Let_def find_note_def scalar_update_key core_db.defs)

lemma same_note:
  "notes_ok db \<Longrightarrow> x \<in> set (note_rows db) \<Longrightarrow> y \<in> set (note_rows db) \<Longrightarrow> nt_id x = nt_id y \<Longrightarrow> x = y"
  by (metis notes_ok_def distinct_map inj_onD)

lemma locked_note_eq:
  assumes "notes_ok db" "find_note db i = Some n" "lock_couple db (mem_couple_id m) = Inr c"
    and "nt_couple_id n = mem_couple_id m"
  shows "locked_note_metadata db i m op = Inr (n, scalar (\<lambda>o'. nm_note_id o' = i \<and> nm_operation_id o' = op)
    (note_metadata_operations db))"
proof -
  have n: "n \<in> set (note_rows db)" "nt_id n = i" using find_note_Some [OF assms(2)] by simp_all
  have "scalar (\<lambda>x. nt_id x = i \<and> nt_couple_id x = mem_couple_id m) (note_rows db) = Some n"
  proof (rule scalar_unique)
    fix y assume "y \<in> set (note_rows db)" "nt_id y = i \<and> nt_couple_id y = mem_couple_id m"
    then show "y = n" using n(2) by (intro same_note [OF assms(1) _ n(1)]) simp_all
  qed (use n assms(4) in simp_all)
  with assms(3) n(2) show ?thesis by (simp add: locked_note_metadata_def)
qed

lemma locked_note_Inr:
  assumes "locked_note_metadata db i m op = Inr (n, prior)"
  shows "\<exists>c. lock_couple db (mem_couple_id m) = Inr c \<and> n \<in> set (note_rows db) \<and> nt_id n = i
    \<and> nt_couple_id n = mem_couple_id m"
  using assms unfolding locked_note_metadata_def bind_exc_Inr_iff
  by (auto split: option.splits dest: scalar_Some)

lemma archive_note_Inr:
  assumes "notes_ok db" "find_note db i = Some n"
    and "archive_note db a i op expected now = Inr (db1, r1)" "db1 \<noteq> db"
  obtains m c where "active_member db a = Inr m" "lock_couple db (mem_couple_id m) = Inr c"
    "nt_couple_id n = mem_couple_id m" "nt_archived_at n = None"
    "finish_metadata db (n\<lparr>nt_archived_at := Some now, nt_purge_after := Some (now + 7 * day)\<rparr>) a op now
       = Inr (db1, r1)"
proof -
  from assms(3) obtain m n' prior where m: "active_member db a = Inr m"
      "locked_note_metadata db i m op = Inr (n', prior)"
      "(case prior of Some o' \<Rightarrow> Inr (db, nm_result o')
        | None \<Rightarrow> bind_exc (expect_metadata_revision n' expected) (\<lambda>_.
            bind_exc (change_note Archive now n') (\<lambda>n'. finish_metadata db n' a op now))) = Inr (db1, r1)"
    unfolding archive_note_def change_metadata_def bind_exc_Inr_iff
    by (auto simp del: change_note.simps)
  from locked_note_Inr [OF m(2)] obtain c where c: "lock_couple db (mem_couple_id m) = Inr c"
    "n' \<in> set (note_rows db)" "nt_id n' = i" "nt_couple_id n' = mem_couple_id m" by blast
  have "n' = n" using c(2,3) find_note_Some [OF assms(2)] same_note [OF assms(1)] by simp
  have none: "prior = None" using m(3) assms(4) by (cases prior) simp_all
  from m(3) obtain n2 where n2: "change_note Archive now n = Inr n2" "finish_metadata db n2 a op now = Inr (db1, r1)"
    unfolding none option.case \<open>n' = n\<close> bind_exc_Inr_iff by blast
  have "nt_archived_at n = None" using n2(1) by (simp split: if_splits)
  with n2 have "finish_metadata db (n\<lparr>nt_archived_at := Some now, nt_purge_after := Some (now + 7 * day)\<rparr>) a op now
       = Inr (db1, r1)" by simp
  with m(1) c(1,4) \<open>n' = n\<close> \<open>nt_archived_at n = None\<close> show thesis using that by blast
qed

text \<open>
  C31 Archiving a note can be undone for seven days: a member who archived a note and restores it
  (under a new operation id, against the revision the archiving answered) before the window closes
  gets back the very same note - title, body, revision and log untouched, only the metadata
  revision has grown by two. From the seventh day on the restoration is refused.
\<close>

theorem archive_restore_roundtrip:
  assumes "notes_ok db" "find_note db i = Some n"
    and "archive_note db a i op expected now = Inr (db1, r1)" "db1 \<noteq> db"
    and "op2 \<noteq> op" "(i, op2) \<notin> (\<lambda>o'. (nm_note_id o', nm_operation_id o')) ` set (note_metadata_operations db)"
  shows "if later < now + 7 * day
    then \<exists>db2 r2. restore_note db1 a i op2 (nr_metadata_revision r1) later = Inr (db2, r2)
      \<and> find_note db2 i = Some (n\<lparr>nt_purge_after := None, nt_metadata_revision := nt_metadata_revision n + 2,
          nt_updated_at := later\<rparr>)
      \<and> log_of db2 i = log_of db i
    else restore_note db1 a i op2 (nr_metadata_revision r1) later
      = Inl (HTTPException 409 ''Note cannot be restored'')"
proof -
  define n2 where "n2 = n\<lparr>nt_archived_at := Some now, nt_purge_after := Some (now + 7 * day),
    nt_metadata_revision := nt_metadata_revision n + 1, nt_updated_at := now\<rparr>"
  obtain m c where m: "active_member db a = Inr m" "lock_couple db (mem_couple_id m) = Inr c"
      "nt_couple_id n = mem_couple_id m" "nt_archived_at n = None"
    and f: "finish_metadata db (n\<lparr>nt_archived_at := Some now, nt_purge_after := Some (now + 7 * day)\<rparr>) a op now
       = Inr (db1, r1)"
    using archive_note_Inr [OF assms(1-4)] .
  have n: "nt_id n = i" using find_note_Some [OF assms(2)] by simp
  have found: "find_note db1 i = Some n2" "r1 = note_response_of n2"
    using finish_metadata_find [OF assms(2) _ f] n by (simp_all add: n2_def)
  have db1: "members db1 = members db" "couples db1 = couples db"
    "note_operations db1 = note_operations db"
    "note_metadata_operations db1 = note_metadata_operations db @
      [\<lparr>nm_note_id = i, nm_operation_id = op, nm_actor_id = Some a,
        nm_resulting_revision = nt_metadata_revision n + 1, nm_result = r1, nm_applied_at = now\<rparr>]"
    using f n by (auto simp: finish_metadata_def Let_def log_of_def)
  have "notes_ok db1" using assms(1,3) by (auto simp: archive_note_def intro: notes_ok_change)
  moreover have "scalar (\<lambda>o'. nm_note_id o' = i \<and> nm_operation_id o' = op2) (note_metadata_operations db1) = None"
    using assms(5,6) by (auto simp: scalar_None db1)
  ultimately have "locked_note_metadata db1 i m op2 = Inr (n2, None)"
    using locked_note_eq [of db1 i n2 m c op2] found(1) m(2,3) by (simp add: lock_couple_def db1 n2_def)
  then have r: "restore_note db1 a i op2 (nr_metadata_revision r1) later
      = bind_exc (change_note Restore later n2) (\<lambda>n'. finish_metadata db1 n' a op2 later)"
    using m(1) found(2) by (simp add: restore_note_def change_metadata_def active_member_def db1
        expect_metadata_revision_def guard_def note_response_of_def)
  show ?thesis
  proof (cases "later < now + 7 * day")
    case True
    define n3 where "n3 = n2\<lparr>nt_archived_at := None, nt_purge_after := None\<rparr>"
    obtain db2 r2 where f2: "finish_metadata db1 n3 a op2 later = Inr (db2, r2)"
      by (simp add: finish_metadata_def Let_def)
    moreover have "log_of db2 i = log_of db i"
      using f2 by (auto simp: finish_metadata_def Let_def log_of_def db1)
    moreover have "find_note db2 i = Some (n3\<lparr>nt_metadata_revision := nt_metadata_revision n3 + 1, nt_updated_at := later\<rparr>)"
      using finish_metadata_find(1) [OF found(1) _ f2] n by (simp add: n3_def n2_def)
    moreover have "n3\<lparr>nt_metadata_revision := nt_metadata_revision n3 + 1, nt_updated_at := later\<rparr>
        = n\<lparr>nt_purge_after := None, nt_metadata_revision := nt_metadata_revision n + 2, nt_updated_at := later\<rparr>"
    proof -
      have "n\<lparr>nt_archived_at := nt_archived_at n\<rparr> = n" by simp
      then have "n\<lparr>nt_archived_at := None\<rparr> = n" unfolding m(4) .
      moreover have "n3\<lparr>nt_metadata_revision := nt_metadata_revision n3 + 1, nt_updated_at := later\<rparr>
        = (n\<lparr>nt_archived_at := None\<rparr>)\<lparr>nt_purge_after := None,
            nt_metadata_revision := nt_metadata_revision n + 2, nt_updated_at := later\<rparr>"
        by (simp add: n3_def n2_def)
      ultimately show ?thesis by simp
    qed
    moreover have "change_note Restore later n2 = Inr n3"
      using True by (simp add: n3_def n2_def)
    ultimately show ?thesis
      using True r by simp
  next
    case False
    with r show ?thesis by (simp add: n2_def)
  qed
qed

theorem archive_restore_roundtrip_witness:
  "\<exists>db1 r1 db2 r2 n. archive_note orbit_notes 11 5 92 0 1000 = Inr (db1, r1)
     \<and> restore_note db1 11 5 93 (nr_metadata_revision r1) 2000 = Inr (db2, r2)
     \<and> find_note orbit_notes 5 = Some n \<and> find_note db2 5 = Some (n\<lparr>nt_purge_after := None,
         nt_metadata_revision := nt_metadata_revision n + 2, nt_updated_at := 2000\<rparr>)
     \<and> restore_note db1 11 5 93 (nr_metadata_revision r1) (1000 + 7 * day)
       = Inl (HTTPException 409 ''Note cannot be restored'')"
proof -
  obtain n where n: "find_note orbit_notes 5 = Some n"
    by (simp add: find_note_def orbit_notes_def scalar_def)
  obtain db1 r1 where h: "archive_note orbit_notes 11 5 92 0 1000 = Inr (db1, r1)"
      "note_metadata_operations db1 \<noteq> []"
    by (simp add: orbit_notes_def orbit_core_def archive_note_def change_metadata_def active_member_def
        scalar_def is_active_def locked_note_metadata_def lock_couple_def expect_metadata_revision_def
        guard_def finish_metadata_def Let_def update_where_def)
  then have "db1 \<noteq> orbit_notes" by auto
  note r = archive_restore_roundtrip [OF orbit_notes_ok(1) n h(1) this, of 93]
  from r [of 2000] r [of "1000 + 7 * day"] n h(1) show ?thesis by simp blast
qed

end
