(* ===== verification/Regex.thy ===== *)
theory Regex
  imports Prelude
begin

text \<open>
  The part of Python's \<^verbatim>\<open>re\<close> that the API uses, on lists of code points. A match that starts
  at position \<open>i\<close> may end at any of the positions in \<open>ends r s i\<close>; the backtracking matcher finds
  one exactly when there is one, which is all that \<^verbatim>\<open>search\<close> and \<^verbatim>\<open>fullmatch\<close>
  are asked here.
\<close>

datatype regex =
    Empty
  | Class "nat \<Rightarrow> bool"
  | Boundary "nat \<Rightarrow> bool"
  | Seq regex regex
  | Alt regex regex
  | Opt regex
  | Plus regex

text \<open>The positions that one or more rounds of \<open>f\<close> reach, with at most so many rounds.\<close>

primrec rounds :: "nat \<Rightarrow> (nat \<Rightarrow> nat list) \<Rightarrow> nat list \<Rightarrow> nat list" where
  "rounds 0 f xs = []"
| "rounds (Suc n) f xs = (let ys = remdups (concat (map f xs)) in ys @ rounds n f ys)"

definition holds_at :: "(nat \<Rightarrow> bool) \<Rightarrow> ustring \<Rightarrow> nat \<Rightarrow> bool" where
  "holds_at p s i \<longleftrightarrow> i < length s \<and> p (s ! i)"

primrec ends :: "regex \<Rightarrow> ustring \<Rightarrow> nat \<Rightarrow> nat list" where
  "ends Empty s i = [i]"
| "ends (Class p) s i = (if holds_at p s i then [Suc i] else [])"
| "ends (Boundary word) s i =
     (if (0 < i \<and> holds_at word s (i - 1)) \<noteq> holds_at word s i then [i] else [])"
| "ends (Seq a b) s i = concat (map (ends b s) (ends a s i))"
| "ends (Alt a b) s i = ends a s i @ ends b s i"
| "ends (Opt a) s i = i # ends a s i"
| "ends (Plus a) s i = rounds (Suc (length s)) (ends a s) [i]"

definition search :: "regex \<Rightarrow> ustring \<Rightarrow> bool" where
  "search r s \<longleftrightarrow> list_ex (\<lambda>i. ends r s i \<noteq> []) [0..<Suc (length s)]"

definition fullmatch :: "regex \<Rightarrow> ustring \<Rightarrow> bool" where
  "fullmatch r s \<longleftrightarrow> length s \<in> set (ends r s 0)"

text \<open>
  Letters of a pattern under \<^verbatim>\<open>re.IGNORECASE\<close>: both ASCII cases, and the four other letters
  that Python's documentation names.
\<close>

definition folds :: "nat \<Rightarrow> nat \<Rightarrow> bool" where
  "folds c x \<longleftrightarrow> x = c \<or> (97 \<le> c \<and> c \<le> 122
     \<and> (x + 32 = c \<or> c = 105 \<and> x \<in> {304, 305} \<or> c = 115 \<and> x = 383 \<or> c = 107 \<and> x = 8490))"

definition literal :: "string \<Rightarrow> regex" where
  "literal s = foldr (\<lambda>c r. Seq (Class (folds (of_char c))) r) s Empty"

lemma rounds_Nil [simp]: "rounds n f [] = []"
  by (induction n) simp_all

text \<open>
  Fuel: a class consumes a character, so a repetition of one reaches everything it ever will in as
  many rounds as the text has characters.
\<close>

lemma class_rounds:
  "set (rounds n (ends (Class p) s) [i])
    = {j. \<exists>k. 0 < k \<and> k \<le> n \<and> j = i + k \<and> (\<forall>m < k. holds_at p s (i + m))}"
proof (induction n arbitrary: i)
  case 0
  then show ?case by simp
next
  case (Suc n)
  show ?case
  proof (cases "holds_at p s i")
    case False
    then have "\<not> (\<forall>m < k. holds_at p s (i + m))" if "0 < k" for k
      using that by (metis add.right_neutral)
    with False show ?thesis by (auto simp: Let_def)
  next
    case True
    then have "set (rounds (Suc n) (ends (Class p) s) [i])
        = insert (Suc i) (set (rounds n (ends (Class p) s) [Suc i]))"
      by (simp add: Let_def)
    also have "\<dots> = insert (Suc i) {j. \<exists>k. 0 < k \<and> k \<le> n \<and> j = Suc i + k \<and> (\<forall>m < k. holds_at p s (Suc i + m))}"
      by (simp only: Suc.IH)
    also have "\<dots> = {j. \<exists>k. 0 < k \<and> k \<le> Suc n \<and> j = i + k \<and> (\<forall>m < k. holds_at p s (i + m))}"
      (is "insert _ ?A = ?B")
    proof (intro set_eqI iffI)
      fix j assume "j \<in> insert (Suc i) ?A"
      then consider "j = Suc i" | k where "0 < k" "k \<le> n" "j = Suc i + k" "\<forall>m < k. holds_at p s (Suc i + m)"
        by auto
      then show "j \<in> ?B"
      proof cases
        case 1
        with True show ?thesis by (intro CollectI exI [of _ 1]) auto
      next
        case (2 k)
        have "holds_at p s (i + m)" if "m < Suc k" for m
          using True 2(4) that by (cases m) auto
        with 2 show ?thesis by (intro CollectI exI [of _ "Suc k"]) auto
      qed
    next
      fix j assume "j \<in> ?B"
      then obtain k where k: "0 < k" "k \<le> Suc n" "j = i + k" "\<forall>m < k. holds_at p s (i + m)" by auto
      show "j \<in> insert (Suc i) ?A"
      proof (cases "k = 1")
        case True
        with k show ?thesis by simp
      next
        case False
        then obtain k' where k': "k = Suc k'" "0 < k'" using k(1) by (cases k) auto
        have "holds_at p s (Suc i + m)" if "m < k'" for m
          using k(4) k'(1) that by (metis Suc_less_eq add_Suc add_Suc_right)
        with k k' show ?thesis by (intro insertI2 CollectI exI [of _ k']) auto
      qed
    qed
    finally show ?thesis .
  qed
qed

text \<open>So a whole text of characters of one class is a full match of its repetition.\<close>

lemma fullmatch_class: "fullmatch (Plus (Class p)) s \<longleftrightarrow> s \<noteq> [] \<and> list_all p s"
proof -
  have "fullmatch (Plus (Class p)) s \<longleftrightarrow>
      (\<exists>k. 0 < k \<and> k \<le> Suc (length s) \<and> length s = 0 + k \<and> (\<forall>m < k. holds_at p s (0 + m)))"
    unfolding fullmatch_def ends.simps(7) class_rounds by simp
  also have "\<dots> \<longleftrightarrow> s \<noteq> [] \<and> list_all p s"
    by (auto simp: holds_at_def list_all_length)
  finally show ?thesis .
qed

text \<open>A match of a sequence contains matches of its parts, one of a class its character.\<close>

lemma ends_Seq: "ends (Seq a b) s i \<noteq> [] \<Longrightarrow> ends a s i \<noteq> [] \<and> (\<exists>j \<in> set (ends a s i). ends b s j \<noteq> [])"
  by auto

lemma ends_Class: "ends (Class p) s i \<noteq> [] \<Longrightarrow> \<exists>c \<in> set s. p c"
  by (auto simp: holds_at_def split: if_splits)

lemma rounds_first:
  "rounds n f xs \<noteq> [] \<Longrightarrow> \<exists>i \<in> set xs. f i \<noteq> []"
proof (induction n arbitrary: xs)
  case 0
  then show ?case by simp
next
  case (Suc n)
  show ?case
  proof (rule ccontr)
    assume "\<not> ?thesis"
    then have "concat (map f xs) = []" by auto
    then have "remdups (concat (map f xs)) = []" by (simp only: remdups.simps)
    with Suc.prems show False by (simp only: rounds.simps Let_def rounds_Nil append_Nil simp_thms)
  qed
qed

lemma ends_Plus: "ends (Plus a) s i \<noteq> [] \<Longrightarrow> ends a s i \<noteq> []"
  by (auto dest: rounds_first simp del: rounds.simps)

end
