(* ===== verification/Names.thy ===== *)
theory Names
  imports Notes Regex
begin

text \<open>
  Names that partners give each other (\<^verbatim>\<open>relationship_name_service.py\<close>,
  \<^verbatim>\<open>routes/relationship_names.py\<close>): normalization, the fallback for an unassigned name,
  and the optimistic, retry-safe mutation. The Unicode character database of the interpreter is a
  parameter, as is the digest of a request's canonical JSON.
\<close>

section \<open>Rows\<close>

record relationship_name =
  rn_couple_id :: uuid
  rn_subject_account_id :: uuid
  rn_assigned_by_account_id :: uuid
  rn_assigned_name :: "ustring option"
  rn_revision :: nat
  rn_updated_at :: instant

record partner_name_state =
  pn_display_name :: ustring
  pn_assigned_name :: "ustring option"
  pn_revision :: nat
  pn_partner_assigned :: bool
  pn_updated_at :: instant

record relationship_name_operation =
  ro_couple_id :: uuid
  ro_subject_account_id :: uuid
  ro_assigned_by_account_id :: uuid
  ro_operation_id :: uuid
  ro_action :: string
  ro_request_hash :: string
  ro_result :: partner_name_state
  ro_created_at :: instant

record names_db = notes_db +
  relationship_names :: "relationship_name list"
  relationship_name_operations :: "relationship_name_operation list"

record visible_relationship_name =
  vn_display_name :: ustring
  vn_revision :: nat
  vn_partner_assigned :: bool

section \<open>Characters\<close>

text \<open>
  What the interpreter knows of Unicode: \<^verbatim>\<open>unicodedata.normalize("NFKC", _)\<close>,
  \<^verbatim>\<open>unicodedata.category\<close>, \<^verbatim>\<open>str.isspace\<close> (which is also what
  \<^verbatim>\<open>\s\<close> matches), \<^verbatim>\<open>str.isdigit\<close>, the decimal digits of \<^verbatim>\<open>\d\<close>
  and the word characters of \<^verbatim>\<open>\b\<close>.
\<close>

record unicode =
  nfkc :: "ustring \<Rightarrow> ustring"
  category :: "nat \<Rightarrow> string"
  is_space :: "nat \<Rightarrow> bool"
  is_digit :: "nat \<Rightarrow> bool"
  is_decimal :: "nat \<Rightarrow> bool"
  is_word :: "nat \<Rightarrow> bool"

definition strip :: "'u unicode_scheme \<Rightarrow> ustring \<Rightarrow> ustring" where
  "strip u s = rev (dropWhile (is_space u) (rev (dropWhile (is_space u) s)))"

definition email_part :: "unicode \<Rightarrow> regex" where
  "email_part u = Plus (Class (\<lambda>c. \<not> is_space u c \<and> c \<noteq> 64))"

definition EMAIL :: "unicode \<Rightarrow> regex" where
  "EMAIL u = Seq (Boundary (is_word u)) (Seq (email_part u) (Seq (Class (\<lambda>c. c = 64))
     (Seq (email_part u) (Seq (Class (\<lambda>c. c = 46)) (Seq (email_part u) (Boundary (is_word u)))))))"

definition label_char :: "nat \<Rightarrow> bool" where
  "label_char c \<longleftrightarrow> list_ex (\<lambda>l. folds l c) [97..<123] \<or> 48 \<le> c \<and> c \<le> 57 \<or> c = 45"

definition top_level_domains :: "string list" where
  "top_level_domains = [''com'', ''net'', ''org'', ''io'', ''app'', ''dev'', ''co'', ''me'']"

definition URL :: "unicode \<Rightarrow> regex" where
  "URL u =
     Alt (Alt (Seq (literal ''http'') (Seq (Opt (literal ''s'')) (literal ''://''))) (literal ''www.''))
       (Seq (Plus (Seq (Boundary (is_word u)) (Seq (Plus (Class label_char)) (Class (\<lambda>c. c = 46)))))
         (Seq (foldr (\<lambda>d r. Alt (literal d) r) (butlast top_level_domains) (literal (last top_level_domains)))
           (Boundary (is_word u))))"

definition PHONE :: "unicode \<Rightarrow> regex" where
  "PHONE u = Plus (Class (\<lambda>c. c \<in> set (ascii ''+().-'') \<or> is_decimal u c \<or> is_space u c))"

definition forbidden_character :: "unicode \<Rightarrow> nat \<Rightarrow> bool" where
  "forbidden_character u c \<longleftrightarrow>
     category u c \<in> {''Cc'', ''Cs'', ''Zl'', ''Zp''} \<or> category u c = ''Cf'' \<and> c \<noteq> 8205"

definition looks_like_contact :: "unicode \<Rightarrow> ustring \<Rightarrow> bool" where
  "looks_like_contact u value =
     (let digits = length (filter (is_digit u) value)
      in search (EMAIL u) value \<or> search (URL u) value \<or> 7 \<le> digits \<and> fullmatch (PHONE u) value)"

definition normalize_assigned_name :: "unicode \<Rightarrow> ustring \<Rightarrow> exc + ustring" where
  "normalize_assigned_name u value =
     (let normalized = strip u (nfkc u value) in
      if \<not> (1 \<le> length normalized \<and> length normalized \<le> 40)
      then Inl (ValueError ''Name must be between 1 and 40 characters'')
      else if list_ex (forbidden_character u) normalized
      then Inl (ValueError ''Name cannot contain controls or line breaks'')
      else if looks_like_contact u normalized
      then Inl (ValueError ''Name cannot be an email address, phone number, or URL'')
      else Inr normalized)"

definition safe_account_name :: "unicode \<Rightarrow> ustring \<Rightarrow> bool \<Rightarrow> ustring" where
  "safe_account_name u value is_viewer =
     (let normalized = strip u (nfkc u value);
          invalid = normalized = [] \<or> 80 < length normalized
            \<or> list_ex (forbidden_character u) normalized
      in if invalid \<or> looks_like_contact u normalized
         then (if is_viewer then ascii ''You'' else ascii ''Your partner'')
         else normalized)"

section \<open>Visible names\<close>

text \<open>A null or empty assignment leaves the fallback.\<close>

definition assigned_or :: "ustring option \<Rightarrow> ustring \<Rightarrow> ustring" where
  "assigned_or assigned fallback =
     (case assigned of Some n \<Rightarrow> (if n = [] then fallback else n) | None \<Rightarrow> fallback)"

definition visible_name ::
    "unicode \<Rightarrow> account option \<Rightarrow> relationship_name option \<Rightarrow> uuid \<Rightarrow> visible_relationship_name" where
  "visible_name u account assignment viewer_id =
     (let is_viewer = (case account of Some a \<Rightarrow> acc_id a = viewer_id | None \<Rightarrow> False);
          fallback = (case account of
              Some a \<Rightarrow> safe_account_name u (acc_display_name a) is_viewer
            | None \<Rightarrow> (if is_viewer then ascii ''You'' else ascii ''Your partner''));
          assigned = (case assignment of Some r \<Rightarrow> rn_assigned_name r | None \<Rightarrow> None)
      in \<lparr>vn_display_name = assigned_or assigned fallback,
          vn_revision = (case assignment of Some r \<Rightarrow> rn_revision r | None \<Rightarrow> 0),
          vn_partner_assigned = assigned \<noteq> None \<and> assigned \<noteq> Some []\<rparr>)"

text \<open>
  The two dictionaries are built from query results; the last row with a key wins.
\<close>

definition visible_relationship_names ::
    "unicode \<Rightarrow> 'a names_db_scheme \<Rightarrow> uuid \<Rightarrow> uuid list \<Rightarrow> uuid \<Rightarrow> (uuid \<times> visible_relationship_name) list" where
  "visible_relationship_names u db couple_id subject_ids viewer_id =
     (let ids = rev (remdups (rev subject_ids));
          account_of = (\<lambda>i. scalar (\<lambda>a. acc_id a = i) (rev (accounts db)));
          assignment_of = (\<lambda>i. scalar (\<lambda>r. rn_couple_id r = couple_id \<and> rn_subject_account_id r = i)
                                 (rev (relationship_names db)))
      in map (\<lambda>i. (i, visible_name u (account_of i) (assignment_of i) viewer_id)) ids)"

section \<open>Setting and resetting\<close>

definition pairing_changed :: exc where
  "pairing_changed = HTTPException 409 ''Pairing state changed; retry''"

definition request_hash ::
    "(string \<times> nat \<times> ustring option \<Rightarrow> string) \<Rightarrow> string \<Rightarrow> nat \<Rightarrow> ustring option \<Rightarrow> string" where
  "request_hash digest action expected assigned_name = digest (action, expected, assigned_name)"

definition find_name_operation ::
    "'a names_db_scheme \<Rightarrow> uuid \<Rightarrow> uuid \<Rightarrow> relationship_name_operation option" where
  "find_name_operation db actor_id operation_id =
     scalar (\<lambda>o'. ro_assigned_by_account_id o' = actor_id \<and> ro_operation_id o' = operation_id)
       (relationship_name_operations db)"

definition replay_result ::
    "relationship_name_operation \<Rightarrow> uuid \<Rightarrow> uuid \<Rightarrow> string \<Rightarrow> exc + partner_name_state" where
  "replay_result prior couple_id subject_id hash =
     (let valid_scope = ro_couple_id prior = couple_id \<and> ro_subject_account_id prior = subject_id
      in if \<not> valid_scope \<or> ro_request_hash prior \<noteq> hash
         then Inl (HTTPException 409 ''Operation ID was already used'')
         else Inr (ro_result prior))"

definition name_record :: "'a names_db_scheme \<Rightarrow> uuid \<Rightarrow> uuid \<Rightarrow> relationship_name option" where
  "name_record db couple_id subject_id =
     scalar (\<lambda>r. rn_couple_id r = couple_id \<and> rn_subject_account_id r = subject_id)
       (relationship_names db)"

definition name_key :: "relationship_name \<Rightarrow> uuid \<times> uuid" where
  "name_key r = (rn_couple_id r, rn_subject_account_id r)"

definition apply_name_change ::
    "'a names_db_scheme \<Rightarrow> relationship_name option \<Rightarrow> uuid \<Rightarrow> uuid \<Rightarrow> uuid \<Rightarrow> ustring option \<Rightarrow> instant
       \<Rightarrow> exc + 'a names_db_scheme \<times> relationship_name" where
  "apply_name_change db item couple_id subject_id actor_id assigned_name now =
     (case item of
        None \<Rightarrow>
          (let r = \<lparr>rn_couple_id = couple_id, rn_subject_account_id = subject_id,
                    rn_assigned_by_account_id = actor_id, rn_assigned_name = assigned_name,
                    rn_revision = 1, rn_updated_at = now\<rparr>
           in bind_exc (insert_unique name_key r (relationship_names db)) (\<lambda>rows.
                Inr (db\<lparr>relationship_names := rows\<rparr>, r)))
      | Some r \<Rightarrow>
          (if rn_assigned_by_account_id r \<noteq> actor_id
           then Inl (HTTPException 409 ''Name ownership changed; refresh'')
           else
             (let r' = r\<lparr>rn_assigned_name := assigned_name, rn_revision := rn_revision r + 1,
                        rn_updated_at := now\<rparr>
              in Inr (db\<lparr>relationship_names :=
                        update_where (\<lambda>x. name_key x = name_key r) (\<lambda>_. r') (relationship_names db)\<rparr>, r'))))"

definition mutation_result :: "unicode \<Rightarrow> relationship_name \<Rightarrow> ustring \<Rightarrow> partner_name_state" where
  "mutation_result u r account_name =
     \<lparr>pn_display_name = assigned_or (rn_assigned_name r) (safe_account_name u account_name False),
      pn_assigned_name = rn_assigned_name r, pn_revision = rn_revision r,
      pn_partner_assigned = rn_assigned_name r \<noteq> None, pn_updated_at = rn_updated_at r\<rparr>"

definition name_activity :: "uuid \<Rightarrow> uuid \<Rightarrow> uuid \<Rightarrow> instant \<Rightarrow> activity_event" where
  "name_activity couple_id actor_id operation_id now =
     \<lparr>act_couple_id = couple_id, act_actor_id = Some actor_id, act_sequence = 0,
      act_dedupe_key = [Lit ''relationship-name:'', Id operation_id],
      act_kind = ''relationship_name_changed'', act_target_type = None, act_target_id = None,
      act_target_title = None, act_emoji = None, act_created_at = now\<rparr>"

definition normalized_request :: "unicode \<Rightarrow> ustring option \<Rightarrow> exc + ustring option" where
  "normalized_request u assigned_name =
     (case assigned_name of
        None \<Rightarrow> Inr None
      | Some n \<Rightarrow> bind_exc (normalize_assigned_name u n) (\<lambda>n. Inr (Some n)))"

text \<open>The end of a mutation: the replay record, the activity and the result.\<close>

definition record_name_change ::
    "unicode \<Rightarrow> uuid \<Rightarrow> uuid \<Rightarrow> uuid \<Rightarrow> uuid \<Rightarrow> string \<Rightarrow> string \<Rightarrow> instant
       \<Rightarrow> 'a names_db_scheme \<times> relationship_name \<Rightarrow> exc + 'a names_db_scheme \<times> partner_name_state" where
  "record_name_change u couple_id partner_id actor_id operation_id action hash now = (\<lambda>(db, r).
     case scalar (\<lambda>a. acc_id a = partner_id) (accounts db) of
       None \<Rightarrow> Inl pairing_changed
     | Some partner \<Rightarrow>
         (let result = mutation_result u r (acc_display_name partner);
              o' = \<lparr>ro_couple_id = couple_id, ro_subject_account_id = partner_id,
                    ro_assigned_by_account_id = actor_id, ro_operation_id = operation_id,
                    ro_action = action, ro_request_hash = hash, ro_result = result,
                    ro_created_at = now\<rparr>
          in Inr (record_activity
                    (db\<lparr>relationship_name_operations := relationship_name_operations db @ [o']\<rparr>)
                    (name_activity couple_id actor_id operation_id now),
                  result)))"

definition mutate_partner_name ::
    "unicode \<Rightarrow> (string \<times> nat \<times> ustring option \<Rightarrow> string) \<Rightarrow> 'a names_db_scheme \<Rightarrow> couple_member
       \<Rightarrow> uuid \<Rightarrow> uuid \<Rightarrow> nat \<Rightarrow> ustring option \<Rightarrow> instant
       \<Rightarrow> exc + 'a names_db_scheme \<times> partner_name_state" where
  "mutate_partner_name u digest db member actor_id operation_id expected assigned_name now =
     bind_exc (guard (mem_account_id member = actor_id) pairing_changed) (\<lambda>_.
     bind_exc (lock_couple db (mem_couple_id member)) (\<lambda>_.
     bind_exc (case partner_id_for db (mem_couple_id member) actor_id of
                 None \<Rightarrow> Inl pairing_changed | Some p \<Rightarrow> Inr p) (\<lambda>partner_id.
     let action = (if assigned_name = None then ''reset'' else ''set'') in
     bind_exc (normalized_request u assigned_name) (\<lambda>normalized.
     let hash = request_hash digest action expected normalized in
     case find_name_operation db actor_id operation_id of
       Some prior \<Rightarrow>
         bind_exc (replay_result prior (mem_couple_id member) partner_id hash) (\<lambda>r. Inr (db, r))
     | None \<Rightarrow>
         (let item = name_record db (mem_couple_id member) partner_id;
              current = (case item of None \<Rightarrow> 0 | Some r \<Rightarrow> rn_revision r) in
          if current \<noteq> expected then Inl (HTTPException 409 ''Name changed; refresh and retry'')
          else
            bind_exc (apply_name_change db item (mem_couple_id member) partner_id actor_id normalized now)
              (record_name_change u (mem_couple_id member) partner_id actor_id operation_id action hash now))))))"

text \<open>The two routes; a name that is not accepted is a 422.\<close>

definition put_partner_name ::
    "unicode \<Rightarrow> (string \<times> nat \<times> ustring option \<Rightarrow> string) \<Rightarrow> 'a names_db_scheme \<Rightarrow> uuid \<Rightarrow> uuid \<Rightarrow> nat
       \<Rightarrow> ustring \<Rightarrow> instant \<Rightarrow> exc + 'a names_db_scheme \<times> partner_name_state" where
  "put_partner_name u digest db actor_id operation_id expected name now =
     bind_exc (active_member db actor_id) (\<lambda>member.
       case mutate_partner_name u digest db member actor_id operation_id expected (Some name) now of
         Inl (ValueError m) \<Rightarrow> Inl (HTTPException 422 m)
       | r \<Rightarrow> r)"

definition reset_partner_name ::
    "unicode \<Rightarrow> (string \<times> nat \<times> ustring option \<Rightarrow> string) \<Rightarrow> 'a names_db_scheme \<Rightarrow> uuid \<Rightarrow> uuid \<Rightarrow> nat
       \<Rightarrow> instant \<Rightarrow> exc + 'a names_db_scheme \<times> partner_name_state" where
  "reset_partner_name u digest db actor_id operation_id expected now =
     bind_exc (active_member db actor_id) (\<lambda>member.
       mutate_partner_name u digest db member actor_id operation_id expected None now)"

end
