(* ===== verification/Smooches.thy ===== *)
theory Smooches
  imports Names
begin

text \<open>
  Smooches (\<^verbatim>\<open>smooch_service.py\<close>, \<^verbatim>\<open>routes/smooches.py\<close>): one fixed emoji to the
  partner, at most five in a rolling hour, acknowledged once per recipient and counted per week of
  the couple's home time zone. The header of a refused request is its wait, the second component
  of \<open>send_refusal\<close>.
\<close>

section \<open>Rows and vocabulary\<close>

record smooch =
  sm_id :: uuid
  sm_operation_id :: uuid
  sm_couple_id :: uuid
  sm_sender_id :: "uuid option"
  sm_recipient_id :: "uuid option"
  sm_emoji :: ustring
  sm_phrase_key :: string
  sm_sent_at :: instant
  sm_delivered_at :: "instant option"

record smooch_db = names_db +
  smooches :: "smooch list"

definition EMOJIS :: "ustring list" where
  "EMOJIS = [[128536], [128525], [129325], [128520], [128293], [128064], [128150], [128059], [127825]]"

definition PHRASE_KEYS :: "string list" where
  "PHRASE_KEYS = [''thinking_about_you'', ''sent_a_smooch'', ''little_love'', ''nudged_your_orbit'',
     ''make_you_smile'', ''tiny_spark'']"

definition HOURLY_LIMIT :: nat where "HOURLY_LIMIT = 5"

definition choose_phrase :: "uuid \<Rightarrow> string" where
  "choose_phrase operation_id = PHRASE_KEYS ! (operation_id mod length PHRASE_KEYS)"

definition retry_after_seconds :: "instant list \<Rightarrow> instant \<Rightarrow> int" where
  "retry_after_seconds sent_at now =
     (let recent = sort (filter (\<lambda>item. now - hour < item) sent_at) in
      if length recent < HOURLY_LIMIT then 0
      else max 1 (whole_seconds (hd recent + hour - now) + 1))"

text \<open>\<^verbatim>\<open>ZoneInfo(name)\<close> raises for an unknown key.\<close>

definition zone_info :: "tzdb \<Rightarrow> string \<Rightarrow> exc + zone" where
  "zone_info tz name = (case tz name of None \<Rightarrow> Inl (ZoneInfoNotFoundError name) | Some z \<Rightarrow> Inr z)"

definition week_start :: "tzdb \<Rightarrow> instant \<Rightarrow> string \<Rightarrow> exc + date" where
  "week_start tz t name =
     bind_exc (zone_info tz name) (\<lambda>z. let local_day = local_date z t in Inr (local_day - weekday local_day))"

definition week_bounds_utc :: "tzdb \<Rightarrow> date \<Rightarrow> string \<Rightarrow> exc + instant \<times> instant" where
  "week_bounds_utc tz start name =
     bind_exc (zone_info tz name) (\<lambda>z. Inr (to_utc z (start * day), to_utc z ((start + 7) * day)))"

section \<open>Responses\<close>

record smooch_response =
  sr_id :: uuid
  sr_emoji :: ustring
  sr_phrase_key :: string
  sr_partner_display_name :: ustring
  sr_sent_at :: instant
  sr_remaining_this_hour :: int

record smooch_delivery =
  sd_id :: uuid
  sd_emoji :: ustring
  sd_phrase_key :: string
  sd_partner_display_name :: ustring
  sd_sent_at :: instant

record smooch_week_summary =
  sw_week_start :: date
  sw_week_end :: date
  sw_sent :: nat
  sw_received :: nat
  sw_combined :: nat
  sw_emoji_counts :: "(ustring \<times> nat) list"

record smooch_status_view =
  st_partner_display_name :: ustring
  st_remaining_this_hour :: int
  st_current_week :: smooch_week_summary

definition send_response :: "smooch \<Rightarrow> ustring \<Rightarrow> nat \<Rightarrow> smooch_response" where
  "send_response s partner_name sent =
     \<lparr>sr_id = sm_id s, sr_emoji = sm_emoji s, sr_phrase_key = sm_phrase_key s,
      sr_partner_display_name = partner_name, sr_sent_at = sm_sent_at s,
      sr_remaining_this_hour = max 0 (int HOURLY_LIMIT - int sent)\<rparr>"

section \<open>Sending\<close>

definition smooch_partner :: "'a core_db_scheme \<Rightarrow> couple_member \<Rightarrow> exc + account" where
  "smooch_partner db member =
     (case scalar (\<lambda>a. list_ex (\<lambda>m. mem_account_id m = acc_id a
                 \<and> mem_couple_id m = mem_couple_id member \<and> mem_account_id m \<noteq> mem_account_id member
                 \<and> is_active m) (members db)) (accounts db) of
        None \<Rightarrow> Inl relationship_inactive_error
      | Some a \<Rightarrow> Inr a)"

definition visible_partner_name ::
    "unicode \<Rightarrow> 'a names_db_scheme \<Rightarrow> couple_member \<Rightarrow> uuid \<Rightarrow> exc + ustring" where
  "visible_partner_name u db member partner_id =
     (let names = visible_relationship_names u db (mem_couple_id member) [partner_id] (mem_account_id member)
      in case map_of names partner_id of
           None \<Rightarrow> Inl (KeyError [])
         | Some n \<Rightarrow> Inr (vn_display_name n))"

definition recent_sends :: "'a smooch_db_scheme \<Rightarrow> uuid \<Rightarrow> uuid \<Rightarrow> instant \<Rightarrow> instant list" where
  "recent_sends db couple_id sender_id now =
     map sm_sent_at (select (\<lambda>s. sm_couple_id s = couple_id \<and> sm_sender_id s = Some sender_id
       \<and> now - hour < sm_sent_at s) (smooches db))"

definition send_refusal :: "ustring \<Rightarrow> instant list \<Rightarrow> instant \<Rightarrow> (exc \<times> int option) option" where
  "send_refusal emoji recent now =
     (if emoji \<notin> set EMOJIS then Some (HTTPException 422 ''Emoji is unavailable'', None)
      else
        (let wait = retry_after_seconds recent now
         in if wait \<noteq> 0
            then Some (HTTPException 429 ''Five Smooches are allowed in a rolling hour'', Some wait)
            else None))"

definition enforce_send_allowed :: "ustring \<Rightarrow> instant list \<Rightarrow> instant \<Rightarrow> exc + unit" where
  "enforce_send_allowed emoji recent now =
     (case send_refusal emoji recent now of Some (e, wait) \<Rightarrow> Inl e | None \<Rightarrow> Inr ())"

definition smooch_sent :: "uuid \<Rightarrow> uuid \<Rightarrow> smooch \<Rightarrow> activity_event" where
  "smooch_sent couple_id actor_id s =
     \<lparr>act_couple_id = couple_id, act_actor_id = Some actor_id, act_sequence = 0,
      act_dedupe_key = [Lit ''smooch:'', Id (sm_operation_id s)], act_kind = ''smooch_received'',
      act_target_type = Some ''smooch'', act_target_id = Some (sm_id s), act_target_title = None,
      act_emoji = Some (sm_emoji s), act_created_at = sm_sent_at s\<rparr>"

definition find_smooch :: "'a smooch_db_scheme \<Rightarrow> uuid \<Rightarrow> uuid \<Rightarrow> uuid \<Rightarrow> smooch option" where
  "find_smooch db couple_id sender_id operation_id =
     scalar (\<lambda>s. sm_couple_id s = couple_id \<and> sm_sender_id s = Some sender_id
                 \<and> sm_operation_id s = operation_id) (smooches db)"

text \<open>The insert, the activity and the alert of an admitted smooch.\<close>

definition store_smooch ::
    "'a smooch_db_scheme \<Rightarrow> smooch \<Rightarrow> uuid \<Rightarrow> uuid \<Rightarrow> exc + 'a smooch_db_scheme \<times> uuid option" where
  "store_smooch db s actor_id event_id =
     bind_exc (insert_unique sm_id s (smooches db)) (\<lambda>rows.
       let db' = record_activity (db\<lparr>smooches := rows\<rparr>) (smooch_sent (sm_couple_id s) actor_id s)
       in enqueue_smooch_event db' (sm_sent_at s) event_id (sm_couple_id s) (sm_id s) (sm_sender_id s)
            (sm_recipient_id s) (sm_sent_at s))"

definition send_smooch ::
    "unicode \<Rightarrow> 'a smooch_db_scheme \<Rightarrow> uuid \<Rightarrow> uuid \<Rightarrow> ustring \<Rightarrow> instant \<Rightarrow> uuid \<Rightarrow> uuid
       \<Rightarrow> exc + 'a smooch_db_scheme \<times> smooch_response" where
  "send_smooch u db actor_id operation_id emoji now fresh event_id =
     bind_exc (active_member db actor_id) (\<lambda>member.
     bind_exc (lock_couple db (mem_couple_id member)) (\<lambda>_.
     bind_exc (smooch_partner db member) (\<lambda>partner.
     bind_exc (visible_partner_name u db member (acc_id partner)) (\<lambda>partner_name.
     let prior = find_smooch db (mem_couple_id member) actor_id operation_id;
         recent = recent_sends db (mem_couple_id member) actor_id now
     in case prior of
          Some s \<Rightarrow> Inr (db, send_response s partner_name (length recent))
        | None \<Rightarrow>
            bind_exc (enforce_send_allowed emoji recent now) (\<lambda>_.
              let s = \<lparr>sm_id = fresh, sm_operation_id = operation_id,
                       sm_couple_id = mem_couple_id member, sm_sender_id = Some actor_id,
                       sm_recipient_id = Some (acc_id partner), sm_emoji = emoji,
                       sm_phrase_key = choose_phrase operation_id, sm_sent_at = now,
                       sm_delivered_at = None\<rparr>
              in bind_exc (store_smooch db s actor_id event_id) (\<lambda>(db', notified).
                   Inr (db', send_response s partner_name (length recent + 1))))))))"

section \<open>Reading\<close>

text \<open>\<^verbatim>\<open>counts[item.emoji] += 1\<close> raises for an emoji outside the vocabulary.\<close>

fun count_emojis :: "smooch list \<Rightarrow> (ustring \<times> nat) list \<Rightarrow> exc + (ustring \<times> nat) list" where
  "count_emojis [] counts = Inr counts"
| "count_emojis (s # rows) counts =
     (case map_of counts (sm_emoji s) of
        None \<Rightarrow> Inl (KeyError (sm_emoji s))
      | Some n \<Rightarrow> count_emojis rows (AList.update (sm_emoji s) (n + 1) counts))"

definition week_summary ::
    "tzdb \<Rightarrow> smooch list \<Rightarrow> uuid \<Rightarrow> date \<Rightarrow> string \<Rightarrow> exc + smooch_week_summary" where
  "week_summary tz rows actor_id start name =
     bind_exc (week_bounds_utc tz start name) (\<lambda>(lower, upper).
     let selected = filter (\<lambda>s. lower \<le> sm_sent_at s \<and> sm_sent_at s < upper) rows
     in bind_exc (count_emojis selected (map (\<lambda>e. (e, 0)) EMOJIS)) (\<lambda>counts.
          Inr \<lparr>sw_week_start = start, sw_week_end = start + 6,
               sw_sent = length (filter (\<lambda>s. sm_sender_id s = Some actor_id) selected),
               sw_received = length (filter (\<lambda>s. sm_recipient_id s = Some actor_id) selected),
               sw_combined = length selected,
               sw_emoji_counts = filter (\<lambda>(e, n). n \<noteq> 0) counts\<rparr>))"

definition smooches_between :: "'a smooch_db_scheme \<Rightarrow> uuid \<Rightarrow> instant \<Rightarrow> instant \<Rightarrow> smooch list" where
  "smooches_between db couple_id lower upper =
     select (\<lambda>s. sm_couple_id s = couple_id \<and> lower \<le> sm_sent_at s \<and> sm_sent_at s < upper) (smooches db)"

definition smooch_status ::
    "unicode \<Rightarrow> tzdb \<Rightarrow> 'a smooch_db_scheme \<Rightarrow> uuid \<Rightarrow> instant \<Rightarrow> exc + smooch_status_view" where
  "smooch_status u tz db actor_id now =
     bind_exc (active_member db actor_id) (\<lambda>member.
     bind_exc (smooch_partner db member) (\<lambda>partner.
     bind_exc (visible_partner_name u db member (acc_id partner)) (\<lambda>partner_name.
     bind_exc (lock_couple db (mem_couple_id member)) (\<lambda>couple.
     let recent = recent_sends db (mem_couple_id member) actor_id now in
     bind_exc (week_start tz now (cpl_home_timezone couple)) (\<lambda>start.
     bind_exc (week_bounds_utc tz start (cpl_home_timezone couple)) (\<lambda>(lower, upper).
     bind_exc (week_summary tz (smooches_between db (mem_couple_id member) lower upper) actor_id start
                 (cpl_home_timezone couple)) (\<lambda>week.
       Inr \<lparr>st_partner_display_name = partner_name,
            st_remaining_this_hour = max 0 (int HOURLY_LIMIT - int (length recent)),
            st_current_week = week\<rparr>)))))))"

definition pending_smooches ::
    "unicode \<Rightarrow> 'a smooch_db_scheme \<Rightarrow> uuid \<Rightarrow> exc + smooch_delivery list" where
  "pending_smooches u db actor_id =
     bind_exc (active_member db actor_id) (\<lambda>member.
     bind_exc (lock_couple db (mem_couple_id member)) (\<lambda>_.
     let rows = take 50 (sort_key sm_sent_at (select (\<lambda>s. sm_couple_id s = mem_couple_id member
                  \<and> sm_recipient_id s = Some actor_id \<and> sm_delivered_at s = None) (smooches db)));
         names = visible_relationship_names u db (mem_couple_id member)
                   (List.map_filter sm_sender_id rows) actor_id
     in Inr (List.map_filter (\<lambda>s.
          case sm_sender_id s of
            None \<Rightarrow> None
          | Some sender \<Rightarrow> map_option (\<lambda>n.
              \<lparr>sd_id = sm_id s, sd_emoji = sm_emoji s, sd_phrase_key = sm_phrase_key s,
               sd_partner_display_name = vn_display_name n, sd_sent_at = sm_sent_at s\<rparr>)
              (map_of names sender)) rows)))"

section \<open>Acknowledging\<close>

definition acknowledge_deliveries ::
    "'a smooch_db_scheme \<Rightarrow> uuid \<Rightarrow> uuid list \<Rightarrow> instant \<Rightarrow> exc + 'a smooch_db_scheme" where
  "acknowledge_deliveries db actor_id smooch_ids now =
     bind_exc (active_member db actor_id) (\<lambda>member.
     bind_exc (lock_couple db (mem_couple_id member)) (\<lambda>_.
       Inr (db\<lparr>smooches := update_where
                 (\<lambda>s. sm_id s \<in> set smooch_ids \<and> sm_couple_id s = mem_couple_id member
                      \<and> sm_recipient_id s = Some actor_id \<and> sm_delivered_at s = None)
                 (\<lambda>s. s\<lparr>sm_delivered_at := Some now\<rparr>) (smooches db),
               events := update_where
                 (\<lambda>e. ne_kind e = Nk_smooch_received \<and> ne_source_id e \<in> set smooch_ids
                      \<and> ne_recipient_id e = actor_id \<and> ne_couple_id e = mem_couple_id member
                      \<and> ne_legacy_consumed_at e = None)
                 (\<lambda>e. e\<lparr>ne_legacy_consumed_at := Some now\<rparr>) (events db)\<rparr>)))"

section \<open>Weekly history\<close>

definition history_unavailable :: exc where
  "history_unavailable = HTTPException 404 ''History is unavailable''"

definition history_member :: "'a core_db_scheme \<Rightarrow> uuid \<Rightarrow> uuid option \<Rightarrow> exc + couple_member" where
  "history_member db actor_id archive_id =
     (case archive_id of
        None \<Rightarrow> active_member db actor_id
      | Some a \<Rightarrow>
          (case scalar (\<lambda>m. mem_couple_id m = a \<and> mem_account_id m = actor_id \<and> \<not> is_active m)
                  (members db) of
             None \<Rightarrow> Inl history_unavailable | Some m \<Rightarrow> Inr m))"

definition history_couple :: "'a core_db_scheme \<Rightarrow> uuid \<Rightarrow> uuid option \<Rightarrow> exc + couple" where
  "history_couple db couple_id archive_id =
     (case scalar (\<lambda>c. cpl_id c = couple_id) (couples db) of
        None \<Rightarrow> Inl (if archive_id = None then relationship_inactive_error else history_unavailable)
      | Some c \<Rightarrow>
          (if archive_id = None \<and> cpl_ended_at c \<noteq> None then Inl relationship_inactive_error else Inr c))"

fun collect_exc :: "('a \<Rightarrow> exc + 'b) \<Rightarrow> 'a list \<Rightarrow> exc + 'b list" where
  "collect_exc f [] = Inr []"
| "collect_exc f (x # xs) = bind_exc (f x) (\<lambda>y. bind_exc (collect_exc f xs) (\<lambda>ys. Inr (y # ys)))"

definition smooch_weeks ::
    "tzdb \<Rightarrow> 'a smooch_db_scheme \<Rightarrow> uuid \<Rightarrow> nat \<Rightarrow> uuid option \<Rightarrow> instant
       \<Rightarrow> exc + smooch_week_summary list" where
  "smooch_weeks tz db actor_id weeks archive_id now =
     bind_exc (history_member db actor_id archive_id) (\<lambda>member.
     bind_exc (history_couple db (mem_couple_id member) archive_id) (\<lambda>couple.
     bind_exc (week_start tz now (cpl_home_timezone couple)) (\<lambda>current.
     let first = current - 7 * (int weeks - 1) in
     bind_exc (week_bounds_utc tz first (cpl_home_timezone couple)) (\<lambda>(range_start, _).
     bind_exc (week_bounds_utc tz current (cpl_home_timezone couple)) (\<lambda>(_, range_end).
     let rows = smooches_between db (cpl_id couple) range_start range_end
     in collect_exc (\<lambda>index. week_summary tz rows (mem_account_id member) (first + 7 * int index)
                        (cpl_home_timezone couple)) [0..<weeks])))))"

end
