(* ===== verification/Name_Safety.thy ===== *)
theory Name_Safety
  imports Names Note_Edit
begin

text \<open>
  The properties of partner-assigned names: what a viewer may be shown, who may assign what, and
  that a mutation is applied once.
\<close>

section \<open>Texts that are not contact data\<close>

lemma literal_simps:
  "literal [] = Empty" "literal (c # s) = Seq (Class (folds (of_char c))) (literal s)"
  by (simp_all add: literal_def)

lemma literal_chars:
  "ends (literal w) s i \<noteq> [] \<Longrightarrow> c \<in> set w \<Longrightarrow> \<exists>x \<in> set s. folds (of_char c) x"
proof (induction w arbitrary: i)
  case Nil
  then show ?case by simp
next
  case (Cons d w)
  from Cons.prems(1) have "ends (Class (folds (of_char d))) s i \<noteq> []"
    "\<exists>j. ends (literal w) s j \<noteq> []"
    using ends_Seq unfolding literal_simps by blast+
  with Cons ends_Class show ?case by auto
qed

lemma email_has_at: "search (EMAIL u) s \<Longrightarrow> 64 \<in> set s"
proof -
  assume "search (EMAIL u) s"
  then obtain i where "ends (EMAIL u) s i \<noteq> []" by (auto simp: search_def list_ex_iff)
  then obtain j where "ends (Class (\<lambda>c. c = 64)) s j \<noteq> []"
    unfolding EMAIL_def by (metis ends_Seq)
  then show ?thesis by (blast dest: ends_Class)
qed

lemma url_has_mark: "search (URL u) s \<Longrightarrow> 46 \<in> set s \<or> 58 \<in> set s"
proof -
  assume "search (URL u) s"
  then obtain i where i: "ends (URL u) s i \<noteq> []" by (auto simp: search_def list_ex_iff)
  define tld where "tld = Seq (foldr (\<lambda>d r. Alt (literal d) r) (butlast top_level_domains)
    (literal (last top_level_domains))) (Boundary (is_word u))"
  from i consider
      "ends (Seq (literal ''http'') (Seq (Opt (literal ''s'')) (literal ''://''))) s i \<noteq> []"
    | "ends (literal ''www.'') s i \<noteq> []"
    | "ends (Seq (Plus (Seq (Boundary (is_word u)) (Seq (Plus (Class label_char)) (Class (\<lambda>c. c = 46))))) tld) s i \<noteq> []"
    by (fastforce simp: URL_def tld_def simp del: ends.simps(4,6,7))
  then show ?thesis
  proof cases
    case 1
    then obtain j where "ends (literal ''://'') s j \<noteq> []" by (metis ends_Seq)
    then have "\<exists>x \<in> set s. folds (of_char (CHR '':'')) x" by (rule literal_chars) simp
    then show ?thesis by (auto simp: folds_def)
  next
    case 2
    then have "\<exists>x \<in> set s. folds (of_char (CHR ''.'')) x" by (rule literal_chars) simp
    then show ?thesis by (auto simp: folds_def)
  next
    case 3
    then obtain j where "ends (Class (\<lambda>c. c = 46)) s j \<noteq> []" by (metis ends_Seq ends_Plus)
    then show ?thesis by (blast dest: ends_Class)
  qed
qed

text \<open>
  What the Unicode database says of the printable ASCII characters: none is a control, separator or
  format character, and the digits among them are 0 to 9.
\<close>

definition ascii_printable :: "unicode \<Rightarrow> bool" where
  "ascii_printable u \<longleftrightarrow>
     (\<forall>c. 32 \<le> c \<and> c < 127 \<longrightarrow> category u c \<notin> {''Cc'', ''Cs'', ''Zl'', ''Zp'', ''Cf''}
       \<and> (is_digit u c \<longleftrightarrow> 48 \<le> c \<and> c \<le> 57))"

definition presentable :: "unicode \<Rightarrow> nat \<Rightarrow> ustring \<Rightarrow> bool" where
  "presentable u limit n \<longleftrightarrow> 1 \<le> length n \<and> length n \<le> limit
     \<and> (\<forall>c \<in> set n. \<not> forbidden_character u c) \<and> \<not> looks_like_contact u n"

lemma presentable_mono: "presentable u k n \<Longrightarrow> k \<le> l \<Longrightarrow> presentable u l n"
  by (simp add: presentable_def)

lemma presentable_plain:
  assumes "ascii_printable u" "\<forall>c \<in> set n. 32 \<le> c \<and> c < 127 \<and> c \<notin> {46, 58, 64} \<and> \<not> (48 \<le> c \<and> c \<le> 57)"
    and "1 \<le> length n" "length n \<le> k"
  shows "presentable u k n"
proof -
  have "filter (is_digit u) n = []"
    using assms(1,2) by (auto simp: filter_empty_conv ascii_printable_def)
  moreover have "\<forall>c \<in> set n. \<not> forbidden_character u c"
    using assms(1,2) by (auto simp: forbidden_character_def ascii_printable_def)
  ultimately show ?thesis
    using assms(2-4) email_has_at [of u n] url_has_mark [of u n]
    by (auto simp: presentable_def looks_like_contact_def)
qed

lemma safe_account_name_presentable:
  assumes "ascii_printable u"
  shows "presentable u 80 (safe_account_name u value viewer)"
proof -
  have "presentable u 80 (ascii ''You'')" "presentable u 80 (ascii ''Your partner'')"
    by (rule presentable_plain [OF assms]; simp add: ascii_def)+
  then show ?thesis
    by (auto simp: safe_account_name_def Let_def presentable_def list_ex_iff Suc_le_eq)
qed

lemma normalize_presentable:
  "normalize_assigned_name u value = Inr n \<Longrightarrow> presentable u 40 n"
  by (auto simp: normalize_assigned_name_def Let_def presentable_def list_ex_iff split: if_splits)

section \<open>Mutations\<close>

datatype name_request =
    Put_name uuid uuid nat ustring instant
  | Reset_name uuid uuid nat instant

fun handle_name ::
    "unicode \<Rightarrow> (string \<times> nat \<times> ustring option \<Rightarrow> string) \<Rightarrow> 'a names_db_scheme \<Rightarrow> name_request
       \<Rightarrow> exc + 'a names_db_scheme \<times> partner_name_state" where
  "handle_name u digest db (Put_name a op expected n now) = put_partner_name u digest db a op expected n now"
| "handle_name u digest db (Reset_name a op expected now) = reset_partner_name u digest db a op expected now"

definition name_operation_key :: "relationship_name_operation \<Rightarrow> uuid \<times> uuid" where
  "name_operation_key o' = (ro_assigned_by_account_id o', ro_operation_id o')"

fun request_key :: "name_request \<Rightarrow> uuid \<times> uuid" where
  "request_key (Put_name a op expected n now) = (a, op)"
| "request_key (Reset_name a op expected now) = (a, op)"

fun request_expected :: "name_request \<Rightarrow> nat" where
  "request_expected (Put_name a op expected n now) = expected"
| "request_expected (Reset_name a op expected now) = expected"

fun request_name :: "name_request \<Rightarrow> ustring option" where
  "request_name (Put_name a op expected n now) = Some n"
| "request_name (Reset_name a op expected now) = None"

text \<open>The row a change leaves, and the table it leaves it in.\<close>

definition changed_name ::
    "relationship_name option \<Rightarrow> uuid \<Rightarrow> uuid \<Rightarrow> uuid \<Rightarrow> ustring option \<Rightarrow> instant \<Rightarrow> relationship_name" where
  "changed_name item k p a n now =
     \<lparr>rn_couple_id = k, rn_subject_account_id = p, rn_assigned_by_account_id = a, rn_assigned_name = n,
      rn_revision = (case item of None \<Rightarrow> 1 | Some r \<Rightarrow> rn_revision r + 1), rn_updated_at = now\<rparr>"

lemma name_record_Some:
  "name_record db k p = Some r \<Longrightarrow> r \<in> set (relationship_names db) \<and> rn_couple_id r = k \<and> rn_subject_account_id r = p"
  by (auto simp: name_record_def dest!: scalar_Some)

lemma name_record_key: "name_record db k p = scalar (\<lambda>r. name_key r = (k, p)) (relationship_names db)"
  by (simp add: name_record_def name_key_def)

lemma apply_name_change_Inr:
  assumes "apply_name_change db (name_record db k p) k p a n now = Inr (db', r)"
  shows "r = changed_name (name_record db k p) k p a n now"
    and "relationship_names db' = (case name_record db k p of None \<Rightarrow> relationship_names db @ [r]
      | Some r0 \<Rightarrow> update_where (\<lambda>x. name_key x = name_key r0) (\<lambda>_. r) (relationship_names db))"
    and "relationship_name_operations db' = relationship_name_operations db"
    and "\<exists>x. db' = db\<lparr>relationship_names := x\<rparr>"
  using assms
  by (auto simp: apply_name_change_def Let_def bind_exc_Inr_iff insert_unique_Inr changed_name_def
      split: option.splits if_splits dest: name_record_Some)

lemma name_activity_frame:
  "\<exists>x. record_activity (db\<lparr>relationship_name_operations := os\<rparr>) c
     = db\<lparr>relationship_name_operations := os, activity_events := x\<rparr>"
  using record_activity_frame by blast

lemma mutate_cases:
  assumes "mutate_partner_name u digest db m a op expected nm now = Inr (db', res)"
  obtains (replayed) o' where "db' = db" "o' \<in> set (relationship_name_operations db)"
      "name_operation_key o' = (a, op)" "res = ro_result o'"
  | (changed) p n r where "partner_id_for db (mem_couple_id m) a = Some p"
      "normalized_request u nm = Inr n"
      "(a, op) \<notin> name_operation_key ` set (relationship_name_operations db)"
      "expected = (case name_record db (mem_couple_id m) p of None \<Rightarrow> 0 | Some r \<Rightarrow> rn_revision r)"
      "r = changed_name (name_record db (mem_couple_id m) p) (mem_couple_id m) p a n now"
      "relationship_names db' = (case name_record db (mem_couple_id m) p of None \<Rightarrow> relationship_names db @ [r]
        | Some r0 \<Rightarrow> update_where (\<lambda>x. name_key x = name_key r0) (\<lambda>_. r) (relationship_names db))"
      "\<exists>o'. relationship_name_operations db' = relationship_name_operations db @ [o']
        \<and> name_operation_key o' = (a, op)"
      "accounts db' = accounts db" "members db' = members db" "pn_revision res = rn_revision r"
      "\<forall>r0. name_record db (mem_couple_id m) p = Some r0 \<longrightarrow> rn_assigned_by_account_id r0 = a"
proof -
  let ?k = "mem_couple_id m"
  from assms obtain p n where p: "partner_id_for db ?k a = Some p" and n: "normalized_request u nm = Inr n"
    by (auto simp: mutate_partner_name_def bind_exc_Inr_iff Let_def split: option.splits)
  show thesis
  proof (cases "find_name_operation db a op")
    case (Some o')
    with assms p n have "db' = db" "res = ro_result o'"
      by (auto simp: mutate_partner_name_def bind_exc_Inr_iff Let_def replay_result_def split: if_splits)
    with Some show thesis
      by (intro replayed) (auto simp: find_name_operation_def name_operation_key_def dest!: scalar_Some)
  next
    case None
    define item where "item = name_record db ?k p"
    from assms p n None have e: "(case item of None \<Rightarrow> 0 | Some r \<Rightarrow> rn_revision r) = expected"
      by (auto simp: mutate_partner_name_def bind_exc_Inr_iff Let_def item_def split: if_splits)
    define act where "act = (if nm = None then ''reset'' else ''set'')"
    have g: "mem_account_id m = a" "\<exists>c. lock_couple db ?k = Inr c"
      using assms by (auto simp: mutate_partner_name_def bind_exc_Inr_iff guard_def split: if_splits)
    define hash where "hash = request_hash digest act expected n"
    have "bind_exc (apply_name_change db item ?k p a n now) (record_name_change u ?k p a op act hash now) = Inr (db', res)"
      using assms g p n None e by (auto simp: mutate_partner_name_def guard_def Let_def item_def act_def hash_def)
    then obtain db1 r where r: "apply_name_change db item ?k p a n now = Inr (db1, r)"
        and rest: "record_name_change u ?k p a op act hash now (db1, r) = Inr (db', res)"
      by (auto simp: bind_exc_Inr_iff)
    obtain partner where partner: "scalar (\<lambda>x. acc_id x = p) (accounts db1) = Some partner"
      using rest by (auto simp: record_name_change_def split: option.splits)
    define o' where "o' = \<lparr>ro_couple_id = ?k, ro_subject_account_id = p, ro_assigned_by_account_id = a,
      ro_operation_id = op, ro_action = act, ro_request_hash = hash,
      ro_result = mutation_result u r (acc_display_name partner), ro_created_at = now\<rparr>"
    have db': "db' = record_activity (db1\<lparr>relationship_name_operations := relationship_name_operations db1 @ [o']\<rparr>)
        (name_activity ?k a op now)" "res = mutation_result u r (acc_display_name partner)"
      using rest unfolding record_name_change_def split partner option.case Let_def o'_def by auto
    note c = apply_name_change_Inr [OF r [unfolded item_def]]
    from db'(1) obtain x where "db' = db1\<lparr>relationship_name_operations := relationship_name_operations db1 @ [o'],
        activity_events := x\<rparr>"
      using name_activity_frame by metis
    moreover have "name_operation_key o' = (a, op)" by (simp add: name_operation_key_def o'_def)
    moreover have "(a, op) \<notin> name_operation_key ` set (relationship_name_operations db)"
      using None by (auto simp: find_name_operation_def name_operation_key_def scalar_None)
    moreover have "\<forall>r0. name_record db ?k p = Some r0 \<longrightarrow> rn_assigned_by_account_id r0 = a"
      using r by (auto simp: apply_name_change_def item_def split: if_splits)
    ultimately show thesis
      using p n e c db'(2) unfolding item_def
      by (intro changed [of p n r]) (auto simp: mutation_result_def)
  qed
qed

lemma put_partner_name_Inr:
  assumes "put_partner_name u digest db a op expected n now = Inr x"
  obtains m where "active_member db a = Inr m" "mutate_partner_name u digest db m a op expected (Some n) now = Inr x"
proof -
  from assms obtain m where m: "active_member db a = Inr m"
    by (auto simp: put_partner_name_def bind_exc_Inr_iff)
  show thesis
  proof (cases "mutate_partner_name u digest db m a op expected (Some n) now")
    case (Inl e)
    with assms m show thesis by (cases e) (simp_all add: put_partner_name_def)
  next
    case (Inr y)
    with assms m that show thesis by (simp add: put_partner_name_def)
  qed
qed

lemma reset_partner_name_Inr:
  assumes "reset_partner_name u digest db a op expected now = Inr x"
  obtains m where "active_member db a = Inr m" "mutate_partner_name u digest db m a op expected None now = Inr x"
  using assms by (auto simp: reset_partner_name_def bind_exc_Inr_iff)

lemma handle_name_Inr:
  assumes "handle_name u digest db op = Inr x"
  obtains m now where "active_member db (fst (request_key op)) = Inr m"
    "mutate_partner_name u digest db m (fst (request_key op)) (snd (request_key op)) (request_expected op)
       (request_name op) now = Inr x"
  using assms by (cases op) (auto elim: put_partner_name_Inr reset_partner_name_Inr)

section \<open>The tables\<close>

definition names_ok :: "unicode \<Rightarrow> 'a names_db_scheme \<Rightarrow> bool" where
  "names_ok u db \<longleftrightarrow>
     distinct (map name_key (relationship_names db))
     \<and> distinct (map name_operation_key (relationship_name_operations db))
     \<and> (\<forall>r \<in> set (relationship_names db). rn_subject_account_id r \<noteq> rn_assigned_by_account_id r
          \<and> 1 \<le> rn_revision r \<and> (\<forall>n. rn_assigned_name r = Some n \<longrightarrow> presentable u 40 n))"

lemma changed_name_ok:
  assumes "partner_id_for db k a = Some p" "normalized_request u nm = Inr n"
  shows "rn_subject_account_id (changed_name item k p a n now) \<noteq> rn_assigned_by_account_id (changed_name item k p a n now)
    \<and> 1 \<le> rn_revision (changed_name item k p a n now)
    \<and> (\<forall>x. rn_assigned_name (changed_name item k p a n now) = Some x \<longrightarrow> presentable u 40 x)"
  using assms partner_id_for_Some [OF assms(1)]
  by (auto simp: changed_name_def normalized_request_def bind_exc_Inr_iff normalize_presentable
      split: option.splits)

lemma names_ok_mutate:
  assumes "mutate_partner_name u digest db m a op expected nm now = Inr (db', res)" "names_ok u db"
  shows "names_ok u db'"
  using assms(1)
proof (cases rule: mutate_cases)
  case replayed
  with assms(2) show ?thesis by simp
next
  case (changed p n r)
  have ok: "rn_subject_account_id r \<noteq> rn_assigned_by_account_id r \<and> 1 \<le> rn_revision r
      \<and> (\<forall>x. rn_assigned_name r = Some x \<longrightarrow> presentable u 40 x)"
    unfolding changed(5) by (rule changed_name_ok [OF changed(1,2)])
  have key: "name_key r = (mem_couple_id m, p)" by (simp add: changed(5) changed_name_def name_key_def)
  have "distinct (map name_key (relationship_names db'))
      \<and> set (relationship_names db') \<subseteq> insert r (set (relationship_names db))"
  proof (cases "name_record db (mem_couple_id m) p")
    case None
    then have rows: "relationship_names db' = relationship_names db @ [r]" using changed(6) by simp
    have "name_key r \<notin> name_key ` set (relationship_names db)"
      using None unfolding key by (auto simp: name_record_def scalar_None name_key_def)
    with assms(2) show ?thesis unfolding rows by (simp add: names_ok_def)
  next
    case (Some r0)
    have "name_key r0 = name_key r" using name_record_Some [OF Some] unfolding key by (simp add: name_key_def)
    then have rows: "relationship_names db' = update_where (\<lambda>x. name_key x = name_key r) (\<lambda>_. r) (relationship_names db)"
      using changed(6) Some by simp
    show ?thesis
      using assms(2) unfolding rows by (auto simp: names_ok_def map_replace_row set_update_where)
  qed
  then show ?thesis
    using assms(2) ok changed(3,7) unfolding names_ok_def by auto
qed

interpretation partner_names: retry_safe "handle_name u digest" "names_ok u"
  "\<lambda>db op. request_key op \<in> name_operation_key ` set (relationship_name_operations db)"
proof
  fix db db' :: "'a names_db_scheme" and op r
  assume inv: "names_ok u db" and h: "handle_name u digest db op = Inr (db', r)"
  from h obtain m now where m: "mutate_partner_name u digest db m (fst (request_key op)) (snd (request_key op))
      (request_expected op) (request_name op) now = Inr (db', r)" by (rule handle_name_Inr)
  show "names_ok u db'" using m inv by (rule names_ok_mutate)
  from m show "request_key op \<in> name_operation_key ` set (relationship_name_operations db') \<or> db' = db"
    by (cases rule: mutate_cases) auto
next
  fix db db' :: "'a names_db_scheme" and op op' r
  assume rec: "request_key op \<in> name_operation_key ` set (relationship_name_operations db)"
    and h: "handle_name u digest db op' = Inr (db', r)"
  from h obtain m now where "mutate_partner_name u digest db m (fst (request_key op')) (snd (request_key op'))
      (request_expected op') (request_name op') now = Inr (db', r)" by (rule handle_name_Inr)
  then show "request_key op \<in> name_operation_key ` set (relationship_name_operations db')"
    using rec by (cases rule: mutate_cases) auto
next
  fix db db' :: "'a names_db_scheme" and op r
  assume rec: "request_key op \<in> name_operation_key ` set (relationship_name_operations db)"
    and h: "handle_name u digest db op = Inr (db', r)"
  from h obtain m now where "mutate_partner_name u digest db m (fst (request_key op)) (snd (request_key op))
      (request_expected op) (request_name op) now = Inr (db', r)" by (rule handle_name_Inr)
  then show "db' = db"
    using rec by (cases rule: mutate_cases) auto
qed

section \<open>Properties\<close>


text \<open>
  A member changes only the name of their own current partner, and only against the revision they
  saw: an applied request leaves exactly that row with its revision raised by one and signed by the
  member, every other row untouched. Sent again, at any later time, it changes nothing, and another
  request that still expects the old revision is refused.
\<close>

theorem partner_name_changes_once:
  assumes "names_ok u db" "handle_name u digest db op = Inr (db', res)" "db' \<noteq> db"
  shows "(\<exists>m p r. active_member db (fst (request_key op)) = Inr m
      \<and> partner_id_for db (mem_couple_id m) (fst (request_key op)) = Some p \<and> p \<noteq> fst (request_key op)
      \<and> name_record db' (mem_couple_id m) p = Some r
      \<and> rn_assigned_by_account_id r = fst (request_key op) \<and> rn_revision r = request_expected op + 1
      \<and> (\<forall>k q. (k, q) \<noteq> (mem_couple_id m, p) \<longrightarrow> name_record db' k q = name_record db k q))
    \<and> step (handle_name u digest) (run_ops (handle_name u digest) db' ops) op = run_ops (handle_name u digest) db' ops
    \<and> (\<forall>op2. fst (request_key op2) = fst (request_key op) \<and> request_expected op2 = request_expected op
          \<and> request_key op2 \<notin> name_operation_key ` set (relationship_name_operations db')
        \<longrightarrow> (\<exists>e. handle_name u digest db' op2 = Inl e))"
proof -
  obtain m now where m: "active_member db (fst (request_key op)) = Inr m"
    and h: "mutate_partner_name u digest db m (fst (request_key op)) (snd (request_key op))
       (request_expected op) (request_name op) now = Inr (db', res)"
    using assms(2) by (rule handle_name_Inr)
  let ?a = "fst (request_key op)" and ?k = "mem_couple_id m"
  from h have "\<exists>p r. partner_id_for db ?k ?a = Some p \<and> members db' = members db
      \<and> name_record db' ?k p = Some r \<and> rn_assigned_by_account_id r = ?a \<and> rn_revision r = request_expected op + 1
      \<and> (\<forall>k q. (k, q) \<noteq> (?k, p) \<longrightarrow> name_record db' k q = name_record db k q)"
  proof (cases rule: mutate_cases)
    case replayed
    with assms(3) show ?thesis by simp
  next
    case (changed p n r)
    have key: "name_key r = (?k, p)" by (simp add: changed(5) changed_name_def name_key_def)
    have "name_record db' ?k p = Some r \<and> (\<forall>k q. (k, q) \<noteq> (?k, p) \<longrightarrow> name_record db' k q = name_record db k q)"
    proof (cases "name_record db ?k p")
      case None
      with changed(6) key show ?thesis
        by (auto simp: name_record_key scalar_append split: option.splits)
    next
      case (Some r0)
      then have "name_key r0 = (?k, p)" using name_record_Some [OF Some] by (simp add: name_key_def)
      with Some changed(6) key show ?thesis
        by (auto simp: name_record_key scalar_update_key scalar_update_other)
    qed
    moreover have "rn_assigned_by_account_id r = ?a \<and> rn_revision r = request_expected op + 1"
      by (auto simp: changed(4,5) changed_name_def split: option.splits)
    ultimately show ?thesis using changed(1,9) by blast
  qed
  then obtain p r where r: "partner_id_for db ?k ?a = Some p" "members db' = members db"
      "name_record db' ?k p = Some r" "rn_assigned_by_account_id r = ?a" "rn_revision r = request_expected op + 1"
      "\<forall>k q. (k, q) \<noteq> (?k, p) \<longrightarrow> name_record db' k q = name_record db k q" by blast
  then have once: "\<exists>m p r. active_member db ?a = Inr m \<and> partner_id_for db (mem_couple_id m) ?a = Some p \<and> p \<noteq> ?a
      \<and> name_record db' (mem_couple_id m) p = Some r
      \<and> rn_assigned_by_account_id r = ?a \<and> rn_revision r = request_expected op + 1
      \<and> (\<forall>k q. (k, q) \<noteq> (mem_couple_id m, p) \<longrightarrow> name_record db' k q = name_record db k q)"
    using m partner_id_for_Some [OF r(1)] by blast
  have retry: "step (handle_name u digest) (run_ops (handle_name u digest) db' ops) op = run_ops (handle_name u digest) db' ops"
    using assms by (rule partner_names.retry_later)
  have stale: "\<exists>e. handle_name u digest db' op2 = Inl e"
    if op2: "fst (request_key op2) = ?a" "request_expected op2 = request_expected op"
      "request_key op2 \<notin> name_operation_key ` set (relationship_name_operations db')" for op2
  proof (cases "handle_name u digest db' op2")
    case (Inr y)
    obtain db2 res2 where y: "y = (db2, res2)" by (cases y)
    obtain m2 now2 where m2: "active_member db' ?a = Inr m2"
      and h2: "mutate_partner_name u digest db' m2 ?a (snd (request_key op2)) (request_expected op2) (request_name op2) now2
        = Inr (db2, res2)"
      using Inr y op2(1) by (metis handle_name_Inr)
    have m2m: "m2 = m" using m m2 r(2) by (simp add: active_member_def)
    from h2 show ?thesis
    proof (cases rule: mutate_cases)
      case (replayed o')
      with op2(1,3) show ?thesis by (metis imageI prod.collapse)
    next
      case (changed q n r2)
      have "partner_id_for db' ?k ?a = partner_id_for db ?k ?a" by (simp only: partner_id_for_def r(2))
      then have "q = p" using changed(1) r(1) by (simp only: m2m option.inject)
      with changed(4) r(3,5) op2(2) show ?thesis by (simp add: m2m)
    qed
  qed simp
  from once retry stale show ?thesis by blast
qed

section \<open>Witnesses\<close>

text \<open>A database of characters that knows ASCII, and two members, one of whom uses an email as a name.\<close>

definition plain_unicode :: unicode where
  "plain_unicode = \<lparr>nfkc = (\<lambda>s. s), category = (\<lambda>c. if c < 32 then ''Cc'' else ''Ll''),
     is_space = (\<lambda>c. c = 32), is_digit = (\<lambda>c. 48 \<le> c \<and> c \<le> 57),
     is_decimal = (\<lambda>c. 48 \<le> c \<and> c \<le> 57), is_word = (\<lambda>c. 97 \<le> c \<and> c \<le> 122)\<rparr>"

definition orbit_names :: names_db where
  "orbit_names =
     \<lparr>accounts = [\<lparr>acc_id = 12, acc_email_normalized = ascii ''a@b.de'', acc_password_hash = ''h'',
        acc_display_name = ascii ''a@b.de'', acc_is_adult = True, acc_accepted_terms_version = ''1'',
        acc_is_admin = False,
        acc_verified_at = Some 0, acc_suspended_at = None, acc_deleted_at = None,
        acc_created_at = 0, acc_updated_at = 0\<rparr>],
      sessions = [], couples = couples orbit_core, members = members orbit_core,
      activity_events = [], preferences = [], devices = [], events = [], deliveries = [],
      location_samples = [], together_buckets = [], together_days = [],
      note_rows = [], note_operations = [], note_metadata_operations = [],
      relationship_names = [\<lparr>rn_couple_id = 7, rn_subject_account_id = 12, rn_assigned_by_account_id = 11,
        rn_assigned_name = None, rn_revision = 3, rn_updated_at = 0\<rparr>],
      relationship_name_operations = []\<rparr>"

lemma orbit_names_ok [simp]: "names_ok u orbit_names" "ascii_printable plain_unicode"
  by (simp_all add: names_ok_def orbit_names_def ascii_printable_def plain_unicode_def)


lemma orbit_reset:
  "\<exists>db' res. handle_name plain_unicode (\<lambda>_. ''d'') orbit_names (Reset_name 11 80 3 1000) = Inr (db', res)
     \<and> db' \<noteq> orbit_names \<and> (11, 81) \<notin> name_operation_key ` set (relationship_name_operations db')"
proof -
  let ?op = "Reset_name 11 80 3 1000"
  have core: "members orbit_names = members orbit_core" "couples orbit_names = couples orbit_core"
    "relationship_name_operations orbit_names = []"
    by (simp_all add: orbit_names_def)
  have p: "partner_id_for orbit_names 7 11 = Some 12"
    by (simp add: partner_id_for_def core orbit_core_def scalar_def is_active_def)
  have "name_record orbit_names 7 12 = Some \<lparr>rn_couple_id = 7, rn_subject_account_id = 12,
      rn_assigned_by_account_id = 11, rn_assigned_name = None, rn_revision = 3, rn_updated_at = 0\<rparr>"
    "\<exists>a. scalar (\<lambda>a. acc_id a = 12) (accounts orbit_names) = Some a"
    by (simp_all add: name_record_def orbit_names_def scalar_def)
  with p have "\<exists>db' res. handle_name plain_unicode (\<lambda>_. ''d'') orbit_names ?op = Inr (db', res)"
    by (auto simp: reset_partner_name_def active_member_def core orbit_core_def scalar_def is_active_def
        mutate_partner_name_def guard_def lock_couple_def normalized_request_def Let_def
        find_name_operation_def apply_name_change_def record_name_change_def)
  then obtain db' res where h: "handle_name plain_unicode (\<lambda>_. ''d'') orbit_names ?op = Inr (db', res)" by blast
  then obtain m now where "mutate_partner_name plain_unicode (\<lambda>_. ''d'') orbit_names m (fst (request_key ?op))
      (snd (request_key ?op)) (request_expected ?op) (request_name ?op) now = Inr (db', res)"
    by (rule handle_name_Inr)
  then have "\<exists>o'. relationship_name_operations db' = [o'] \<and> name_operation_key o' = (11, 80)"
    by (cases rule: mutate_cases) (auto simp: core)
  with h core(3) show ?thesis by auto
qed

theorem partner_name_changes_once_witness:
  "\<exists>db' res. handle_name plain_unicode (\<lambda>_. ''d'') orbit_names (Reset_name 11 80 3 1000) = Inr (db', res)
     \<and> step (handle_name plain_unicode (\<lambda>_. ''d'')) (run_ops (handle_name plain_unicode (\<lambda>_. ''d'')) db' [])
         (Reset_name 11 80 3 1000) = db'
     \<and> (\<exists>e. handle_name plain_unicode (\<lambda>_. ''d'') db' (Reset_name 11 81 3 2000) = Inl e)"
proof -
  obtain db' res where h: "handle_name plain_unicode (\<lambda>_. ''d'') orbit_names (Reset_name 11 80 3 1000) = Inr (db', res)"
    "db' \<noteq> orbit_names" "(11, 81) \<notin> name_operation_key ` set (relationship_name_operations db')"
    using orbit_reset by blast
  note once = partner_name_changes_once [OF orbit_names_ok(1) h(1,2)]
  have "\<exists>e. handle_name plain_unicode (\<lambda>_. ''d'') db' (Reset_name 11 81 3 2000) = Inl e"
    using once [THEN conjunct2, THEN conjunct2, rule_format, of "Reset_name 11 81 3 2000"] h(3) by simp
  with once [of "[]", THEN conjunct2, THEN conjunct1] h(1) show ?thesis by auto
qed

end
