(* ===== verification/Smooch_Safety.thy ===== *)
theory Smooch_Safety
  imports Smooches Name_Safety Note_Safety
begin

text \<open>
  The properties of smooches: the rolling limit and its wait, retries, and the weekly history.
\<close>

section \<open>Requests\<close>

datatype smooch_request =
    Send_smooch uuid uuid ustring instant uuid uuid
  | Ack_smooches uuid "uuid list" instant

fun handle_smooch ::
    "unicode \<Rightarrow> 'a smooch_db_scheme \<Rightarrow> smooch_request \<Rightarrow> exc + 'a smooch_db_scheme \<times> smooch_response option" where
  "handle_smooch u db (Send_smooch a op emoji now i ev) =
     bind_exc (send_smooch u db a op emoji now i ev) (\<lambda>(db', r). Inr (db', Some r))"
| "handle_smooch u db (Ack_smooches a ids now) =
     bind_exc (acknowledge_deliveries db a ids now) (\<lambda>db'. Inr (db', None))"

fun smooch_clock :: "smooch_request \<Rightarrow> instant" where
  "smooch_clock (Send_smooch a op emoji now i ev) = now"
| "smooch_clock (Ack_smooches a ids now) = now"

definition sends :: "uuid \<Rightarrow> uuid \<Rightarrow> 'a smooch_db_scheme \<Rightarrow> instant list" where
  "sends k a db = map sm_sent_at (filter (\<lambda>s. sm_couple_id s = k \<and> sm_sender_id s = Some a) (smooches db))"

lemma recent_sends_eq: "recent_sends db k a now = filter (\<lambda>t. now - hour < t) (sends k a db)"
  by (simp add: recent_sends_def sends_def select_def filter_map comp_def conj_commute conj_left_commute)

lemma store_smooch_Inr:
  assumes "store_smooch db s a ev = Inr (db', r)"
  shows "smooches db' = smooches db @ [s]" "members db' = members db" "couples db' = couples db"
proof -
  let ?w = "db\<lparr>smooches := smooches db @ [s]\<rparr>"
  from assms have "only_alerts (record_activity ?w (smooch_sent (sm_couple_id s) a s)) db'"
    by (auto simp: store_smooch_def bind_exc_Inr_iff insert_unique_Inr Let_def dest: smooch_event_frame)
  moreover obtain x where "record_activity ?w (smooch_sent (sm_couple_id s) a s) = ?w\<lparr>activity_events := x\<rparr>"
    using record_activity_frame by blast
  ultimately show "smooches db' = smooches db @ [s]" "members db' = members db" "couples db' = couples db"
    by (auto simp: only_alerts_def)
qed

lemma send_smooch_cases:
  assumes "send_smooch u db a op emoji now i ev = Inr (db', r)"
  obtains (prior) m where "db' = db" "active_member db a = Inr m" "find_smooch db (mem_couple_id m) a op \<noteq> None"
  | (sent) m p s where "active_member db a = Inr m" "find_smooch db (mem_couple_id m) a op = None"
      "enforce_send_allowed emoji (recent_sends db (mem_couple_id m) a now) now = Inr ()"
      "s = \<lparr>sm_id = i, sm_operation_id = op, sm_couple_id = mem_couple_id m, sm_sender_id = Some a,
         sm_recipient_id = Some p, sm_emoji = emoji, sm_phrase_key = choose_phrase op, sm_sent_at = now,
         sm_delivered_at = None\<rparr>"
      "smooches db' = smooches db @ [s]" "members db' = members db" "couples db' = couples db"
proof -
  from assms obtain m partner where m: "active_member db a = Inr m" and p: "smooch_partner db m = Inr partner"
    by (auto simp: send_smooch_def bind_exc_Inr_iff)
  show thesis
  proof (cases "find_smooch db (mem_couple_id m) a op")
    case (Some s)
    with assms m show thesis
      by (intro prior [of m]) (auto simp: send_smooch_def bind_exc_Inr_iff Let_def)
  next
    case None
    from assms m p None obtain notified where
      "enforce_send_allowed emoji (recent_sends db (mem_couple_id m) a now) now = Inr ()"
      "store_smooch db \<lparr>sm_id = i, sm_operation_id = op, sm_couple_id = mem_couple_id m, sm_sender_id = Some a,
         sm_recipient_id = Some (acc_id partner), sm_emoji = emoji, sm_phrase_key = choose_phrase op,
         sm_sent_at = now, sm_delivered_at = None\<rparr> a ev = Inr (db', notified)"
      by (auto simp: send_smooch_def bind_exc_Inr_iff Let_def)
    with m None store_smooch_Inr show thesis by (intro sent) blast+
  qed
qed

lemma ack_rows:
  assumes "acknowledge_deliveries db a ids now = Inr db'"
  shows "map sm_sent_at (smooches db') = map sm_sent_at (smooches db)"
    "map sm_emoji (smooches db') = map sm_emoji (smooches db)"
    "\<And>f. (\<And>s t. f (s\<lparr>sm_delivered_at := t\<rparr>) = f s) \<Longrightarrow> map f (smooches db') = map f (smooches db)"
    "members db' = members db"
  using assms
  by (auto simp: acknowledge_deliveries_def bind_exc_Inr_iff update_where_def)

lemma allowed_iff:
  "enforce_send_allowed emoji recent now = Inr () \<longleftrightarrow> emoji \<in> set EMOJIS \<and> retry_after_seconds recent now = 0"
  by (simp add: enforce_send_allowed_def send_refusal_def Let_def)

lemma retry_after_zero:
  "retry_after_seconds ts now = 0 \<longleftrightarrow> length (filter (\<lambda>t. now - hour < t) ts) < HOURLY_LIMIT"
proof -
  have "max 1 (x + 1) \<noteq> (0::int)" for x by linarith
  then show ?thesis by (simp add: retry_after_seconds_def Let_def)
qed

lemma sends_map:
  "sends k a db = List.map_filter (\<lambda>(c, s, t). if c = k \<and> s = Some a then Some t else None)
     (map (\<lambda>s. (sm_couple_id s, sm_sender_id s, sm_sent_at s)) (smooches db))"
  by (simp add: sends_def List.map_filter_def filter_map comp_def split_beta)

lemma handle_smooch_sends:
  assumes "handle_smooch u db op = Inr (db', r)"
  shows "sends k a db' = sends k a db
    \<or> sends k a db' = sends k a db @ [smooch_clock op]
      \<and> length (filter (\<lambda>t. smooch_clock op - hour < t) (sends k a db)) < HOURLY_LIMIT"
proof (cases op)
  case (Send_smooch b o' emoji now i ev)
  with assms obtain r' where "send_smooch u db b o' emoji now i ev = Inr (db', r')"
    by (auto simp: bind_exc_Inr_iff)
  then show ?thesis
  proof (cases rule: send_smooch_cases)
    case (sent m p s)
    show ?thesis
    proof (cases "mem_couple_id m = k \<and> b = a")
      case True
      with sent show ?thesis
        by (simp add: sends_def Send_smooch allowed_iff retry_after_zero recent_sends_eq conj_commute)
    next
      case False
      with sent show ?thesis by (auto simp: sends_def)
    qed
  qed simp
next
  case (Ack_smooches b ids now)
  with assms have "acknowledge_deliveries db b ids now = Inr db'" by (auto simp: bind_exc_Inr_iff)
  from ack_rows(3) [OF this, of "\<lambda>s. (sm_couple_id s, sm_sender_id s, sm_sent_at s)"]
  show ?thesis by (simp add: sends_map)
qed

interpretation smooch_limit: rolling_limit "handle_smooch u" "sends k a" smooch_clock HOURLY_LIMIT hour
  by unfold_locales (rule handle_smooch_sends)

text \<open>
  C19 No member sends their partner more than five smooches within any hour: whatever requests
  arrive, in whatever order, at every instant the hour before it holds at most five of their
  smooches to that couple. (The server's clock does not run backwards between requests.)
\<close>

theorem smooch_rolling_limit:
  assumes "never_exceeds HOURLY_LIMIT hour (sends k a db)"
    and "\<forall>t \<in> set (sends k a db). \<forall>op \<in> set ops. t \<le> smooch_clock op" "sorted (map smooch_clock ops)"
  shows "\<forall>now. length (filter (\<lambda>t. now - hour < t \<and> t \<le> now)
    (sends k a (run_ops (handle_smooch u) db ops))) \<le> 5"
  using smooch_limit.limited_run [OF assms]
  by (simp add: never_exceeds_def in_window_at_def HOURLY_LIMIT_def)

section \<open>The wait\<close>

lemma length_filter_twice: "length (filter p (filter q xs)) \<le> length (filter p xs)"
  by (induction xs) auto

lemma sorted_filter_hd:
  fixes ts :: "int list"
  assumes "sort (filter (\<lambda>t. b < t) ts) = x # xs" "x \<le> c"
  shows "length (filter (\<lambda>t. c < t) ts) \<le> length xs"
proof -
  have "length (filter (\<lambda>t. c < t) ts) = length (filter (\<lambda>t. c < t) (filter (\<lambda>t. b < t) ts))"
  proof -
    have "b < x" using assms(1) by (metis (mono_tags, lifting) filter_set list.set_intros(1) mem_Collect_eq set_filter set_sort)
    with assms(2) have "filter (\<lambda>t. c < t) (filter (\<lambda>t. b < t) ts) = filter (\<lambda>t. c < t) ts"
      by (auto simp: filter_filter intro: filter_cong)
    then show ?thesis by simp
  qed
  also have "\<dots> = length (filter (\<lambda>t. c < t) (sort (filter (\<lambda>t. b < t) ts)))"
    by (simp add: filter_sort)
  also have "\<dots> = length (filter (\<lambda>t. c < t) xs)" using assms by simp
  finally show ?thesis by simp
qed

text \<open>
  The wait a refused sender is told is right: after that many seconds a slot is open (if the
  sender kept the limit before), and more than a second earlier it is still closed.
\<close>

theorem smooch_wait_exact:
  assumes "send_refusal emoji (recent_sends db k a now) now = Some (e, Some wait)"
    and "length (recent_sends db k a now) \<le> HOURLY_LIMIT"
  shows "1 \<le> wait
    \<and> send_refusal emoji (recent_sends db k a (now + wait * second)) (now + wait * second) = None
    \<and> (\<forall>t. now \<le> t \<and> t < now + (wait - 1) * second
         \<longrightarrow> send_refusal emoji (recent_sends db k a t) t \<noteq> None)"
proof -
  let ?ts = "sends k a db"
  from assms(1) have emoji: "emoji \<in> set EMOJIS"
    and wait: "wait = retry_after_seconds (recent_sends db k a now) now" "wait \<noteq> 0"
    by (auto simp: send_refusal_def Let_def split: if_splits)
  have recent: "filter (\<lambda>t. now - hour < t) (recent_sends db k a now) = recent_sends db k a now"
    by (simp add: recent_sends_eq)
  have len: "length (recent_sends db k a now) = HOURLY_LIMIT"
    using wait assms(2) retry_after_zero [of "recent_sends db k a now" now] recent by simp
  then obtain x xs where x: "sort (recent_sends db k a now) = x # xs"
    by (metis HOURLY_LIMIT_def length_sort list.exhaust list.size(3) zero_neq_numeral)
  have lx: "Suc (length xs) = HOURLY_LIMIT" using x len by (metis length_sort length_Cons)
  have first: "now - hour < x"
  proof -
    have "x \<in> set (recent_sends db k a now)" by (metis x list.set_intros(1) set_sort)
    then show ?thesis by (simp add: recent_sends_eq)
  qed
  have w: "wait = (x + hour - now) div second + 1"
  proof -
    have "0 \<le> (x + hour - now) div second" using first by (intro pos_imp_zdiv_nonneg_iff [THEN iffD2]) simp_all
    then show ?thesis
      using first x lx by (simp add: wait(1) retry_after_seconds_def Let_def recent whole_seconds_def)
  qed
  have div: "(x + hour - now) div second * second \<le> x + hour - now"
    "x + hour - now < ((x + hour - now) div second + 1) * second"
    by (simp_all add: algebra_simps)
  have "length (filter (\<lambda>t. now + wait * second - hour < t) ?ts) \<le> length xs"
    by (rule sorted_filter_hd [of "now - hour" _ x]) (use x w div in \<open>simp_all add: recent_sends_eq\<close>)
  moreover have "length xs < HOURLY_LIMIT" using lx by simp
  ultimately have open_slot: "send_refusal emoji (recent_sends db k a (now + wait * second)) (now + wait * second) = None"
    using emoji retry_after_zero [of "recent_sends db k a (now + wait * second)" "now + wait * second"]
    by (simp add: send_refusal_def recent_sends_eq)
  have "send_refusal emoji (recent_sends db k a t) t \<noteq> None" if t: "now \<le> t" "t < now + (wait - 1) * second" for t
  proof -
    have "t - hour < x" using t(2) w div by simp
    have "u \<in> set (recent_sends db k a now) \<Longrightarrow> x \<le> u" for u
      using x by (metis set_sort sorted_sort sorted_simps(2) set_ConsD order_refl)
    with \<open>t - hour < x\<close> have "\<forall>u \<in> set (recent_sends db k a now). t - hour < u" by fastforce
    then have "length (recent_sends db k a now) = length (filter (\<lambda>u. t - hour < u) (recent_sends db k a now))"
      by (metis filter_True)
    also have "\<dots> \<le> length (filter (\<lambda>u. t - hour < u) ?ts)"
      unfolding recent_sends_eq by (rule length_filter_twice)
    finally have "retry_after_seconds (recent_sends db k a t) t \<noteq> 0"
      using len by (simp add: retry_after_zero recent_sends_eq)
    then show ?thesis by (simp add: send_refusal_def Let_def)
  qed
  with open_slot show ?thesis using w first div by (auto simp: pos_imp_zdiv_nonneg_iff)
qed

section \<open>Retries\<close>

definition handle_send ::
    "unicode \<Rightarrow> 'a smooch_db_scheme \<Rightarrow> uuid \<times> uuid \<times> ustring \<times> instant \<times> uuid \<times> uuid
       \<Rightarrow> exc + 'a smooch_db_scheme \<times> smooch_response" where
  "handle_send u db = (\<lambda>(a, op, emoji, now, i, ev). send_smooch u db a op emoji now i ev)"

definition send_recorded :: "'a smooch_db_scheme \<Rightarrow> uuid \<times> uuid \<times> ustring \<times> instant \<times> uuid \<times> uuid \<Rightarrow> bool" where
  "send_recorded db = (\<lambda>(a, op, _). \<exists>m. active_member db a = Inr m \<and> find_smooch db (mem_couple_id m) a op \<noteq> None)"

lemma active_member_cong: "members db' = members db \<Longrightarrow> active_member db' a = active_member db a"
  by (simp add: active_member_def)

lemma find_smooch_append:
  "smooches db' = smooches db @ [s] \<Longrightarrow> find_smooch db k a op \<noteq> None \<Longrightarrow> find_smooch db' k a op \<noteq> None"
  by (auto simp: find_smooch_def scalar_append)

interpretation smooch_retries: retry_safe "handle_send u" "\<lambda>_. True" send_recorded
proof (unfold_locales, goal_cases)
  case (2 db op db' r)
  obtain a o' emoji now i ev where op: "op = (a, o', emoji, now, i, ev)" by (cases op)
  from 2(2) have "send_smooch u db a o' emoji now i ev = Inr (db', r)" by (simp add: handle_send_def op)
  then show ?case
  proof (cases rule: send_smooch_cases)
    case (sent m p s)
    then have "find_smooch db' (mem_couple_id m) a o' \<noteq> None" by (simp add: find_smooch_def scalar_append split: option.splits)
    with sent(1) active_member_cong [OF sent(6)] show ?thesis by (simp add: send_recorded_def op)
  qed simp
next
  case (3 db op op' db' r)
  obtain a o' emoji now i ev where op: "op = (a, o', emoji, now, i, ev)" by (cases op)
  obtain a2 o2 emoji2 now2 i2 ev2 where op': "op' = (a2, o2, emoji2, now2, i2, ev2)" by (cases op')
  from 3(3) have "send_smooch u db a2 o2 emoji2 now2 i2 ev2 = Inr (db', r)" by (simp add: handle_send_def op')
  then show ?case
  proof (cases rule: send_smooch_cases)
    case (sent m p s)
    with 3(2) active_member_cong [OF sent(6)] find_smooch_append [OF sent(5)] show ?thesis
      by (auto simp: send_recorded_def op)
  qed (use 3(2) in simp)
next
  case (4 db op db' r)
  obtain a o' emoji now i ev where op: "op = (a, o', emoji, now, i, ev)" by (cases op)
  from 4(3) have "send_smooch u db a o' emoji now i ev = Inr (db', r)" by (simp add: handle_send_def op)
  then show ?case
    using 4(2) by (cases rule: send_smooch_cases) (auto simp: send_recorded_def op)
qed simp

text \<open>
  A smooch is sent once: a client that repeats a send whose answer it lost - at once or after any
  other sends by either partner - changes nothing, neither the smooches nor the feed nor the alerts.
\<close>

theorem smooch_sent_once:
  assumes "send_smooch u db a op emoji now i ev = Inr (db', r)" "db' \<noteq> db"
  shows "step (handle_send u) (run_ops (handle_send u) db' others) (a, op, emoji, later, i2, ev2)
    = run_ops (handle_send u) db' others"
proof -
  have h: "handle_send u db (a, op, emoji, now, i, ev) = Inr (db', r)" using assms(1) by (simp add: handle_send_def)
  with assms(2) have "send_recorded db' (a, op, emoji, now, i, ev)"
    using smooch_retries.records [OF TrueI h] by simp
  then have "send_recorded (run_ops (handle_send u) db' others) (a, op, emoji, now, i, ev)"
    by (rule smooch_retries.recorded_run [OF TrueI])
  then have "send_recorded (run_ops (handle_send u) db' others) (a, op, emoji, later, i2, ev2)"
    by (simp add: send_recorded_def)
  then show ?thesis
    by (metis step_cases smooch_retries.replays [OF TrueI])
qed

section \<open>Weekly history\<close>

lemma count_emojis_total:
  assumes "distinct (map fst counts)" "\<forall>s \<in> set rows. sm_emoji s \<in> fst ` set counts"
  shows "\<exists>counts'. count_emojis rows counts = Inr counts'
    \<and> sum_list (map snd counts') = sum_list (map snd counts) + length rows"
  using assms
proof (induction rows arbitrary: counts)
  case Nil
  then show ?case by simp
next
  case (Cons s rows)
  obtain n where n: "map_of counts (sm_emoji s) = Some n"
    using Cons.prems(2) by (metis list.set_intros(1) map_of_eq_None_iff not_None_eq)
  let ?c = "AList.update (sm_emoji s) (n + 1) counts"
  have upd: "sum_list (map snd (AList.update k (m + 1) c)) = sum_list (map snd c) + 1"
    if "map_of c k = Some m" for c :: "(ustring \<times> nat) list" and k m
    using that by (induction c) (auto split: if_splits)
  have "fst ` set ?c = fst ` set counts"
    using Cons.prems(2) by (simp add: update_keys flip: set_map)
  with Cons.IH [of ?c] Cons.prems upd [OF n] n show ?case
    by (auto simp: distinct_update)
qed

lemma sum_nonzero: "sum_list (map snd (filter (\<lambda>(e, n). n \<noteq> (0::nat)) counts)) = sum_list (map snd counts)"
  by (induction counts) auto

lemma weeks_partition:
  fixes b :: "nat \<Rightarrow> int"
  assumes "\<And>i. b i \<le> b (Suc i)"
  shows "sum_list (map (\<lambda>i. length (filter (\<lambda>s. b i \<le> f s \<and> f s < b (Suc i)) rows)) [0..<n])
    = length (filter (\<lambda>s. b 0 \<le> f s \<and> f s < b n) rows)"
proof (induction n)
  case 0
  show ?case by (simp add: filter_empty_conv)
next
  case (Suc n)
  have "b 0 \<le> b n" using assms by (rule lift_Suc_mono_le) simp
  then have "length (filter (\<lambda>s. b 0 \<le> f s \<and> f s < b n) rows) + length (filter (\<lambda>s. b n \<le> f s \<and> f s < b (Suc n)) rows)
      = length (filter (\<lambda>s. b 0 \<le> f s \<and> f s < b (Suc n)) rows)"
    using assms [of n] by (induction rows) auto
  with Suc show ?case by simp
qed

lemma collect_exc_Inr:
  "(\<And>x. x \<in> set xs \<Longrightarrow> f x = Inr (g x)) \<Longrightarrow> collect_exc f xs = Inr (map g xs)"
  by (induction xs) auto

lemma week_summary_total:
  assumes "tz name = Some z" "\<forall>s \<in> set rows. sm_emoji s \<in> set EMOJIS"
  shows "\<exists>w. week_summary tz rows a start name = Inr w \<and> sw_week_start w = start
    \<and> sw_combined w = length (filter (\<lambda>s. to_utc z (start * day) \<le> sm_sent_at s
        \<and> sm_sent_at s < to_utc z ((start + 7) * day)) rows)
    \<and> sum_list (map snd (sw_emoji_counts w)) = sw_combined w"
proof -
  let ?sel = "filter (\<lambda>s. to_utc z (start * day) \<le> sm_sent_at s \<and> sm_sent_at s < to_utc z ((start + 7) * day)) rows"
  have "distinct EMOJIS" by (simp add: EMOJIS_def)
  moreover have "fst ` set (map (\<lambda>e. (e, 0::nat)) EMOJIS) = set EMOJIS" by force
  ultimately obtain c where "count_emojis ?sel (map (\<lambda>e. (e, 0)) EMOJIS) = Inr c"
      "sum_list (map snd c) = sum_list (map snd (map (\<lambda>e. (e, 0::nat)) EMOJIS)) + length ?sel"
    using count_emojis_total [of "map (\<lambda>e. (e, 0)) EMOJIS" ?sel] assms(2) by (auto simp: comp_def)
  moreover have "sum_list (map snd (map (\<lambda>e. (e, 0::nat)) EMOJIS)) = 0" by (simp add: EMOJIS_def)
  ultimately have "count_emojis ?sel (map (\<lambda>e. (e, 0)) EMOJIS) = Inr c" "sum_list (map snd c) = length ?sel"
    by simp_all
  then show ?thesis
    unfolding week_summary_def week_bounds_utc_def zone_info_def assms(1)
    by (simp add: Let_def sum_nonzero del: neq0_conv)
qed

text \<open>
  C36 The weekly history counts every smooch once: for a member of the couple whose home time zone is
  known, the requested weeks are consecutive Mondays up to the current one, their totals add up
  to exactly the smooches sent between the first Monday's midnight and the end of the current week,
  daylight-saving weeks included, and the emoji counts of a week add up to its total. (Hypotheses:
  a local midnight is not after the one a week later; only emojis of the vocabulary are stored.)
\<close>

theorem smooch_weeks_exact:
  assumes "history_member db a archive = Inr m" "history_couple db (mem_couple_id m) archive = Inr c"
    and "tz (cpl_home_timezone c) = Some z" "\<And>d. to_utc z (d * day) \<le> to_utc z ((d + 7) * day)"
    and "\<And>s. s \<in> set (smooches db) \<Longrightarrow> sm_emoji s \<in> set EMOJIS"
    and "first = local_date z now - weekday (local_date z now) - 7 * (int weeks - 1)"
  shows "\<exists>ws. smooch_weeks tz db a weeks archive now = Inr ws
    \<and> map sw_week_start ws = map (\<lambda>i. first + 7 * int i) [0..<weeks]
    \<and> sum_list (map sw_combined ws) = length (smooches_between db (cpl_id c) (to_utc z (first * day))
        (to_utc z ((first + 7 * int weeks) * day)))
    \<and> (\<forall>w \<in> set ws. sum_list (map snd (sw_emoji_counts w)) = sw_combined w)"
proof -
  define b where "b i = to_utc z ((first + 7 * int i) * day)" for i
  have mono: "b i \<le> b (Suc i)" for i
    using assms(4) [of "first + 7 * int i"] by (simp add: b_def algebra_simps)
  let ?rows = "smooches_between db (cpl_id c) (b 0) (b weeks)"
  let ?f = "\<lambda>i. week_summary tz ?rows (mem_account_id m) (first + 7 * int i) (cpl_home_timezone c)"
  have emojis: "\<forall>s \<in> set ?rows. sm_emoji s \<in> set EMOJIS"
    using assms(5) by (auto simp: smooches_between_def select_def)
  have "\<exists>w. ?f i = Inr w \<and> sw_week_start w = first + 7 * int i
      \<and> sw_combined w = length (filter (\<lambda>s. b i \<le> sm_sent_at s \<and> sm_sent_at s < b (Suc i)) ?rows)
      \<and> sum_list (map snd (sw_emoji_counts w)) = sw_combined w" for i
    using week_summary_total [where rows = ?rows and start = "first + 7 * int i" and tz = tz and name = "cpl_home_timezone c" and z = z, OF assms(3) emojis]
    by (simp add: b_def algebra_simps)
  then obtain g where g: "\<And>i. ?f i = Inr (g i)" "\<And>i. sw_week_start (g i) = first + 7 * int i"
      "\<And>i. sw_combined (g i) = length (filter (\<lambda>s. b i \<le> sm_sent_at s \<and> sm_sent_at s < b (Suc i)) ?rows)"
      "\<And>i. sum_list (map snd (sw_emoji_counts (g i))) = sw_combined (g i)"
    by metis
  have "smooch_weeks tz db a weeks archive now = collect_exc ?f [0..<weeks]"
  proof -
    define current where "current = local_date z now - weekday (local_date z now)"
    have start: "week_start tz now (cpl_home_timezone c) = Inr current"
      by (simp add: week_start_def zone_info_def assms(3) Let_def current_def)
    have bounds: "week_bounds_utc tz d (cpl_home_timezone c) = Inr (to_utc z (d * day), to_utc z ((d + 7) * day))" for d
      by (simp add: week_bounds_utc_def zone_info_def assms(3))
    have first: "current - 7 * (int weeks - 1) = first" and "current + 7 = first + 7 * int weeks"
      by (simp_all add: assms(6) current_def)
    then have last: "to_utc z ((current + 7) * day) = b weeks" by (simp only: b_def)
    have "b 0 = to_utc z (first * day)" by (simp add: b_def)
    then show ?thesis
      by (simp only: smooch_weeks_def assms(1,2) bind_exc.simps start bounds Let_def split first last)
  qed
  then have "smooch_weeks tz db a weeks archive now = Inr (map g [0..<weeks])"
    using collect_exc_Inr [of "[0..<weeks]" ?f g] g(1) by simp
  moreover have "sum_list (map sw_combined (map g [0..<weeks])) = length ?rows"
  proof -
    have "length (filter (\<lambda>s. b 0 \<le> sm_sent_at s \<and> sm_sent_at s < b weeks) ?rows) = length ?rows"
      by (simp add: smooches_between_def select_def conj_ac)
    then show ?thesis
      using weeks_partition [where b = b and f = sm_sent_at and rows = ?rows, OF mono] g(3)
      by (simp add: comp_def)
  qed
  moreover have "b 0 = to_utc z (first * day)" "b weeks = to_utc z ((first + 7 * int weeks) * day)"
    by (simp_all add: b_def)
  ultimately show ?thesis
    using g(2,4) by (intro exI [of _ "map g [0..<weeks]"]) (auto simp: comp_def)
qed

section \<open>Witnesses\<close>

definition orbit_smooch :: "instant \<Rightarrow> smooch" where
  "orbit_smooch t = \<lparr>sm_id = nat t, sm_operation_id = nat t, sm_couple_id = 7, sm_sender_id = Some 11,
     sm_recipient_id = Some 12, sm_emoji = [128536], sm_phrase_key = ''little_love'', sm_sent_at = t,
     sm_delivered_at = None\<rparr>"

text \<open>Five smooches, a second apart.\<close>

definition orbit_smooches :: smooch_db where
  "orbit_smooches = names_db.extend orbit_names
     \<lparr>smooches = map (\<lambda>n. orbit_smooch (n * second)) [0, 1, 2, 3, 4]\<rparr>"

lemma orbit_smooches_fields [simp]:
  "members orbit_smooches = members orbit_core" "couples orbit_smooches = couples orbit_core"
  "accounts orbit_smooches = accounts orbit_names"
  "smooches orbit_smooches = map (\<lambda>n. orbit_smooch (n * second)) [0, 1, 2, 3, 4]"
  "relationship_names orbit_smooches = relationship_names orbit_names"
  "events orbit_smooches = []" "preferences orbit_smooches = []" "devices orbit_smooches = []"
  "deliveries orbit_smooches = []"
  by (simp_all add: orbit_smooches_def orbit_names_def names_db.extend_def)

lemma orbit_sends [simp]: "sends 7 11 orbit_smooches = [0, second, 2 * second, 3 * second, 4 * second]"
  by (simp add: sends_def orbit_smooch_def)

theorem smooch_rolling_limit_witness:
  "\<forall>now. length (filter (\<lambda>t. now - hour < t \<and> t \<le> now) (sends 7 11 (run_ops (handle_smooch plain_unicode) orbit_smooches
     [Send_smooch 11 90 [128536] (10 * second) 60 61, Send_smooch 11 91 [128536] (2 * hour) 62 63]))) \<le> 5"
proof (rule smooch_rolling_limit)
  show "never_exceeds HOURLY_LIMIT hour (sends 7 11 orbit_smooches)"
    unfolding never_exceeds_def in_window_at_def orbit_sends HOURLY_LIMIT_def
    by (intro allI order_trans [OF length_filter_le]) simp
qed simp_all

theorem smooch_wait_exact_witness:
  "\<exists>wait. send_refusal [128536] (recent_sends orbit_smooches 7 11 (10 * second)) (10 * second)
      = Some (HTTPException 429 ''Five Smooches are allowed in a rolling hour'', Some wait)
     \<and> send_refusal [128536] (recent_sends orbit_smooches 7 11 (10 * second + wait * second)) (10 * second + wait * second) = None"
proof -
  have r: "recent_sends orbit_smooches 7 11 (10 * second) = [0, second, 2 * second, 3 * second, 4 * second]"
    by (simp add: recent_sends_eq)
  then obtain wait where w: "send_refusal [128536] (recent_sends orbit_smooches 7 11 (10 * second)) (10 * second)
      = Some (HTTPException 429 ''Five Smooches are allowed in a rolling hour'', Some wait)"
    using retry_after_zero [of "[0, second, 2 * second, 3 * second, 4 * second]" "10 * second"]
    by (simp add: send_refusal_def Let_def EMOJIS_def HOURLY_LIMIT_def)
  from smooch_wait_exact [OF w] r w show ?thesis by (simp add: HOURLY_LIMIT_def)
qed

lemma orbit_send:
  "\<exists>db' r. send_smooch plain_unicode orbit_smooches 11 90 [128536] (2 * hour) 60 61 = Inr (db', r)
     \<and> db' \<noteq> orbit_smooches"
proof -
  let ?db = orbit_smooches
  obtain m c where m: "active_member ?db 11 = Inr m" "mem_couple_id m = 7" "mem_account_id m = 11"
      "lock_couple ?db 7 = Inr c"
    by (simp add: active_member_def lock_couple_def orbit_core_def is_active_def)
  obtain p where p: "smooch_partner ?db m = Inr p" "acc_id p = 12"
    using m(2,3) by (simp add: smooch_partner_def orbit_names_def orbit_core_def is_active_def)
  obtain n where n: "visible_partner_name plain_unicode ?db m 12 = Inr n"
    by (simp add: visible_partner_name_def visible_relationship_names_def Let_def)
  have f: "find_smooch ?db 7 11 90 = None" by (simp add: find_smooch_def orbit_smooch_def)
  have r: "recent_sends ?db 7 11 (2 * hour) = []" by (simp add: recent_sends_eq)
  have a: "enforce_send_allowed [128536] [] (2 * hour) = Inr ()"
    by (simp add: enforce_send_allowed_def send_refusal_def retry_after_seconds_def EMOJIS_def HOURLY_LIMIT_def)
  define s where "s = \<lparr>sm_id = 60, sm_operation_id = 90, sm_couple_id = 7, sm_sender_id = Some 11,
    sm_recipient_id = Some 12, sm_emoji = [128536], sm_phrase_key = choose_phrase 90, sm_sent_at = 2 * hour,
    sm_delivered_at = None\<rparr>"
  define w where "w = record_activity (?db\<lparr>smooches := smooches ?db @ [s]\<rparr>) (smooch_sent 7 11 s)"
  have "events_ok w"
    by (simp add: events_ok_def w_def)
  then obtain db' notified where "enqueue_smooch_event w (2 * hour) 61 7 60 (Some 11) (Some 12) (2 * hour) = Inr (db', notified)"
    using enqueue_returns [of w 61 "Smooch_alert 7 60 (Some 11) (Some 12) (2 * hour)" "2 * hour"] by (auto simp: w_def)
  then have store: "store_smooch ?db s 11 61 = Inr (db', notified)"
    by (simp add: store_smooch_def insert_unique_def s_def orbit_smooch_def w_def Let_def)
  then have "send_smooch plain_unicode ?db 11 90 [128536] (2 * hour) 60 61 = Inr (db', send_response s n 1)"
    using r a by (simp add: send_smooch_def m p n f s_def Let_def)
  moreover have "db' \<noteq> ?db" using store_smooch_Inr(1) [OF store] by auto
  ultimately show ?thesis by blast
qed

theorem smooch_sent_once_witness:
  "\<exists>db'. db' \<noteq> orbit_smooches \<and> step (handle_send plain_unicode) (run_ops (handle_send plain_unicode) db' [])
      (11, 90, [128536], 3 * hour, 64, 65) = db'"
proof -
  obtain db' r where h: "send_smooch plain_unicode orbit_smooches 11 90 [128536] (2 * hour) 60 61 = Inr (db', r)"
    "db' \<noteq> orbit_smooches" using orbit_send by blast
  from smooch_sent_once [OF h, of "[]" "3 * hour" 64 65] h(2) show ?thesis by auto
qed

theorem smooch_weeks_exact_witness:
  "\<exists>ws. smooch_weeks (\<lambda>_. Some utc_zone) orbit_smooches 11 2 None (3 * day) = Inr ws
     \<and> map sw_week_start ws = [-10, -3] \<and> sum_list (map sw_combined ws) = 5"
proof -
  obtain m where m: "history_member orbit_smooches 11 None = Inr m" "mem_couple_id m = 7"
    by (simp add: history_member_def active_member_def orbit_core_def is_active_def)
  obtain c where c: "history_couple orbit_smooches (mem_couple_id m) None = Inr c" "cpl_id c = 7"
    by (simp add: m(2) history_couple_def orbit_core_def)
  have "\<exists>ws. smooch_weeks (\<lambda>_. Some utc_zone) orbit_smooches 11 2 None (3 * day) = Inr ws
    \<and> map sw_week_start ws = map (\<lambda>i. - 10 + 7 * int i) [0..<2]
    \<and> sum_list (map sw_combined ws) = length (smooches_between orbit_smooches (cpl_id c) (to_utc utc_zone (- 10 * day))
        (to_utc utc_zone ((- 10 + 7 * int 2) * day)))
    \<and> (\<forall>w \<in> set ws. sum_list (map snd (sw_emoji_counts w)) = sw_combined w)"
    by (rule smooch_weeks_exact [OF m(1) c(1), where z = utc_zone])
      (auto simp: utc_zone_def orbit_smooch_def EMOJIS_def local_date_def weekday_def)
  then show ?thesis
    by (auto simp: c(2) smooches_between_def select_def utc_zone_def orbit_smooch_def upt_rec)
qed

end
