(* ===== verification/AI_Queue.thy ===== *)
theory AI_Queue
  imports Events Together
begin

text \<open>
  Shared-GPU work (\<^verbatim>\<open>ai_work_queue.py\<close>, \<^verbatim>\<open>gpu_coordination.py\<close> and the
  admission and completion steps of \<^verbatim>\<open>ai_work_runner.py\<close>): the weekly schedule, the ordered
  queue with fenced leases, and the lock object that is only given back after a verified cleanup.
  Each service function is one transaction. The operating system's file lock, the idle probe and
  the model work are outside: their outcomes are arguments.
\<close>

section \<open>Rows\<close>

record ai_work_item =
  aw_id :: uuid
  aw_kind :: string
  aw_scheduled_at :: instant
  aw_next_attempt_at :: "instant option"
  aw_attempt_count :: nat
  aw_lease_token :: "uuid option"
  aw_heartbeat_at :: "instant option"

record ai_run =
  ar_run_key :: dedupe_key
  ar_status :: string

record admin_job_request =
  aj_id :: uuid
  aj_kind :: string
  aj_status :: string
  aj_created_at :: instant
  aj_started_at :: "instant option"

record ai_db =
  ai_work :: "ai_work_item list"
  ai_runs :: "ai_run list"
  admin_jobs :: "admin_job_request list"

record ai_work_lease =
  al_id :: uuid
  al_kind :: string
  al_scheduled_at :: instant
  al_token :: uuid

record ai_settings =
  ai_learning_local_hour :: int
  ai_generation_local_hour :: int
  ai_schedule_timezone :: string
  ai_stale_after :: duration
  ai_retry_after :: duration

definition WEEKLY_LEARNING :: string where "WEEKLY_LEARNING = ''weekly_learning''"
definition WEEKLY_GENERATION :: string where "WEEKLY_GENERATION = ''weekly_generation''"
definition ADMIN_LEARNING :: string where "ADMIN_LEARNING = ''admin_learning''"
definition ADMIN_GENERATION :: string where "ADMIN_GENERATION = ''admin_generation''"
definition ADMIN_REGENERATION :: string where "ADMIN_REGENERATION = ''admin_regeneration''"

definition ADMIN_WORK_KINDS :: "(string \<times> string) list" where
  "ADMIN_WORK_KINDS = [(''learn_quizzes'', ADMIN_LEARNING), (''generate_quizzes'', ADMIN_GENERATION),
     (''regenerate_quizzes'', ADMIN_REGENERATION)]"

section \<open>Schedule\<close>

definition ai_zone :: "tzdb \<Rightarrow> string \<Rightarrow> exc + zone" where
  "ai_zone tz name =
     (case tz name of None \<Rightarrow> Inl (ValueError ''AI schedule timezone is not installed'') | Some z \<Rightarrow> Inr z)"

text \<open>Two datetimes of one zone compare by their wall clocks.\<close>

definition latest_due_date :: "tzdb \<Rightarrow> instant \<Rightarrow> int \<Rightarrow> int \<Rightarrow> string \<Rightarrow> exc + date" where
  "latest_due_date tz current wd h name =
     bind_exc (ai_zone tz name) (\<lambda>z.
       let aware = to_wall z current;
           today = local_date z current;
           candidate = today - (weekday today - wd) mod 7;
           scheduled = candidate * day + h * hour
       in Inr (if aware < scheduled then candidate - 7 else candidate))"

definition scheduled_instant :: "tzdb \<Rightarrow> date \<Rightarrow> int \<Rightarrow> string \<Rightarrow> exc + instant" where
  "scheduled_instant tz target h name =
     bind_exc (ai_zone tz name) (\<lambda>z. Inr (to_utc z (target * day + h * hour)))"

definition new_work :: "uuid \<Rightarrow> string \<Rightarrow> instant \<Rightarrow> instant option \<Rightarrow> ai_work_item" where
  "new_work i kind scheduled next_attempt =
     \<lparr>aw_id = i, aw_kind = kind, aw_scheduled_at = scheduled, aw_next_attempt_at = next_attempt,
      aw_attempt_count = 0, aw_lease_token = None, aw_heartbeat_at = None\<rparr>"

definition weekly :: "ai_work_item \<Rightarrow> bool" where
  "weekly w \<longleftrightarrow> aw_kind w = WEEKLY_LEARNING \<or> aw_kind w = WEEKLY_GENERATION"

definition schedule_key :: "ai_work_item \<Rightarrow> string \<times> instant" where
  "schedule_key w = (aw_kind w, aw_scheduled_at w)"

text \<open>The primary key and the partial unique index on the weekly kinds.\<close>

definition insert_work :: "ai_work_item \<Rightarrow> ai_work_item list \<Rightarrow> ai_work_item list" where
  "insert_work w rows =
     (if aw_id w \<in> aw_id ` set rows
         \<or> weekly w \<and> schedule_key w \<in> schedule_key ` set (filter weekly rows)
      then rows else rows @ [w])"

definition enqueue_weekly_job ::
    "tzdb \<Rightarrow> ai_settings \<Rightarrow> instant \<Rightarrow> string \<Rightarrow> int \<Rightarrow> int \<Rightarrow> uuid \<Rightarrow> 'a ai_db_scheme \<Rightarrow> exc + 'a ai_db_scheme" where
  "enqueue_weekly_job tz st now kind wd h fresh db =
     bind_exc (latest_due_date tz now wd h (ai_schedule_timezone st)) (\<lambda>due.
     bind_exc (scheduled_instant tz due h (ai_schedule_timezone st)) (\<lambda>scheduled.
       let status = map_option ar_status
             (scalar (\<lambda>r. ar_run_key r = [Lit ''generate:'', Day (due + 1)]) (ai_runs db));
           next_attempt = (if kind = WEEKLY_GENERATION \<and> (status = Some ''passed'' \<or> status = Some ''fallback'')
                           then None else Some scheduled)
       in Inr (db\<lparr>ai_work := insert_work (new_work fresh kind scheduled next_attempt) (ai_work db)\<rparr>)))"

definition enqueue_due_weekly_work ::
    "tzdb \<Rightarrow> ai_settings \<Rightarrow> 'a ai_db_scheme \<Rightarrow> instant \<Rightarrow> uuid \<Rightarrow> uuid \<Rightarrow> exc + 'a ai_db_scheme" where
  "enqueue_due_weekly_work tz st db now id1 id2 =
     bind_exc (enqueue_weekly_job tz st now WEEKLY_LEARNING 5 (ai_learning_local_hour st) id1 db)
       (enqueue_weekly_job tz st now WEEKLY_GENERATION 6 (ai_generation_local_hour st) id2)"

definition pending_admin_job :: "instant \<Rightarrow> admin_job_request \<Rightarrow> bool" where
  "pending_admin_job stale j \<longleftrightarrow>
     aj_kind j \<in> fst ` set ADMIN_WORK_KINDS
     \<and> (aj_status j = ''pending''
        \<or> aj_status j = ''running'' \<and> (case aj_started_at j of None \<Rightarrow> True | Some t \<Rightarrow> t \<le> stale))"

definition enqueue_pending_admin_work ::
    "'a ai_db_scheme \<Rightarrow> instant \<Rightarrow> duration \<Rightarrow> 'a ai_db_scheme" where
  "enqueue_pending_admin_work db now stale_after =
     db\<lparr>ai_work := fold (\<lambda>j. insert_new aw_id
          (new_work (aj_id j) (the (map_of ADMIN_WORK_KINDS (aj_kind j))) (aj_created_at j)
             (Some (aj_created_at j))))
        (select (pending_admin_job (now - stale_after)) (admin_jobs db)) (ai_work db)\<rparr>"

section \<open>Leases\<close>

definition oldest_work :: "'a ai_db_scheme \<Rightarrow> ai_work_item option" where
  "oldest_work db =
     scalar_by (\<lambda>w. (aw_scheduled_at w, aw_kind w, aw_id w)) (\<lambda>w. aw_next_attempt_at w \<noteq> None) (ai_work db)"

definition latest_activity :: "'a ai_db_scheme \<Rightarrow> instant option" where
  "latest_activity db =
     (let beats = List.map_filter aw_heartbeat_at (ai_work db)
      in if beats = [] then None else Some (Max (set beats)))"

definition update_work :: "uuid \<Rightarrow> (ai_work_item \<Rightarrow> ai_work_item) \<Rightarrow> 'a ai_db_scheme \<Rightarrow> 'a ai_db_scheme" where
  "update_work i f db = db\<lparr>ai_work := update_where (\<lambda>w. aw_id w = i) f (ai_work db)\<rparr>"

definition lease_of :: "ai_work_item \<Rightarrow> uuid \<Rightarrow> ai_work_lease" where
  "lease_of w token =
     \<lparr>al_id = aw_id w, al_kind = aw_kind w, al_scheduled_at = aw_scheduled_at w, al_token = token\<rparr>"

definition live_lease :: "instant \<Rightarrow> ai_work_item \<Rightarrow> bool" where
  "live_lease stale w \<longleftrightarrow>
     aw_lease_token w \<noteq> None \<and> (case aw_heartbeat_at w of None \<Rightarrow> False | Some t \<Rightarrow> stale < t)"

definition claim_due_work ::
    "'a ai_db_scheme \<Rightarrow> instant \<Rightarrow> duration \<Rightarrow> duration \<Rightarrow> uuid \<Rightarrow> 'a ai_db_scheme \<times> ai_work_lease option" where
  "claim_due_work db now stale_after minimum_gap token =
     (if (case latest_activity db of None \<Rightarrow> False | Some t \<Rightarrow> now - minimum_gap < t) then (db, None)
      else (case oldest_work db of
              None \<Rightarrow> (db, None)
            | Some w \<Rightarrow>
                (if (case aw_next_attempt_at w of None \<Rightarrow> True | Some t \<Rightarrow> now < t)
                    \<or> live_lease (now - stale_after) w
                 then (db, None)
                 else (update_work (aw_id w)
                         (\<lambda>w. w\<lparr>aw_lease_token := Some token, aw_heartbeat_at := Some now,
                               aw_attempt_count := aw_attempt_count w + 1\<rparr>) db,
                       Some (lease_of w token)))))"

definition defer_due_work ::
    "'a ai_db_scheme \<Rightarrow> instant \<Rightarrow> duration \<Rightarrow> 'a ai_db_scheme \<times> bool" where
  "defer_due_work db now retry_after =
     (case oldest_work db of
        None \<Rightarrow> (db, False)
      | Some w \<Rightarrow>
          (if (case aw_next_attempt_at w of None \<Rightarrow> True | Some t \<Rightarrow> now < t) \<or> aw_lease_token w \<noteq> None
           then (db, False)
           else (update_work (aw_id w) (\<lambda>w. w\<lparr>aw_next_attempt_at := Some (now + retry_after)\<rparr>) db, True)))"

definition holds_lease :: "ai_work_lease \<Rightarrow> ai_work_item \<Rightarrow> bool" where
  "holds_lease l w \<longleftrightarrow> aw_id w = al_id l \<and> aw_lease_token w = Some (al_token l)"

definition fenced_update ::
    "'a ai_db_scheme \<Rightarrow> ai_work_lease \<Rightarrow> (ai_work_item \<Rightarrow> ai_work_item) \<Rightarrow> 'a ai_db_scheme \<times> bool" where
  "fenced_update db l f =
     (db\<lparr>ai_work := update_where (holds_lease l) f (ai_work db)\<rparr>,
      length (filter (holds_lease l) (ai_work db)) = 1)"

definition heartbeat_work :: "'a ai_db_scheme \<Rightarrow> ai_work_lease \<Rightarrow> instant \<Rightarrow> 'a ai_db_scheme \<times> bool" where
  "heartbeat_work db l now = fenced_update db l (\<lambda>w. w\<lparr>aw_heartbeat_at := Some now\<rparr>)"

definition complete_work :: "'a ai_db_scheme \<Rightarrow> ai_work_lease \<Rightarrow> instant \<Rightarrow> 'a ai_db_scheme \<times> bool" where
  "complete_work db l now =
     fenced_update db l (\<lambda>w. w\<lparr>aw_next_attempt_at := None, aw_lease_token := None, aw_heartbeat_at := Some now\<rparr>)"

definition retry_work ::
    "'a ai_db_scheme \<Rightarrow> ai_work_lease \<Rightarrow> instant \<Rightarrow> duration \<Rightarrow> 'a ai_db_scheme \<times> bool" where
  "retry_work db l now retry_after =
     fenced_update db l (\<lambda>w. w\<lparr>aw_next_attempt_at := Some (now + retry_after), aw_lease_token := None,
                            aw_heartbeat_at := Some now\<rparr>)"

definition lease_is_current :: "'a ai_db_scheme \<Rightarrow> ai_work_lease \<Rightarrow> bool" where
  "lease_is_current db l =
     (case scalar (\<lambda>w. aw_id w = al_id l) (ai_work db) of
        None \<Rightarrow> False
      | Some w \<Rightarrow> aw_lease_token w = Some (al_token l))"

definition require_current_lease :: "'a ai_db_scheme \<Rightarrow> ai_work_lease option \<Rightarrow> exc + unit" where
  "require_current_lease db lease =
     (case lease of
        None \<Rightarrow> Inr ()
      | Some l \<Rightarrow>
          (case scalar (\<lambda>w. aw_id w = al_id l) (ai_work db) of
             None \<Rightarrow> Inl AiWorkLeaseExpired
           | Some w \<Rightarrow> (if aw_lease_token w \<noteq> Some (al_token l) then Inl AiWorkLeaseExpired else Inr ())))"

section \<open>A cycle of the worker\<close>

datatype cycle_result = Gpu_busy | Gpu_process_busy | Idle | Leased ai_work_lease

text \<open>
  \<^verbatim>\<open>run_ai_work_cycle\<close> up to the lease it runs: whether the host lock was free and the
  device idle are the outcomes of the two probes.
\<close>

definition run_ai_work_cycle ::
    "tzdb \<Rightarrow> ai_settings \<Rightarrow> 'a ai_db_scheme \<Rightarrow> instant \<Rightarrow> uuid \<Rightarrow> uuid \<Rightarrow> bool \<Rightarrow> bool \<Rightarrow> uuid
       \<Rightarrow> exc + 'a ai_db_scheme \<times> cycle_result" where
  "run_ai_work_cycle tz st db now id1 id2 lock_free gpu_idle token =
     bind_exc (enqueue_due_weekly_work tz st db now id1 id2) (\<lambda>db.
     let db = enqueue_pending_admin_work db now (ai_stale_after st) in
     if \<not> lock_free then Inr (fst (defer_due_work db now (ai_retry_after st)), Gpu_busy)
     else if \<not> gpu_idle then Inr (fst (defer_due_work db now (ai_retry_after st)), Gpu_process_busy)
     else (case claim_due_work db now (ai_stale_after st) (ai_retry_after st) token of
             (db, None) \<Rightarrow> Inr (db, Idle)
           | (db, Some l) \<Rightarrow> Inr (db, Leased l)))"

text \<open>
  The database part of \<^verbatim>\<open>_run_lease\<close>: work that ended is completed, and when that is
  refused, or the work raised, the claim is released for a retry and the error raised on.
\<close>

definition finish_lease ::
    "'a ai_db_scheme \<Rightarrow> ai_work_lease \<Rightarrow> exc option \<Rightarrow> instant \<Rightarrow> duration \<Rightarrow> 'a ai_db_scheme \<times> (exc + string)" where
  "finish_lease db l failure now retry_after =
     (case failure of
        Some e \<Rightarrow> (fst (retry_work db l now retry_after), Inl e)
      | None \<Rightarrow>
          (case complete_work db l now of
             (db, True) \<Rightarrow> (db, Inr ''passed'')
           | (db, False) \<Rightarrow> (fst (retry_work db l now retry_after),
                             Inl (RuntimeError ''AI work lease expired before completion''))))"

section \<open>The guarded lock\<close>

text \<open>\<open>gl_held\<close> is whether the process still holds the operating system's lock.\<close>

record gpu_file_lock =
  gl_held :: bool
  gl_released :: bool
  gl_quarantined :: bool
  gl_release_verification_pending :: bool

definition acquired_lock :: gpu_file_lock where
  "acquired_lock = \<lparr>gl_held = True, gl_released = False, gl_quarantined = False,
     gl_release_verification_pending = False\<rparr>"

definition lock_quarantine :: "gpu_file_lock \<Rightarrow> exc + gpu_file_lock" where
  "lock_quarantine g =
     (if gl_released g then Inl (RuntimeError ''Cannot quarantine a released GPU lock'')
      else Inr (g\<lparr>gl_quarantined := True\<rparr>))"

definition lock_release :: "gpu_file_lock \<Rightarrow> exc + gpu_file_lock" where
  "lock_release g =
     (if gl_released g \<or> gl_quarantined g then Inr g
      else if gl_release_verification_pending g then lock_quarantine g
      else Inr (g\<lparr>gl_held := False, gl_released := True\<rparr>))"

definition require_verified_release :: "gpu_file_lock \<Rightarrow> exc + gpu_file_lock" where
  "require_verified_release g =
     (if gl_released g \<or> gl_quarantined g
      then Inl (RuntimeError ''Cannot arm cleanup verification on an unavailable GPU lock'')
      else Inr (g\<lparr>gl_release_verification_pending := True\<rparr>))"

definition verify_release :: "gpu_file_lock \<Rightarrow> exc + gpu_file_lock" where
  "verify_release g =
     (if gl_released g \<or> gl_quarantined g
      then Inl (RuntimeError ''Cannot clear an unavailable GPU lock quarantine'')
      else Inr (g\<lparr>gl_release_verification_pending := False\<rparr>))"

section \<open>Waiting for the model server to unload\<close>

text \<open>
  What the HTTP client and the JSON decoder make of one poll: an error the loop retries (transport,
  status, type or value error), a document of the wrong shape, or the loaded models, each with
  whether its metadata names it.
\<close>

datatype poll = Poll_failed | Poll_malformed | Loaded "bool list"

definition request_model_unloads :: "bool list \<Rightarrow> exc + unit" where
  "request_model_unloads models =
     guard (list_all id models) (RuntimeError ''Ollama process response has invalid model metadata'')"

text \<open>
  The loop of \<^verbatim>\<open>_wait_for_ollama_idle\<close>: the monotonic clock as it is read before the
  \<open>i\<close>-th poll, and what the polls answer. It might not return, so its result is an option.
\<close>

partial_function (option) wait_for_idle ::
    "(nat \<Rightarrow> duration) \<Rightarrow> (nat \<Rightarrow> poll) \<Rightarrow> duration \<Rightarrow> nat \<Rightarrow> (exc + nat) option" where
  "wait_for_idle clock polls deadline i =
     (if clock i < deadline then
        (case polls i of
           Poll_failed \<Rightarrow> wait_for_idle clock polls deadline (Suc i)
         | Poll_malformed \<Rightarrow> Some (Inl (RuntimeError ''Ollama process response is incomplete''))
         | Loaded models \<Rightarrow>
             (if models = [] then Some (Inr i)
              else (case request_model_unloads models of
                      Inl e \<Rightarrow> Some (Inl e)
                    | Inr _ \<Rightarrow> wait_for_idle clock polls deadline (Suc i))))
      else Some (Inl (RuntimeError ''Ollama kept a model loaded beyond the GPU release deadline'')))"

definition wait_for_ollama_idle :: "(nat \<Rightarrow> duration) \<Rightarrow> (nat \<Rightarrow> poll) \<Rightarrow> int \<Rightarrow> (exc + nat) option" where
  "wait_for_ollama_idle clock polls timeout_seconds =
     wait_for_idle clock polls (clock 0 + timeout_seconds * second) 0"

end
