(* ===== verification/AI_Safety.thy ===== *)
theory AI_Safety
  imports AI_Queue
begin

text \<open>
  The shared-GPU queue as a state machine: several workers, each transaction of any of them a step,
  in every order the clock allows. Invariants by rule induction give the cadence of claims and the
  fencing of replaced leases.
\<close>

section \<open>The system\<close>

text \<open>
  The database, the server's clock, and - a history variable - every lease ever given out with the
  time of its claim, newest first.
\<close>

record ai_sys =
  sys_db :: ai_db
  sys_clock :: instant
  sys_claims :: "(ai_work_lease \<times> instant) list"

inductive ai_step :: "duration \<Rightarrow> duration \<Rightarrow> ai_sys \<Rightarrow> ai_sys \<Rightarrow> bool"
  for stale gap where
  weekly: "sys_clock s \<le> now \<Longrightarrow> enqueue_due_weekly_work tz st (sys_db s) now id1 id2 = Inr db'
    \<Longrightarrow> ai_step stale gap s (s\<lparr>sys_db := db', sys_clock := now\<rparr>)"
| admin: "sys_clock s \<le> now
    \<Longrightarrow> ai_step stale gap s (s\<lparr>sys_db := enqueue_pending_admin_work (sys_db s) now stale, sys_clock := now\<rparr>)"
| claim: "sys_clock s \<le> now \<Longrightarrow> token \<notin> (\<lambda>(l, t). al_token l) ` set (sys_claims s)
    \<Longrightarrow> claim_due_work (sys_db s) now stale gap token = (db', Some l)
    \<Longrightarrow> ai_step stale gap s \<lparr>sys_db = db', sys_clock = now, sys_claims = (l, now) # sys_claims s\<rparr>"
| defer_work: "sys_clock s \<le> now
    \<Longrightarrow> ai_step stale gap s (s\<lparr>sys_db := fst (defer_due_work (sys_db s) now gap), sys_clock := now\<rparr>)"
| heartbeat: "sys_clock s \<le> now
    \<Longrightarrow> ai_step stale gap s (s\<lparr>sys_db := fst (heartbeat_work (sys_db s) l now), sys_clock := now\<rparr>)"
| finish: "sys_clock s \<le> now
    \<Longrightarrow> ai_step stale gap s (s\<lparr>sys_db := fst (finish_lease (sys_db s) l failure now gap), sys_clock := now\<rparr>)"

inductive_cases ai_stepE: "ai_step stale gap s s'"

section \<open>What a transaction does to an item\<close>

text \<open>
  Every transaction but a claim leaves of each item its identity, keeps or clears its token, and
  only moves its heartbeat to the present; new items have neither.
\<close>

definition same_work :: "instant \<Rightarrow> ai_work_item \<Rightarrow> ai_work_item \<Rightarrow> bool" where
  "same_work now w w' \<longleftrightarrow> aw_id w' = aw_id w \<and> aw_kind w' = aw_kind w \<and> aw_scheduled_at w' = aw_scheduled_at w
     \<and> (aw_lease_token w' = aw_lease_token w \<or> aw_lease_token w' = None)
     \<and> (aw_heartbeat_at w' = aw_heartbeat_at w \<or> aw_heartbeat_at w' = Some now)"

definition quiet_change :: "instant \<Rightarrow> ai_work_item list \<Rightarrow> ai_work_item list \<Rightarrow> bool" where
  "quiet_change now rows rows' \<longleftrightarrow>
     (\<exists>mid new. rows' = mid @ new \<and> list_all2 (same_work now) rows mid
        \<and> (\<forall>w \<in> set new. aw_lease_token w = None \<and> aw_heartbeat_at w = None)
        \<and> (distinct (map aw_id rows) \<longrightarrow> distinct (map aw_id rows')))"

lemma same_work_refl [simp]: "same_work now w w"
  by (simp add: same_work_def)

lemma quiet_refl [simp]: "quiet_change now rows rows"
  unfolding quiet_change_def
  by (rule exI [of _ rows], rule exI [of _ "[]"]) (simp add: list_all2_refl)

lemma quiet_update:
  assumes "\<And>w. p w \<Longrightarrow> same_work now w (f w)"
  shows "quiet_change now rows (update_where p f rows)"
proof -
  have "list_all2 (same_work now) rows (update_where p f rows)"
    unfolding update_where_def by (induction rows) (simp_all add: assms)
  moreover have "map aw_id (update_where p f rows) = map aw_id rows"
    using assms by (intro map_update_where) (simp add: same_work_def)
  ultimately show ?thesis
    unfolding quiet_change_def by (intro exI [of _ "update_where p f rows"] exI [of _ "[]"]) simp
qed

lemma quiet_append:
  assumes "quiet_change now rows rows'" "aw_lease_token w = None" "aw_heartbeat_at w = None"
    and "aw_id w \<notin> aw_id ` set rows'"
  shows "quiet_change now rows (rows' @ [w])"
proof -
  from assms(1) obtain mid new where "rows' = mid @ new" "list_all2 (same_work now) rows mid"
      "\<forall>w \<in> set new. aw_lease_token w = None \<and> aw_heartbeat_at w = None"
      "distinct (map aw_id rows) \<longrightarrow> distinct (map aw_id rows')"
    by (auto simp: quiet_change_def)
  with assms(2-4) show ?thesis
    unfolding quiet_change_def by (intro exI [of _ mid] exI [of _ "new @ [w]"]) auto
qed

lemma quiet_insert_work:
  "quiet_change now rows rows' \<Longrightarrow> aw_lease_token w = None \<Longrightarrow> aw_heartbeat_at w = None
     \<Longrightarrow> quiet_change now rows (insert_work w rows')"
  by (simp add: insert_work_def quiet_append)

lemma quiet_insert_new:
  "quiet_change now rows rows' \<Longrightarrow> aw_lease_token w = None \<Longrightarrow> aw_heartbeat_at w = None
     \<Longrightarrow> quiet_change now rows (insert_new aw_id w rows')"
  by (simp add: insert_new_def quiet_append)

lemma quiet_weekly:
  assumes "enqueue_due_weekly_work tz st db now id1 id2 = Inr db'"
  shows "quiet_change now (ai_work db) (ai_work db')"
proof -
  have one: "quiet_change now rows (ai_work d2)"
    if "enqueue_weekly_job tz st now kind wd h i d = Inr d2" "quiet_change now rows (ai_work d)"
    for rows kind wd h i and d d2 :: "'a ai_db_scheme"
    using that by (auto simp: enqueue_weekly_job_def bind_exc_Inr_iff Let_def
        intro!: quiet_insert_work simp: new_work_def)
  from assms show ?thesis
    by (auto simp: enqueue_due_weekly_work_def bind_exc_Inr_iff intro: one one [OF _ quiet_refl])
qed

lemma quiet_admin: "quiet_change now (ai_work db) (ai_work (enqueue_pending_admin_work db now stale))"
proof -
  have "quiet_change now rows (fold (\<lambda>j. insert_new aw_id (new_work (f j) (g j) (h j) (k j))) js rows')"
    if "quiet_change now rows rows'" for rows rows' js and f g h k :: "admin_job_request \<Rightarrow> _"
    using that by (induction js arbitrary: rows') (simp_all add: quiet_insert_new new_work_def)
  then show ?thesis by (simp add: enqueue_pending_admin_work_def)
qed

lemma quiet_defer: "quiet_change now (ai_work db) (ai_work (fst (defer_due_work db now gap)))"
  by (auto simp: defer_due_work_def update_work_def same_work_def split: option.splits intro!: quiet_update)

lemma quiet_fenced:
  "(\<And>w. holds_lease l w \<Longrightarrow> same_work now w (f w)) \<Longrightarrow> quiet_change now (ai_work db) (ai_work (fst (fenced_update db l f)))"
  by (simp add: fenced_update_def quiet_update)

lemma quiet_heartbeat: "quiet_change now (ai_work db) (ai_work (fst (heartbeat_work db l now)))"
  unfolding heartbeat_work_def by (rule quiet_fenced) (simp add: same_work_def)

text \<open>A second fenced update after a refused one finds nothing to do.\<close>

lemma fenced_none:
  "\<forall>w \<in> set (ai_work db). \<not> holds_lease l w \<Longrightarrow> fenced_update db l f = (db, False)"
  by (simp add: fenced_update_def update_where_none)

lemma quiet_finish:
  assumes "distinct (map aw_id (ai_work db))"
  shows "quiet_change now (ai_work db) (ai_work (fst (finish_lease db l failure now gap)))"
proof (cases failure)
  case (Some e)
  have "quiet_change now (ai_work db) (ai_work (fst (retry_work db l now gap)))"
    unfolding retry_work_def by (rule quiet_fenced) (simp add: same_work_def)
  then show ?thesis by (simp add: finish_lease_def Some)
next
  case None
  have c: "quiet_change now (ai_work db) (ai_work (fst (complete_work db l now)))"
    unfolding complete_work_def by (rule quiet_fenced) (simp add: same_work_def)
  show ?thesis
  proof (cases "\<exists>w \<in> set (ai_work db). holds_lease l w")
    case False
    then have "fst (finish_lease db l None now gap) = db"
      by (simp add: finish_lease_def complete_work_def retry_work_def fenced_none)
    then show ?thesis by (simp add: None)
  next
    case True
    then obtain w where w: "w \<in> set (ai_work db)" "holds_lease l w" by blast
    have "distinct (filter (holds_lease l) (ai_work db))"
      using assms by (simp add: distinct_map)
    moreover have "set (filter (holds_lease l) (ai_work db)) = {w}"
      using w assms by (auto simp: holds_lease_def distinct_map inj_on_def)
    ultimately have "length (filter (holds_lease l) (ai_work db)) = 1"
      by (simp flip: distinct_card)
    then have "fst (finish_lease db l None now gap) = fst (complete_work db l now)"
      by (simp add: finish_lease_def complete_work_def fenced_update_def)
    with c show ?thesis by (simp add: None)
  qed
qed

section \<open>The invariant\<close>

definition token_owner :: "(ai_work_lease \<times> instant) list \<Rightarrow> ai_work_item \<Rightarrow> bool" where
  "token_owner claims w \<longleftrightarrow> (\<forall>t. aw_lease_token w = Some t \<longrightarrow>
     (\<exists>l c. (l, c) \<in> set claims \<and> al_token l = t \<and> al_id l = aw_id w))"

definition ai_inv :: "duration \<Rightarrow> ai_sys \<Rightarrow> bool" where
  "ai_inv gap s \<longleftrightarrow>
     distinct (map aw_id (ai_work (sys_db s)))
     \<and> distinct (map (\<lambda>(l, c). al_token l) (sys_claims s))
     \<and> list_all (token_owner (sys_claims s)) (ai_work (sys_db s))
     \<and> (\<forall>w \<in> set (ai_work (sys_db s)). \<forall>h. aw_heartbeat_at w = Some h \<longrightarrow> h \<le> sys_clock s)
     \<and> (\<forall>(l, c) \<in> set (sys_claims s). \<exists>w \<in> set (ai_work (sys_db s)). \<exists>h. aw_heartbeat_at w = Some h \<and> c \<le> h)
     \<and> sorted_wrt (\<lambda>(l1, t1) (l2, t2). t2 + gap \<le> t1) (sys_claims s)"

lemma ai_invD:
  assumes "ai_inv gap s"
  shows ai_ids: "distinct (map aw_id (ai_work (sys_db s)))"
    and ai_tokens: "distinct (map (\<lambda>(l, c). al_token l) (sys_claims s))"
    and ai_owner: "w \<in> set (ai_work (sys_db s)) \<Longrightarrow> token_owner (sys_claims s) w"
    and ai_beat: "w \<in> set (ai_work (sys_db s)) \<Longrightarrow> aw_heartbeat_at w = Some h \<Longrightarrow> h \<le> sys_clock s"
    and ai_claim: "(l, c) \<in> set (sys_claims s) \<Longrightarrow>
      \<exists>w \<in> set (ai_work (sys_db s)). \<exists>h. aw_heartbeat_at w = Some h \<and> c \<le> h"
    and ai_apart: "sorted_wrt (\<lambda>(l1, t1) (l2, t2). t2 + gap \<le> t1) (sys_claims s)"
  using assms by (auto simp: ai_inv_def list_all_iff)

lemma ai_invI:
  assumes "distinct (map aw_id (ai_work (sys_db s)))"
    and "distinct (map (\<lambda>(l, c). al_token l) (sys_claims s))"
    and "\<And>w. w \<in> set (ai_work (sys_db s)) \<Longrightarrow> token_owner (sys_claims s) w"
    and "\<And>w h. w \<in> set (ai_work (sys_db s)) \<Longrightarrow> aw_heartbeat_at w = Some h \<Longrightarrow> h \<le> sys_clock s"
    and "\<And>l c. (l, c) \<in> set (sys_claims s) \<Longrightarrow>
      \<exists>w \<in> set (ai_work (sys_db s)). \<exists>h. aw_heartbeat_at w = Some h \<and> c \<le> h"
    and "sorted_wrt (\<lambda>(l1, t1) (l2, t2). t2 + gap \<le> t1) (sys_claims s)"
  shows "ai_inv gap s"
  unfolding ai_inv_def list_all_iff using assms by blast

lemma quiet_member:
  assumes "quiet_change now rows rows'" "w' \<in> set rows'"
  obtains (old) w where "w \<in> set rows" "same_work now w w'"
  | (new) "aw_lease_token w' = None" "aw_heartbeat_at w' = None"
  using assms unfolding quiet_change_def list_all2_conv_all_nth in_set_conv_nth
  by (metis in_set_conv_nth nth_append_left Un_iff set_append)

lemma quiet_kept:
  assumes "quiet_change now rows rows'" "w \<in> set rows"
  obtains w' where "w' \<in> set rows'" "same_work now w w'"
proof -
  from assms(1) obtain mid new where m: "rows' = mid @ new" "list_all2 (same_work now) rows mid"
    by (auto simp: quiet_change_def)
  from assms(2) obtain i where "i < length rows" "rows ! i = w" by (auto simp: in_set_conv_nth)
  with m have "mid ! i \<in> set rows'" "same_work now w (mid ! i)"
    by (auto simp: list_all2_conv_all_nth)
  then show thesis by (rule that)
qed

lemma ai_inv_quiet:
  assumes "ai_inv gap s" "sys_clock s \<le> now" "quiet_change now (ai_work (sys_db s)) (ai_work db')"
  shows "ai_inv gap (s\<lparr>sys_db := db', sys_clock := now\<rparr>)"
proof -
  let ?old = "ai_work (sys_db s)" and ?new = "ai_work db'"
  have ids: "distinct (map aw_id ?new)"
    using assms(1,3) by (auto simp: ai_inv_def quiet_change_def)
  have owner: "token_owner (sys_claims s) w'" if "w' \<in> set ?new" for w'
    using assms(3) that
  proof (cases rule: quiet_member)
    case (old w)
    then show ?thesis using ai_owner [OF assms(1) old(1)] by (auto simp: token_owner_def same_work_def)
  qed (simp add: token_owner_def)
  have beat: "h \<le> now" if "w' \<in> set ?new" "aw_heartbeat_at w' = Some h" for w' h
    using assms(3) that(1)
  proof (cases rule: quiet_member)
    case (old w)
    then show ?thesis using ai_beat [OF assms(1) old(1), of h] assms(2) that(2) by (auto simp: same_work_def)
  qed (use that(2) in simp)
  have claims: "\<exists>w \<in> set ?new. \<exists>h. aw_heartbeat_at w = Some h \<and> c \<le> h"
    if lc: "(l, c) \<in> set (sys_claims s)" for l c
  proof -
    obtain w h where w: "w \<in> set ?old" "aw_heartbeat_at w = Some h" "c \<le> h"
      using ai_claim [OF assms(1) lc] by blast
    obtain w' where "w' \<in> set ?new" "same_work now w w'" using assms(3) w(1) by (rule quiet_kept)
    moreover have "h \<le> now" using ai_beat [OF assms(1) w(1,2)] assms(2) by simp
    ultimately show ?thesis using w(2,3) by (intro bexI [of _ w']) (auto simp: same_work_def)
  qed
  show ?thesis
    by (rule ai_invI) (use ids owner beat claims ai_tokens [OF assms(1)] ai_apart [OF assms(1)] in simp_all)
qed

lemma claim_Some:
  assumes "claim_due_work db now stale gap token = (db', Some l)"
  obtains w where "w \<in> set (ai_work db)" "l = lease_of w token"
    "\<And>w h. w \<in> set (ai_work db) \<Longrightarrow> aw_heartbeat_at w = Some h \<Longrightarrow> h \<le> now - gap"
    "ai_work db' = update_where (\<lambda>x. aw_id x = aw_id w)
       (\<lambda>w. w\<lparr>aw_lease_token := Some token, aw_heartbeat_at := Some now,
              aw_attempt_count := aw_attempt_count w + 1\<rparr>) (ai_work db)"
proof -
  have quiet: "\<not> (case latest_activity db of None \<Rightarrow> False | Some t \<Rightarrow> now - gap < t)"
    using assms by (auto simp: claim_due_work_def split: if_splits)
  have "h \<le> now - gap" if "w \<in> set (ai_work db)" "aw_heartbeat_at w = Some h" for w h
  proof -
    have "h \<in> set (List.map_filter aw_heartbeat_at (ai_work db))"
      using that by (force simp: List.map_filter_def)
    then have "latest_activity db = Some (Max (set (List.map_filter aw_heartbeat_at (ai_work db))))"
        "h \<le> Max (set (List.map_filter aw_heartbeat_at (ai_work db)))"
      by (auto simp: latest_activity_def Let_def)
    with quiet show ?thesis by simp
  qed
  moreover obtain w where w: "oldest_work db = Some w" "l = lease_of w token"
      "db' = update_work (aw_id w) (\<lambda>w. w\<lparr>aw_lease_token := Some token, aw_heartbeat_at := Some now,
              aw_attempt_count := aw_attempt_count w + 1\<rparr>) db"
    using assms quiet by (auto simp: claim_due_work_def split: option.splits if_splits)
  moreover have "w \<in> set (ai_work db)" using w(1) scalar_by_Some(1) by (fastforce simp: oldest_work_def)
  ultimately show thesis using that by (simp add: update_work_def)
qed

lemma ai_inv_claim:
  assumes "ai_inv gap s" "sys_clock s \<le> now" "token \<notin> (\<lambda>(l, t). al_token l) ` set (sys_claims s)"
    and "claim_due_work (sys_db s) now stale gap token = (db', Some l)"
  shows "ai_inv gap \<lparr>sys_db = db', sys_clock = now, sys_claims = (l, now) # sys_claims s\<rparr>"
proof -
  obtain w where w: "w \<in> set (ai_work (sys_db s))" "l = lease_of w token"
      "\<And>w h. w \<in> set (ai_work (sys_db s)) \<Longrightarrow> aw_heartbeat_at w = Some h \<Longrightarrow> h \<le> now - gap"
      "ai_work db' = update_where (\<lambda>x. aw_id x = aw_id w)
       (\<lambda>w. w\<lparr>aw_lease_token := Some token, aw_heartbeat_at := Some now,
              aw_attempt_count := aw_attempt_count w + 1\<rparr>) (ai_work (sys_db s))"
    using assms(4) by (rule claim_Some) blast
  let ?w = "w\<lparr>aw_lease_token := Some token, aw_heartbeat_at := Some now, aw_attempt_count := aw_attempt_count w + 1\<rparr>"
  have rows: "set (ai_work db') = {x \<in> set (ai_work (sys_db s)). aw_id x \<noteq> aw_id w} \<union> {?w}"
  proof -
    have "{x \<in> set (ai_work (sys_db s)). aw_id x = aw_id w} = {w}"
      using ai_ids [OF assms(1)] w(1) by (auto simp: distinct_map inj_on_def)
    then show ?thesis unfolding w(4) set_update_where by auto
  qed
  have "map aw_id (ai_work db') = map aw_id (ai_work (sys_db s))"
    unfolding w(4) by (rule map_update_where) simp
  then have ids: "distinct (map aw_id (ai_work db'))" using assms(1) by (simp add: ai_inv_def)
  have lease: "al_token l = token" "al_id l = aw_id w" by (simp_all add: w(2) lease_of_def)
  have owner: "token_owner ((l, now) # sys_claims s) x" if x: "x \<in> set (ai_work db')" for x
  proof (cases "x = ?w")
    case True
    with lease show ?thesis by (auto simp: token_owner_def)
  next
    case False
    with x have "x \<in> set (ai_work (sys_db s))" unfolding rows by blast
    from ai_owner [OF assms(1) this] show ?thesis unfolding token_owner_def by (meson list.set_intros(2))
  qed
  have past: "c + gap \<le> now" if lc: "(l', c) \<in> set (sys_claims s)" for l' c
  proof -
    obtain x h where "x \<in> set (ai_work (sys_db s))" "aw_heartbeat_at x = Some h" "c \<le> h"
      using ai_claim [OF assms(1) lc] by blast
    from w(3) [OF this(1,2)] this(3) show ?thesis by simp
  qed
  have beat: "h \<le> now" if x: "x \<in> set (ai_work db')" "aw_heartbeat_at x = Some h" for x h
  proof (cases "x = ?w")
    case True
    with x(2) show ?thesis by simp
  next
    case False
    with x(1) have "x \<in> set (ai_work (sys_db s))" unfolding rows by blast
    from ai_beat [OF assms(1) this x(2)] assms(2) show ?thesis by simp
  qed
  have old: "c \<le> now" if "(l', c) \<in> set (sys_claims s)" for l' c
    using ai_claim [OF assms(1) that] ai_beat [OF assms(1)] assms(2) by fastforce
  have claims: "\<exists>x \<in> set (ai_work db'). \<exists>h. aw_heartbeat_at x = Some h \<and> c \<le> h"
    if "(l', c) \<in> set ((l, now) # sys_claims s)" for l' c
  proof (rule bexI [of _ ?w])
    show "\<exists>h. aw_heartbeat_at ?w = Some h \<and> c \<le> h" using that old by auto
  qed (simp add: rows)
  have tokens: "distinct (map (\<lambda>(l, c). al_token l) ((l, now) # sys_claims s))"
    using ai_tokens [OF assms(1)] assms(3) by (simp add: lease)
  have apart: "sorted_wrt (\<lambda>(l1, t1) (l2, t2). t2 + gap \<le> t1) ((l, now) # sys_claims s)"
    using ai_apart [OF assms(1)] past by auto
  show ?thesis
    by (rule ai_invI) (use ids owner beat claims tokens apart in simp_all)
qed

lemma ai_inv_step: "ai_step stale gap s s' \<Longrightarrow> ai_inv gap s \<Longrightarrow> ai_inv gap s'"
proof (induction rule: ai_step.induct)
  case (weekly s now tz st id1 id2 db')
  then show ?case by (intro ai_inv_quiet quiet_weekly)
next
  case (admin s now)
  then show ?case by (intro ai_inv_quiet quiet_admin)
next
  case (claim s now token db' l)
  then show ?case by (intro ai_inv_claim)
next
  case (defer_work s now)
  then show ?case by (intro ai_inv_quiet quiet_defer)
next
  case (heartbeat s now l)
  then show ?case by (intro ai_inv_quiet quiet_heartbeat)
next
  case (finish s now l failure)
  then show ?case by (intro ai_inv_quiet quiet_finish ai_ids)
qed

lemma ai_inv_run: "(ai_step stale gap)\<^sup>*\<^sup>* s s' \<Longrightarrow> ai_inv gap s \<Longrightarrow> ai_inv gap s'"
  by (induction rule: rtranclp_induct) (auto intro: ai_inv_step)

section \<open>Cadence\<close>

text \<open>
  C14 The shared GPU is claimed at most once per gap (six hours): whatever enqueues, claims,
  deferrals, heartbeats, completions and crashes interleave, any two claims ever granted, by any
  workers and for any items, are at least the minimum gap apart.
\<close>

theorem gpu_claims_apart:
  assumes "(ai_step stale gap)\<^sup>*\<^sup>* s0 s" "sys_claims s0 = []"
    and "distinct (map aw_id (ai_work (sys_db s0)))"
    and "\<And>w. w \<in> set (ai_work (sys_db s0)) \<Longrightarrow> aw_lease_token w = None \<and> aw_heartbeat_at w = None"
    and "i < j" "j < length (sys_claims s)"
  shows "snd (sys_claims s ! j) + gap \<le> snd (sys_claims s ! i)"
proof -
  have "ai_inv gap s0"
    by (rule ai_invI) (use assms(2-4) in \<open>auto simp: token_owner_def\<close>)
  then have "sorted_wrt (\<lambda>(l1, t1) (l2, t2). t2 + gap \<le> t1) (sys_claims s)"
    using ai_inv_run [OF assms(1)] ai_apart by blast
  from sorted_wrt_nth_less [OF this assms(5,6)] show ?thesis by (simp add: split_beta)
qed

section \<open>Fencing\<close>

lemma lease_current_iff:
  assumes "distinct (map aw_id (ai_work db))"
  shows "lease_is_current db l \<longleftrightarrow> (\<exists>w \<in> set (ai_work db). holds_lease l w)"
proof
  assume "lease_is_current db l"
  then show "\<exists>w \<in> set (ai_work db). holds_lease l w"
    by (auto simp: lease_is_current_def holds_lease_def split: option.splits dest!: scalar_Some)
next
  assume "\<exists>w \<in> set (ai_work db). holds_lease l w"
  then obtain w where w: "w \<in> set (ai_work db)" "holds_lease l w" by blast
  have "scalar (\<lambda>w. aw_id w = al_id l) (ai_work db) = Some w"
  proof (rule scalar_unique)
    fix y assume "y \<in> set (ai_work db)" "aw_id y = al_id l"
    with w assms show "y = w" by (simp add: holds_lease_def distinct_map inj_on_def)
  qed (use w in \<open>simp_all add: holds_lease_def\<close>)
  with w(2) show "lease_is_current db l" by (simp add: lease_is_current_def holds_lease_def)
qed

lemma dead_quiet:
  assumes "quiet_change now rows rows'" "\<forall>w \<in> set rows. \<not> holds_lease l w"
  shows "\<forall>w \<in> set rows'. \<not> holds_lease l w"
proof
  fix w' assume "w' \<in> set rows'"
  with assms(1) show "\<not> holds_lease l w'"
    by (cases rule: quiet_member) (use assms(2) in \<open>auto simp: same_work_def holds_lease_def\<close>)
qed

lemma dead_step:
  assumes "ai_step stale gap s s'" "ai_inv gap s" "l \<in> fst ` set (sys_claims s)"
    and "\<forall>w \<in> set (ai_work (sys_db s)). \<not> holds_lease l w"
  shows "(\<forall>w \<in> set (ai_work (sys_db s')). \<not> holds_lease l w) \<and> l \<in> fst ` set (sys_claims s')"
  using assms
proof (induction rule: ai_step.induct)
  case (weekly s now tz st id1 id2 db')
  then show ?case using dead_quiet [OF quiet_weekly] by simp
next
  case (admin s now)
  then show ?case using dead_quiet [OF quiet_admin] by simp
next
  case (claim s now token db' l')
  obtain w :: ai_work_item where "ai_work db' = update_where (\<lambda>x. aw_id x = aw_id w)
       (\<lambda>w. w\<lparr>aw_lease_token := Some token, aw_heartbeat_at := Some now,
              aw_attempt_count := aw_attempt_count w + 1\<rparr>) (ai_work (sys_db s))"
    using claim(3) by (rule claim_Some)
  moreover have "al_token l \<noteq> token" using claim(2,5) by force
  ultimately show ?case using claim(5,6) by (auto simp: set_update_where holds_lease_def)
next
  case (defer_work s now)
  then show ?case using dead_quiet [OF quiet_defer] by simp
next
  case (heartbeat s now l')
  then show ?case using dead_quiet [OF quiet_heartbeat] by simp
next
  case (finish s now l' failure)
  then show ?case using dead_quiet [OF quiet_finish [OF ai_ids]] by simp
qed

lemma dead_run:
  assumes "(ai_step stale gap)\<^sup>*\<^sup>* s s'" "ai_inv gap s" "l \<in> fst ` set (sys_claims s)"
    and "\<forall>w \<in> set (ai_work (sys_db s)). \<not> holds_lease l w"
  shows "ai_inv gap s' \<and> l \<in> fst ` set (sys_claims s') \<and> (\<forall>w \<in> set (ai_work (sys_db s')). \<not> holds_lease l w)"
  using assms
proof (induction rule: rtranclp_induct)
  case base
  then show ?case by blast
next
  case (step s1 s2)
  then show ?case using dead_step ai_inv_step by blast
qed

text \<open>
  C27 A worker whose claim was finished or taken over can do no more harm: once a lease ever granted
  is not the current one, it never becomes current again, in whatever steps follow. Its heartbeats,
  completions and retries leave the database as it is and report failure, its result is not
  committed, and finishing under it fails.
\<close>

theorem replaced_lease_fenced:
  assumes "ai_inv gap s" "(l, c) \<in> set (sys_claims s)" "\<not> lease_is_current (sys_db s) l"
    and "(ai_step stale gap)\<^sup>*\<^sup>* s s'"
  shows "\<not> lease_is_current (sys_db s') l
    \<and> heartbeat_work (sys_db s') l now = (sys_db s', False) \<and> complete_work (sys_db s') l now = (sys_db s', False)
    \<and> retry_work (sys_db s') l now delay = (sys_db s', False)
    \<and> require_current_lease (sys_db s') (Some l) = Inl AiWorkLeaseExpired
    \<and> (\<exists>e. finish_lease (sys_db s') l failure now delay = (sys_db s', Inl e))"
proof -
  have "\<forall>w \<in> set (ai_work (sys_db s)). \<not> holds_lease l w"
    using assms(3) lease_current_iff [OF ai_ids [OF assms(1)]] by blast
  moreover have "l \<in> fst ` set (sys_claims s)" using assms(2) by force
  ultimately have inv: "ai_inv gap s'" and dead: "\<forall>w \<in> set (ai_work (sys_db s')). \<not> holds_lease l w"
    using dead_run [OF assms(4,1)] by blast+
  have stale: "\<not> lease_is_current (sys_db s') l"
    using dead lease_current_iff [OF ai_ids [OF inv]] by blast
  moreover have "require_current_lease (sys_db s') (Some l) = Inl AiWorkLeaseExpired"
    using stale by (auto simp: lease_is_current_def require_current_lease_def split: option.splits)
  ultimately show ?thesis
    by (simp add: heartbeat_work_def complete_work_def retry_work_def finish_lease_def fenced_none [OF dead]
        split: option.splits)
qed

section \<open>The guarded lock\<close>

datatype lock_op = Release | Require_verified | Verify | Quarantine

fun handle_lock :: "gpu_file_lock \<Rightarrow> lock_op \<Rightarrow> exc + gpu_file_lock \<times> unit" where
  "handle_lock g Release = bind_exc (lock_release g) (\<lambda>g. Inr (g, ()))"
| "handle_lock g Require_verified = bind_exc (require_verified_release g) (\<lambda>g. Inr (g, ()))"
| "handle_lock g Verify = bind_exc (verify_release g) (\<lambda>g. Inr (g, ()))"
| "handle_lock g Quarantine = bind_exc (lock_quarantine g) (\<lambda>g. Inr (g, ()))"

definition handle_unverified :: "gpu_file_lock \<Rightarrow> lock_op \<Rightarrow> exc + gpu_file_lock \<times> unit" where
  "handle_unverified g op = (if op = Verify then Inl (RuntimeError []) else handle_lock g op)"

definition retained :: "gpu_file_lock \<Rightarrow> bool" where
  "retained g \<longleftrightarrow> gl_held g \<and> \<not> gl_released g \<and> (gl_release_verification_pending g \<or> gl_quarantined g)"

interpretation gpu_lock: preserving handle_unverified retained
proof
  fix g g' op r
  assume "retained g" "handle_unverified g op = Inr (g', r)"
  then show "retained g'"
    by (cases op) (auto simp: handle_unverified_def retained_def lock_release_def lock_quarantine_def
        require_verified_release_def bind_exc_Inr_iff split: if_splits)
qed

lemma run_unverified: "Verify \<notin> set ops \<Longrightarrow> run_ops handle_lock g ops = run_ops handle_unverified g ops"
  by (induction ops arbitrary: g) (auto simp: step_def handle_unverified_def)

text \<open>
  C28 The host's GPU lock is not given back before the cleanup is proved: after
  \<open>require_verified_release\<close>, any sequence of releases (also by the context manager when an
  exception leaves the block), quarantines and repeated requests without a verification keeps the
  operating system's lock held; a quarantine is final, even a later verification cannot undo it.
\<close>

theorem gpu_lock_retained:
  assumes "require_verified_release g = Inr g'" "gl_held g" "Verify \<notin> set ops"
  shows "gl_held (run_ops handle_lock g' ops) \<and> \<not> gl_released (run_ops handle_lock g' ops)
    \<and> (gl_quarantined (run_ops handle_lock g' ops)
         \<longrightarrow> (\<forall>more_ops. gl_held (run_ops handle_lock (run_ops handle_lock g' ops) more_ops)))"
proof -
  have "retained g'"
    using assms(1,2) by (auto simp: require_verified_release_def retained_def split: if_splits)
  then have kept: "retained (run_ops handle_lock g' ops)"
    unfolding run_unverified [OF assms(3)] by (rule gpu_lock.inv_run)
  have final: "gl_held (run_ops handle_lock h more_ops)"
    if "gl_held h" "\<not> gl_released h" "gl_quarantined h" for h more_ops
    using that
  proof (induction more_ops arbitrary: h)
    case Nil
    then show ?case by simp
  next
    case (Cons op more_ops)
    have "step handle_lock h op = h \<or> step handle_lock h op = h\<lparr>gl_quarantined := True\<rparr>"
      using Cons.prems by (cases op) (auto simp: step_def lock_release_def lock_quarantine_def
          require_verified_release_def verify_release_def)
    with Cons show ?case by auto
  qed
  from kept final show ?thesis by (auto simp: retained_def)
qed

section \<open>Waiting for the device\<close>

lemma wait_for_idle_step:
  assumes "\<And>i. clock i + second \<le> clock (Suc i)"
  shows "\<exists>r. wait_for_idle clock polls deadline i = Some r
    \<and> (\<forall>j. r = Inr j \<longrightarrow> i \<le> j \<and> clock j < deadline \<and> polls j = Loaded [])"
proof (induction "nat (deadline - clock i)" arbitrary: i rule: less_induct)
  case less
  show ?case
  proof (cases "clock i < deadline")
    case False
    then show ?thesis by (simp add: wait_for_idle.simps)
  next
    case True
    then have "nat (deadline - clock (Suc i)) < nat (deadline - clock i)" using assms [of i] by simp
    from less [OF this] obtain r where r: "wait_for_idle clock polls deadline (Suc i) = Some r"
        "\<forall>j. r = Inr j \<longrightarrow> Suc i \<le> j \<and> clock j < deadline \<and> polls j = Loaded []" by blast
    then have later: "\<forall>j. r = Inr j \<longrightarrow> i \<le> j \<and> clock j < deadline \<and> polls j = Loaded []" by auto
    show ?thesis
    proof (cases "polls i")
      case (Loaded models)
      show ?thesis
      proof (cases "request_model_unloads models")
        case (Inl e)
        with True Loaded show ?thesis
          by (subst wait_for_idle.simps) (auto simp: request_model_unloads_def guard_def)
      next
        case (Inr x)
        with True Loaded r(1) later show ?thesis
          by (subst wait_for_idle.simps) (cases "models = []"; simp)
      qed
    qed (use True r(1) later in \<open>subst wait_for_idle.simps, simp\<close>)+
  qed
qed

text \<open>
  C39 The wait for the device always ends: as every round of the loop takes at least its one second of
  sleep, the wait returns - with an idle device seen before the deadline, or with an error - whatever
  the model server answers.
\<close>

theorem wait_for_ollama_idle_ends:
  assumes "\<And>i. clock i + second \<le> clock (Suc i)"
  shows "\<exists>r. wait_for_ollama_idle clock polls timeout_seconds = Some r
    \<and> (\<forall>j. r = Inr j \<longrightarrow> clock j < clock 0 + timeout_seconds * second \<and> polls j = Loaded [])"
  using wait_for_idle_step [where clock = clock and polls = polls
      and deadline = "clock 0 + timeout_seconds * second" and i = 0, OF assms]
  unfolding wait_for_ollama_idle_def by metis

section \<open>Witnesses\<close>

text \<open>One item, claimed by a worker that then crashes, and claimed again six hours later.\<close>

definition orbit_work :: ai_db where
  "orbit_work = \<lparr>ai_work = [new_work 1 WEEKLY_LEARNING 0 (Some 0)], ai_runs = [], admin_jobs = []\<rparr>"

definition orbit_claim :: "uuid \<Rightarrow> instant \<Rightarrow> nat \<Rightarrow> ai_db" where
  "orbit_claim token now n = \<lparr>ai_work = [\<lparr>aw_id = 1, aw_kind = WEEKLY_LEARNING, aw_scheduled_at = 0,
     aw_next_attempt_at = Some 0, aw_attempt_count = n, aw_lease_token = Some token,
     aw_heartbeat_at = Some now\<rparr>], ai_runs = [], admin_jobs = []\<rparr>"

definition orbit_lease :: "uuid \<Rightarrow> ai_work_lease" where
  "orbit_lease token = \<lparr>al_id = 1, al_kind = WEEKLY_LEARNING, al_scheduled_at = 0, al_token = token\<rparr>"

definition sys0 :: ai_sys where "sys0 = \<lparr>sys_db = orbit_work, sys_clock = 0, sys_claims = []\<rparr>"
definition sys1 :: ai_sys where
  "sys1 = \<lparr>sys_db = orbit_claim 21 0 1, sys_clock = 0, sys_claims = [(orbit_lease 21, 0)]\<rparr>"
definition sys2 :: ai_sys where
  "sys2 = \<lparr>sys_db = orbit_claim 22 (6 * hour) 2, sys_clock = 6 * hour,
     sys_claims = [(orbit_lease 22, 6 * hour), (orbit_lease 21, 0)]\<rparr>"

lemma sys_steps:
  "ai_step (2 * hour) (6 * hour) sys0 sys1" "ai_step (2 * hour) (6 * hour) sys1 sys2"
proof -
  have "claim_due_work orbit_work 0 (2 * hour) (6 * hour) 21 = (orbit_claim 21 0 1, Some (orbit_lease 21))"
    by (simp add: claim_due_work_def orbit_work_def latest_activity_def List.map_filter_def new_work_def
        oldest_work_def scalar_by_def live_lease_def update_work_def update_where_def orbit_claim_def
        lease_of_def orbit_lease_def)
  then show "ai_step (2 * hour) (6 * hour) sys0 sys1"
    using ai_step.claim [of sys0 0 21] by (simp add: sys0_def sys1_def)
  have "claim_due_work (orbit_claim 21 0 1) (6 * hour) (2 * hour) (6 * hour) 22
      = (orbit_claim 22 (6 * hour) 2, Some (orbit_lease 22))"
    by (simp add: claim_due_work_def latest_activity_def List.map_filter_def
        oldest_work_def scalar_by_def live_lease_def update_work_def update_where_def orbit_claim_def
        lease_of_def orbit_lease_def)
  then show "ai_step (2 * hour) (6 * hour) sys1 sys2"
    using ai_step.claim [of sys1 "6 * hour" 22] by (simp add: sys1_def sys2_def orbit_lease_def)
qed

theorem gpu_claims_apart_witness:
  "snd (sys_claims sys2 ! 1) + 6 * hour \<le> snd (sys_claims sys2 ! 0)"
proof (rule gpu_claims_apart)
  show "(ai_step (2 * hour) (6 * hour))\<^sup>*\<^sup>* sys0 sys2"
    using sys_steps by (meson converse_rtranclp_into_rtranclp r_into_rtranclp)
qed (auto simp: sys0_def sys2_def orbit_work_def new_work_def)

theorem replaced_lease_fenced_witness:
  "\<not> lease_is_current (sys_db sys2) (orbit_lease 21)
     \<and> complete_work (sys_db sys2) (orbit_lease 21) (7 * hour) = (sys_db sys2, False)"
proof -
  have "ai_inv (6 * hour) sys0"
    by (rule ai_invI) (auto simp: sys0_def orbit_work_def new_work_def token_owner_def)
  then have inv: "ai_inv (6 * hour) sys2" using sys_steps ai_inv_step by blast
  have "(orbit_lease 21, 0) \<in> set (sys_claims sys2)" "\<not> lease_is_current (sys_db sys2) (orbit_lease 21)"
    by (simp_all add: sys2_def lease_is_current_def orbit_claim_def orbit_lease_def)
  from replaced_lease_fenced [OF inv this rtranclp.rtrancl_refl] show ?thesis by blast
qed

theorem gpu_lock_retained_witness:
  "\<exists>g'. require_verified_release acquired_lock = Inr g'
     \<and> gl_held (run_ops handle_lock g' [Release, Require_verified, Release])"
proof -
  obtain g' where g': "require_verified_release acquired_lock = Inr g'"
    by (simp add: require_verified_release_def acquired_lock_def)
  have "gl_held acquired_lock" by (simp add: acquired_lock_def)
  from gpu_lock_retained [OF g' this, of "[Release, Require_verified, Release]"] g' show ?thesis by simp
qed

theorem wait_for_ollama_idle_ends_witness:
  "\<exists>r. wait_for_ollama_idle (\<lambda>i. int i * second) (\<lambda>i. Poll_failed) 30 = Some r"
  using wait_for_ollama_idle_ends [of "\<lambda>i. int i * second" "\<lambda>i. Poll_failed" 30] by (simp add: algebra_simps) blast

end
