(* ===== verification/Rate_Limit.thy ===== *)
theory Rate_Limit
  imports Interfaces
begin

text \<open>
  The fixed-window throttles (\<^verbatim>\<open>rate_limit.py\<close>): saturating counters in a table, expired
  lazily, and their refinement of an abstract counter per subject. The keyed digest
  \<^verbatim>\<open>hash_token\<close> is a parameter.
\<close>

section \<open>The table\<close>

record rate_limit_bucket =
  rb_scope :: string
  rb_subject_hash :: string
  rb_window_started_at :: instant
  rb_count :: nat
  rb_updated_at :: instant

record rate_limit_rule =
  rr_scope :: string
  rr_subject :: string
  rr_limit :: nat
  rr_window :: duration

record rate_limit_decision =
  rd_allowed :: bool
  rd_blocked_scope :: "string option"

definition rate_limit_subject :: "(string \<Rightarrow> string) \<Rightarrow> string \<Rightarrow> string \<Rightarrow> string" where
  "rate_limit_subject hash scope subject = hash (''rate-limit:'' @ scope @ '':'' @ subject)"

definition bucket_id :: "rate_limit_bucket \<Rightarrow> string \<times> string" where
  "bucket_id b = (rb_scope b, rb_subject_hash b)"

definition delete_expired :: "rate_limit_rule \<Rightarrow> instant \<Rightarrow> rate_limit_bucket list \<Rightarrow> rate_limit_bucket list" where
  "delete_expired rule now rows =
     delete_where (\<lambda>b. rb_scope b = rr_scope rule \<and> rb_window_started_at b \<le> now - rr_window rule) rows"

text \<open>\<^verbatim>\<open>INSERT ... ON CONFLICT DO UPDATE ... RETURNING count\<close>.\<close>

definition upsert_bucket ::
    "string \<Rightarrow> rate_limit_rule \<Rightarrow> instant \<Rightarrow> rate_limit_bucket list \<Rightarrow> rate_limit_bucket list \<times> nat" where
  "upsert_bucket digest rule now rows =
     (case scalar (\<lambda>b. bucket_id b = (rr_scope rule, digest)) rows of
        None \<Rightarrow>
          (rows @ [\<lparr>rb_scope = rr_scope rule, rb_subject_hash = digest, rb_window_started_at = now,
                    rb_count = 1, rb_updated_at = now\<rparr>], 1)
      | Some b \<Rightarrow>
          (let n = min (rb_count b + 1) (rr_limit rule + 1)
           in (update_where (\<lambda>x. bucket_id x = (rr_scope rule, digest))
                 (\<lambda>x. x\<lparr>rb_count := n, rb_updated_at := now\<rparr>) rows, n)))"

definition consume_rule ::
    "(string \<Rightarrow> string) \<Rightarrow> rate_limit_bucket list \<Rightarrow> rate_limit_rule \<Rightarrow> instant
       \<Rightarrow> rate_limit_bucket list \<times> bool" where
  "consume_rule hash rows rule now =
     (let digest = rate_limit_subject hash (rr_scope rule) (rr_subject rule);
          (rows', n) = upsert_bucket digest rule now (delete_expired rule now rows)
      in (rows', n \<le> rr_limit rule))"

fun consume_rules ::
    "(string \<Rightarrow> string) \<Rightarrow> rate_limit_bucket list \<Rightarrow> rate_limit_rule list \<Rightarrow> instant
       \<Rightarrow> rate_limit_bucket list \<times> rate_limit_decision" where
  "consume_rules hash rows [] now = (rows, \<lparr>rd_allowed = True, rd_blocked_scope = None\<rparr>)"
| "consume_rules hash rows (rule # rules) now =
     (case consume_rule hash rows rule now of
        (rows', False) \<Rightarrow> (rows', \<lparr>rd_allowed = False, rd_blocked_scope = Some (rr_scope rule)\<rparr>)
      | (rows', True) \<Rightarrow> consume_rules hash rows' rules now)"

definition consume_rate_limits ::
    "(string \<Rightarrow> string) \<Rightarrow> rate_limit_bucket list \<Rightarrow> rate_limit_rule list \<Rightarrow> instant
       \<Rightarrow> rate_limit_bucket list \<times> rate_limit_decision" where
  "consume_rate_limits hash rows rules now = consume_rules hash rows rules now"

definition purge_rate_limit_state :: "rate_limit_bucket list \<Rightarrow> instant \<Rightarrow> rate_limit_bucket list" where
  "purge_rate_limit_state rows now = delete_where (\<lambda>b. rb_updated_at b \<le> now - 24 * hour) rows"

definition request_rules ::
    "string \<Rightarrow> string \<Rightarrow> string \<Rightarrow> nat \<Rightarrow> nat \<Rightarrow> duration \<Rightarrow> rate_limit_rule list" where
  "request_rules action client_ip subject ip_limit subject_limit window =
     [\<lparr>rr_scope = action @ '':ip'', rr_subject = client_ip, rr_limit = ip_limit, rr_window = window\<rparr>,
      \<lparr>rr_scope = action @ '':subject'', rr_subject = subject, rr_limit = subject_limit, rr_window = window\<rparr>]"

section \<open>The abstract counter\<close>

text \<open>
  What a fixed-window limit promises: a window opens with the first attempt of a subject after the
  last one closed, every attempt in it counts, and an attempt is allowed while the count is
  within the limit. The specification counts without bound and forgets nothing.
\<close>

type_synonym counters = "string \<times> string \<rightharpoonup> instant \<times> nat"

definition spec_consume :: "nat \<Rightarrow> duration \<Rightarrow> string \<times> string \<Rightarrow> instant \<Rightarrow> counters \<Rightarrow> counters \<times> bool" where
  "spec_consume limit window k now m =
     (case m k of
        Some (start, n) \<Rightarrow>
          (if start \<le> now - window then (m(k \<mapsto> (now, 1)), 1 \<le> limit)
           else (m(k \<mapsto> (start, n + 1)), n + 1 \<le> limit))
      | None \<Rightarrow> (m(k \<mapsto> (now, 1)), 1 \<le> limit))"

definition rule_key :: "(string \<Rightarrow> string) \<Rightarrow> rate_limit_rule \<Rightarrow> string \<times> string" where
  "rule_key hash rule = (rr_scope rule, rate_limit_subject hash (rr_scope rule) (rr_subject rule))"

text \<open>
  The table stands for the counters: a stored bucket holds the start of its subject's window and the
  count, cut off one above the limit; a subject without a bucket never tried or its window was
  over at the last request.
\<close>

definition stands_for ::
    "(string \<Rightarrow> nat) \<Rightarrow> (string \<Rightarrow> duration) \<Rightarrow> instant \<Rightarrow> rate_limit_bucket list \<Rightarrow> counters \<Rightarrow> bool" where
  "stands_for limit window t0 rows m \<longleftrightarrow>
     distinct (map bucket_id rows)
     \<and> (\<forall>b \<in> set rows. \<exists>n. m (bucket_id b) = Some (rb_window_started_at b, n)
          \<and> rb_count b = min n (limit (rb_scope b) + 1))
     \<and> (\<forall>k start n. m k = Some (start, n) \<longrightarrow> k \<notin> bucket_id ` set rows \<longrightarrow> start \<le> t0 - window (fst k))"

lemma stands_for_consume:
  assumes "stands_for limit window t0 rows m" "t0 \<le> now"
    and "rr_limit rule = limit (rr_scope rule)" "rr_window rule = window (rr_scope rule)"
    and "consume_rule hash rows rule now = (rows', ok)"
    and "spec_consume (rr_limit rule) (rr_window rule) (rule_key hash rule) now m = (m', ok')"
  shows "ok = ok' \<and> stands_for limit window now rows' m'"
proof -
  define k where "k = rule_key hash rule"
  define d where "d = delete_expired rule now rows"
  let ?lim = "rr_limit rule" and ?win = "rr_window rule"
  have d: "set d = {b \<in> set rows. \<not> (rb_scope b = rr_scope rule \<and> rb_window_started_at b \<le> now - ?win)}"
    by (simp add: d_def delete_expired_def set_delete_where)
  have dist: "distinct (map bucket_id d)"
    using assms(1) by (simp add: d_def delete_expired_def stands_for_def distinct_delete_where)
  have entry: "\<exists>n. m (bucket_id b) = Some (rb_window_started_at b, n) \<and> rb_count b = min n (limit (rb_scope b) + 1)"
    if "b \<in> set rows" for b using assms(1) that by (simp add: stands_for_def)
  have gone: "start \<le> now - window (fst j)" if "m j = Some (start, n)" "j \<notin> bucket_id ` set d" for j start n
  proof (cases "j \<in> bucket_id ` set rows")
    case True
    then obtain b where b: "b \<in> set rows" "j = bucket_id b" by blast
    with that(2) have "rb_scope b = rr_scope rule" "rb_window_started_at b \<le> now - ?win" by (auto simp: d)
    moreover have "start = rb_window_started_at b" using entry [OF b(1)] that(1) b(2) by auto
    ultimately show ?thesis using assms(4) b(2) by (simp add: bucket_id_def)
  next
    case False
    have "start \<le> t0 - window (fst j)"
      using assms(1) that(1) False unfolding stands_for_def by blast
    with assms(2) show ?thesis by simp
  qed
  have kept: "\<exists>n. m (bucket_id b) = Some (rb_window_started_at b, n) \<and> rb_count b = min n (limit (rb_scope b) + 1)"
    if "b \<in> set d" for b using entry that by (simp add: d)
  have k1: "fst k = rr_scope rule" "k = (rr_scope rule, rate_limit_subject hash (rr_scope rule) (rr_subject rule))"
    by (simp_all add: k_def rule_key_def)
  show ?thesis
  proof (cases "scalar (\<lambda>b. bucket_id b = k) d")
    case None
    then have new: "k \<notin> bucket_id ` set d" by (auto simp: scalar_None)
    have "m' = m(k \<mapsto> (now, 1))" "ok' = (1 \<le> ?lim)"
      using assms(6) gone [OF _ new] assms(4) k1(1)
      by (auto simp: spec_consume_def k_def [symmetric] split: option.splits if_splits)
    moreover have rows': "rows' = d @ [\<lparr>rb_scope = rr_scope rule, rb_subject_hash = snd k,
        rb_window_started_at = now, rb_count = 1, rb_updated_at = now\<rparr>]" "ok = (1 \<le> ?lim)"
      using assms(5) None by (auto simp: consume_rule_def upsert_bucket_def Let_def d_def k1(2))
    moreover have "stands_for limit window now rows' (m(k \<mapsto> (now, 1)))"
      unfolding stands_for_def rows'
      using dist new kept gone by (auto simp: bucket_id_def k1(2) image_iff min_def)
    ultimately show ?thesis by simp
  next
    case (Some b)
    then have b: "b \<in> set d" "bucket_id b = k" by (auto dest: scalar_Some)
    obtain n where n: "m k = Some (rb_window_started_at b, n)" "rb_count b = min n (?lim + 1)"
      using kept [OF b(1)] b(2) k1(1) assms(3) by (auto simp: bucket_id_def)
    have live: "\<not> rb_window_started_at b \<le> now - ?win"
      using b k1(1) by (auto simp: d bucket_id_def)
    have spec: "m' = m(k \<mapsto> (rb_window_started_at b, n + 1))" "ok' = (n + 1 \<le> ?lim)"
      using assms(6) n(1) live by (auto simp: spec_consume_def k_def)
    define c where "c = min (rb_count b + 1) (?lim + 1)"
    have c: "c = min (n + 1) (?lim + 1)" by (simp add: c_def n(2) min_def)
    have rows': "rows' = update_where (\<lambda>x. bucket_id x = k) (\<lambda>x. x\<lparr>rb_count := c, rb_updated_at := now\<rparr>) d"
      "ok = (c \<le> ?lim)"
      using assms(5) Some by (auto simp: consume_rule_def upsert_bucket_def Let_def d_def k1(2) c_def)
    have ids: "map bucket_id rows' = map bucket_id d"
      unfolding rows'(1) by (rule map_update_where) (simp add: bucket_id_def)
    have rows_set: "set rows' = {x \<in> set d. bucket_id x \<noteq> k} \<union> {b\<lparr>rb_count := c, rb_updated_at := now\<rparr>}"
    proof -
      have "{x \<in> set d. bucket_id x = k} = {b}"
        using dist b by (auto simp: distinct_map inj_on_def)
      then show ?thesis unfolding rows'(1) set_update_where by auto
    qed
    have "\<exists>n. m' (bucket_id x) = Some (rb_window_started_at x, n) \<and> rb_count x = min n (limit (rb_scope x) + 1)"
      if "x \<in> set rows'" for x
    proof (cases "bucket_id x = k")
      case True
      with that have "x = b\<lparr>rb_count := c, rb_updated_at := now\<rparr>" unfolding rows_set by auto
      moreover have "rb_scope b = rr_scope rule" using b(2) k1(1) by (auto simp: bucket_id_def)
      ultimately show ?thesis using c assms(3) True by (simp add: spec)
    next
      case False
      with that have "x \<in> set d" unfolding rows_set by (auto simp: bucket_id_def b(2) [unfolded bucket_id_def])
      with kept False show ?thesis by (simp add: spec)
    qed
    moreover have "start \<le> now - window (fst j)" if "m' j = Some (start, i)" "j \<notin> bucket_id ` set rows'" for j start i
    proof -
      have "bucket_id ` set rows' = bucket_id ` set d" using ids by (metis list.set_map)
      with that b show ?thesis using gone by (auto simp: spec split: if_splits)
    qed
    ultimately have "stands_for limit window now rows' m'"
      using dist ids by (auto simp: stands_for_def)
    moreover have "ok = ok'" using rows'(2) spec(2) c by (auto simp: min_def)
    ultimately show ?thesis by simp
  qed
qed

section \<open>Refinement\<close>

fun run_limits ::
    "(string \<Rightarrow> string) \<Rightarrow> rate_limit_bucket list \<Rightarrow> (rate_limit_rule \<times> instant) list \<Rightarrow> bool list" where
  "run_limits hash rows [] = []"
| "run_limits hash rows ((rule, now) # reqs) =
     (case consume_rule hash rows rule now of (rows', ok) \<Rightarrow> ok # run_limits hash rows' reqs)"

fun run_spec :: "(string \<Rightarrow> string) \<Rightarrow> counters \<Rightarrow> (rate_limit_rule \<times> instant) list \<Rightarrow> bool list" where
  "run_spec hash m [] = []"
| "run_spec hash m ((rule, now) # reqs) =
     (case spec_consume (rr_limit rule) (rr_window rule) (rule_key hash rule) now m of
        (m', ok) \<Rightarrow> ok # run_spec hash m' reqs)"

lemma run_limits_refines:
  assumes "stands_for limit window t0 rows m" "sorted (t0 # map snd reqs)"
    and "\<forall>(rule, now) \<in> set reqs. rr_limit rule = limit (rr_scope rule) \<and> rr_window rule = window (rr_scope rule)"
  shows "run_limits hash rows reqs = run_spec hash m reqs"
  using assms
proof (induction reqs arbitrary: rows m t0)
  case Nil
  then show ?case by simp
next
  case (Cons r reqs)
  obtain rule now where r: "r = (rule, now)" by (cases r)
  obtain rows' ok where c: "consume_rule hash rows rule now = (rows', ok)" by (cases "consume_rule hash rows rule now")
  obtain m' ok' where a: "spec_consume (rr_limit rule) (rr_window rule) (rule_key hash rule) now m = (m', ok')"
    by (cases "spec_consume (rr_limit rule) (rr_window rule) (rule_key hash rule) now m")
  have "ok = ok' \<and> stands_for limit window now rows' m'"
    using Cons.prems c a by (intro stands_for_consume [of limit window t0 rows m now rule]) (auto simp: r)
  with Cons.IH [of now rows' m'] Cons.prems c a show ?case by (auto simp: r)
qed

text \<open>
  C24 The throttles refine their specification: however requests of all scopes and subjects follow
  each other, the table of saturating counters - which forgets a window as soon as its scope is
  tried again and never counts beyond one above the limit - answers every request as the abstract
  counter does that forgets nothing. (Every scope has one limit and one window; the clock does not
  run backwards.)
\<close>

theorem rate_limits_refine_counters:
  assumes "sorted (map snd reqs)"
    and "\<forall>(rule, now) \<in> set reqs. rr_limit rule = limit (rr_scope rule) \<and> rr_window rule = window (rr_scope rule)"
  shows "run_limits hash [] reqs = run_spec hash Map.empty reqs"
proof (cases reqs)
  case (Cons r rest)
  have "stands_for limit window (snd r) [] Map.empty" by (simp add: stands_for_def)
  then show ?thesis
    using assms by (intro run_limits_refines [where ?t0.0 = "snd r"]) (auto simp: Cons)
qed simp

theorem rate_limits_refine_counters_witness:
  "run_limits id [] [(\<lparr>rr_scope = ''login'', rr_subject = ''a'', rr_limit = 1, rr_window = hour\<rparr>, 0),
      (\<lparr>rr_scope = ''login'', rr_subject = ''a'', rr_limit = 1, rr_window = hour\<rparr>, second)]
   = run_spec id Map.empty [(\<lparr>rr_scope = ''login'', rr_subject = ''a'', rr_limit = 1, rr_window = hour\<rparr>, 0),
      (\<lparr>rr_scope = ''login'', rr_subject = ''a'', rr_limit = 1, rr_window = hour\<rparr>, second)]"
  by (rule rate_limits_refine_counters [where limit = "\<lambda>_. 1" and window = "\<lambda>_. hour"]) auto

text \<open>A blocked host never reaches the subject's counter: its requests leave no bucket there.\<close>

lemma blocked_host_adds_no_subject:
  assumes "consume_rate_limits hash rows (request_rules action ip subject n k w) now = (rows', d)"
    and "rd_blocked_scope d = Some (action @ '':ip'')" "b \<in> set rows'"
    and "rb_scope b = action @ '':subject''"
  shows "b \<in> set rows"
  using assms
  by (auto simp: consume_rate_limits_def request_rules_def consume_rule_def upsert_bucket_def Let_def
      delete_expired_def set_delete_where set_update_where bucket_id_def split: prod.splits option.splits bool.splits)

end
