(* ===== verification/Countdowns.thy ===== *)
theory Countdowns
  imports Smooches
begin

text \<open>
  Shared countdowns (\<^verbatim>\<open>routes/countdowns.py\<close>, \<^verbatim>\<open>countdown_models.py\<close>):
  creation, optimistic updates and deletion, each remembered by the operation id an offline client
  chose, and the private reminder offsets of each member.

  The constructor \<^verbatim>\<open>ZoneInfo\<close> is a parameter \<open>zi\<close> that gives a zone or raises; only
  its \<^verbatim>\<open>ZoneInfoNotFoundError\<close> is caught. The clock is read once per request. A conflict
  also returns the current countdown, which is left out of its exception.
\<close>

section \<open>Rows and messages\<close>

datatype timing_kind = Timed | All_day

record countdown =
  cd_id :: uuid
  cd_couple_id :: uuid
  cd_created_by :: "uuid option"
  cd_title :: string
  cd_occurs_at :: instant
  cd_timezone :: string
  cd_timing_kind :: timing_kind
  cd_occurs_on :: "date option"
  cd_notes :: string
  cd_revision :: nat
  cd_deleted_at :: "instant option"
  cd_created_at :: instant
  cd_updated_at :: instant

record countdown_reminder =
  cr_countdown_id :: uuid
  cr_account_id :: uuid
  cr_offset_minutes :: int
  cr_created_at :: instant

record countdown_operation =
  co_couple_id :: uuid
  co_operation_id :: uuid
  co_countdown_id :: uuid
  co_resulting_revision :: nat
  co_applied_at :: instant

record countdowns_db = smooch_db +
  countdowns :: "countdown list"
  countdown_reminders :: "countdown_reminder list"
  countdown_operations :: "countdown_operation list"

record countdown_mutation =
  cm_operation_id :: uuid
  cm_title :: string
  cm_occurs_at :: py_datetime
  cm_timezone :: string
  cm_timing_kind :: timing_kind
  cm_occurs_on :: "date option"
  cm_notes :: string
  cm_expected_revision :: "nat option"

record countdown_response =
  cs_id :: uuid
  cs_title :: string
  cs_occurs_at :: instant
  cs_timezone :: string
  cs_timing_kind :: timing_kind
  cs_occurs_on :: "date option"
  cs_my_reminder_offsets_minutes :: "int list"
  cs_notes :: string
  cs_revision :: nat
  cs_updated_at :: instant

section \<open>Helpers\<close>

definition validated_time :: "(string \<Rightarrow> exc + zone) \<Rightarrow> countdown_mutation \<Rightarrow> exc + instant" where
  "validated_time zi payload =
     (case cm_occurs_at payload of
        Naive _ \<Rightarrow> Inl (HTTPException 422 ''occurs_at needs an offset'')
      | Aware t \<Rightarrow>
          (case zi (cm_timezone payload) of
             Inl (ZoneInfoNotFoundError _) \<Rightarrow> Inl (HTTPException 422 ''Unknown IANA timezone'')
           | Inl e \<Rightarrow> Inl e
           | Inr z \<Rightarrow>
               (if cm_timing_kind payload = All_day then
                  (case cm_occurs_on payload of
                     None \<Rightarrow> Inl (HTTPException 422 ''occurs_on is required'')
                   | Some d \<Rightarrow> Inr (to_utc z (d * day)))
                else if cm_occurs_on payload \<noteq> None
                then Inl (HTTPException 422 ''occurs_on is only for all-day events'')
                else Inr t)))"

definition reminders :: "'a countdowns_db_scheme \<Rightarrow> uuid \<Rightarrow> uuid \<Rightarrow> int list" where
  "reminders db countdown_id account_id =
     sort (map cr_offset_minutes (select (\<lambda>r. cr_countdown_id r = countdown_id
       \<and> cr_account_id r = account_id) (countdown_reminders db)))"

definition countdown_response_of :: "'a countdowns_db_scheme \<Rightarrow> countdown \<Rightarrow> uuid \<Rightarrow> countdown_response" where
  "countdown_response_of db c account_id =
     \<lparr>cs_id = cd_id c, cs_title = cd_title c, cs_occurs_at = cd_occurs_at c, cs_timezone = cd_timezone c,
      cs_timing_kind = cd_timing_kind c, cs_occurs_on = cd_occurs_on c,
      cs_my_reminder_offsets_minutes = reminders db (cd_id c) account_id,
      cs_notes = cd_notes c, cs_revision = cd_revision c, cs_updated_at = cd_updated_at c\<rparr>"

definition prior_result :: "'a countdowns_db_scheme \<Rightarrow> uuid \<Rightarrow> uuid \<Rightarrow> countdown option" where
  "prior_result db couple_id operation_id =
     (case scalar (\<lambda>o'. co_couple_id o' = couple_id \<and> co_operation_id o' = operation_id)
             (countdown_operations db) of
        None \<Rightarrow> None
      | Some o' \<Rightarrow> scalar (\<lambda>c. cd_id c = co_countdown_id o') (countdowns db))"

definition countdown_operation_key :: "countdown_operation \<Rightarrow> uuid \<times> uuid" where
  "countdown_operation_key o' = (co_couple_id o', co_operation_id o')"

text \<open>The row is inserted when the session flushes.\<close>

definition record_operation ::
    "'a countdowns_db_scheme \<Rightarrow> uuid \<Rightarrow> uuid \<Rightarrow> countdown \<Rightarrow> instant \<Rightarrow> exc + 'a countdowns_db_scheme" where
  "record_operation db couple_id operation_id c now =
     bind_exc (insert_unique countdown_operation_key
         \<lparr>co_couple_id = couple_id, co_operation_id = operation_id, co_countdown_id = cd_id c,
          co_resulting_revision = cd_revision c, co_applied_at = now\<rparr> (countdown_operations db))
       (\<lambda>rows. Inr (db\<lparr>countdown_operations := rows\<rparr>))"

definition countdown_activity :: "uuid \<Rightarrow> uuid \<Rightarrow> string \<Rightarrow> dedupe_key \<Rightarrow> countdown \<Rightarrow> instant \<Rightarrow> activity_event" where
  "countdown_activity couple_id actor_id kind key c now =
     \<lparr>act_couple_id = couple_id, act_actor_id = Some actor_id, act_sequence = 0,
      act_dedupe_key = key, act_kind = kind, act_target_type = Some ''countdown'',
      act_target_id = Some (cd_id c), act_target_title = Some (cd_title c), act_emoji = None,
      act_created_at = now\<rparr>"

definition locked_countdown :: "'a countdowns_db_scheme \<Rightarrow> uuid \<Rightarrow> uuid \<Rightarrow> exc + countdown" where
  "locked_countdown db couple_id countdown_id =
     (case scalar (\<lambda>c. cd_id c = countdown_id \<and> cd_couple_id c = couple_id \<and> cd_deleted_at c = None)
             (countdowns db) of
        None \<Rightarrow> Inl (HTTPException 404 ''Countdown is unavailable'')
      | Some c \<Rightarrow> Inr c)"

definition timing_changed :: "countdown \<Rightarrow> countdown_mutation \<Rightarrow> instant \<Rightarrow> bool" where
  "timing_changed c payload occurs_at \<longleftrightarrow>
     cd_occurs_at c \<noteq> occurs_at \<or> cd_timezone c \<noteq> cm_timezone payload
     \<or> cd_timing_kind c \<noteq> cm_timing_kind payload \<or> cd_occurs_on c \<noteq> cm_occurs_on payload"

definition apply_update :: "countdown \<Rightarrow> countdown_mutation \<Rightarrow> instant \<Rightarrow> instant \<Rightarrow> countdown" where
  "apply_update c payload occurs_at now =
     c\<lparr>cd_title := cm_title payload, cd_occurs_at := occurs_at, cd_timezone := cm_timezone payload,
       cd_timing_kind := cm_timing_kind payload, cd_occurs_on := cm_occurs_on payload,
       cd_notes := cm_notes payload, cd_revision := cd_revision c + 1, cd_updated_at := now\<rparr>"

definition store_countdown :: "'a countdowns_db_scheme \<Rightarrow> countdown \<Rightarrow> 'a countdowns_db_scheme" where
  "store_countdown db c = db\<lparr>countdowns := update_where (\<lambda>x. cd_id x = cd_id c) (\<lambda>_. c) (countdowns db)\<rparr>"

section \<open>Handlers\<close>

definition list_countdowns :: "'a countdowns_db_scheme \<Rightarrow> uuid \<Rightarrow> exc + countdown_response list" where
  "list_countdowns db actor_id =
     bind_exc (active_member db actor_id) (\<lambda>member.
       Inr (map (\<lambda>c. countdown_response_of db c actor_id)
         (sort_key (\<lambda>c. (cd_occurs_at c, cd_id c))
           (select (\<lambda>c. cd_couple_id c = mem_couple_id member \<and> cd_deleted_at c = None) (countdowns db)))))"

text \<open>The insert of a new countdown, its operation, activity and alert.\<close>

definition insert_countdown ::
    "'a countdowns_db_scheme \<Rightarrow> countdown \<Rightarrow> uuid \<Rightarrow> uuid \<Rightarrow> uuid \<Rightarrow> instant \<Rightarrow> uuid
       \<Rightarrow> exc + 'a countdowns_db_scheme \<times> uuid option" where
  "insert_countdown db c couple_id operation_id actor_id now event_id =
     bind_exc (insert_unique cd_id c (countdowns db)) (\<lambda>rows.
     bind_exc (record_operation (db\<lparr>countdowns := rows\<rparr>) couple_id operation_id c now) (\<lambda>db.
     let db = record_activity db (countdown_activity couple_id actor_id ''countdown_created''
                [Lit ''countdown:create:'', Id operation_id] c now)
     in enqueue_countdown_event db now event_id couple_id (cd_id c) actor_id Nk_countdown_created operation_id))"

definition create_countdown ::
    "(string \<Rightarrow> exc + zone) \<Rightarrow> 'a countdowns_db_scheme \<Rightarrow> uuid \<Rightarrow> countdown_mutation \<Rightarrow> instant \<Rightarrow> uuid \<Rightarrow> uuid
       \<Rightarrow> exc + 'a countdowns_db_scheme \<times> countdown_response \<times> uuid option" where
  "create_countdown zi db actor_id payload now fresh event_id =
     bind_exc (validated_time zi payload) (\<lambda>occurs_at.
     bind_exc (active_member db actor_id) (\<lambda>member.
     bind_exc (lock_couple db (mem_couple_id member)) (\<lambda>_.
     case prior_result db (mem_couple_id member) (cm_operation_id payload) of
       Some c \<Rightarrow> Inr (db, countdown_response_of db c actor_id, None)
     | None \<Rightarrow>
         (let c = \<lparr>cd_id = fresh, cd_couple_id = mem_couple_id member, cd_created_by = Some actor_id,
                   cd_title = cm_title payload, cd_occurs_at = occurs_at, cd_timezone = cm_timezone payload,
                   cd_timing_kind = cm_timing_kind payload, cd_occurs_on = cm_occurs_on payload,
                   cd_notes = cm_notes payload, cd_revision = 0, cd_deleted_at = None,
                   cd_created_at = now, cd_updated_at = now\<rparr>
          in bind_exc (insert_countdown db c (mem_couple_id member) (cm_operation_id payload) actor_id now event_id)
               (\<lambda>(db, recipient). Inr (db, countdown_response_of db c actor_id, recipient))))))"

text \<open>The writes of an accepted update, and its alert when the timing changed.\<close>

definition write_update ::
    "'a countdowns_db_scheme \<Rightarrow> countdown \<Rightarrow> bool \<Rightarrow> uuid \<Rightarrow> uuid \<Rightarrow> uuid \<Rightarrow> instant \<Rightarrow> uuid
       \<Rightarrow> exc + 'a countdowns_db_scheme \<times> uuid option" where
  "write_update db c changed couple_id operation_id actor_id now event_id =
     bind_exc (record_operation (store_countdown db c) couple_id operation_id c now) (\<lambda>db.
     let db = record_activity db (countdown_activity couple_id actor_id ''countdown_updated''
                [Lit ''countdown:update:'', Id operation_id] c now)
     in if changed
        then enqueue_countdown_event db now event_id couple_id (cd_id c) actor_id Nk_countdown_rescheduled operation_id
        else Inr (db, None))"

definition update_countdown ::
    "(string \<Rightarrow> exc + zone) \<Rightarrow> 'a countdowns_db_scheme \<Rightarrow> uuid \<Rightarrow> uuid \<Rightarrow> countdown_mutation \<Rightarrow> instant \<Rightarrow> uuid
       \<Rightarrow> exc + 'a countdowns_db_scheme \<times> countdown_response \<times> uuid option" where
  "update_countdown zi db actor_id countdown_id payload now event_id =
     bind_exc (validated_time zi payload) (\<lambda>occurs_at.
     bind_exc (active_member db actor_id) (\<lambda>member.
     bind_exc (lock_couple db (mem_couple_id member)) (\<lambda>_.
     case prior_result db (mem_couple_id member) (cm_operation_id payload) of
       Some c \<Rightarrow> Inr (db, countdown_response_of db c actor_id, None)
     | None \<Rightarrow>
         bind_exc (locked_countdown db (mem_couple_id member) countdown_id) (\<lambda>c.
         bind_exc (guard (cm_expected_revision payload = Some (cd_revision c))
                     (HTTPException 409 ''Countdown changed'')) (\<lambda>_.
         let c' = apply_update c payload occurs_at now
         in bind_exc (write_update db c' (timing_changed c payload occurs_at) (mem_couple_id member)
                        (cm_operation_id payload) actor_id now event_id)
              (\<lambda>(db, recipient). Inr (db, countdown_response_of db c' actor_id, recipient)))))))"

definition replace_reminders ::
    "'a countdowns_db_scheme \<Rightarrow> uuid \<Rightarrow> uuid \<Rightarrow> int list \<Rightarrow> instant
       \<Rightarrow> exc + 'a countdowns_db_scheme \<times> countdown_response" where
  "replace_reminders db actor_id countdown_id offsets now =
     bind_exc (guard (length (remdups offsets) = length offsets)
                 (HTTPException 422 ''Reminder offsets must be unique'')) (\<lambda>_.
     bind_exc (active_member db actor_id) (\<lambda>member.
     bind_exc (lock_couple db (mem_couple_id member)) (\<lambda>_.
     bind_exc (locked_countdown db (mem_couple_id member) countdown_id) (\<lambda>c.
     let db' = db\<lparr>countdown_reminders :=
           delete_where (\<lambda>r. cr_countdown_id r = cd_id c \<and> cr_account_id r = actor_id) (countdown_reminders db)
           @ map (\<lambda>offset. \<lparr>cr_countdown_id = cd_id c, cr_account_id = actor_id,
                     cr_offset_minutes = offset, cr_created_at = now\<rparr>) (sort offsets)\<rparr>
     in Inr (db', countdown_response_of db' c actor_id)))))"

text \<open>Deleting a deleted countdown again keeps when it was deleted first.\<close>

definition mark_deleted :: "countdown \<Rightarrow> instant \<Rightarrow> countdown" where
  "mark_deleted c now =
     c\<lparr>cd_deleted_at := (case cd_deleted_at c of None \<Rightarrow> Some now | Some t \<Rightarrow> Some t),
       cd_updated_at := now, cd_revision := cd_revision c + 1\<rparr>"

definition delete_countdown ::
    "'a countdowns_db_scheme \<Rightarrow> uuid \<Rightarrow> uuid \<Rightarrow> uuid \<Rightarrow> nat \<Rightarrow> instant \<Rightarrow> exc + 'a countdowns_db_scheme" where
  "delete_countdown db actor_id countdown_id operation_id expected now =
     bind_exc (active_member db actor_id) (\<lambda>member.
     bind_exc (lock_couple db (mem_couple_id member)) (\<lambda>_.
     if prior_result db (mem_couple_id member) operation_id \<noteq> None then Inr db
     else (case scalar (\<lambda>c. cd_id c = countdown_id \<and> cd_couple_id c = mem_couple_id member) (countdowns db) of
             None \<Rightarrow> Inl (HTTPException 404 ''Countdown is unavailable'')
           | Some c \<Rightarrow>
               bind_exc (guard (cd_deleted_at c \<noteq> None \<or> cd_revision c = expected)
                           (HTTPException 409 ''Countdown changed'')) (\<lambda>_.
               record_operation (store_countdown db (mark_deleted c now)) (mem_couple_id member)
                 operation_id (mark_deleted c now) now))))"

end
