(* ===== verification/Countdown_Safety.thy ===== *)
theory Countdown_Safety
  imports Countdowns Smooch_Safety
begin

text \<open>
  The properties of the countdowns: every change is one revision, remembered under its operation id,
  and a retry of it does nothing.
\<close>

section \<open>Requests\<close>

datatype countdown_request =
    Create_countdown uuid countdown_mutation instant uuid uuid
  | Update_countdown uuid uuid countdown_mutation instant uuid
  | Set_reminders uuid uuid "int list" instant
  | Delete_countdown uuid uuid uuid nat instant

fun handle_countdown ::
    "(string \<Rightarrow> exc + zone) \<Rightarrow> 'a countdowns_db_scheme \<Rightarrow> countdown_request
       \<Rightarrow> exc + 'a countdowns_db_scheme \<times> countdown_response option" where
  "handle_countdown zi db (Create_countdown a p now i ev) =
     bind_exc (create_countdown zi db a p now i ev) (\<lambda>(db', r, _). Inr (db', Some r))"
| "handle_countdown zi db (Update_countdown a i p now ev) =
     bind_exc (update_countdown zi db a i p now ev) (\<lambda>(db', r, _). Inr (db', Some r))"
| "handle_countdown zi db (Set_reminders a i offsets now) =
     bind_exc (replace_reminders db a i offsets now) (\<lambda>(db', r). Inr (db', Some r))"
| "handle_countdown zi db (Delete_countdown a i op expected now) =
     bind_exc (delete_countdown db a i op expected now) (\<lambda>db'. Inr (db', None))"

text \<open>The actor and the operation id of a request that is remembered.\<close>

fun countdown_request_id :: "countdown_request \<Rightarrow> (uuid \<times> uuid) option" where
  "countdown_request_id (Create_countdown a p now i ev) = Some (a, cm_operation_id p)"
| "countdown_request_id (Update_countdown a i p now ev) = Some (a, cm_operation_id p)"
| "countdown_request_id (Set_reminders a i offsets now) = None"
| "countdown_request_id (Delete_countdown a i op expected now) = Some (a, op)"

definition operation_row :: "uuid \<Rightarrow> uuid \<Rightarrow> countdown \<Rightarrow> instant \<Rightarrow> countdown_operation" where
  "operation_row k op c now =
     \<lparr>co_couple_id = k, co_operation_id = op, co_countdown_id = cd_id c,
      co_resulting_revision = cd_revision c, co_applied_at = now\<rparr>"

lemma operation_row_fields [simp]:
  "countdown_operation_key (operation_row k op c now) = (k, op)" "co_couple_id (operation_row k op c now) = k"
  "co_countdown_id (operation_row k op c now) = cd_id c"
  by (simp_all add: operation_row_def countdown_operation_key_def)

definition countdown_tables where
  "countdown_tables db = (countdowns db, countdown_operations db, countdown_reminders db, members db, couples db)"

lemma only_alerts_countdowns: "only_alerts db db' \<Longrightarrow> countdown_tables db' = countdown_tables db"
  by (auto simp: only_alerts_def countdown_tables_def)

lemma record_activity_countdowns [simp]:
  "countdowns (record_activity db e) = countdowns db"
  "countdown_operations (record_activity db e) = countdown_operations db"
  "countdown_reminders (record_activity db e) = countdown_reminders db"
  "members (record_activity db e) = members db" "couples (record_activity db e) = couples db"
proof -
  obtain x where "record_activity db e = db\<lparr>activity_events := x\<rparr>" using record_activity_frame by blast
  then show "countdowns (record_activity db e) = countdowns db"
    "countdown_operations (record_activity db e) = countdown_operations db"
    "countdown_reminders (record_activity db e) = countdown_reminders db"
    "members (record_activity db e) = members db" "couples (record_activity db e) = couples db" by simp_all
qed

lemma countdown_event_countdowns:
  assumes "enqueue_countdown_event db now i k c a kd op = Inr (db', r)"
  shows "countdown_tables db' = countdown_tables db"
proof (rule only_alerts_countdowns)
  show "only_alerts db db'"
    using assms by (auto simp: enqueue_countdown_event_def split: option.splits intro: only_alerts_partner)
qed

lemma record_operation_Inr:
  "record_operation db k op c now = Inr db' \<longleftrightarrow>
     (k, op) \<notin> countdown_operation_key ` set (countdown_operations db)
     \<and> db' = db\<lparr>countdown_operations := countdown_operations db @ [operation_row k op c now]\<rparr>"
  by (auto simp: record_operation_def operation_row_def countdown_operation_key_def bind_exc_Inr_iff insert_unique_Inr)

lemma insert_countdown_tables:
  assumes "insert_countdown db c k op a now ev = Inr (db', r)"
  shows "cd_id c \<notin> cd_id ` set (countdowns db)"
    and "(k, op) \<notin> countdown_operation_key ` set (countdown_operations db)"
    and "countdown_tables db' = (countdowns db @ [c], countdown_operations db @ [operation_row k op c now],
      countdown_reminders db, members db, couples db)"
  using assms
  by (auto simp: insert_countdown_def bind_exc_Inr_iff insert_unique_Inr record_operation_Inr Let_def
      countdown_tables_def dest!: countdown_event_countdowns)

lemma write_update_tables:
  assumes "write_update db c ch k op a now ev = Inr (db', r)"
  shows "(k, op) \<notin> countdown_operation_key ` set (countdown_operations db)"
    and "countdown_tables db' = (update_where (\<lambda>x. cd_id x = cd_id c) (\<lambda>_. c) (countdowns db),
      countdown_operations db @ [operation_row k op c now], countdown_reminders db, members db, couples db)"
  using assms
  by (auto simp: write_update_def bind_exc_Inr_iff record_operation_Inr Let_def store_countdown_def
      countdown_tables_def split: if_splits dest!: countdown_event_countdowns)

lemma lock_active:
  assumes "active_member db a = Inr m"
  shows "m \<in> set (members db)" "mem_account_id m = a" "is_active m"
  using active_member_Inr [OF assms] by simp_all

lemma locked_countdown_Inr:
  "locked_countdown db k i = Inr c \<Longrightarrow> c \<in> set (countdowns db) \<and> cd_id c = i \<and> cd_couple_id c = k \<and> cd_deleted_at c = None"
  by (auto simp: locked_countdown_def dest!: scalar_Some split: option.splits)

text \<open>What an accepted request did.\<close>

lemma handle_countdown_cases:
  assumes "handle_countdown zi db op = Inr (db', r)"
  obtains (prior) a x m where "db' = db" "countdown_request_id op = Some (a, x)"
      "active_member db a = Inr m" "prior_result db (mem_couple_id m) x \<noteq> None"
  | (created) a x m c now where "countdown_request_id op = Some (a, x)" "active_member db a = Inr m"
      "cd_id c \<notin> cd_id ` set (countdowns db)" "cd_couple_id c = mem_couple_id m" "cd_revision c = 0"
      "(mem_couple_id m, x) \<notin> countdown_operation_key ` set (countdown_operations db)"
      "countdown_tables db' = (countdowns db @ [c], countdown_operations db @ [operation_row (mem_couple_id m) x c now],
         countdown_reminders db, members db, couples db)"
  | (changed) a x m c c' now where "countdown_request_id op = Some (a, x)" "active_member db a = Inr m"
      "c \<in> set (countdowns db)" "cd_couple_id c = mem_couple_id m"
      "cd_id c' = cd_id c" "cd_couple_id c' = cd_couple_id c" "cd_revision c' = Suc (cd_revision c)"
      "(mem_couple_id m, x) \<notin> countdown_operation_key ` set (countdown_operations db)"
      "countdown_tables db' = (update_where (\<lambda>y. cd_id y = cd_id c') (\<lambda>_. c') (countdowns db),
         countdown_operations db @ [operation_row (mem_couple_id m) x c' now],
         countdown_reminders db, members db, couples db)"
  | (reminded) a m c offsets now where "countdown_request_id op = None" "active_member db a = Inr m"
      "c \<in> set (countdowns db)" "distinct offsets"
      "countdown_tables db' = (countdowns db, countdown_operations db,
         delete_where (\<lambda>r. cr_countdown_id r = cd_id c \<and> cr_account_id r = a) (countdown_reminders db)
           @ map (\<lambda>offset. \<lparr>cr_countdown_id = cd_id c, cr_account_id = a, cr_offset_minutes = offset,
                              cr_created_at = now\<rparr>) (sort offsets),
         members db, couples db)"
proof (cases op)
  case (Create_countdown a p now i ev)
  with assms obtain t m r' where h: "validated_time zi p = Inr t" "active_member db a = Inr m"
    "create_countdown zi db a p now i ev = Inr (db', r')"
    by (auto simp: create_countdown_def bind_exc_Inr_iff)
  let ?c = "\<lparr>cd_id = i, cd_couple_id = mem_couple_id m, cd_created_by = Some a, cd_title = cm_title p,
    cd_occurs_at = t, cd_timezone = cm_timezone p, cd_timing_kind = cm_timing_kind p,
    cd_occurs_on = cm_occurs_on p, cd_notes = cm_notes p, cd_revision = 0, cd_deleted_at = None,
    cd_created_at = now, cd_updated_at = now\<rparr>"
  show thesis
  proof (cases "prior_result db (mem_couple_id m) (cm_operation_id p)")
    case (Some c)
    with h have "db' = db" by (auto simp: create_countdown_def bind_exc_Inr_iff)
    with h(2) Some show thesis by (intro prior [of a "cm_operation_id p" m]) (simp_all add: Create_countdown)
  next
    case None
    with h obtain notified
      where c: "insert_countdown db ?c (mem_couple_id m) (cm_operation_id p) a now ev = Inr (db', notified)"
      by (auto simp: create_countdown_def bind_exc_Inr_iff Let_def)
    from insert_countdown_tables [OF c] h(2) show thesis
      by (intro created [of a "cm_operation_id p" m ?c now]) (simp_all add: Create_countdown)
  qed
next
  case (Update_countdown a i p now ev)
  with assms obtain t m r' where h: "validated_time zi p = Inr t" "active_member db a = Inr m"
    "update_countdown zi db a i p now ev = Inr (db', r')"
    by (auto simp: update_countdown_def bind_exc_Inr_iff)
  show thesis
  proof (cases "prior_result db (mem_couple_id m) (cm_operation_id p)")
    case (Some c)
    with h have "db' = db" by (auto simp: update_countdown_def bind_exc_Inr_iff)
    with h(2) Some show thesis by (intro prior [of a "cm_operation_id p" m]) (simp_all add: Update_countdown)
  next
    case None
    from h None obtain c notified where c: "locked_countdown db (mem_couple_id m) i = Inr c"
      "write_update db (apply_update c p t now) (timing_changed c p t) (mem_couple_id m) (cm_operation_id p) a now ev
         = Inr (db', notified)"
      by (auto simp: update_countdown_def bind_exc_Inr_iff Let_def)
    from write_update_tables [OF c(2)] locked_countdown_Inr [OF c(1)] h(2) show thesis
      by (intro changed [of a "cm_operation_id p" m c "apply_update c p t now" now])
        (simp_all add: Update_countdown apply_update_def)
  qed
next
  case (Set_reminders a i offsets now)
  with assms obtain m c where h: "length (remdups offsets) = length offsets" "active_member db a = Inr m"
    "locked_countdown db (mem_couple_id m) i = Inr c"
    "replace_reminders db a i offsets now = Inr (db', countdown_response_of db' c a)"
    by (auto simp: replace_reminders_def bind_exc_Inr_iff guard_def Let_def split: if_splits)
  from h locked_countdown_Inr [OF h(3)] show thesis
    by (intro reminded [of a m c offsets now])
      (auto simp: Set_reminders replace_reminders_def guard_def Let_def countdown_tables_def
        bind_exc_Inr_iff length_remdups_eq)
next
  case (Delete_countdown a i x expected now)
  with assms obtain m where h: "active_member db a = Inr m" "delete_countdown db a i x expected now = Inr db'"
    by (auto simp: delete_countdown_def bind_exc_Inr_iff)
  show thesis
  proof (cases "prior_result db (mem_couple_id m) x")
    case (Some c)
    with h have "db' = db" by (auto simp: delete_countdown_def bind_exc_Inr_iff)
    with h(1) Some show thesis by (intro prior [of a x m]) (simp_all add: Delete_countdown)
  next
    case None
    from h None obtain c where c: "scalar (\<lambda>c. cd_id c = i \<and> cd_couple_id c = mem_couple_id m) (countdowns db) = Some c"
      "record_operation (store_countdown db (mark_deleted c now)) (mem_couple_id m) x (mark_deleted c now) now = Inr db'"
      by (auto simp: delete_countdown_def bind_exc_Inr_iff split: option.splits)
    from c scalar_Some [OF c(1)] h(1) show thesis
      by (intro changed [of a x m c "mark_deleted c now" now])
        (auto simp: Delete_countdown mark_deleted_def record_operation_Inr store_countdown_def countdown_tables_def)
  qed
qed

section \<open>The log of a countdown\<close>

definition reminder_key :: "countdown_reminder \<Rightarrow> uuid \<times> uuid \<times> int" where
  "reminder_key r = (cr_countdown_id r, cr_account_id r, cr_offset_minutes r)"

definition revisions_of :: "uuid \<Rightarrow> countdown_operation list \<Rightarrow> nat list" where
  "revisions_of i ops = map co_resulting_revision (filter (\<lambda>o'. co_countdown_id o' = i) ops)"

definition countdowns_ok :: "'a countdowns_db_scheme \<Rightarrow> bool" where
  "countdowns_ok db \<longleftrightarrow>
     distinct (map cd_id (countdowns db))
     \<and> distinct (map countdown_operation_key (countdown_operations db))
     \<and> distinct (map reminder_key (countdown_reminders db))
     \<and> (\<forall>o' \<in> set (countdown_operations db).
          (co_countdown_id o', co_couple_id o') \<in> (\<lambda>c. (cd_id c, cd_couple_id c)) ` set (countdowns db))
     \<and> (\<forall>c \<in> set (countdowns db). revisions_of (cd_id c) (countdown_operations db) = [0..<Suc (cd_revision c)])"

lemma revisions_of_append [simp]:
  "revisions_of i (ops @ [operation_row k x c now]) =
     revisions_of i ops @ (if cd_id c = i then [cd_revision c] else [])"
  by (simp add: revisions_of_def operation_row_def)

lemma revisions_of_fresh:
  assumes "countdowns_ok db" "i \<notin> cd_id ` set (countdowns db)"
  shows "revisions_of i (countdown_operations db) = []"
  using assms by (force simp: revisions_of_def countdowns_ok_def filter_empty_conv)

lemma countdowns_ok_tables:
  "countdown_tables db' = (cs, ops, rs, ms, ks) \<Longrightarrow> countdowns_ok db' \<longleftrightarrow>
     distinct (map cd_id cs) \<and> distinct (map countdown_operation_key ops) \<and> distinct (map reminder_key rs)
     \<and> (\<forall>o' \<in> set ops. (co_countdown_id o', co_couple_id o') \<in> (\<lambda>c. (cd_id c, cd_couple_id c)) ` set cs)
     \<and> (\<forall>c \<in> set cs. revisions_of (cd_id c) ops = [0..<Suc (cd_revision c)])"
  by (simp add: countdowns_ok_def countdown_tables_def)

lemma replaced_rows:
  assumes "c \<in> set rows" "distinct (map cd_id rows)" "cd_id c' = cd_id c"
  shows "set (update_where (\<lambda>y. cd_id y = cd_id c') (\<lambda>_. c') rows) = set rows - {c} \<union> {c'}"
proof -
  have "{y \<in> set rows. cd_id y = cd_id c} = {c}" using assms(1,2) by (auto simp: distinct_map inj_on_def)
  then show ?thesis using assms(3) by (auto simp: set_update_where)
qed

lemma countdowns_ok_step:
  assumes "countdowns_ok db" "handle_countdown zi db op = Inr (db', r)"
  shows "countdowns_ok db'"
  using assms(2)
proof (cases rule: handle_countdown_cases)
  case prior
  with assms(1) show ?thesis by simp
next
  case (created a x m c now)
  have "revisions_of (cd_id c) (countdown_operations db) = []"
    using assms(1) created(3) by (rule revisions_of_fresh)
  with created assms(1) show ?thesis
    unfolding countdowns_ok_tables [OF created(7)]
    by (auto simp: countdowns_ok_def image_iff)
next
  case (changed a x m c c' now)
  have d: "distinct (map cd_id (countdowns db))" using assms(1) by (simp add: countdowns_ok_def)
  note rows = replaced_rows [OF changed(3) d changed(5)]
  have ids: "(\<lambda>c. (cd_id c, cd_couple_id c)) ` (set (countdowns db) - {c} \<union> {c'})
      = (\<lambda>c. (cd_id c, cd_couple_id c)) ` set (countdowns db)"
    using changed(3,5,6) by force
  have unique: "y = c" if "y \<in> set (countdowns db)" "cd_id y = cd_id c" for y
    using d that changed(3) by (auto simp: distinct_map inj_on_def)
  have revs: "revisions_of (cd_id y) (countdown_operations db @ [operation_row (mem_couple_id m) x c' now])
      = [0..<Suc (cd_revision y)]" if "y \<in> set (countdowns db) - {c} \<union> {c'}" for y
  proof (cases "y = c'")
    case True
    then show ?thesis using assms(1) changed(3,5,7) by (auto simp: countdowns_ok_def)
  next
    case False
    with that have "y \<in> set (countdowns db)" "cd_id y \<noteq> cd_id c'" using unique changed(5) by auto
    then show ?thesis using assms(1) by (auto simp: countdowns_ok_def)
  qed
  have keys: "(cd_id c', mem_couple_id m) \<in> (\<lambda>c. (cd_id c, cd_couple_id c)) ` set (countdowns db)"
    using changed(3-5) by force
  show ?thesis
    unfolding countdowns_ok_tables [OF changed(9)] rows ids
    using assms(1) revs keys changed(8) by (simp add: countdowns_ok_def map_replace_row)
next
  case (reminded a m c offsets now)
  have "distinct (map reminder_key (delete_where (\<lambda>r. cr_countdown_id r = cd_id c \<and> cr_account_id r = a) (countdown_reminders db)))"
    using assms(1) by (simp add: distinct_delete_where countdowns_ok_def)
  with reminded(4) assms(1) show ?thesis
    unfolding countdowns_ok_tables [OF reminded(5)]
    by (auto simp: countdowns_ok_def reminder_key_def comp_def distinct_map inj_on_def set_delete_where)
qed

interpretation countdown_log: preserving "handle_countdown zi" countdowns_ok
  by unfold_locales (rule countdowns_ok_step)

text \<open>
  C32 No change of a countdown is lost or applied twice: in every sequence of requests of both members,
  from an empty table, the operations stored for a countdown have the resulting revisions 0, 1, ...,
  up to its current revision, each exactly once and in this order; and a countdown has each reminder
  offset of a member at most once.
\<close>

theorem countdown_revisions_gapless:
  assumes "countdowns_ok db" "c \<in> set (countdowns (run_ops (handle_countdown zi) db reqs))"
  shows "map co_resulting_revision (filter (\<lambda>o'. co_countdown_id o' = cd_id c)
       (countdown_operations (run_ops (handle_countdown zi) db reqs))) = [0..<Suc (cd_revision c)]
    \<and> distinct (map reminder_key (countdown_reminders (run_ops (handle_countdown zi) db reqs)))"
  using countdown_log.inv_run [OF assms(1), of zi reqs] assms(2)
  by (auto simp: countdowns_ok_def revisions_of_def)

section \<open>Retries\<close>

definition countdown_recorded :: "uuid \<times> uuid \<Rightarrow> 'a countdowns_db_scheme \<Rightarrow> bool" where
  "countdown_recorded ax db \<longleftrightarrow>
     (\<exists>m. active_member db (fst ax) = Inr m \<and> (mem_couple_id m, snd ax)
        \<in> countdown_operation_key ` set (countdown_operations db))"

lemma prior_result_iff:
  assumes "countdowns_ok db"
  shows "prior_result db k x \<noteq> None \<longleftrightarrow> (k, x) \<in> countdown_operation_key ` set (countdown_operations db)"
proof (cases "scalar (\<lambda>o'. co_couple_id o' = k \<and> co_operation_id o' = x) (countdown_operations db)")
  case None
  then have "prior_result db k x = None" by (simp add: prior_result_def)
  with None show ?thesis by (auto simp: scalar_None countdown_operation_key_def)
next
  case (Some o')
  with scalar_Some [OF Some] assms obtain c where "c \<in> set (countdowns db)" "cd_id c = co_countdown_id o'"
    by (force simp: countdowns_ok_def)
  then have "scalar (\<lambda>c. cd_id c = co_countdown_id o') (countdowns db) \<noteq> None"
    by (auto simp: scalar_None)
  with Some scalar_Some [OF Some] show ?thesis
    by (auto simp: prior_result_def countdown_operation_key_def)
qed

lemma countdown_recorded_step:
  assumes "countdowns_ok db" "countdown_recorded ax db" "handle_countdown zi db op = Inr (db', r)"
  shows "countdown_recorded ax db'"
  using assms(3)
proof (cases rule: handle_countdown_cases)
  case prior
  with assms(2) show ?thesis by simp
qed (use assms(2) in \<open>auto simp: countdown_recorded_def active_member_def countdown_tables_def\<close>)

interpretation countdown_memory: preserving "handle_countdown zi" "\<lambda>db. countdowns_ok db \<and> countdown_recorded ax db"
  by unfold_locales (auto intro: countdowns_ok_step countdown_recorded_step)

lemma countdown_replays:
  assumes "countdowns_ok db" "countdown_recorded ax db" "countdown_request_id op = Some ax"
  shows "step (handle_countdown zi) db op = db"
proof (cases rule: step_cases [of "handle_countdown zi" db op])
  case (2 r)
  then show ?thesis
    by (cases rule: handle_countdown_cases)
      (use assms(2,3) in \<open>auto simp: countdown_recorded_def\<close>)
qed

text \<open>
  An offline client may repeat the creation, update or deletion of a countdown: once the request
  has changed the database, any request with its operation id - with the same or other contents and
  ids, after any other requests of both members - changes nothing any more.
\<close>

theorem countdown_retry_safe:
  assumes "countdowns_ok db" "handle_countdown zi db op = Inr (db', r)" "db' \<noteq> db"
    and "countdown_request_id op = Some ax" "countdown_request_id op' = Some ax"
  shows "step (handle_countdown zi) (run_ops (handle_countdown zi) db' reqs) op' = run_ops (handle_countdown zi) db' reqs"
proof -
  have "countdown_recorded ax db'"
    using assms(2)
  proof (cases rule: handle_countdown_cases)
    case prior
    with assms(3) show ?thesis by simp
  qed (use assms(4) in \<open>auto simp: countdown_recorded_def active_member_def countdown_tables_def
      countdown_operation_key_def operation_row_def\<close>)
  then have "countdowns_ok (run_ops (handle_countdown zi) db' reqs) \<and> countdown_recorded ax (run_ops (handle_countdown zi) db' reqs)"
    using countdowns_ok_step [OF assms(1,2)] by (intro countdown_memory.inv_run) simp
  then show ?thesis using assms(5) countdown_replays by blast
qed

section \<open>Malformed timezone keys\<close>

text \<open>
  Only an unknown key is answered with 422: a key the constructor refuses as malformed (an absolute
  path, or one with \<^verbatim>\<open>..\<close> in it) leaves the handler as a \<^verbatim>\<open>ValueError\<close>.
\<close>

lemma malformed_timezone_escapes:
  assumes "cm_occurs_at p = Aware t" "zi (cm_timezone p) = Inl (ValueError message)"
  shows "create_countdown zi db a p now i ev = Inl (ValueError message)"
    and "update_countdown zi db a j p now ev = Inl (ValueError message)"
  using assms by (simp_all add: create_countdown_def update_countdown_def validated_time_def)

section \<open>Witnesses\<close>

definition orbit_countdown :: countdown where
  "orbit_countdown = \<lparr>cd_id = 70, cd_couple_id = 7, cd_created_by = Some 12, cd_title = ''Trip'',
     cd_occurs_at = 9 * day, cd_timezone = ''UTC'', cd_timing_kind = Timed, cd_occurs_on = None,
     cd_notes = [], cd_revision = 0, cd_deleted_at = None, cd_created_at = 0, cd_updated_at = 0\<rparr>"

definition orbit_countdowns :: countdowns_db where
  "orbit_countdowns = smooch_db.extend orbit_smooches
     \<lparr>countdowns = [orbit_countdown], countdown_reminders = [],
      countdown_operations = [operation_row 7 71 orbit_countdown 0]\<rparr>"

lemma orbit_countdowns_fields [simp]:
  "members orbit_countdowns = members orbit_core" "couples orbit_countdowns = couples orbit_core"
  "countdowns orbit_countdowns = [orbit_countdown]" "countdown_reminders orbit_countdowns = []"
  "countdown_operations orbit_countdowns = [operation_row 7 71 orbit_countdown 0]"
  by (simp_all add: orbit_countdowns_def orbit_smooches_def orbit_names_def smooch_db.extend_def names_db.extend_def)

lemma orbit_countdowns_ok: "countdowns_ok orbit_countdowns"
  by (simp add: countdowns_ok_def revisions_of_def operation_row_def orbit_countdown_def)

lemma orbit_delete:
  "\<exists>db'. handle_countdown zi orbit_countdowns (Delete_countdown 11 70 72 0 hour) = Inr (db', None)
     \<and> countdowns db' = [mark_deleted orbit_countdown hour]"
  by (simp add: delete_countdown_def active_member_def lock_couple_def orbit_core_def is_active_def
      prior_result_def operation_row_def orbit_countdown_def guard_def record_operation_def insert_unique_def
      countdown_operation_key_def store_countdown_def update_where_def mark_deleted_def)

theorem countdown_revisions_gapless_witness:
  "map co_resulting_revision (filter (\<lambda>o'. co_countdown_id o' = 70)
      (countdown_operations (run_ops (handle_countdown (\<lambda>_. Inr utc_zone)) orbit_countdowns
         [Delete_countdown 11 70 72 0 hour]))) = [0, 1]"
proof -
  obtain db' where d: "handle_countdown (\<lambda>_. Inr utc_zone) orbit_countdowns (Delete_countdown 11 70 72 0 hour) = Inr (db', None)"
    "countdowns db' = [mark_deleted orbit_countdown hour]" using orbit_delete by blast
  then have "mark_deleted orbit_countdown hour \<in> set (countdowns (run_ops (handle_countdown (\<lambda>_. Inr utc_zone))
      orbit_countdowns [Delete_countdown 11 70 72 0 hour]))" by (simp add: step_def)
  from countdown_revisions_gapless [OF orbit_countdowns_ok this] show ?thesis
    by (simp add: mark_deleted_def orbit_countdown_def)
qed

theorem countdown_retry_safe_witness:
  "\<exists>db'. db' \<noteq> orbit_countdowns
     \<and> step (handle_countdown (\<lambda>_. Inr utc_zone)) db' (Delete_countdown 11 70 72 5 (2 * hour)) = db'"
proof -
  obtain db' where d: "handle_countdown (\<lambda>_. Inr utc_zone) orbit_countdowns (Delete_countdown 11 70 72 0 hour) = Inr (db', None)"
    "countdowns db' = [mark_deleted orbit_countdown hour]" using orbit_delete by blast
  then have "db' \<noteq> orbit_countdowns"
    by (auto simp: orbit_countdown_def mark_deleted_def)
  with countdown_retry_safe [OF orbit_countdowns_ok d(1) this, of "(11, 72)" "Delete_countdown 11 70 72 5 (2 * hour)" "[]"]
  show ?thesis by auto
qed

end
