(* ===== verification/Activity_Feed.thy ===== *)
theory Activity_Feed
  imports Countdown_Safety
begin

text \<open>
  Reading the couple's activity feed (\<^verbatim>\<open>routes/activity.py\<close>): newest-first pages behind a
  cursor, and the watermark up to which a member has seen it.
\<close>

section \<open>Rows and responses\<close>

record activity_seen =
  as_couple_id :: uuid
  as_account_id :: uuid
  as_through_sequence :: nat
  as_updated_at :: instant

record feed_db = countdowns_db +
  activity_seen_rows :: "activity_seen list"

record activity_response =
  ar_sequence :: nat
  ar_kind :: string
  ar_partner_display_name :: ustring
  ar_target_type :: "string option"
  ar_target_id :: "uuid option"
  ar_target_title :: "string option"
  ar_emoji :: "ustring option"
  ar_created_at :: instant
  ar_seen :: bool

record activity_page =
  ap_items :: "activity_response list"
  ap_next_cursor :: "nat option"
  ap_seen_through :: nat

definition seen_through :: "'a feed_db_scheme \<Rightarrow> uuid \<Rightarrow> uuid \<Rightarrow> nat" where
  "seen_through db couple_id account_id =
     (case scalar (\<lambda>s. as_couple_id s = couple_id \<and> as_account_id s = account_id) (activity_seen_rows db) of
        None \<Rightarrow> 0
      | Some s \<Rightarrow> as_through_sequence s)"

text \<open>An empty name counts as none.\<close>

definition activity_response_of :: "activity_event \<Rightarrow> ustring option \<Rightarrow> uuid \<Rightarrow> nat \<Rightarrow> activity_response" where
  "activity_response_of e actor_name viewer_id seen =
     \<lparr>ar_sequence = act_sequence e, ar_kind = act_kind e,
      ar_partner_display_name =
        (case actor_name of
           Some (c # cs) \<Rightarrow> c # cs
         | _ \<Rightarrow> (if act_actor_id e = Some viewer_id then ascii ''You'' else ascii ''Your partner'')),
      ar_target_type = act_target_type e, ar_target_id = act_target_id e, ar_target_title = act_target_title e,
      ar_emoji = act_emoji e, ar_created_at = act_created_at e, ar_seen = (act_sequence e \<le> seen)\<rparr>"

section \<open>Handlers\<close>

definition list_activity ::
    "unicode \<Rightarrow> 'a feed_db_scheme \<Rightarrow> uuid \<Rightarrow> nat option \<Rightarrow> nat \<Rightarrow> bool \<Rightarrow> exc + activity_page" where
  "list_activity u db actor_id cursor limit unread_only =
     bind_exc (active_member db actor_id) (\<lambda>member.
     let seen = seen_through db (mem_couple_id member) actor_id;
         rows = sort_key (\<lambda>e. - int (act_sequence e))
           (select (\<lambda>e. act_couple_id e = mem_couple_id member
              \<and> (case cursor of None \<Rightarrow> True | Some c \<Rightarrow> act_sequence e < c)
              \<and> (unread_only \<longrightarrow> seen < act_sequence e)) (activity_events db));
         fetched = take (limit + 1) rows;
         more_rows = limit < length fetched;
         page = take limit fetched;
         names = visible_relationship_names u db (mem_couple_id member)
           (List.map_filter act_actor_id page) actor_id;
         items = map (\<lambda>e. activity_response_of e
           (case act_actor_id e of None \<Rightarrow> None | Some i \<Rightarrow> map_option vn_display_name (map_of names i))
           actor_id seen) page
     in Inr \<lparr>ap_items = items,
             ap_next_cursor = (if more_rows \<and> items \<noteq> [] then Some (ar_sequence (List.last items)) else None),
             ap_seen_through = seen\<rparr>)"

definition mark_activity_seen :: "'a feed_db_scheme \<Rightarrow> uuid \<Rightarrow> nat \<Rightarrow> instant \<Rightarrow> exc + 'a feed_db_scheme" where
  "mark_activity_seen db actor_id through_sequence now =
     bind_exc (active_member db actor_id) (\<lambda>member.
     bind_exc (lock_couple db (mem_couple_id member)) (\<lambda>_.
     let through = min through_sequence (max_sequence db (mem_couple_id member));
         mine = (\<lambda>s. as_couple_id s = mem_couple_id member \<and> as_account_id s = actor_id)
     in Inr (db\<lparr>activity_seen_rows :=
          (if list_ex mine (activity_seen_rows db)
           then update_where mine (\<lambda>s. s\<lparr>as_through_sequence := max (as_through_sequence s) through,
                                          as_updated_at := now\<rparr>) (activity_seen_rows db)
           else activity_seen_rows db @ [\<lparr>as_couple_id = mem_couple_id member, as_account_id = actor_id,
                  as_through_sequence = through, as_updated_at = now\<rparr>])\<rparr>)))"

section \<open>The watermark\<close>

lemma scalar_update_where:
  assumes "\<And>r. p (f r) = p r"
  shows "scalar p (update_where p f rows) = map_option f (scalar p rows)"
  using assms by (induction rows) (auto simp: update_where_def)

lemma scalar_list_ex: "list_ex p rows \<longleftrightarrow> scalar p rows \<noteq> None"
  by (induction rows) auto

text \<open>The watermark moves to what was seen, never back, and never past the last event.\<close>

lemma mark_activity_seen_watermark:
  assumes "mark_activity_seen db a n now = Inr db'" "active_member db a = Inr m"
  shows "seen_through db' (mem_couple_id m) a
    = max (seen_through db (mem_couple_id m) a) (min n (max_sequence db (mem_couple_id m)))"
proof -
  let ?mine = "\<lambda>s. as_couple_id s = mem_couple_id m \<and> as_account_id s = a"
  show ?thesis
    using assms
    by (cases "scalar ?mine (activity_seen_rows db)")
      (auto simp: mark_activity_seen_def bind_exc_Inr_iff seen_through_def scalar_list_ex Let_def
        scalar_append scalar_update_where)
qed

section \<open>Reading every page\<close>

fun read_pages :: "unicode \<Rightarrow> 'a feed_db_scheme \<Rightarrow> uuid \<Rightarrow> nat \<Rightarrow> bool \<Rightarrow> nat \<Rightarrow> nat option \<Rightarrow> activity_response list" where
  "read_pages u db a limit unread 0 cursor = []"
| "read_pages u db a limit unread (Suc n) cursor =
     (case list_activity u db a cursor limit unread of
        Inl _ \<Rightarrow> []
      | Inr page \<Rightarrow> ap_items page @ (case ap_next_cursor page of
            None \<Rightarrow> []
          | Some c \<Rightarrow> read_pages u db a limit unread n (Some c)))"

lemma response_sequence [simp]: "ar_sequence (activity_response_of e nm v n) = act_sequence e"
  by (simp add: activity_response_of_def)

lemma insort_key_end: "\<forall>x \<in> set xs. g x < g r \<Longrightarrow> insort_key g r xs = xs @ [r]"
  by (induction xs) auto

lemma sort_key_descending:
  "sorted_wrt (<) (map f rows) \<Longrightarrow> sort_key (\<lambda>e. - int (f e)) rows = rev rows"
  by (induction rows) (auto simp: insort_key_end)

lemma filter_implied: "(\<And>x. p x \<Longrightarrow> q x) \<Longrightarrow> filter p (filter q xs) = filter p xs"
  by (induction xs) auto

text \<open>The rows of a strictly descending list behind the last row of a page are those after the page.\<close>

lemma rows_behind_cursor:
  fixes f :: "'a \<Rightarrow> nat"
  assumes "sorted_wrt (>) (map f rows)" "0 < limit" "limit < length rows"
  shows "filter (\<lambda>e. f e < f (List.last (take limit rows))) rows = drop limit rows"
proof -
  have sorted: "f y < f x" if "i < j" "j < length rows" "x = rows ! i" "y = rows ! j" for i j x y
    using assms(1) that by (simp add: sorted_wrt_map sorted_wrt_iff_nth_less)
  have l: "List.last (take limit rows) = rows ! (limit - 1)"
    using assms(2,3) by (subst last_conv_nth) (auto simp: min_def)
  have "\<not> f x < f (rows ! (limit - 1))" if x: "x \<in> set (take limit rows)" for x
  proof -
    obtain i where i: "i < limit" "x = rows ! i"
      using x assms(3) by (auto simp: in_set_conv_nth)
    show ?thesis
    proof (cases "i = limit - 1")
      case False
      with i have "i < limit - 1" by simp
      from sorted [OF this less_imp_diff_less [OF assms(3)] i(2) refl] show ?thesis by simp
    qed (simp add: i)
  qed
  moreover have "f x < f (rows ! (limit - 1))" if x: "x \<in> set (drop limit rows)" for x
  proof -
    obtain i where "limit + i < length rows" "x = rows ! (limit + i)"
      using x assms(3) by (auto simp: in_set_conv_nth less_diff_conv add.commute)
    with sorted [of "limit - 1" "limit + i"] assms(2) show ?thesis by simp
  qed
  ultimately have "filter (\<lambda>e. f e < f (rows ! (limit - 1))) (take limit rows @ drop limit rows) = drop limit rows"
    unfolding filter_append by simp
  then show ?thesis by (simp add: l)
qed

text \<open>The events a page is cut from.\<close>

definition unread_events :: "'a feed_db_scheme \<Rightarrow> uuid \<Rightarrow> uuid \<Rightarrow> bool \<Rightarrow> activity_event list" where
  "unread_events db k a unread = filter (\<lambda>e. unread \<longrightarrow> seen_through db k a < act_sequence e) (feed k db)"

definition below :: "nat option \<Rightarrow> activity_event \<Rightarrow> bool" where
  "below cursor e \<longleftrightarrow> (case cursor of None \<Rightarrow> True | Some c \<Rightarrow> act_sequence e < c)"

lemma list_activity_page:
  assumes "active_member db a = Inr m" "sorted_wrt (<) (map act_sequence (feed (mem_couple_id m) db))" "0 < limit"
    and "rows = rev (filter (below cursor) (unread_events db (mem_couple_id m) a unread))"
  shows "\<exists>page. list_activity u db a cursor limit unread = Inr page
    \<and> map ar_sequence (ap_items page) = map act_sequence (take limit rows)
    \<and> ap_next_cursor page = (if limit < length rows then Some (act_sequence (List.last (take limit rows))) else None)"
proof -
  let ?k = "mem_couple_id m"
  have "filter (below cursor) (unread_events db ?k a unread)
      = select (\<lambda>e. act_couple_id e = ?k \<and> (case cursor of None \<Rightarrow> True | Some c \<Rightarrow> act_sequence e < c)
         \<and> (unread \<longrightarrow> seen_through db ?k a < act_sequence e)) (activity_events db)"
    by (auto simp: unread_events_def feed_def select_def below_def conj_ac intro!: filter_cong)
  moreover have "sorted_wrt (<) (map act_sequence (filter (below cursor) (unread_events db ?k a unread)))"
    using assms(2) by (simp add: unread_events_def sorted_wrt_map sorted_wrt_filter)
  ultimately have sorted: "sort_key (\<lambda>e. - int (act_sequence e))
      (select (\<lambda>e. act_couple_id e = ?k \<and> (case cursor of None \<Rightarrow> True | Some c \<Rightarrow> act_sequence e < c)
         \<and> (unread \<longrightarrow> seen_through db ?k a < act_sequence e)) (activity_events db)) = rows"
    using assms(4) by (simp add: sort_key_descending)
  show ?thesis
    unfolding list_activity_def assms(1) bind_exc.simps Let_def sorted
    using assms(3) by (auto simp: last_map min_def)
qed

lemma read_pages_from:
  assumes "active_member db a = Inr m" "sorted_wrt (<) (map act_sequence (feed (mem_couple_id m) db))" "0 < limit"
    and "length (filter (below cursor) (unread_events db (mem_couple_id m) a unread)) < n"
  shows "map ar_sequence (read_pages u db a limit unread n cursor)
    = map act_sequence (rev (filter (below cursor) (unread_events db (mem_couple_id m) a unread)))"
  using assms(4)
proof (induction n arbitrary: cursor)
  case 0
  then show ?case by simp
next
  case (Suc n)
  define rows where "rows = rev (filter (below cursor) (unread_events db (mem_couple_id m) a unread))"
  from list_activity_page [OF assms(1-3) rows_def, of u] obtain page
    where page: "list_activity u db a cursor limit unread = Inr page"
      "map ar_sequence (ap_items page) = map act_sequence (take limit rows)"
      "ap_next_cursor page = (if limit < length rows then Some (act_sequence (List.last (take limit rows))) else None)"
    by blast
  show ?case
  proof (cases "limit < length rows")
    case False
    with page show ?thesis by (simp add: rows_def)
  next
    case True
    let ?c = "Some (act_sequence (List.last (take limit rows)))"
    have "sorted_wrt (>) (map act_sequence rows)"
      using assms(2) by (simp add: rows_def unread_events_def sorted_wrt_map sorted_wrt_filter rev_map sorted_wrt_rev)
    then have "filter (\<lambda>e. act_sequence e < act_sequence (List.last (take limit rows))) rows = drop limit rows"
      using assms(3) True by (rule rows_behind_cursor)
    moreover have "filter (below ?c) rows = filter (\<lambda>e. act_sequence e < act_sequence (List.last (take limit rows))) rows"
      by (rule filter_cong) (simp_all add: below_def)
    ultimately have rows: "filter (below ?c) rows = drop limit rows" by (rule trans [rotated])
    have "below cursor e" if "below ?c e" for e
    proof -
      have "List.last (take limit rows) \<in> set rows"
        using True assms(3) by (intro in_set_takeD [OF last_in_set]) auto
      then have "below cursor (List.last (take limit rows))" by (simp add: rows_def)
      with that show ?thesis by (auto simp: below_def split: option.splits)
    qed
    then have "filter (below ?c) (unread_events db (mem_couple_id m) a unread)
        = filter (below ?c) (filter (below cursor) (unread_events db (mem_couple_id m) a unread))"
      by (rule filter_implied [symmetric])
    moreover have "rev (filter (below ?c) (filter (below cursor) (unread_events db (mem_couple_id m) a unread))) = drop limit rows"
      using rows by (simp add: rows_def rev_filter)
    ultimately have rest: "rev (filter (below ?c) (unread_events db (mem_couple_id m) a unread)) = drop limit rows" by simp
    have "length (drop limit rows) < n"
      using Suc.prems True assms(3) by (simp add: rows_def)
    then have "map ar_sequence (read_pages u db a limit unread n ?c) = map act_sequence (drop limit rows)"
      using Suc.IH [of ?c] unfolding rest [symmetric] by simp
    with page True have "map ar_sequence (read_pages u db a limit unread (Suc n) cursor)
        = map act_sequence (take limit rows @ drop limit rows)"
      by (simp only: read_pages.simps sum.case option.case if_True map_append)
    then show ?thesis by (simp add: rows_def)
  qed
qed

text \<open>
  C33 Paging through the feed shows every event exactly once, newest first, whatever page size the
  client asks for: following the cursors from the start ends, and the pages together hold the
  sequence numbers of all events of the couple (with the unread filter, of all beyond the member's
  watermark) in descending order.
\<close>

theorem activity_pages_complete:
  assumes "active_member db a = Inr m" "sorted_wrt (<) (map act_sequence (feed (mem_couple_id m) db))"
    and "0 < limit" "length (feed (mem_couple_id m) db) < n"
  shows "map ar_sequence (read_pages u db a limit unread n None)
    = rev (map act_sequence (filter (\<lambda>e. act_couple_id e = mem_couple_id m
        \<and> (unread \<longrightarrow> seen_through db (mem_couple_id m) a < act_sequence e)) (activity_events db)))"
proof -
  have all: "filter (below None) (unread_events db (mem_couple_id m) a unread) = unread_events db (mem_couple_id m) a unread"
    by (simp add: below_def)
  have "length (unread_events db (mem_couple_id m) a unread) < n"
    using assms(4) by (metis (no_types) unread_events_def length_filter_le le_less_trans)
  then show ?thesis
    using read_pages_from [OF assms(1-3), where cursor = None and n = n and unread = unread]
    by (simp add: all rev_map) (simp add: unread_events_def feed_def rev_map conj_commute)
qed

definition orbit_feed :: feed_db where
  "orbit_feed = countdowns_db.extend (orbit_countdowns\<lparr>activity_events :=
       map (\<lambda>n. smooch_activity\<lparr>act_sequence := n, act_dedupe_key := [Num (int n)]\<rparr>) [1, 2, 3]\<rparr>)
     \<lparr>activity_seen_rows = [\<lparr>as_couple_id = 7, as_account_id = 12, as_through_sequence = 1, as_updated_at = 0\<rparr>]\<rparr>"

lemma orbit_feed_fields [simp]:
  "members orbit_feed = members orbit_core"
  "activity_events orbit_feed = map (\<lambda>n. smooch_activity\<lparr>act_sequence := n, act_dedupe_key := [Num (int n)]\<rparr>) [1, 2, 3]"
  "activity_seen_rows orbit_feed = [\<lparr>as_couple_id = 7, as_account_id = 12, as_through_sequence = 1, as_updated_at = 0\<rparr>]"
  by (simp_all add: orbit_feed_def countdowns_db.extend_def)

theorem activity_pages_complete_witness:
  "map ar_sequence (read_pages plain_unicode orbit_feed 12 1 True 4 None) = [3, 2]"
proof -
  obtain m where m: "active_member orbit_feed 12 = Inr m" "mem_couple_id m = 7"
    by (simp add: active_member_def orbit_core_def is_active_def)
  have f: "feed 7 orbit_feed = map (\<lambda>n. smooch_activity\<lparr>act_sequence := n, act_dedupe_key := [Num (int n)]\<rparr>) [1, 2, 3]"
    by (simp add: feed_def smooch_activity_def)
  have "map ar_sequence (read_pages plain_unicode orbit_feed 12 1 True 4 None)
    = rev (map act_sequence (filter (\<lambda>e. act_couple_id e = mem_couple_id m
        \<and> (True \<longrightarrow> seen_through orbit_feed (mem_couple_id m) 12 < act_sequence e)) (activity_events orbit_feed)))"
    by (rule activity_pages_complete [OF m(1)]) (simp_all add: m(2) f)
  then show ?thesis by (simp add: m(2) seen_through_def smooch_activity_def)
qed

end
