(* ===== verification/Pairing.thy ===== *)
theory Pairing
  imports Activity_Feed Rate_Limit
begin

text \<open>
  The life of a relationship: the pair code that one account creates, another redeems and the first
  confirms (\<^verbatim>\<open>routes/pairing.py\<close>), and its end, which stops all sharing and erases the
  ephemeral state (\<^verbatim>\<open>relationship_service.py\<close>, \<^verbatim>\<open>unpair\<close> and the archive
  list of \<^verbatim>\<open>routes/couples.py\<close>).

  These handlers read once before they hold their row locks and again under them; in between, other
  transactions may commit. So each takes two databases: \<open>db0\<close>, which its first reads saw, and
  \<open>db\<close>, the one its locks froze. The throttle commits on its own, so a handler behind it
  returns a database also when it raises.
\<close>

section \<open>Rows\<close>

record pair_code =
  pc_id :: uuid
  pc_creator_id :: uuid
  pc_code_hash :: string
  pc_pending_partner_id :: "uuid option"
  pc_expires_at :: instant
  pc_consumed_at :: "instant option"
  pc_created_at :: instant

record relationship_avatar =
  ra_couple_id :: uuid
  ra_subject_account_id :: uuid
  ra_assigned_by_account_id :: uuid
  ra_sha256 :: string
  ra_revision :: nat
  ra_updated_at :: instant

record device_health =
  dh_couple_id :: uuid
  dh_account_id :: uuid
  dh_installation_id :: uuid
  dh_updated_at :: instant
  dh_expires_at :: instant

record security_event =
  se_actor_id :: "uuid option"
  se_event_type :: string
  se_outcome :: string
  se_created_at :: instant

record pairing_db = feed_db +
  pair_codes :: "pair_code list"
  rate_buckets :: "rate_limit_bucket list"
  security_events :: "security_event list"
  device_healths :: "device_health list"
  avatars :: "relationship_avatar list"

record pairing_state =
  ps_state :: string
  ps_request_id :: uuid
  ps_couple_id :: "uuid option"

section \<open>Locks\<close>

definition lock_accounts :: "'a core_db_scheme \<Rightarrow> uuid list \<Rightarrow> account list" where
  "lock_accounts db ids = sort_key acc_id (select (\<lambda>a. acc_id a \<in> set ids) (accounts db))"

definition eligible :: "account \<Rightarrow> bool" where
  "eligible a \<longleftrightarrow> acc_verified_at a \<noteq> None \<and> acc_suspended_at a = None \<and> acc_deleted_at a = None"

definition locked_active_memberships :: "'a core_db_scheme \<Rightarrow> uuid list \<Rightarrow> couple_member list" where
  "locked_active_memberships db ids =
     sort_key mem_account_id (select (\<lambda>m. mem_account_id m \<in> set ids \<and> is_active m) (members db))"

definition lock_active_relationship ::
    "'a core_db_scheme \<Rightarrow> 'a core_db_scheme \<Rightarrow> uuid \<Rightarrow> exc + (couple \<times> couple_member list) option" where
  "lock_active_relationship db0 db actor_id =
     (case active_couple_id db0 actor_id of
        None \<Rightarrow> Inr None
      | Some k \<Rightarrow>
          (case active_couple_id db actor_id of
             None \<Rightarrow> Inr None
           | Some current \<Rightarrow>
               (if current \<noteq> k then Inl pairing_changed
                else
                  (let rows = sort_key mem_account_id
                         (select (\<lambda>m. mem_couple_id m = k \<and> is_active m) (members db))
                   in case scalar (\<lambda>c. cpl_id c = k) (couples db) of
                        None \<Rightarrow> Inl pairing_changed
                      | Some c \<Rightarrow>
                          (if cpl_ended_at c = None \<and> length rows = 2
                              \<and> list_ex (\<lambda>m. mem_account_id m = actor_id) rows
                           then Inr (Some (c, rows)) else Inl pairing_changed)))))"

section \<open>Pairing\<close>

definition code_life :: duration where "code_life = 10 * minute"

definition new_code :: "uuid \<Rightarrow> uuid \<Rightarrow> string \<Rightarrow> instant \<Rightarrow> pair_code" where
  "new_code fresh creator digest now =
     \<lparr>pc_id = fresh, pc_creator_id = creator, pc_code_hash = digest, pc_pending_partner_id = None,
      pc_expires_at = now + code_life, pc_consumed_at = None, pc_created_at = now\<rparr>"

definition create_code ::
    "(string \<Rightarrow> string) \<Rightarrow> 'a pairing_db_scheme \<Rightarrow> uuid \<Rightarrow> string \<Rightarrow> instant \<Rightarrow> uuid
       \<Rightarrow> exc + 'a pairing_db_scheme \<times> instant" where
  "create_code hash db actor_id raw now fresh =
     (let accs = lock_accounts db [actor_id]; cannot = HTTPException 409 ''Account cannot start pairing''
      in bind_exc (guard (length accs = 1 \<and> list_all eligible accs) cannot) (\<lambda>_.
         bind_exc (guard (active_couple_id db actor_id = None) cannot) (\<lambda>_.
         let c = new_code fresh actor_id (hash raw) now in
         bind_exc (insert_unique pc_id c (pair_codes db)) (\<lambda>_.
         bind_exc (insert_unique pc_code_hash c (pair_codes db)) (\<lambda>rows.
           Inr (db\<lparr>pair_codes := rows\<rparr>, now + code_life))))))"

definition redeem_allowed ::
    "(string \<Rightarrow> string) \<Rightarrow> nat \<Rightarrow> nat \<Rightarrow> 'a pairing_db_scheme \<Rightarrow> string \<Rightarrow> uuid \<Rightarrow> instant
       \<Rightarrow> 'a pairing_db_scheme \<times> bool" where
  "redeem_allowed hash ip_limit subject_limit db client_ip actor_id now =
     (case consume_rate_limits hash (rate_buckets db)
             (request_rules ''pair-redeem'' client_ip (uuid_str actor_id) ip_limit subject_limit hour) now of
        (rows, decision) \<Rightarrow> (db\<lparr>rate_buckets := rows\<rparr>, rd_allowed decision))"

definition reject_redeem_limit :: "'a pairing_db_scheme \<Rightarrow> uuid \<Rightarrow> instant \<Rightarrow> 'a pairing_db_scheme \<times> exc" where
  "reject_redeem_limit db actor_id now =
     (db\<lparr>security_events := security_events db
           @ [\<lparr>se_actor_id = Some actor_id, se_event_type = ''pair_redeem_rate_limit'',
               se_outcome = ''blocked'', se_created_at = now\<rparr>]\<rparr>,
      HTTPException 429 ''Pairing is temporarily unavailable'')"

definition invalid_code :: exc where
  "invalid_code = HTTPException 400 ''Pair code is invalid or expired''"

definition open_code :: "string \<Rightarrow> instant \<Rightarrow> pair_code \<Rightarrow> bool" where
  "open_code digest now c \<longleftrightarrow> pc_code_hash c = digest \<and> now < pc_expires_at c \<and> pc_consumed_at c = None"

text \<open>The body of \<^verbatim>\<open>redeem_code\<close> behind the throttle.\<close>

definition reserve_code ::
    "'a pairing_db_scheme \<Rightarrow> 'a pairing_db_scheme \<Rightarrow> uuid \<Rightarrow> string \<Rightarrow> instant \<Rightarrow> instant
       \<Rightarrow> exc + 'a pairing_db_scheme \<times> pairing_state" where
  "reserve_code db0 db actor_id digest now locked_now =
     (case scalar (open_code digest now) (pair_codes db0) of
        None \<Rightarrow> Inl invalid_code
      | Some preview \<Rightarrow>
          (if pc_creator_id preview = actor_id then Inl invalid_code
           else
             (let ids = [actor_id, pc_creator_id preview]; accs = lock_accounts db ids
              in case scalar (\<lambda>c. pc_id c = pc_id preview \<and> open_code digest locked_now c) (pair_codes db) of
                   None \<Rightarrow> Inl invalid_code
                 | Some code \<Rightarrow>
                     (if length accs \<noteq> 2 \<or> list_ex (\<lambda>a. \<not> eligible a) accs
                         \<or> pc_pending_partner_id code \<noteq> None \<or> locked_active_memberships db ids \<noteq> []
                      then Inl invalid_code
                      else Inr (db\<lparr>pair_codes := update_where (\<lambda>c. pc_id c = pc_id code)
                                     (\<lambda>c. c\<lparr>pc_pending_partner_id := Some actor_id\<rparr>) (pair_codes db)\<rparr>,
                                \<lparr>ps_state = ''awaiting_creator_confirmation'', ps_request_id = pc_id code,
                                 ps_couple_id = None\<rparr>)))))"

definition redeem_code ::
    "(string \<Rightarrow> string) \<Rightarrow> nat \<Rightarrow> nat \<Rightarrow> 'a pairing_db_scheme \<Rightarrow> 'a pairing_db_scheme \<Rightarrow> uuid \<Rightarrow> string \<Rightarrow> string
       \<Rightarrow> instant \<Rightarrow> instant \<Rightarrow> 'a pairing_db_scheme \<times> (exc + pairing_state)" where
  "redeem_code hash ip_limit subject_limit db0 db actor_id raw client_ip now locked_now =
     (case redeem_allowed hash ip_limit subject_limit db client_ip actor_id now of
        (db, False) \<Rightarrow> (case reject_redeem_limit db actor_id now of (db, e) \<Rightarrow> (db, Inl e))
      | (db, True) \<Rightarrow>
          (case reserve_code db0 db actor_id (hash raw) now locked_now of
             Inl e \<Rightarrow> (db, Inl e)
           | Inr (db, st) \<Rightarrow> (db, Inr st)))"

text \<open>A membership is unique per couple and account, and an account is active in one couple.\<close>

definition insert_member :: "couple_member \<Rightarrow> couple_member list \<Rightarrow> exc + couple_member list" where
  "insert_member m rows =
     (if (mem_couple_id m, mem_account_id m) \<in> (\<lambda>m. (mem_couple_id m, mem_account_id m)) ` set rows
         \<or> is_active m \<and> mem_account_id m \<in> mem_account_id ` set (filter is_active rows)
      then Inl IntegrityError else Inr (rows @ [m]))"

definition new_couple :: "uuid \<Rightarrow> instant \<Rightarrow> couple" where
  "new_couple fresh now =
     \<lparr>cpl_id = fresh, cpl_created_at = now, cpl_updated_at = now, cpl_ended_at = None,
      cpl_proximity_threshold_m = 100, cpl_proximity_processed_through = None,
      cpl_proximity_algorithm_version = 2, cpl_home_timezone = ''America/Los_Angeles''\<rparr>"

definition new_member :: "uuid \<Rightarrow> uuid \<Rightarrow> instant \<Rightarrow> couple_member" where
  "new_member couple_id account_id now =
     \<lparr>mem_couple_id = couple_id, mem_account_id = account_id, mem_joined_at = now, mem_left_at = None,
      mem_intimacy_enabled = False, mem_location_enabled = False\<rparr>"

definition invalid_request :: exc where
  "invalid_request = HTTPException 400 ''Pairing request is invalid or expired''"

definition own_request :: "uuid \<Rightarrow> uuid \<Rightarrow> instant \<Rightarrow> pair_code \<Rightarrow> bool" where
  "own_request request_id actor_id now c \<longleftrightarrow>
     pc_id c = request_id \<and> pc_creator_id c = actor_id \<and> now < pc_expires_at c \<and> pc_consumed_at c = None"

text \<open>The rows a confirmed pairing adds, and the code it consumes.\<close>

definition create_couple ::
    "'a pairing_db_scheme \<Rightarrow> pair_code \<Rightarrow> uuid \<Rightarrow> uuid \<Rightarrow> instant \<Rightarrow> uuid \<Rightarrow> exc + 'a pairing_db_scheme" where
  "create_couple db code actor_id partner_id now fresh =
     bind_exc (insert_unique cpl_id (new_couple fresh now) (couples db)) (\<lambda>couple_rows.
     bind_exc (insert_member (new_member fresh actor_id now) (members db)) (\<lambda>rows.
     bind_exc (insert_member (new_member fresh partner_id now) rows) (\<lambda>member_rows.
       Inr (db\<lparr>couples := couple_rows, members := member_rows,
               pair_codes := update_where (\<lambda>c. pc_id c = pc_id code)
                 (\<lambda>c. c\<lparr>pc_consumed_at := Some now\<rparr>) (pair_codes db)\<rparr>))))"

definition confirm_pairing ::
    "'a pairing_db_scheme \<Rightarrow> 'a pairing_db_scheme \<Rightarrow> uuid \<Rightarrow> uuid \<Rightarrow> instant \<Rightarrow> instant \<Rightarrow> uuid
       \<Rightarrow> exc + 'a pairing_db_scheme \<times> pairing_state" where
  "confirm_pairing db0 db actor_id request_id now locked_now fresh =
     (case scalar (own_request request_id actor_id now) (pair_codes db0) of
        None \<Rightarrow> Inl invalid_request
      | Some preview \<Rightarrow>
          (case pc_pending_partner_id preview of
             None \<Rightarrow> Inl invalid_request
           | Some partner_id \<Rightarrow>
               (let ids = [actor_id, partner_id]; accs = lock_accounts db ids
                in case scalar (\<lambda>c. own_request request_id actor_id locked_now c
                                    \<and> pc_pending_partner_id c = Some partner_id) (pair_codes db) of
                     None \<Rightarrow> Inl invalid_request
                   | Some code \<Rightarrow>
                       bind_exc (guard (length accs = 2 \<and> list_all eligible accs) invalid_request) (\<lambda>_.
                       bind_exc (guard (locked_active_memberships db ids = [])
                                   (HTTPException 409 ''One account is already paired'')) (\<lambda>_.
                       bind_exc (create_couple db code actor_id partner_id locked_now fresh) (\<lambda>db.
                         Inr (db, \<lparr>ps_state = ''paired'', ps_request_id = pc_id code,
                                   ps_couple_id = Some fresh\<rparr>)))))))"

definition pending_pairing ::
    "'a pairing_db_scheme \<Rightarrow> uuid \<Rightarrow> instant \<Rightarrow> exc + uuid \<times> ustring \<times> instant" where
  "pending_pairing db actor_id now =
     (let partner_of = (\<lambda>c. case pc_pending_partner_id c of None \<Rightarrow> None
            | Some p \<Rightarrow> scalar (\<lambda>a. acc_id a = p) (accounts db))
      in case scalar_by (\<lambda>c. - pc_created_at c) (\<lambda>c. pc_creator_id c = actor_id \<and> partner_of c \<noteq> None
                 \<and> pc_consumed_at c = None \<and> now < pc_expires_at c) (pair_codes db) of
           None \<Rightarrow> Inl (HTTPException 404 ''No pairing awaits confirmation'')
         | Some c \<Rightarrow> Inr (pc_id c, (case partner_of c of None \<Rightarrow> [] | Some a \<Rightarrow> acc_display_name a),
                          pc_expires_at c))"

section \<open>The end of a relationship\<close>

definition delete_ephemeral_relationship_state ::
    "'a pairing_db_scheme \<Rightarrow> uuid \<Rightarrow> instant \<Rightarrow> 'a pairing_db_scheme" where
  "delete_ephemeral_relationship_state db k ended_at =
     (let member_ids = map mem_account_id (select (\<lambda>m. mem_couple_id m = k) (members db));
          db = delete_events (\<lambda>e. ne_couple_id e = k) db;
          db = db\<lparr>devices := update_where (\<lambda>d. nd_account_id d \<in> set member_ids)
                 (\<lambda>d. d\<lparr>nd_notifications_enabled := False, nd_disabled_at := Some ended_at\<rparr>) (devices db)\<rparr>;
          db = db\<lparr>location_samples := delete_where (\<lambda>s. ls_couple_id s = k) (location_samples db)\<rparr>;
          db = db\<lparr>device_healths := delete_where (\<lambda>h. dh_couple_id h = k) (device_healths db)\<rparr>;
          db = db\<lparr>avatars := delete_where (\<lambda>a. ra_couple_id a = k) (avatars db)\<rparr>;
          db = db\<lparr>relationship_name_operations :=
                 delete_where (\<lambda>o'. ro_couple_id o' = k) (relationship_name_operations db)\<rparr>;
          db = db\<lparr>relationship_names := delete_where (\<lambda>n. rn_couple_id n = k) (relationship_names db)\<rparr>;
          countdown_ids = map cd_id (select (\<lambda>c. cd_couple_id c = k) (countdowns db));
          db = db\<lparr>countdown_reminders :=
                 delete_where (\<lambda>r. cr_countdown_id r \<in> set countdown_ids) (countdown_reminders db)\<rparr>;
          db = db\<lparr>activity_seen_rows := delete_where (\<lambda>s. as_couple_id s = k) (activity_seen_rows db)\<rparr>
      in db\<lparr>activity_events := delete_where (\<lambda>e. act_couple_id e = k) (activity_events db)\<rparr>)"

definition end_active_relationship ::
    "'a pairing_db_scheme \<Rightarrow> 'a pairing_db_scheme \<Rightarrow> uuid \<Rightarrow> instant
       \<Rightarrow> exc + 'a pairing_db_scheme \<times> uuid option" where
  "end_active_relationship db0 db actor_id ended_at =
     bind_exc (lock_active_relationship db0 db actor_id) (\<lambda>locked.
     case locked of
       None \<Rightarrow> Inr (db, None)
     | Some (c, rows) \<Rightarrow>
         (let k = cpl_id c;
              db = db\<lparr>couples := update_where (\<lambda>x. cpl_id x = k)
                       (\<lambda>x. x\<lparr>cpl_ended_at := Some ended_at, cpl_updated_at := ended_at\<rparr>) (couples db),
                     members := update_where (\<lambda>m. mem_couple_id m = k \<and> mem_account_id m \<in> mem_account_id ` set rows)
                       (\<lambda>m. m\<lparr>mem_left_at := Some ended_at, mem_intimacy_enabled := False,
                             mem_location_enabled := False\<rparr>) (members db)\<rparr>
          in Inr (delete_ephemeral_relationship_state db k ended_at, Some k)))"

definition unpair ::
    "'a pairing_db_scheme \<Rightarrow> 'a pairing_db_scheme \<Rightarrow> uuid \<Rightarrow> instant \<Rightarrow> exc + 'a pairing_db_scheme \<times> uuid" where
  "unpair db0 db actor_id ended_at =
     bind_exc (end_active_relationship db0 db actor_id ended_at) (\<lambda>(db', k).
     case k of None \<Rightarrow> Inl relationship_inactive_error | Some archive_id \<Rightarrow> Inr (db', archive_id))"

section \<open>Archives\<close>

record archive_summary =
  av_archive_id :: uuid
  av_partner_display_name :: ustring
  av_joined_at :: instant
  av_ended_at :: instant

definition archive_summary_of :: "'a core_db_scheme \<Rightarrow> couple_member \<Rightarrow> archive_summary" where
  "archive_summary_of db membership =
     \<lparr>av_archive_id = mem_couple_id membership,
      av_partner_display_name =
        (case scalar (\<lambda>a. list_ex (\<lambda>m. mem_account_id m = acc_id a \<and> mem_couple_id m = mem_couple_id membership
                \<and> mem_account_id m \<noteq> mem_account_id membership) (members db)) (accounts db) of
           None \<Rightarrow> ascii ''Former partner''
         | Some a \<Rightarrow> (if acc_display_name a = [] then ascii ''Former partner'' else acc_display_name a)),
      av_joined_at = mem_joined_at membership,
      av_ended_at = (case mem_left_at membership of None \<Rightarrow> mem_joined_at membership | Some t \<Rightarrow> t)\<rparr>"

definition list_archives :: "'a core_db_scheme \<Rightarrow> uuid \<Rightarrow> archive_summary list" where
  "list_archives db actor_id =
     map (archive_summary_of db)
       (sort_key (\<lambda>m. - (case mem_left_at m of None \<Rightarrow> 0 | Some t \<Rightarrow> t))
         (select (\<lambda>m. mem_account_id m = actor_id \<and> \<not> is_active m) (members db)))"

end
