(* ===== verification/Pairing_Safety.thy ===== *)
theory Pairing_Safety
  imports Pairing
begin

text \<open>
  The properties of pairing and unpairing: a couple always has two members, it comes into being only
  by the consent of both, and its end erases everything ephemeral.
\<close>

section \<open>Members of couples\<close>

lemma insert_member_Inr:
  "insert_member m rows = Inr rows' \<longleftrightarrow>
     (mem_couple_id m, mem_account_id m) \<notin> (\<lambda>m. (mem_couple_id m, mem_account_id m)) ` set rows
     \<and> (is_active m \<longrightarrow> mem_account_id m \<notin> mem_account_id ` set (filter is_active rows)) \<and> rows' = rows @ [m]"
  by (auto simp: insert_member_def)

lemma new_member_active [simp]: "is_active (new_member k a t)" "mem_couple_id (new_member k a t) = k"
  "mem_account_id (new_member k a t) = a"
  by (simp_all add: is_active_def new_member_def)

lemma create_couple_Inr:
  assumes "create_couple db code a p now k = Inr db'"
  shows "couples db' = couples db @ [new_couple k now]" "members db' = members db @ [new_member k a now, new_member k p now]"
    and "k \<notin> cpl_id ` set (couples db)" "a \<noteq> p" "accounts db' = accounts db"
    and "a \<notin> mem_account_id ` set (active_members db)" "p \<notin> mem_account_id ` set (active_members db)"
    and "(k, a) \<notin> (\<lambda>m. (mem_couple_id m, mem_account_id m)) ` set (members db)"
    and "(k, p) \<notin> (\<lambda>m. (mem_couple_id m, mem_account_id m)) ` set (members db)"
    and "pair_codes db' = update_where (\<lambda>c. pc_id c = pc_id code) (\<lambda>c. c\<lparr>pc_consumed_at := Some now\<rparr>) (pair_codes db)"
  using assms
  by (auto simp: create_couple_def bind_exc_Inr_iff insert_unique_Inr insert_member_Inr active_members_def new_couple_def
      simp flip: set_filter)

lemma core_ok_create_couple:
  assumes "core_ok db" "create_couple db code a p now k = Inr db'"
  shows "core_ok db'"
proof -
  note c = create_couple_Inr [OF assms(2)]
  have act: "active_members db' = active_members db @ [new_member k a now, new_member k p now]"
    by (simp add: active_members_def c(2))
  have "mem_couple_id m \<noteq> k" if "m \<in> set (members db)" for m
    using assms(1) c(3) that by (auto simp: core_ok_def)
  then have "filter (\<lambda>m. mem_couple_id m = k) (active_members db) = []"
    by (auto simp: active_members_def filter_empty_conv)
  then have "length (members_of db' (cpl_id x)) = (if cpl_ended_at x = None then 2 else 0)"
    if "x \<in> set (couples db')" for x
    using that assms(1) c(1,3) by (auto simp: members_of_def act core_ok_def new_couple_def)
  then show ?thesis
    using assms(1) c(3-9) by (auto simp: core_ok_def c(1,2,5) act new_couple_def)
qed

definition ended_members :: "uuid \<Rightarrow> uuid set \<Rightarrow> instant \<Rightarrow> couple_member list \<Rightarrow> couple_member list" where
  "ended_members k accs t rows =
     update_where (\<lambda>m. mem_couple_id m = k \<and> mem_account_id m \<in> accs)
       (\<lambda>m. m\<lparr>mem_left_at := Some t, mem_intimacy_enabled := False, mem_location_enabled := False\<rparr>) rows"

lemma active_ended_members:
  assumes "\<And>m. m \<in> set rows \<Longrightarrow> is_active m \<Longrightarrow> mem_couple_id m = k \<Longrightarrow> mem_account_id m \<in> accs"
  shows "filter is_active (ended_members k accs t rows) = filter (\<lambda>m. is_active m \<and> mem_couple_id m \<noteq> k) rows"
  using assms
proof (induction rows)
  case (Cons m rows)
  then show ?case
    by (cases "mem_couple_id m = k \<and> mem_account_id m \<in> accs")
      (auto simp: ended_members_def update_where_def is_active_def)
qed (simp add: ended_members_def update_where_def)

lemma core_ok_ended:
  assumes "core_ok db" "\<And>m. m \<in> set (members db) \<Longrightarrow> is_active m \<Longrightarrow> mem_couple_id m = k \<Longrightarrow> mem_account_id m \<in> accs"
    and "members db' = ended_members k accs t (members db)" "accounts db' = accounts db"
    and "couples db' = update_where (\<lambda>x. cpl_id x = k) (\<lambda>x. x\<lparr>cpl_ended_at := Some t, cpl_updated_at := t\<rparr>) (couples db)"
  shows "core_ok db'"
proof -
  have act: "active_members db' = filter (\<lambda>m. mem_couple_id m \<noteq> k) (active_members db)"
    using active_ended_members [of "members db" k accs t] assms(2)
    by (simp add: active_members_def assms(3) conj_commute)
  have ids: "map cpl_id (couples db') = map cpl_id (couples db)"
    unfolding assms(5) by (rule map_update_where) simp
  have keys: "map (\<lambda>m. (mem_couple_id m, mem_account_id m)) (members db')
      = map (\<lambda>m. (mem_couple_id m, mem_account_id m)) (members db)"
    unfolding assms(3) ended_members_def by (rule map_update_where) simp
  have "(\<lambda>m. (mem_couple_id m, mem_account_id m)) ` set (members db')
      = (\<lambda>m. (mem_couple_id m, mem_account_id m)) ` set (members db)"
    using keys by (metis list.set_map)
  from arg_cong [OF this, of "image fst"]
  have eq1: "mem_couple_id ` set (members db') = mem_couple_id ` set (members db)" by (simp add: image_image)
  have eq2: "cpl_id ` set (couples db') = cpl_id ` set (couples db)" using ids by (metis list.set_map)
  have "mem_couple_id ` set (members db) \<subseteq> cpl_id ` set (couples db)"
    using assms(1) by (simp add: core_ok_def image_subset_iff)
  then have "mem_couple_id ` set (members db') \<subseteq> cpl_id ` set (couples db')" unfolding eq1 eq2 .
  then have fk: "\<forall>m \<in> set (members db'). mem_couple_id m \<in> cpl_id ` set (couples db')"
    unfolding image_subset_iff .
  have pairs: "\<forall>x \<in> set (couples db'). length (members_of db' (cpl_id x)) = (if cpl_ended_at x = None then 2 else 0)"
  proof
    fix x assume x: "x \<in> set (couples db')"
    have "filter (\<lambda>m. mem_couple_id m = j) (filter (\<lambda>m. mem_couple_id m \<noteq> k) ms)
        = (if j = k then [] else filter (\<lambda>m. mem_couple_id m = j) ms)" for j and ms :: "couple_member list"
      by (induction ms) auto
    then have "members_of db' j = (if j = k then [] else members_of db j)" for j
      by (simp add: members_of_def act)
    show "length (members_of db' (cpl_id x)) = (if cpl_ended_at x = None then 2 else 0)"
    proof (cases "cpl_id x = k")
      case True
      with x have "cpl_ended_at x \<noteq> None" unfolding assms(5) set_update_where by (elim UnE imageE) simp_all
      with True \<open>\<And>j. members_of db' j = (if j = k then [] else members_of db j)\<close> show ?thesis by simp
    next
      case False
      with x have "x \<in> set (couples db)" unfolding assms(5) set_update_where by (elim UnE imageE) simp_all
      with False assms(1) \<open>\<And>j. members_of db' j = (if j = k then [] else members_of db j)\<close>
      show ?thesis by (simp only: core_ok_def if_False)
    qed
  qed
  have "distinct (map mem_account_id (active_members db'))"
    using assms(1) unfolding act core_ok_def by (simp add: distinct_map_filter)
  with fk pairs assms(1) show ?thesis
    unfolding core_ok_def ids keys assms(4) by simp
qed

lemma delete_ephemeral_core [simp]:
  "members (delete_ephemeral_relationship_state db k t) = members db"
  "couples (delete_ephemeral_relationship_state db k t) = couples db"
  "accounts (delete_ephemeral_relationship_state db k t) = accounts db"
  "pair_codes (delete_ephemeral_relationship_state db k t) = pair_codes db"
  by (simp_all add: delete_ephemeral_relationship_state_def delete_events_def Let_def)

lemma lock_active_relationship_Some:
  assumes "lock_active_relationship db0 db a = Inr (Some (c, rows))"
  shows "c \<in> set (couples db)" "cpl_ended_at c = None" "length rows = 2"
    "set rows = {m \<in> set (members db). mem_couple_id m = cpl_id c \<and> is_active m}"
    "\<exists>m \<in> set rows. mem_account_id m = a"
  using assms
  by (auto simp: lock_active_relationship_def Let_def select_def list_ex_iff
      dest!: scalar_Some split: option.splits if_splits)

lemma end_active_relationship_Some:
  assumes "end_active_relationship db0 db a t = Inr (db', Some k)"
  obtains accs db1 where "accs = mem_account_id ` {m \<in> set (members db). mem_couple_id m = k \<and> is_active m}"
    "k \<in> cpl_id ` set (couples db)" "a \<in> accs"
    "db1 = db\<lparr>couples := update_where (\<lambda>x. cpl_id x = k) (\<lambda>x. x\<lparr>cpl_ended_at := Some t, cpl_updated_at := t\<rparr>) (couples db),
       members := ended_members k accs t (members db)\<rparr>"
    "db' = delete_ephemeral_relationship_state db1 k t"
proof -
  from assms obtain c rows where l: "lock_active_relationship db0 db a = Inr (Some (c, rows))" "k = cpl_id c"
    "db' = delete_ephemeral_relationship_state
       (db\<lparr>couples := update_where (\<lambda>x. cpl_id x = k) (\<lambda>x. x\<lparr>cpl_ended_at := Some t, cpl_updated_at := t\<rparr>) (couples db),
           members := ended_members k (mem_account_id ` set rows) t (members db)\<rparr>) k t"
    by (auto simp: end_active_relationship_def bind_exc_Inr_iff Let_def ended_members_def split: option.splits)
  note s = lock_active_relationship_Some [OF l(1)]
  show thesis
    by (rule that [of "mem_account_id ` set rows"]) (use s l in auto)
qed

lemma end_active_relationship_None:
  "end_active_relationship db0 db a t = Inr (db', None) \<Longrightarrow> db' = db"
  by (auto simp: end_active_relationship_def bind_exc_Inr_iff Let_def split: option.splits)

lemma core_ok_end:
  assumes "core_ok db" "end_active_relationship db0 db a t = Inr (db', k)"
  shows "core_ok db'"
proof (cases k)
  case None
  with assms show ?thesis by (auto dest: end_active_relationship_None)
next
  case (Some i)
  with assms(2) have "end_active_relationship db0 db a t = Inr (db', Some i)" by simp
  then show ?thesis
  proof (cases rule: end_active_relationship_Some)
    case (1 accs db1)
    have "core_ok db1"
      by (rule core_ok_ended [OF assms(1), of i accs _ t]) (use 1 in auto)
    then show ?thesis using 1(5) by (simp add: core_ok_def active_members_def members_of_def)
  qed
qed

section \<open>Requests\<close>

text \<open>
  A history is the list of the databases so far, the newest first. A request names how many commits
  before its locks its first reads happened.
\<close>

datatype pairing_request =
    Create_code uuid string instant uuid
  | Redeem_code uuid string string nat instant instant
  | Confirm_pairing uuid uuid nat instant instant uuid
  | Unpair uuid nat instant

definition snapshot :: "'db list \<Rightarrow> nat \<Rightarrow> 'db" where
  "snapshot hist n = hist ! min n (length hist - 1)"

fun handle_pairing ::
    "(string \<Rightarrow> string) \<Rightarrow> nat \<Rightarrow> nat \<Rightarrow> 'a pairing_db_scheme list \<Rightarrow> pairing_request
       \<Rightarrow> exc + 'a pairing_db_scheme list \<times> (exc + pairing_state option)" where
  "handle_pairing hash il sl hist (Create_code a raw now i) =
     bind_exc (create_code hash (hd hist) a raw now i) (\<lambda>(db, _). Inr (db # hist, Inr None))"
| "handle_pairing hash il sl hist (Redeem_code a raw ip n now now') =
     (case redeem_code hash il sl (snapshot hist n) (hd hist) a raw ip now now' of
        (db, Inl e) \<Rightarrow> Inr (db # hist, Inl e)
      | (db, Inr st) \<Rightarrow> Inr (db # hist, Inr (Some st)))"
| "handle_pairing hash il sl hist (Confirm_pairing a i n now now' k) =
     bind_exc (confirm_pairing (snapshot hist n) (hd hist) a i now now' k)
       (\<lambda>(db, st). Inr (db # hist, Inr (Some st)))"
| "handle_pairing hash il sl hist (Unpair a n now) =
     bind_exc (unpair (snapshot hist n) (hd hist) a now) (\<lambda>(db, _). Inr (db # hist, Inr None))"

lemma create_code_Inr:
  assumes "create_code hash db a raw now i = Inr (db', t)"
  shows "db' = db\<lparr>pair_codes := pair_codes db @ [new_code i a (hash raw) now]\<rparr>" "i \<notin> pc_id ` set (pair_codes db)"
  using assms by (auto simp: create_code_def Let_def bind_exc_Inr_iff insert_unique_Inr new_code_def)

lemma reserve_code_Inr:
  assumes "reserve_code db0 db a digest now now' = Inr (db', st)"
  obtains preview code where "preview \<in> set (pair_codes db0)" "pc_creator_id preview \<noteq> a"
    "code \<in> set (pair_codes db)" "pc_id code = pc_id preview" "open_code digest now' code"
    "db' = db\<lparr>pair_codes := update_where (\<lambda>c. pc_id c = pc_id code)
             (\<lambda>c. c\<lparr>pc_pending_partner_id := Some a\<rparr>) (pair_codes db)\<rparr>"
  using assms
  by (auto simp: reserve_code_def Let_def dest!: scalar_Some split: option.splits if_splits)

lemma redeem_code_cases:
  assumes "redeem_code hash il sl db0 db a raw ip now now' = (db', r)"
  obtains (refused) "core_db.truncate db' = core_db.truncate db" "pair_codes db' = pair_codes db"
  | (reserved) db1 st where "reserve_code db0 db1 a (hash raw) now now' = Inr (db', st)"
      "core_db.truncate db1 = core_db.truncate db" "pair_codes db1 = pair_codes db"
proof -
  obtain db1 ok where r: "redeem_allowed hash il sl db ip a now = (db1, ok)"
    by (cases "redeem_allowed hash il sl db ip a now")
  then have db1: "core_db.truncate db1 = core_db.truncate db" "pair_codes db1 = pair_codes db"
    by (auto simp: redeem_allowed_def core_db.truncate_def split: prod.splits)
  show thesis
  proof (cases ok)
    case False
    with assms r db1 show thesis
      by (intro refused) (auto simp: redeem_code_def reject_redeem_limit_def core_db.truncate_def)
  next
    case True
    with assms r db1 show thesis
      by (cases "reserve_code db0 db1 a (hash raw) now now'")
        (auto simp: redeem_code_def intro: refused reserved)
  qed
qed

lemma core_ok_truncate: "core_db.truncate db' = core_db.truncate db \<Longrightarrow> core_ok db' \<longleftrightarrow> core_ok db"
  by (simp add: core_ok_def core_db.truncate_def active_members_def members_of_def)

lemma confirm_pairing_Inr:
  assumes "confirm_pairing db0 db a i now now' k = Inr (db', st)"
  obtains code p where "code \<in> set (pair_codes db)" "own_request i a now' code" "pc_pending_partner_id code = Some p"
    "list_all eligible (lock_accounts db [a, p])" "length (lock_accounts db [a, p]) = 2"
    "locked_active_memberships db [a, p] = []" "create_couple db code a p now' k = Inr db'"
    "ps_couple_id st = Some k"
  using assms
  by (auto simp: confirm_pairing_def Let_def bind_exc_Inr_iff guard_def
      dest!: scalar_Some split: option.splits if_splits)

lemma unpair_Inr:
  "unpair db0 db a t = Inr (db', k) \<longleftrightarrow> end_active_relationship db0 db a t = Inr (db', Some k)"
  by (auto simp: unpair_def bind_exc_Inr_iff split: option.splits)

lemma handle_pairing_core:
  assumes "core_ok (hd hist)" "handle_pairing hash il sl hist op = Inr (hist', r)"
  shows "core_ok (hd hist')"
proof (cases op)
  case (Create_code a raw now i)
  with assms(2) obtain db t where c: "create_code hash (hd hist) a raw now i = Inr (db, t)" "hd hist' = db"
    by (auto simp: bind_exc_Inr_iff)
  have "core_db.truncate (hd hist') = core_db.truncate (hd hist)"
    unfolding c(2) create_code_Inr(1) [OF c(1)] by (simp add: core_db.truncate_def)
  then show ?thesis using core_ok_truncate assms(1) by blast
next
  case (Redeem_code a raw ip n now now')
  obtain db r' where d: "redeem_code hash il sl (snapshot hist n) (hd hist) a raw ip now now' = (db, r')"
    by (cases "redeem_code hash il sl (snapshot hist n) (hd hist) a raw ip now now'")
  with assms(2) have h: "hd hist' = db" by (auto simp: Redeem_code split: sum.splits)
  from d show ?thesis
  proof (cases rule: redeem_code_cases)
    case refused
    then show ?thesis using assms(1) h core_ok_truncate by blast
  next
    case (reserved db1 st)
    then have "core_db.truncate db = core_db.truncate db1"
      by (auto elim!: reserve_code_Inr simp: core_db.truncate_def)
    with reserved(2) show ?thesis using assms(1) h core_ok_truncate by metis
  qed
next
  case (Confirm_pairing a i n now now' k)
  with assms show ?thesis
    by (auto simp: bind_exc_Inr_iff elim!: confirm_pairing_Inr intro: core_ok_create_couple)
next
  case (Unpair a n now)
  with assms show ?thesis
    by (auto simp: bind_exc_Inr_iff unpair_Inr intro: core_ok_end)
qed

interpretation pairing: preserving "handle_pairing hash il sl" "\<lambda>hist. core_ok (hd hist)"
  by unfold_locales (rule handle_pairing_core)

text \<open>
  C15 A relationship has two members, and nobody is in two: in every sequence of pairing and
  unpairing requests - however stale the reads were that each made before its locks - every live
  couple has exactly two active members, an ended one has none, and no account is active twice.
\<close>

theorem couples_have_two_members:
  assumes "core_ok db" "db' = hd (run_ops (handle_pairing hash il sl) [db] reqs)"
  shows "(\<forall>c \<in> set (couples db').
       length (filter (\<lambda>m. mem_couple_id m = cpl_id c \<and> mem_left_at m = None) (members db'))
         = (if cpl_ended_at c = None then 2 else 0))
    \<and> distinct (map mem_account_id (filter (\<lambda>m. mem_left_at m = None) (members db')))"
proof -
  have "core_ok db'" using pairing.inv_run [of "[db]" hash il sl reqs] assms by simp
  then show ?thesis
    by (simp add: core_ok_def members_of_def active_members_def is_active_def [abs_def] conj_commute)
qed

section \<open>The consent of both\<close>

lemma run_ops_snoc: "run_ops h db (ops @ [op]) = step h (run_ops h db ops) op"
  by (induction ops arbitrary: db) simp_all

definition same_code :: "pair_code \<Rightarrow> pair_code \<Rightarrow> bool" where
  "same_code c c' \<longleftrightarrow> pc_id c = pc_id c' \<and> pc_creator_id c = pc_creator_id c'"

lemma same_code_trans: "same_code c c1 \<Longrightarrow> same_code c1 c2 \<Longrightarrow> same_code c c2"
  by (simp add: same_code_def)

text \<open>Codes are created by a request, reserved by a request, and never change hands.\<close>

definition code_origin :: "(string \<Rightarrow> string) \<Rightarrow> pairing_request list \<Rightarrow> pair_code \<Rightarrow> bool" where
  "code_origin hash reqs c \<longleftrightarrow>
     (\<exists>raw t. Create_code (pc_creator_id c) raw t (pc_id c) \<in> set reqs \<and> pc_code_hash c = hash raw
        \<and> pc_expires_at c = t + code_life)
     \<and> (\<forall>p. pc_pending_partner_id c = Some p \<longrightarrow> p \<noteq> pc_creator_id c
          \<and> (\<exists>raw ip n t t'. Redeem_code p raw ip n t t' \<in> set reqs \<and> hash raw = pc_code_hash c
                \<and> t' < pc_expires_at c))"

definition codes_ok :: "(string \<Rightarrow> string) \<Rightarrow> pairing_request list \<Rightarrow> 'a pairing_db_scheme list \<Rightarrow> bool" where
  "codes_ok hash reqs hist \<longleftrightarrow>
     hist \<noteq> [] \<and> distinct (map pc_id (pair_codes (hd hist)))
     \<and> (\<forall>db \<in> set hist. \<forall>c \<in> set (pair_codes db). \<exists>c' \<in> set (pair_codes (hd hist)). same_code c c')
     \<and> (\<forall>c \<in> set (pair_codes (hd hist)). code_origin hash reqs c)"

lemma code_origin_more: "code_origin hash reqs c \<Longrightarrow> set reqs \<subseteq> set reqs' \<Longrightarrow> code_origin hash reqs' c"
  unfolding code_origin_def by blast

lemma codes_ok_cons:
  assumes "codes_ok hash reqs hist" "distinct (map pc_id (pair_codes db))"
    and "\<And>c. c \<in> set (pair_codes (hd hist)) \<Longrightarrow> \<exists>c' \<in> set (pair_codes db). same_code c c'"
    and "\<And>c. c \<in> set (pair_codes db) \<Longrightarrow> code_origin hash reqs' c"
  shows "codes_ok hash reqs' (db # hist)"
proof -
  have "\<exists>c' \<in> set (pair_codes db). same_code c c'" if x: "old \<in> set hist" "c \<in> set (pair_codes old)" for old c
  proof -
    have "\<forall>c \<in> set (pair_codes old). \<exists>c' \<in> set (pair_codes (hd hist)). same_code c c'"
      using assms(1) x(1) by (simp add: codes_ok_def)
    then obtain c1 where c1: "c1 \<in> set (pair_codes (hd hist))" "same_code c c1" using x(2) by blast
    obtain c2 where "c2 \<in> set (pair_codes db)" "same_code c1 c2" using assms(3) [OF c1(1)] ..
    with same_code_trans [OF c1(2)] show ?thesis by blast
  qed
  moreover have "same_code c c" for c by (simp add: same_code_def)
  ultimately have "\<exists>c' \<in> set (pair_codes db). same_code c c'"
    if "old \<in> set (db # hist)" "c \<in> set (pair_codes old)" for old c
    using that by (cases "old = db") (blast, simp)
  then show ?thesis using assms(2,4) unfolding codes_ok_def list.sel by blast
qed

text \<open>The codes after a request that rewrites some of them.\<close>

lemma codes_ok_update:
  assumes "codes_ok hash reqs hist" "pair_codes db = update_where p f (pair_codes (hd hist))"
    and "\<And>c. same_code c (f c)" "set reqs \<subseteq> set reqs'"
    and "\<And>c. c \<in> set (pair_codes (hd hist)) \<Longrightarrow> p c \<Longrightarrow> code_origin hash reqs' (f c)"
  shows "codes_ok hash reqs' (db # hist)"
proof (rule codes_ok_cons [OF assms(1)])
  have "map pc_id (pair_codes db) = map pc_id (pair_codes (hd hist))"
    unfolding assms(2) by (rule map_update_where) (use assms(3) in \<open>simp add: same_code_def\<close>)
  with assms(1) show "distinct (map pc_id (pair_codes db))" by (simp add: codes_ok_def)
next
  fix c assume "c \<in> set (pair_codes (hd hist))"
  then have "(if p c then f c else c) \<in> set (pair_codes db)" unfolding assms(2) by (rule update_where_mem)
  moreover have "same_code c (if p c then f c else c)" using assms(3) by (simp add: same_code_def)
  ultimately show "\<exists>c' \<in> set (pair_codes db). same_code c c'" by blast
next
  fix c assume "c \<in> set (pair_codes db)"
  then consider "c \<in> set (pair_codes (hd hist))" | c0 where "c0 \<in> set (pair_codes (hd hist))" "p c0" "c = f c0"
    unfolding assms(2) set_update_where by blast
  then show "code_origin hash reqs' c"
  proof cases
    case 1
    with assms(1) have "code_origin hash reqs c" unfolding codes_ok_def by blast
    then show ?thesis using assms(4) by (rule code_origin_more)
  next
    case 2
    with assms(5) show ?thesis by simp
  qed
qed

lemma codes_ok_unchanged:
  assumes "codes_ok hash reqs hist" "pair_codes db = pair_codes (hd hist)" "set reqs \<subseteq> set reqs'"
  shows "codes_ok hash reqs' (db # hist)"
  using codes_ok_update [OF assms(1), of db "\<lambda>_. False" id reqs'] assms(2,3)
  by (simp add: update_where_def same_code_def)

lemma snapshot_code:
  assumes "codes_ok hash reqs hist" "c \<in> set (pair_codes (snapshot hist n))"
  shows "\<exists>c' \<in> set (pair_codes (hd hist)). same_code c c'"
proof -
  have "min n (length hist - 1) < length hist"
    using assms(1) by (cases hist) (auto simp: codes_ok_def)
  then have "snapshot hist n \<in> set hist" unfolding snapshot_def by (rule nth_mem)
  with assms show ?thesis by (simp add: codes_ok_def)
qed

lemma codes_ok_reserve:
  assumes "codes_ok hash reqs hist" "Redeem_code a raw ip n now now' \<in> set reqs'" "set reqs \<subseteq> set reqs'"
    and "reserve_code (snapshot hist n) db1 a (hash raw) now now' = Inr (db', st)" "pair_codes db1 = pair_codes (hd hist)"
  shows "codes_ok hash reqs' (db' # hist)"
proof -
  from assms(4) obtain preview code where c: "preview \<in> set (pair_codes (snapshot hist n))" "pc_creator_id preview \<noteq> a"
    "code \<in> set (pair_codes (hd hist))" "pc_id code = pc_id preview" "open_code (hash raw) now' code"
    "pair_codes db' = update_where (\<lambda>c. pc_id c = pc_id code) (\<lambda>c. c\<lparr>pc_pending_partner_id := Some a\<rparr>) (pair_codes (hd hist))"
    by (rule reserve_code_Inr) (auto simp: assms(5))
  from snapshot_code [OF assms(1) c(1)] obtain c' where c': "c' \<in> set (pair_codes (hd hist))" "same_code preview c'" ..
  have unique: "x = code" if "x \<in> set (pair_codes (hd hist))" "pc_id x = pc_id code" for x
    using assms(1) c(3) that by (auto simp: codes_ok_def distinct_map inj_on_def)
  have other: "pc_creator_id code \<noteq> a" using unique [OF c'(1)] c'(2) c(2,4) by (auto simp: same_code_def)
  show ?thesis
  proof (rule codes_ok_update [OF assms(1) c(6) _ assms(3)])
    fix x assume x: "x \<in> set (pair_codes (hd hist))" "pc_id x = pc_id code"
    have "code_origin hash reqs' code"
      using assms(1,3) c(3) code_origin_more unfolding codes_ok_def by blast
    moreover have "\<exists>raw ip n t t'. Redeem_code a raw ip n t t' \<in> set reqs' \<and> hash raw = pc_code_hash code
        \<and> t' < pc_expires_at code"
      using c(5) assms(2) unfolding open_code_def by metis
    ultimately show "code_origin hash reqs' (x\<lparr>pc_pending_partner_id := Some a\<rparr>)"
      using other by (simp add: unique [OF x] code_origin_def)
  qed (simp add: same_code_def)
qed

lemma codes_ok_step:
  assumes "codes_ok hash reqs hist" "handle_pairing hash il sl hist op = Inr (hist', r)"
  shows "codes_ok hash (reqs @ [op]) hist'"
proof (cases op)
  case (Create_code a raw now i)
  with assms(2) obtain db t where c: "create_code hash (hd hist) a raw now i = Inr (db, t)" "hist' = db # hist"
    by (auto simp: bind_exc_Inr_iff)
  have codes: "pair_codes db = pair_codes (hd hist) @ [new_code i a (hash raw) now]"
    unfolding create_code_Inr(1) [OF c(1)] by simp
  have new: "code_origin hash (reqs @ [op]) (new_code i a (hash raw) now)"
    by (auto simp: code_origin_def new_code_def Create_code)
  show ?thesis
    unfolding c(2)
  proof (rule codes_ok_cons [OF assms(1)])
    show "distinct (map pc_id (pair_codes db))"
      using assms(1) create_code_Inr(2) [OF c(1)] by (simp add: codes codes_ok_def new_code_def)
    show "\<exists>c' \<in> set (pair_codes db). same_code c c'" if "c \<in> set (pair_codes (hd hist))" for c
      using that by (auto simp: codes same_code_def)
    show "code_origin hash (reqs @ [op]) c" if "c \<in> set (pair_codes db)" for c
      using that new assms(1) code_origin_more [of hash reqs c "reqs @ [op]"] by (auto simp: codes codes_ok_def)
  qed
next
  case (Redeem_code a raw ip n now now')
  obtain db r' where d: "redeem_code hash il sl (snapshot hist n) (hd hist) a raw ip now now' = (db, r')"
    by (cases "redeem_code hash il sl (snapshot hist n) (hd hist) a raw ip now now'")
  with assms(2) have h: "hist' = db # hist" by (auto simp: Redeem_code split: sum.splits)
  from d show ?thesis
  proof (cases rule: redeem_code_cases)
    case refused
    then show ?thesis unfolding h by (intro codes_ok_unchanged [OF assms(1)]) auto
  next
    case (reserved db1 st)
    then show ?thesis
      unfolding h by (intro codes_ok_reserve [OF assms(1) _ _ reserved(1,3)]) (auto simp: Redeem_code)
  qed
next
  case (Confirm_pairing a i n now now' k)
  with assms(2) obtain db st where c: "confirm_pairing (snapshot hist n) (hd hist) a i now now' k = Inr (db, st)"
      "hist' = db # hist"
    by (auto simp: bind_exc_Inr_iff)
  from c(1) obtain code p where "create_couple (hd hist) code a p now' k = Inr db" by (rule confirm_pairing_Inr)
  note codes = create_couple_Inr(10) [OF this]
  show ?thesis
    unfolding c(2)
  proof (rule codes_ok_update [OF assms(1) codes])
    fix x assume "x \<in> set (pair_codes (hd hist))"
    with assms(1) have "code_origin hash reqs x" by (simp add: codes_ok_def)
    then have "code_origin hash (reqs @ [op]) x" by (rule code_origin_more) auto
    then show "code_origin hash (reqs @ [op]) (x\<lparr>pc_consumed_at := Some now'\<rparr>)" by (simp add: code_origin_def)
  qed (auto simp: same_code_def)
next
  case (Unpair a n now)
  with assms(2) obtain db k where u: "end_active_relationship (snapshot hist n) (hd hist) a now = Inr (db, Some k)"
      "hist' = db # hist"
    by (auto simp: bind_exc_Inr_iff unpair_Inr)
  from u(1) have "pair_codes db = pair_codes (hd hist)" by (rule end_active_relationship_Some) simp
  then show ?thesis unfolding u(2) by (intro codes_ok_unchanged [OF assms(1)]) auto
qed

lemma codes_ok_run:
  assumes "pair_codes db = []"
  shows "codes_ok hash reqs (run_ops (handle_pairing hash il sl) [db] reqs)"
proof (induction reqs rule: rev_induct)
  case Nil
  then show ?case using assms by (simp add: codes_ok_def)
next
  case (snoc op reqs)
  show ?case
  proof (cases "handle_pairing hash il sl (run_ops (handle_pairing hash il sl) [db] reqs) op")
    case (Inl e)
    then have "run_ops (handle_pairing hash il sl) [db] (reqs @ [op]) = run_ops (handle_pairing hash il sl) [db] reqs"
      by (simp add: run_ops_snoc step_def)
    with snoc code_origin_more [of hash reqs _ "reqs @ [op]"] show ?thesis
      unfolding codes_ok_def by auto
  next
    case (Inr r)
    then obtain hist' out where "handle_pairing hash il sl (run_ops (handle_pairing hash il sl) [db] reqs) op = Inr (hist', out)"
      by (cases r) auto
    with codes_ok_step [OF snoc this] show ?thesis by (simp add: run_ops_snoc step_def)
  qed
qed

text \<open>
  C13 A couple comes into being only by the consent of both its members: when a confirmation pairs its
  sender with someone, the sender created a code with that request id less than ten minutes before,
  and the other account - a different one - redeemed a code with the same digest before it expired;
  both are verified, neither suspended nor deleted, and neither is in another relationship. The
  new couple has exactly these two members, who share nothing yet.
\<close>

theorem pairing_needs_both:
  assumes "pair_codes db = []" "hist = run_ops (handle_pairing hash il sl) [db] reqs"
    and "handle_pairing hash il sl hist (Confirm_pairing a i n now now' k) = Inr (hist', r)"
  shows "\<exists>p raw raw' t ip n' t1 t2.
      Create_code a raw t i \<in> set reqs \<and> now' < t + 10 * minute
    \<and> Redeem_code p raw' ip n' t1 t2 \<in> set reqs \<and> hash raw' = hash raw \<and> t2 < t + 10 * minute \<and> p \<noteq> a
    \<and> list_all eligible (lock_accounts (hd hist) [a, p]) \<and> length (lock_accounts (hd hist) [a, p]) = 2
    \<and> locked_active_memberships (hd hist) [a, p] = []
    \<and> members (hd hist') = members (hd hist) @ [new_member k a now', new_member k p now']"
proof -
  from assms(3) obtain db' st where h: "confirm_pairing (snapshot hist n) (hd hist) a i now now' k = Inr (db', st)"
    "hist' = db' # hist" by (auto simp: bind_exc_Inr_iff)
  from h(1) obtain code p where c: "code \<in> set (pair_codes (hd hist))" "own_request i a now' code"
    "pc_pending_partner_id code = Some p" "list_all eligible (lock_accounts (hd hist) [a, p])"
    "length (lock_accounts (hd hist) [a, p]) = 2" "locked_active_memberships (hd hist) [a, p] = []"
    "create_couple (hd hist) code a p now' k = Inr db'"
    by (rule confirm_pairing_Inr)
  have origin: "code_origin hash reqs code"
    using codes_ok_run [OF assms(1), of hash reqs il sl] c(1) assms(2) by (simp add: codes_ok_def)
  have own: "pc_creator_id code = a" "pc_id code = i" using c(2) by (simp_all add: own_request_def)
  from origin obtain raw t where o1: "Create_code a raw t i \<in> set reqs" "pc_code_hash code = hash raw"
    "pc_expires_at code = t + code_life" unfolding code_origin_def own by blast
  from origin c(3) obtain raw' ip n' t1 t2 where o2: "p \<noteq> a" "Redeem_code p raw' ip n' t1 t2 \<in> set reqs"
    "hash raw' = pc_code_hash code" "t2 < pc_expires_at code" unfolding code_origin_def own by blast
  note o = o1 o2
  have "now' < t + 10 * minute" "t2 < t + 10 * minute"
    using c(2) o(3,7) by (simp_all add: own_request_def code_life_def)
  then show ?thesis
    using o c(4-6) create_couple_Inr(2) [OF c(7)] h(2)
    by (intro exI [of _ p] exI [of _ raw] exI [of _ raw'] exI [of _ t] exI [of _ ip] exI [of _ n'] exI [of _ t1] exI [of _ t2])
      simp
qed

section \<open>What the end of a relationship leaves\<close>

lemma delete_ephemeral_rows:
  "location_samples (delete_ephemeral_relationship_state db k t) = filter (\<lambda>s. ls_couple_id s \<noteq> k) (location_samples db)"
  "events (delete_ephemeral_relationship_state db k t) = filter (\<lambda>e. ne_couple_id e \<noteq> k) (events db)"
  "device_healths (delete_ephemeral_relationship_state db k t) = filter (\<lambda>h. dh_couple_id h \<noteq> k) (device_healths db)"
  "avatars (delete_ephemeral_relationship_state db k t) = filter (\<lambda>r. ra_couple_id r \<noteq> k) (avatars db)"
  "relationship_names (delete_ephemeral_relationship_state db k t) = filter (\<lambda>n. rn_couple_id n \<noteq> k) (relationship_names db)"
  "relationship_name_operations (delete_ephemeral_relationship_state db k t)
     = filter (\<lambda>o'. ro_couple_id o' \<noteq> k) (relationship_name_operations db)"
  "activity_events (delete_ephemeral_relationship_state db k t) = filter (\<lambda>e. act_couple_id e \<noteq> k) (activity_events db)"
  "activity_seen_rows (delete_ephemeral_relationship_state db k t) = filter (\<lambda>s. as_couple_id s \<noteq> k) (activity_seen_rows db)"
  "countdown_reminders (delete_ephemeral_relationship_state db k t)
     = filter (\<lambda>r. cr_countdown_id r \<notin> cd_id ` {c \<in> set (countdowns db). cd_couple_id c = k}) (countdown_reminders db)"
  "devices (delete_ephemeral_relationship_state db k t)
     = update_where (\<lambda>d. nd_account_id d \<in> mem_account_id ` {m \<in> set (members db). mem_couple_id m = k})
         (\<lambda>d. d\<lparr>nd_notifications_enabled := False, nd_disabled_at := Some t\<rparr>) (devices db)"
  by (simp_all add: delete_ephemeral_relationship_state_def delete_events_def Let_def delete_where_def select_def)

lemma delete_ephemeral_kept:
  "note_rows (delete_ephemeral_relationship_state db k t) = note_rows db"
  "smooches (delete_ephemeral_relationship_state db k t) = smooches db"
  "countdowns (delete_ephemeral_relationship_state db k t) = countdowns db"
  "together_days (delete_ephemeral_relationship_state db k t) = together_days db"
  "together_buckets (delete_ephemeral_relationship_state db k t) = together_buckets db"
  by (simp_all add: delete_ephemeral_relationship_state_def delete_events_def Let_def)

lemma ended_member:
  assumes "m \<in> set (ended_members k accs t rows)" "mem_couple_id m = k" "mem_account_id m \<in> accs"
  shows "\<not> is_active m"
  using assms unfolding ended_members_def set_update_where is_active_def by (elim UnE imageE) simp_all


section \<open>Witnesses\<close>

definition orbit_account :: "uuid \<Rightarrow> account" where
  "orbit_account i = \<lparr>acc_id = i, acc_email_normalized = ascii ''a@b.de'', acc_password_hash = ''h'',
        acc_display_name = ascii ''Ann'', acc_is_adult = True, acc_accepted_terms_version = ''1'',
        acc_is_admin = False, acc_verified_at = Some 0,
     acc_suspended_at = None, acc_deleted_at = None,
        acc_created_at = 0, acc_updated_at = 0\<rparr>"

definition orbit_pairing :: pairing_db where
  "orbit_pairing = feed_db.extend (orbit_feed\<lparr>accounts := [orbit_account 11, orbit_account 12, orbit_account 13, orbit_account 14]\<rparr>)
     \<lparr>pair_codes = [], rate_buckets = [], security_events = [], device_healths = [], avatars = []\<rparr>"

lemma orbit_pairing_fields [simp]:
  "members orbit_pairing = members orbit_core" "couples orbit_pairing = couples orbit_core"
  "accounts orbit_pairing = [orbit_account 11, orbit_account 12, orbit_account 13, orbit_account 14]"
  "pair_codes orbit_pairing = []" "rate_buckets orbit_pairing = []"
  by (simp_all add: orbit_pairing_def orbit_feed_def orbit_countdowns_def orbit_smooches_def orbit_names_def
      feed_db.extend_def countdowns_db.extend_def smooch_db.extend_def names_db.extend_def)

lemma orbit_core_ok: "core_ok orbit_pairing"
  by (simp add: core_ok_def orbit_account_def orbit_core_def active_members_def members_of_def is_active_def)

lemma orbit_unpair: "\<exists>db'. unpair orbit_pairing orbit_pairing 11 hour = Inr (db', 7)"
proof -
  have "lock_active_relationship orbit_pairing orbit_pairing 11 = Inr (Some (hd (couples orbit_core), members orbit_core))"
    by (simp add: lock_active_relationship_def active_couple_id_def orbit_core_def is_active_def select_def Let_def)
  then have "\<exists>db'. end_active_relationship orbit_pairing orbit_pairing 11 hour = Inr (db', Some 7)"
    by (simp add: end_active_relationship_def Let_def orbit_core_def)
  then show ?thesis by (simp add: unpair_Inr)
qed

theorem couples_have_two_members_witness:
  "length (filter (\<lambda>m. mem_couple_id m = 7 \<and> mem_left_at m = None)
     (members (hd (run_ops (handle_pairing id 5 5) [orbit_pairing] [Unpair 11 0 hour])))) = 0"
proof -
  obtain db' where u: "unpair orbit_pairing orbit_pairing 11 hour = Inr (db', 7)" using orbit_unpair by blast
  then have run: "hd (run_ops (handle_pairing id 5 5) [orbit_pairing] [Unpair 11 0 hour]) = db'"
    by (simp add: step_def snapshot_def)
  from u have "end_active_relationship orbit_pairing orbit_pairing 11 hour = Inr (db', Some 7)" by (simp add: unpair_Inr)
  then have "\<exists>c \<in> set (couples db'). cpl_id c = 7 \<and> cpl_ended_at c \<noteq> None"
    by (rule end_active_relationship_Some) (simp add: update_where_def orbit_core_def)
  with couples_have_two_members [OF orbit_core_ok refl, of id 5 5 "[Unpair 11 0 hour]"] show ?thesis
    unfolding run by force
qed


text \<open>Account 13 creates a code, 14 redeems it, 13 confirms.\<close>

definition orbit_requests :: "pairing_request list" where
  "orbit_requests = [Create_code 13 ''ABCDEFGH'' 0 90, Redeem_code 14 ''ABCDEFGH'' ''ip'' 0 minute minute]"

lemma orbit_reserved:
  "\<exists>db hist. run_ops (handle_pairing id 5 5) [orbit_pairing] orbit_requests = db # hist
     \<and> members db = members orbit_core \<and> couples db = couples orbit_core \<and> accounts db = accounts orbit_pairing
     \<and> pair_codes db = [(new_code 90 13 ''ABCDEFGH'' 0)\<lparr>pc_pending_partner_id := Some 14\<rparr>]"
proof -
  have lock: "length (lock_accounts db [a, b]) = 2 \<and> \<not> list_ex (\<lambda>x. \<not> eligible x) (lock_accounts db [a, b])"
    if "accounts db = accounts orbit_pairing" "(a, b) \<in> {(14, 13), (13, 14)}" for a b and db :: pairing_db
    using that by (auto simp: lock_accounts_def select_def orbit_account_def eligible_def)
  let ?db1 = "orbit_pairing\<lparr>pair_codes := [new_code 90 13 ''ABCDEFGH'' 0]\<rparr>"
  have create: "create_code id orbit_pairing 13 ''ABCDEFGH'' 0 90 = Inr (?db1, code_life)"
    by (simp add: create_code_def Let_def lock_accounts_def select_def orbit_account_def eligible_def guard_def
        active_couple_id_def orbit_core_def is_active_def insert_unique_def)
  obtain rows where allowed: "redeem_allowed id 5 5 ?db1 ''ip'' 14 minute = (?db1\<lparr>rate_buckets := rows\<rparr>, True)"
    by (simp add: redeem_allowed_def consume_rate_limits_def request_rules_def consume_rule_def delete_expired_def
        delete_where_def upsert_bucket_def Let_def rate_limit_subject_def bucket_id_def)
  let ?db2 = "?db1\<lparr>rate_buckets := rows\<rparr>"
  have "locked_active_memberships ?db2 [14, 13] = []"
    by (simp add: locked_active_memberships_def select_def orbit_core_def)
  then have reserve: "reserve_code ?db1 ?db2 14 ''ABCDEFGH'' minute minute = Inr (?db2\<lparr>pair_codes :=
      [(new_code 90 13 ''ABCDEFGH'' 0)\<lparr>pc_pending_partner_id := Some 14\<rparr>]\<rparr>,
      \<lparr>ps_state = ''awaiting_creator_confirmation'', ps_request_id = 90, ps_couple_id = None\<rparr>)"
    using lock [of ?db2 14 13]
    by (simp add: reserve_code_def Let_def open_code_def new_code_def code_life_def update_where_def)
  show ?thesis
    by (simp add: orbit_requests_def step_def create redeem_code_def allowed snapshot_def reserve)
qed

theorem pairing_needs_both_witness:
  "\<exists>db hist hist' r. run_ops (handle_pairing id 5 5) [orbit_pairing] orbit_requests = db # hist
     \<and> handle_pairing id 5 5 (db # hist) (Confirm_pairing 13 90 0 (2 * minute) (2 * minute) 8) = Inr (hist', r)
     \<and> members (hd hist') = members db @ [new_member 8 13 (2 * minute), new_member 8 14 (2 * minute)]"
proof -
  obtain db hist where run: "run_ops (handle_pairing id 5 5) [orbit_pairing] orbit_requests = db # hist"
    "members db = members orbit_core" "couples db = couples orbit_core" "accounts db = accounts orbit_pairing"
    "pair_codes db = [(new_code 90 13 ''ABCDEFGH'' 0)\<lparr>pc_pending_partner_id := Some 14\<rparr>]"
    using orbit_reserved by blast
  have "\<exists>db'. create_couple db ((new_code 90 13 ''ABCDEFGH'' 0)\<lparr>pc_pending_partner_id := Some 14\<rparr>) 13 14 (2 * minute) 8 = Inr db'"
    by (auto simp: create_couple_def insert_unique_def insert_member_def run(2,3) orbit_core_def new_couple_def
        is_active_def new_member_def)
  then obtain hist' r where c: "handle_pairing id 5 5 (db # hist) (Confirm_pairing 13 90 0 (2 * minute) (2 * minute) 8) = Inr (hist', r)"
    by (auto simp: confirm_pairing_def snapshot_def run(2-5) Let_def own_request_def new_code_def code_life_def guard_def
        lock_accounts_def select_def orbit_account_def eligible_def locked_active_memberships_def orbit_core_def)
  from pairing_needs_both [OF _ run(1) [symmetric] c] obtain p raw where
    "Redeem_code p raw ''ip'' 0 minute minute \<in> set orbit_requests
       \<and> members (hd hist') = members db @ [new_member 8 13 (2 * minute), new_member 8 p (2 * minute)]"
    by (auto simp: orbit_requests_def)
  with run(1) c show ?thesis by (auto simp: orbit_requests_def)
qed

end
