(* ===== verification/Question_Gates.thy ===== *)
theory Question_Gates
  imports Names
begin

text \<open>
  The deterministic gates every candidate question passes (\<^verbatim>\<open>safety.py\<close> of
  \<^verbatim>\<open>services/ai/src/little_orbit_ai\<close>): normalization, the unsafe patterns, and the
  duplicate check by the longest matching blocks of \<^verbatim>\<open>difflib.SequenceMatcher\<close>.
\<close>

section \<open>Candidates\<close>

datatype question_kind = Single | Multiple | Free | Guess | Weighted

datatype question_category = Everyday | Memories | Dreams | Values | Playful | Connection | Intimacy

datatype question_depth = Light | Reflective | Deeper

datatype theme_role = Themed | Variety

record candidate =
  ca_client_id :: string
  ca_kind :: question_kind
  ca_prompt :: ustring
  ca_category :: question_category
  ca_intimacy :: bool
  ca_options :: "ustring list"
  ca_option_icons :: "string list"
  ca_scale_low_label :: "ustring option"
  ca_scale_high_label :: "ustring option"
  ca_concept_family :: string
  ca_concept_summary :: ustring
  ca_depth :: question_depth
  ca_theme_role :: theme_role
  ca_theme_tags :: "ustring list"

fun kind_value :: "question_kind \<Rightarrow> string" where
  "kind_value Single = ''single_choice''"
| "kind_value Multiple = ''multiple_choice''"
| "kind_value Free = ''free_text''"
| "kind_value Guess = ''partner_guess''"
| "kind_value Weighted = ''weighted_choice''"

fun category_value :: "question_category \<Rightarrow> string" where
  "category_value Everyday = ''everyday''"
| "category_value Memories = ''memories''"
| "category_value Dreams = ''dreams''"
| "category_value Values = ''values''"
| "category_value Playful = ''playful''"
| "category_value Connection = ''connection''"
| "category_value Intimacy = ''intimacy''"

section \<open>Normalization\<close>

text \<open>Beside what \<^typ>\<open>unicode\<close> holds: \<^verbatim>\<open>str.casefold\<close>.\<close>

record folding_unicode = unicode +
  casefold :: "ustring \<Rightarrow> ustring"

text \<open>\<^verbatim>\<open>s.split()\<close>\<close>

fun split_words :: "(nat \<Rightarrow> bool) \<Rightarrow> ustring \<Rightarrow> ustring list" where
  "split_words space [] = []"
| "split_words space (c # s) =
     (let ws = split_words space s in
      if space c then ws
      else if s = [] \<or> space (hd s) then [c] # ws
      else (c # hd ws) # List.tl ws)"

text \<open>\<^verbatim>\<open>" ".join(words)\<close>\<close>

fun join_words :: "ustring list \<Rightarrow> ustring" where
  "join_words [] = []"
| "join_words [w] = w"
| "join_words (w # ws) = w @ 32 # join_words ws"

definition normalize_question :: "folding_unicode \<Rightarrow> ustring \<Rightarrow> ustring" where
  "normalize_question u text =
     (let folded = casefold u (nfkc u text)
      in join_words (split_words (is_space u)
           (map (\<lambda>c. if is_word u c \<or> is_space u c then c else 32) folded)))"

text \<open>\<open>sha\<close>: \<^verbatim>\<open>hashlib.sha256(_.encode()).hexdigest()\<close>.\<close>

definition normalized_hash :: "folding_unicode \<Rightarrow> (ustring \<Rightarrow> string) \<Rightarrow> ustring \<Rightarrow> string" where
  "normalized_hash u sha text = sha (normalize_question u text)"

section \<open>Patterns\<close>

definition exactly :: "string \<Rightarrow> regex" where
  "exactly s = foldr (\<lambda>c r. Seq (Class (\<lambda>x. x = of_char c)) r) s Empty"

fun one_of :: "regex list \<Rightarrow> regex" where
  "one_of [] = Class (\<lambda>_. False)"
| "one_of [r] = r"
| "one_of (r # rs) = Alt r (one_of rs)"

definition whole_word :: "folding_unicode \<Rightarrow> regex \<Rightarrow> regex" where
  "whole_word u r = Seq (Boundary (is_word u)) (Seq r (Boundary (is_word u)))"

definition hyphen_or_space :: regex where
  "hyphen_or_space = Class (\<lambda>c. c = 45 \<or> c = 32)"

definition UNSAFE_PATTERNS :: "folding_unicode \<Rightarrow> (string \<times> regex list) list" where
  "UNSAFE_PATTERNS u =
     [(''identifying_information'',
        [whole_word u (one_of (map exactly [''address'', ''phone number'', ''email address'', ''full legal name'',
           ''social security''])),
         whole_word u (Seq (exactly ''where '') (Seq (Opt (exactly ''exactly '')) (exactly ''do you live'')))]),
      (''coercion_or_manipulation'',
        [whole_word u (one_of (map exactly [''force'', ''pressure'', ''punish'', ''control'', ''track them secretly'']))]),
      (''regulated_advice'',
        [whole_word u (one_of (map exactly [''diagnose'', ''medical advice'', ''legal advice'', ''financial advice'']))]),
      (''self_harm'',
        [whole_word u (one_of [exactly ''suicide'', Seq (exactly ''self'') (Seq hyphen_or_space (exactly ''harm'')),
           exactly ''kill yourself''])]),
      (''minors'',
        [whole_word u (one_of (map exactly [''child sexual'', ''minor sexual'', ''underage'']))]),
      (''graphic_sexual'',
        [whole_word u (one_of (map exactly [''explicit sex act'', ''graphic sexual'']))]),
      (''unsafe_location'',
        [whole_word u (one_of [Seq (exactly ''real'') (Seq hyphen_or_space (exactly ''time location'')),
           exactly ''secretly locate'', exactly ''gps coordinates''])])]"

definition GENERIC_PATTERNS :: "folding_unicode \<Rightarrow> regex list" where
  "GENERIC_PATTERNS u =
     map (\<lambda>s. whole_word u (exactly s)) [''someone you trust'', ''a new person'', ''people in general'']"

text \<open>\<^verbatim>\<open>term in text\<close>\<close>

fun occurs_in :: "ustring \<Rightarrow> ustring \<Rightarrow> bool" where
  "occurs_in t [] \<longleftrightarrow> t = []"
| "occurs_in t (c # s) \<longleftrightarrow> take (length t) (c # s) = t \<or> occurs_in t s"

section \<open>Similarity\<close>

text \<open>
  \<^verbatim>\<open>SequenceMatcher(None, a, b)\<close>: in a \<open>b\<close> of at least 200 characters those
  that occur in more than a hundredth of it are popular and start no match; a match is still extended
  over them on both sides. Of the longest matches the first in \<open>a\<close>, then in \<open>b\<close> is taken.
\<close>

definition popular :: "ustring \<Rightarrow> nat \<Rightarrow> bool" where
  "popular b c \<longleftrightarrow> 200 \<le> length b \<and> length b div 100 + 1 < length (filter (\<lambda>x. x = c) b)"

text \<open>The length of the common run of unpopular characters that starts at \<open>i\<close> and \<open>j\<close>.\<close>

fun common_run :: "(nat \<Rightarrow> bool) \<Rightarrow> ustring \<Rightarrow> ustring \<Rightarrow> nat" where
  "common_run pop (x # xs) (y # ys) = (if x = y \<and> \<not> pop x then Suc (common_run pop xs ys) else 0)"
| "common_run pop _ _ = 0"

definition keep_longer :: "nat \<times> nat \<times> nat \<Rightarrow> nat \<times> nat \<times> nat \<Rightarrow> nat \<times> nat \<times> nat" where
  "keep_longer m longest = (if snd (snd longest) < snd (snd m) then m else longest)"

definition slice :: "'a list \<Rightarrow> nat \<Rightarrow> nat \<Rightarrow> 'a list" where
  "slice xs lo hi = take (hi - lo) (drop lo xs)"

definition longest_run :: "(nat \<Rightarrow> bool) \<Rightarrow> ustring \<Rightarrow> ustring \<Rightarrow> nat \<Rightarrow> nat \<Rightarrow> nat \<Rightarrow> nat \<Rightarrow> nat \<times> nat \<times> nat" where
  "longest_run pop a b alo ahi blo bhi =
     fold keep_longer
       (concat (map (\<lambda>i. map (\<lambda>j. (i, j, common_run pop (slice a i ahi) (slice b j bhi))) [blo..<bhi]) [alo..<ahi]))
       (alo, blo, 0)"

fun extend_left :: "ustring \<Rightarrow> ustring \<Rightarrow> nat \<Rightarrow> nat \<Rightarrow> nat \<times> nat \<times> nat \<Rightarrow> nat \<times> nat \<times> nat" where
  "extend_left a b alo blo (Suc i, Suc j, k) =
     (if alo \<le> i \<and> blo \<le> j \<and> a ! i = b ! j then extend_left a b alo blo (i, j, Suc k) else (Suc i, Suc j, k))"
| "extend_left a b alo blo m = m"

definition extend_right :: "ustring \<Rightarrow> ustring \<Rightarrow> nat \<Rightarrow> nat \<Rightarrow> nat \<times> nat \<times> nat \<Rightarrow> nat \<times> nat \<times> nat" where
  "extend_right a b ahi bhi m =
     (case m of (i, j, k) \<Rightarrow> (i, j, k + common_run (\<lambda>_. False) (slice a (i + k) ahi) (slice b (j + k) bhi)))"

definition find_longest_match :: "ustring \<Rightarrow> ustring \<Rightarrow> nat \<Rightarrow> nat \<Rightarrow> nat \<Rightarrow> nat \<Rightarrow> nat \<times> nat \<times> nat" where
  "find_longest_match a b alo ahi blo bhi =
     extend_right a b ahi bhi (extend_left a b alo blo (longest_run (popular b) a b alo ahi blo bhi))"

lemma common_run_le: "common_run pop xs ys \<le> length xs \<and> common_run pop xs ys \<le> length ys"
  by (induction pop xs ys rule: common_run.induct) auto

lemma length_slice: "length (slice xs lo hi) \<le> hi - lo"
  by (simp add: slice_def)

lemma fold_keep_longer:
  assumes "P m" "\<And>x. x \<in> set ms \<Longrightarrow> P x"
  shows "P (fold keep_longer ms m)"
  using assms by (induction ms arbitrary: m) (auto simp: keep_longer_def)

definition match_within :: "nat \<Rightarrow> nat \<Rightarrow> nat \<Rightarrow> nat \<Rightarrow> nat \<times> nat \<times> nat \<Rightarrow> bool" where
  "match_within alo ahi blo bhi m \<longleftrightarrow>
     (case m of (i, j, k) \<Rightarrow> alo \<le> i \<and> blo \<le> j \<and> i + k \<le> ahi \<and> j + k \<le> bhi)"

lemma within_longest_run:
  assumes "alo \<le> ahi" "blo \<le> bhi"
  shows "match_within alo ahi blo bhi (longest_run pop a b alo ahi blo bhi)"
  unfolding longest_run_def
proof (rule fold_keep_longer)
  show "match_within alo ahi blo bhi (alo, blo, 0)" using assms by (simp add: match_within_def)
next
  fix m assume "m \<in> set (concat (map (\<lambda>i. map (\<lambda>j. (i, j, common_run pop (slice a i ahi) (slice b j bhi))) [blo..<bhi]) [alo..<ahi]))"
  then obtain i j where m: "m = (i, j, common_run pop (slice a i ahi) (slice b j bhi))"
    and ij: "alo \<le> i" "i < ahi" "blo \<le> j" "j < bhi" by auto
  have "common_run pop (slice a i ahi) (slice b j bhi) \<le> ahi - i" "common_run pop (slice a i ahi) (slice b j bhi) \<le> bhi - j"
    using common_run_le [of pop "slice a i ahi" "slice b j bhi"] length_slice [of a i ahi] length_slice [of b j bhi]
    by linarith+
  with ij show "match_within alo ahi blo bhi m" unfolding m match_within_def prod.case by linarith
qed

lemma within_extend_left:
  "match_within alo ahi blo bhi m \<Longrightarrow> match_within alo ahi blo bhi (extend_left a b alo blo m)"
  by (induction a b alo blo m rule: extend_left.induct) (auto simp: match_within_def)

lemma within_extend_right:
  assumes "match_within alo ahi blo bhi m"
  shows "match_within alo ahi blo bhi (extend_right a b ahi bhi m)"
proof -
  obtain i j k where m: "m = (i, j, k)" by (cases m)
  have "common_run (\<lambda>_. False) (slice a (i + k) ahi) (slice b (j + k) bhi) \<le> ahi - (i + k)"
    "common_run (\<lambda>_. False) (slice a (i + k) ahi) (slice b (j + k) bhi) \<le> bhi - (j + k)"
    using common_run_le [of "\<lambda>_. False" "slice a (i + k) ahi" "slice b (j + k) bhi"]
      length_slice [of a "i + k" ahi] length_slice [of b "j + k" bhi] by linarith+
  with assms show ?thesis unfolding m match_within_def extend_right_def prod.case by linarith
qed

lemma within_find_longest_match:
  "alo \<le> ahi \<Longrightarrow> blo \<le> bhi \<Longrightarrow> match_within alo ahi blo bhi (find_longest_match a b alo ahi blo bhi)"
  unfolding find_longest_match_def by (intro within_extend_right within_extend_left within_longest_run)

text \<open>
  The number of characters in all matching blocks of a region: the longest match and, on both sides
  of it, the rest. The code keeps the regions on a stack; their order does not matter for the sum.
\<close>

function (sequential) matched :: "ustring \<Rightarrow> ustring \<Rightarrow> nat \<Rightarrow> nat \<Rightarrow> nat \<Rightarrow> nat \<Rightarrow> nat" where
  "matched a b alo ahi blo bhi =
     (if \<not> (alo \<le> ahi \<and> blo \<le> bhi) then 0
      else (case find_longest_match a b alo ahi blo bhi of
         (i, j, k) \<Rightarrow>
           (if k = 0 then 0
            else k + (if alo < i \<and> blo < j then matched a b alo i blo j else 0)
                   + (if i + k < ahi \<and> j + k < bhi then matched a b (i + k) ahi (j + k) bhi else 0))))"
  by pat_completeness auto
termination
proof (relation "measure (\<lambda>(a, b, alo, ahi, blo, bhi). ahi - alo)", goal_cases)
  case 1
  show ?case by simp
next
  case prems: (2 a b alo ahi blo bhi)
  show ?case using prems within_find_longest_match [of alo ahi blo bhi a b] by (auto simp: match_within_def)
next
  case prems: (3 a b alo ahi blo bhi)
  show ?case using prems within_find_longest_match [of alo ahi blo bhi a b] by (auto simp: match_within_def)
qed

declare matched.simps [simp del]

text \<open>\<^verbatim>\<open>ratio() >= 0.9\<close>: a quotient of small integers rounds to no other side of 0.9.\<close>

definition similar :: "ustring \<Rightarrow> ustring \<Rightarrow> bool" where
  "similar a b \<longleftrightarrow> a = [] \<and> b = [] \<or> 9 * (length a + length b) \<le> 20 * matched a b 0 (length a) 0 (length b) \<and> (a \<noteq> [] \<or> b \<noteq> [])"

definition is_near_duplicate :: "folding_unicode \<Rightarrow> ustring \<Rightarrow> ustring list \<Rightarrow> bool" where
  "is_near_duplicate u candidate recent =
     (let normalized = normalize_question u candidate
      in list_ex (\<lambda>item. similar normalized (normalize_question u item)) recent)"

section \<open>The gates\<close>

definition invalid_layout_character :: "folding_unicode \<Rightarrow> nat \<Rightarrow> bool" where
  "invalid_layout_character u c \<longleftrightarrow>
     c \<noteq> 32 \<and> (is_space u c \<or> category u c = ''Zs'') \<or> c < 32 \<or> c = 127"

definition has_layout_whitespace :: "folding_unicode \<Rightarrow> candidate \<Rightarrow> bool" where
  "has_layout_whitespace u c \<longleftrightarrow>
     list_ex (\<lambda>value. value \<noteq> strip u value \<or> occurs_in [32, 32] value \<or> list_ex (invalid_layout_character u) value)
       ([ca_prompt c] @ ca_options c @ [case ca_scale_low_label c of None \<Rightarrow> [] | Some l \<Rightarrow> l,
          case ca_scale_high_label c of None \<Rightarrow> [] | Some l \<Rightarrow> l, ca_concept_summary c])"

definition unsafe_reasons :: "folding_unicode \<Rightarrow> ustring \<Rightarrow> string list" where
  "unsafe_reasons u normalized =
     map fst (filter (\<lambda>(reason, patterns). list_ex (\<lambda>p. search p normalized) patterns) (UNSAFE_PATTERNS u))"

text \<open>\<^verbatim>\<open>prompt.rstrip().endswith("?")\<close>\<close>

definition ends_with_question_mark :: "folding_unicode \<Rightarrow> ustring \<Rightarrow> bool" where
  "ends_with_question_mark u prompt \<longleftrightarrow>
     (let r = dropWhile (is_space u) (rev prompt) in r \<noteq> [] \<and> hd r = 63)"

definition content_reasons :: "folding_unicode \<Rightarrow> candidate \<Rightarrow> ustring \<Rightarrow> string list" where
  "content_reasons u c normalized =
     unsafe_reasons u normalized
     @ (if ends_with_question_mark u (ca_prompt c) then [] else [''not_a_question''])
     @ (if list_ex (\<lambda>p. search p normalized) (GENERIC_PATTERNS u) then [''not_couple_focused''] else [])
     @ (if ca_intimacy c \<noteq> (ca_category c = Intimacy) then [''intimacy_category_mismatch''] else [])
     @ (if ca_category c = Intimacy
           \<and> list_ex (\<lambda>term. occurs_in (ascii term) normalized) [''must'', ''should agree'', ''owe your partner'']
        then [''missing_consent_boundary''] else [])"

definition interaction_reasons :: "folding_unicode \<Rightarrow> candidate \<Rightarrow> ustring \<Rightarrow> string list" where
  "interaction_reasons u c normalized =
     (if ca_kind c = Guess
         \<and> search (whole_word u (one_of (map exactly [''your partner'', ''partner s'']))) normalized
      then [''partner_guess_not_self_answerable''] else [])
     @ (if ca_kind c = Weighted
           \<and> search (whole_word u (one_of (map exactly [''scale'', ''1 to 10'', ''one to ten'']))) normalized
        then [''scale_embedded_in_prompt''] else [])
     @ (if list_ex (\<lambda>option. normalize_question u option \<in> {ascii ''all of the above'', ascii ''none of the above''})
             (ca_options c)
        then [''ambiguous_option''] else [])"

definition concept_reasons :: "folding_unicode \<Rightarrow> candidate \<Rightarrow> string list" where
  "concept_reasons u c =
     (let normalized = normalize_question u (ca_concept_summary c) in
      (if list_ex (\<lambda>(_, patterns). list_ex (\<lambda>p. search p normalized) patterns) (UNSAFE_PATTERNS u)
       then [''unsafe_concept_metadata''] else [])
      @ (if list_ex (\<lambda>value. occurs_in (ascii value) normalized)
              [''ignore previous'', ''system prompt'', ''developer message'', ''tool call'']
         then [''instruction_in_concept_metadata''] else []))"

text \<open>The result is the list of reasons; a candidate is accepted when there are none.\<close>

definition validate_candidate :: "folding_unicode \<Rightarrow> candidate \<Rightarrow> ustring list \<Rightarrow> string list" where
  "validate_candidate u c recent =
     (let normalized = normalize_question u (ca_prompt c) in
      content_reasons u c normalized @ interaction_reasons u c normalized @ concept_reasons u c
      @ (if has_layout_whitespace u c then [''layout_whitespace''] else [])
      @ (if is_near_duplicate u (ca_prompt c) recent then [''near_duplicate''] else []))"

end
