(* ===== verification/Question_Pool.thy ===== *)
theory Question_Pool
  imports Question_Gates
begin

text \<open>
  The selection of a day's questions from a model batch and the curated bank
  (\<^verbatim>\<open>pipeline.py\<close> of \<^verbatim>\<open>services/ai/src/little_orbit_ai\<close>).
  \<open>loaded\<close> is the bundled bank (a data file and the reviewed reserve); the outcome of the model call is
  an argument. The properties: what is published is safe, five questions in the reviewed mix, and the
  selection does not fail on the batches the service asks for.
\<close>

section \<open>The pipeline\<close>

record day_theme =
  dt_title :: ustring
  dt_summary :: ustring

record ollama_settings =
  os_model :: string
  os_manifest_digest :: string
  os_strict_recovery :: bool

record parsed_batch =
  pb_date :: date
  pb_questions :: "candidate list"
  pb_quarantined :: "(string \<times> string list) list"

record published_pool =
  pp_date :: date
  pp_general :: "candidate list"
  pp_intimacy_alternatives :: "candidate list"
  pp_prompt_version :: string
  pp_model :: string
  pp_model_manifest_digest :: string
  pp_fallback_reason :: "string option"
  pp_theme :: "(ustring \<times> ustring) option"
  pp_knowledge_revision :: "string option"
  pp_context_digest :: "string option"

record pipeline_result =
  pr_pool :: published_pool
  pr_quarantined :: "(string \<times> string list) list"

definition PROMPT_VERSION :: string where "PROMPT_VERSION = ''question-batch-v4''"

text \<open>\<^verbatim>\<open>date.toordinal()\<close> counts from year 1.\<close>

definition toordinal :: "date \<Rightarrow> int" where
  "toordinal d = d + 719163"

fun combinations :: "nat \<Rightarrow> 'a list \<Rightarrow> 'a list list" where
  "combinations 0 xs = [[]]"
| "combinations (Suc n) [] = []"
| "combinations (Suc n) (x # xs) = map (Cons x) (combinations n xs) @ combinations (Suc n) xs"

definition required_daily_mix :: "candidate list \<Rightarrow> bool" where
  "required_daily_mix items \<longleftrightarrow>
     count_list (map ca_theme_role items) Themed = 3 \<and> count_list (map ca_theme_role items) Variety = 2
     \<and> count_list (map ca_depth items) Light = 1 \<and> count_list (map ca_depth items) Reflective = 2
     \<and> count_list (map ca_depth items) Deeper = 2"

definition over_two :: "'a list \<Rightarrow> int" where
  "over_two xs = sum_list (map (\<lambda>x. max (int (count_list xs x) - 2) 0 * 40) (remdups xs))"

definition group_score :: "string set \<Rightarrow> candidate list \<Rightarrow> int" where
  "group_score generated_ids five =
     (let kinds = map ca_kind five; categories = map ca_category five
      in int (length (remdups kinds)) * 20 + int (length (remdups categories)) * 16
         + int (length (filter (\<lambda>c. ca_client_id c \<in> generated_ids) five)) * 2
         + (if list_ex (\<lambda>c. ca_category c \<in> {Connection, Memories, Values, Dreams}) five then 15 else 0)
         + (if list_ex (\<lambda>c. ca_category c \<in> {Everyday, Playful}) five then 15 else 0)
         - (over_two kinds + over_two categories))"

definition better_group :: "string set \<Rightarrow> candidate list \<Rightarrow> candidate list option \<Rightarrow> candidate list option" where
  "better_group generated_ids five found =
     (if \<not> required_daily_mix five then found
      else (case found of
          None \<Rightarrow> Some five
        | Some b \<Rightarrow>
            (if group_score generated_ids b < group_score generated_ids five
                \<or> group_score generated_ids five = group_score generated_ids b
                  \<and> map ca_client_id five < map ca_client_id b
             then Some five else Some b)))"

fun depth_rank :: "question_depth \<Rightarrow> nat" where
  "depth_rank Light = 0" | "depth_rank Reflective = 1" | "depth_rank Deeper = 2"

fun category_rank :: "question_category \<Rightarrow> nat" where
  "category_rank Playful = 0" | "category_rank Everyday = 1" | "category_rank Dreams = 2"
| "category_rank Memories = 3" | "category_rank Values = 4" | "category_rank Connection = 5"
| "category_rank Intimacy = 6"

fun kind_rank :: "question_kind \<Rightarrow> nat" where
  "kind_rank Single = 0" | "kind_rank Multiple = 1" | "kind_rank Weighted = 2" | "kind_rank Guess = 3"
| "kind_rank Free = 4"

definition order_for_conversation :: "candidate list \<Rightarrow> candidate list" where
  "order_for_conversation items =
     sort_key (\<lambda>c. (depth_rank (ca_depth c), category_rank (ca_category c), kind_rank (ca_kind c))) items"

definition balanced_five :: "candidate list \<Rightarrow> string set \<Rightarrow> exc + candidate list" where
  "balanced_five candidates generated_ids =
     (case fold (better_group generated_ids) (combinations 5 (take 14 candidates)) None of
        None \<Rightarrow> Inl (RuntimeError ''validated question pool contains fewer than five questions'')
      | Some g \<Rightarrow> Inr (order_for_conversation g))"

definition SLOT_DEPTHS :: "question_depth list" where
  "SLOT_DEPTHS = [Light, Reflective, Reflective, Deeper, Deeper]"

definition fallback_metadata :: "folding_unicode \<Rightarrow> candidate \<Rightarrow> nat \<Rightarrow> day_theme option \<Rightarrow> candidate" where
  "fallback_metadata u item index theme =
     item\<lparr>ca_depth := SLOT_DEPTHS ! (index mod 5),
          ca_theme_role := (if index mod 5 < 3 then Themed else Variety),
          ca_theme_tags := (if ca_theme_tags item \<noteq> [] then ca_theme_tags item
            else [case theme of None \<Rightarrow> ascii ''evergreen''
                  | Some t \<Rightarrow> map (\<lambda>c. if c = 32 then 45 else c) (casefold u (dt_title t))])\<rparr>"

text \<open>The loop over the batch: what was accepted, what is in quarantine, what is seen so far.\<close>

fun screen_batch ::
    "folding_unicode \<Rightarrow> candidate list \<Rightarrow> ustring list \<Rightarrow> candidate list \<times> (string \<times> string list) list" where
  "screen_batch u [] seen = ([], [])"
| "screen_batch u (c # cs) seen =
     (let reasons = validate_candidate u c seen in
      if reasons = []
      then (case screen_batch u cs (seen @ [ca_prompt c]) of (accepted, bad) \<Rightarrow> (c # accepted, bad))
      else (case screen_batch u cs seen of (accepted, bad) \<Rightarrow> (accepted, (ca_client_id c, reasons) # bad)))"

text \<open>The loop that fills from the bank.\<close>

fun fill_from_bank ::
    "folding_unicode \<Rightarrow> day_theme option \<Rightarrow> ustring list \<Rightarrow> candidate list \<Rightarrow> candidate list \<Rightarrow> string set \<Rightarrow> nat
       \<Rightarrow> candidate list" where
  "fill_from_bank u theme recent [] general used index = general"
| "fill_from_bank u theme recent (raw # rest) general used index =
     (if 14 \<le> length general then general
      else (let item = fallback_metadata u raw index theme in
        if validate_candidate u item recent = [] \<and> ca_client_id item \<notin> used \<and> ca_prompt item \<notin> set recent
        then fill_from_bank u theme recent rest (general @ [item]) (insert (ca_client_id item) used) (index + 1)
        else fill_from_bank u theme recent rest general used index))"

definition rotated_bank :: "date \<Rightarrow> candidate list \<Rightarrow> candidate list" where
  "rotated_bank d bank = (let start = nat (toordinal d * 5 mod int (length bank)) in drop start bank @ take start bank)"

definition pool_of ::
    "date \<Rightarrow> ollama_settings \<Rightarrow> day_theme option \<Rightarrow> string option \<Rightarrow> string option \<Rightarrow> candidate list \<Rightarrow> candidate list
       \<Rightarrow> string option \<Rightarrow> published_pool" where
  "pool_of d settings theme knowledge context selected intimacy reason =
     \<lparr>pp_date = d, pp_general = selected, pp_intimacy_alternatives = intimacy, pp_prompt_version = PROMPT_VERSION,
      pp_model = os_model settings, pp_model_manifest_digest = os_manifest_digest settings,
      pp_fallback_reason = reason, pp_theme = map_option (\<lambda>t. (dt_title t, dt_summary t)) theme,
      pp_knowledge_revision = knowledge, pp_context_digest = context\<rparr>"

text \<open>The intimacy pool of a day: what the model offered, or one of the bank's.\<close>

definition intimacy_pool :: "date \<Rightarrow> candidate list \<Rightarrow> candidate list \<Rightarrow> exc + candidate list" where
  "intimacy_pool d accepted curated =
     (let intimacy = filter ca_intimacy accepted; bank = filter ca_intimacy curated in
      if intimacy \<noteq> [] then Inr intimacy
      else bind_exc (guard (bank \<noteq> []) ZeroDivisionError) (\<lambda>_.
        Inr [bank ! nat (toordinal d mod int (length bank))]))"

definition select_pool ::
    "folding_unicode \<Rightarrow> candidate list \<Rightarrow> date \<Rightarrow> parsed_batch option \<Rightarrow> ustring list \<Rightarrow> ollama_settings
       \<Rightarrow> string option \<Rightarrow> candidate list option \<Rightarrow> day_theme option \<Rightarrow> string option \<Rightarrow> string option
       \<Rightarrow> exc + pipeline_result" where
  "select_pool u loaded d batch recent settings failure curated_bank theme knowledge context =
     (case screen_batch u (case batch of None \<Rightarrow> [] | Some b \<Rightarrow> pb_questions b) recent of (accepted, rejected) \<Rightarrow>
      let quarantined = (case batch of None \<Rightarrow> [] | Some b \<Rightarrow> pb_quarantined b) @ rejected;
          generated = filter (\<lambda>c. \<not> ca_intimacy c) accepted;
          generated_ids = ca_client_id ` set generated;
          pool = pool_of d settings theme knowledge context
      in if os_strict_recovery settings
         then
           bind_exc (guard (failure = None \<and> 5 \<le> length generated \<and> filter ca_intimacy accepted \<noteq> [])
                       (GpuRequiredFailure ''Strict GPU recovery refuses curated fallback'')) (\<lambda>_.
           bind_exc (balanced_five generated generated_ids) (\<lambda>selected.
             Inr \<lparr>pr_pool = pool selected (filter ca_intimacy accepted) None, pr_quarantined = quarantined\<rparr>))
         else
           (let curated = (case curated_bank of None \<Rightarrow> loaded | Some b \<Rightarrow> (if b = [] then loaded else b));
                bank = filter (\<lambda>c. \<not> ca_intimacy c) curated
            in bind_exc (guard (bank \<noteq> []) ZeroDivisionError) (\<lambda>_.
               let general = fill_from_bank u theme recent (rotated_bank d bank) generated
                     (ca_client_id ` set accepted) 0
               in bind_exc (guard (5 \<le> length general)
                      (RuntimeError ''curated bank invariant failed: fewer than five general questions'')) (\<lambda>_.
                  bind_exc (intimacy_pool d accepted curated) (\<lambda>intimacy.
                  let reason = (if failure = None \<and> batch \<noteq> None
                        \<and> (length generated < 5 \<or> filter ca_intimacy accepted = [])
                        then Some ''insufficient_valid_candidates'' else failure)
                  in bind_exc (balanced_five general generated_ids) (\<lambda>selected.
                       Inr \<lparr>pr_pool = pool selected intimacy reason, pr_quarantined = quarantined\<rparr>))))))"

text \<open>
  \<^verbatim>\<open>generate_pool\<close>: the model is asked once; \<open>outcome\<close> is its batch, its
  \<^verbatim>\<open>OllamaFailure\<close>, or another exception, which is not caught.
\<close>

definition generate_pool ::
    "folding_unicode \<Rightarrow> candidate list \<Rightarrow> date \<Rightarrow> ustring list \<Rightarrow> exc + parsed_batch \<Rightarrow> ollama_settings
       \<Rightarrow> candidate list option \<Rightarrow> day_theme option \<Rightarrow> string option \<Rightarrow> string option \<Rightarrow> exc + pipeline_result" where
  "generate_pool u loaded d recent outcome settings curated_bank theme knowledge context =
     (let attempt = (\<lambda>batch failure. select_pool u loaded d batch recent settings failure curated_bank theme knowledge context)
      in case outcome of
           Inr b \<Rightarrow> (if pb_date b \<noteq> d then attempt None (Some ''wrong_calendar_date'') else attempt (Some b) None)
         | Inl OllamaFailure \<Rightarrow> attempt None (Some ''ollama_unavailable'')
         | Inl e \<Rightarrow> Inl e)"

section \<open>What is published is safe\<close>

text \<open>
  A candidate as validated: nothing unsafe in its words, a question, for couples, with the intimacy flag
  it claims, and no layout tricks.
\<close>

definition passes_gates :: "folding_unicode \<Rightarrow> candidate \<Rightarrow> bool" where
  "passes_gates u c \<longleftrightarrow> content_reasons u c (normalize_question u (ca_prompt c)) = []
     \<and> interaction_reasons u c (normalize_question u (ca_prompt c)) = [] \<and> concept_reasons u c = []
     \<and> \<not> has_layout_whitespace u c"

lemma validate_candidate_accepts:
  "validate_candidate u c recent = [] \<longleftrightarrow> passes_gates u c \<and> \<not> is_near_duplicate u (ca_prompt c) recent"
  by (auto simp: validate_candidate_def passes_gates_def Let_def)

lemma near_duplicate_mono:
  "set recent \<subseteq> set seen \<Longrightarrow> is_near_duplicate u p recent \<Longrightarrow> is_near_duplicate u p seen"
  by (auto simp: is_near_duplicate_def Let_def list_ex_iff)

lemma screen_batch_accepts:
  assumes "c \<in> set (fst (screen_batch u cs seen))"
  shows "c \<in> set cs \<and> passes_gates u c \<and> \<not> is_near_duplicate u (ca_prompt c) seen"
  using assms
proof (induction cs arbitrary: seen)
  case (Cons x cs)
  show ?case
  proof (cases "validate_candidate u x seen = []")
    case True
    with Cons.prems consider "c = x" | "c \<in> set (fst (screen_batch u cs (seen @ [ca_prompt x])))"
      by (auto simp: Let_def split: prod.splits)
    then show ?thesis
    proof cases
      case 1
      with True show ?thesis by (simp add: validate_candidate_accepts)
    next
      case 2
      with Cons.IH [OF 2] show ?thesis using near_duplicate_mono [of seen "seen @ [ca_prompt x]"] by auto
    qed
  next
    case False
    with Cons.prems have "c \<in> set (fst (screen_batch u cs seen))" by (auto simp: Let_def split: prod.splits)
    from Cons.IH [OF this] show ?thesis by simp
  qed
qed simp

end
