(* ===== verification/Pool_Safety.thy ===== *)
theory Pool_Safety
  imports Question_Pool "HOL-Library.Sublist"
begin

text \<open>
  The properties of question selection: what is published is safe, the best five of the candidates in
  the reviewed mix, and selection succeeds on every batch with at most nine general questions.
\<close>

section \<open>Exact duplicates are near duplicates\<close>

lemma common_run_commute: "common_run pop xs ys = common_run pop ys xs"
  by (induction pop xs ys rule: common_run.induct) auto

lemma common_run_diagonal: "common_run pop xs ys \<le> common_run pop xs xs"
  by (induction pop xs ys rule: common_run.induct) auto

lemma common_run_self: "common_run (\<lambda>_. False) xs xs = length xs"
  by (induction xs) auto

abbreviation size_of :: "nat \<times> nat \<times> nat \<Rightarrow> nat" where "size_of m \<equiv> snd (snd m)"

lemma keep_longer_grows:
  "size_of m0 \<le> size_of (fold keep_longer ms m0) \<and> (\<forall>x \<in> set ms. size_of x \<le> size_of (fold keep_longer ms m0))"
proof (induction ms arbitrary: m0)
  case (Cons x ms)
  have "size_of x \<le> size_of (keep_longer x m0)" "size_of m0 \<le> size_of (keep_longer x m0)"
    by (simp_all add: keep_longer_def)
  with Cons [of "keep_longer x m0"] show ?case by (auto intro: order_trans)
qed simp

text \<open>The scan keeps the first of the longest matches.\<close>

lemma fold_keep_longer_first:
  "(fold keep_longer ms m0 = m0 \<and> (\<forall>x \<in> set ms. size_of x \<le> size_of m0))
   \<or> (\<exists>xs ys. ms = xs @ fold keep_longer ms m0 # ys \<and> size_of m0 < size_of (fold keep_longer ms m0)
        \<and> (\<forall>x \<in> set xs. size_of x < size_of (fold keep_longer ms m0))
        \<and> (\<forall>y \<in> set ys. size_of y \<le> size_of (fold keep_longer ms m0)))"
proof (induction ms rule: rev_induct)
  case (snoc x ms)
  let ?m = "fold keep_longer ms m0"
  have all: "size_of m0 \<le> size_of ?m" "\<forall>y \<in> set ms. size_of y \<le> size_of ?m"
    using keep_longer_grows [of m0 ms] by simp_all
  show ?case
  proof (cases "size_of ?m < size_of x")
    case True
    then have "fold keep_longer (ms @ [x]) m0 = x" by (simp add: keep_longer_def)
    then show ?thesis using all True by (intro disjI2 exI [of _ ms] exI [of _ "[]"]) (auto intro: le_less_trans)
  next
    case False
    then have eq: "fold keep_longer (ms @ [x]) m0 = ?m" by (simp add: keep_longer_def)
    from snoc show ?thesis
    proof (elim disjE exE conjE)
      assume "?m = m0" "\<forall>x \<in> set ms. size_of x \<le> size_of m0"
      with False show ?thesis unfolding eq by (intro disjI1) auto
    next
      fix xs ys
      assume "ms = xs @ ?m # ys" "size_of m0 < size_of ?m" "\<forall>x \<in> set xs. size_of x < size_of ?m"
        "\<forall>y \<in> set ys. size_of y \<le> size_of ?m"
      with False show ?thesis unfolding eq
        by (intro disjI2 exI [of _ xs] exI [of _ "ys @ [x]"]) auto
    qed
  qed
qed simp

definition run_grid :: "(nat \<Rightarrow> bool) \<Rightarrow> ustring \<Rightarrow> nat \<Rightarrow> (nat \<times> nat \<times> nat) list" where
  "run_grid pop a n = concat (map (\<lambda>i. map (\<lambda>j. (i, j, common_run pop (drop i a) (drop j a))) [0..<n]) [0..<n])"

definition before :: "nat \<times> nat \<times> nat \<Rightarrow> nat \<times> nat \<times> nat \<Rightarrow> bool" where
  "before m m' \<longleftrightarrow> fst m < fst m' \<or> fst m = fst m' \<and> fst (snd m) < fst (snd m')"

lemma mem_run_grid: "(i, j, k) \<in> set (run_grid pop a n) \<longleftrightarrow> i < n \<and> j < n \<and> k = common_run pop (drop i a) (drop j a)"
  by (force simp: run_grid_def)

lemma sorted_run_grid: "sorted_wrt before (run_grid pop a n)"
proof -
  have row: "sorted_wrt before (map (\<lambda>j. (i, j, f i j)) [0..<n])" for i and f :: "nat \<Rightarrow> nat \<Rightarrow> nat"
    by (simp add: sorted_wrt_map before_def sorted_wrt_iff_nth_less)
  have "sorted_wrt before (concat (map (\<lambda>i. map (\<lambda>j. (i, j, f i j)) [0..<n]) is))" if "sorted_wrt (<) is"
    for "is" :: "nat list" and f :: "nat \<Rightarrow> nat \<Rightarrow> nat"
    using that
  proof (induction "is")
    case (Cons i "is")
    have "before (i, j, x) (i', j', y)" if "i' \<in> set is" for i' j j' x y
      using Cons.prems that by (simp add: before_def)
    then show ?case using Cons row [of i f] by (auto simp: sorted_wrt_append)
  qed simp
  then show ?thesis by (simp add: run_grid_def)
qed

lemma longest_run_self:
  assumes "longest_run pop a a 0 (length a) 0 (length a) = (i, j, k)"
  shows "i = j"
proof (rule ccontr)
  assume ne: "i \<noteq> j"
  let ?n = "length a"
  have sl: "slice a i ?n = drop i a" for i by (simp add: slice_def)
  have m: "fold keep_longer (run_grid pop a ?n) (0, 0, 0) = (i, j, k)"
    using assms by (simp add: longest_run_def run_grid_def sl)
  with ne have "(i, j, k) \<noteq> (0, 0, 0)" by auto
  then obtain xs ys where grid: "run_grid pop a ?n = xs @ (i, j, k) # ys" and first: "\<forall>x \<in> set xs. size_of x < k"
    using fold_keep_longer_first [of "run_grid pop a ?n" "(0, 0, 0)"] unfolding m by auto
  have "(i, j, k) \<in> set (run_grid pop a ?n)" by (simp add: grid)
  then have ij: "i < ?n" "j < ?n" "k = common_run pop (drop i a) (drop j a)" unfolding mem_run_grid by simp_all
  define p where "p = (if j < i then (j, i, common_run pop (drop j a) (drop i a)) else (i, i, common_run pop (drop i a) (drop i a)))"
  have p: "p \<in> set (run_grid pop a ?n)" using ij by (simp add: p_def mem_run_grid)
  have earlier: "before p (i, j, k)" using ne by (auto simp: p_def before_def)
  have "p \<in> set xs"
  proof (rule ccontr)
    assume "p \<notin> set xs"
    with p have "p = (i, j, k) \<or> before (i, j, k) p"
      using sorted_run_grid [of pop a ?n] unfolding grid sorted_wrt_append by auto
    with earlier show False by (cases p) (auto simp: before_def)
  qed
  then have "size_of p < k" using first by blast
  moreover have "k \<le> size_of p"
    using common_run_diagonal [of pop "drop i a" "drop j a"] by (simp add: p_def ij(3) common_run_commute)
  ultimately show False by simp
qed

lemma extend_left_diagonal: "extend_left a a 0 0 (i, i, k) = (0, 0, i + k)"
  by (induction i arbitrary: k) auto

lemma matched_self: "matched a a 0 (length a) 0 (length a) = length a"
proof -
  obtain i k where run: "longest_run (popular a) a a 0 (length a) 0 (length a) = (i, i, k)"
    by (metis longest_run_self prod_cases3)
  have "match_within 0 (length a) 0 (length a) (i, i, k)"
    using within_longest_run [of 0 "length a" 0 "length a" "popular a" a a] run by simp
  then have k: "i + k \<le> length a" by (simp add: match_within_def)
  have "find_longest_match a a 0 (length a) 0 (length a) = (0, 0, length a)"
    using k by (simp add: find_longest_match_def run extend_left_diagonal extend_right_def slice_def common_run_self)
  then show ?thesis by (simp add: matched.simps [of a a 0 "length a" 0 "length a"])
qed

lemma similar_self: "similar a a"
  by (auto simp: similar_def matched_self)

lemma repeated_prompt_is_near_duplicate: "p \<in> set recent \<Longrightarrow> is_near_duplicate u p recent"
  unfolding is_near_duplicate_def Let_def list_ex_iff by (rule bexI [of _ p]) (simp_all add: similar_self)

section \<open>The best five\<close>

lemma set_combinations: "c \<in> set (combinations n xs) \<longleftrightarrow> subseq c xs \<and> length c = n"
proof (induction n xs arbitrary: c rule: combinations.induct)
  case (3 n x xs)
  show ?case
  proof
    assume "c \<in> set (combinations (Suc n) (x # xs))"
    then show "subseq c (x # xs) \<and> length c = Suc n" using 3 by auto
  next
    assume c: "subseq c (x # xs) \<and> length c = Suc n"
    then obtain y c' where yc: "c = y # c'" by (cases c) auto
    show "c \<in> set (combinations (Suc n) (x # xs))"
    proof (cases "x = y")
      case True
      with c yc have "subseq c' xs" "length c' = n" by simp_all
      with 3(1) yc True show ?thesis by simp
    next
      case False
      with c yc have "subseq c xs" by simp
      with 3(2) c show ?thesis by simp
    qed
  qed
qed auto

text \<open>The code's preference: a higher score, then the smaller tuple of ids.\<close>

definition preferred :: "string set \<Rightarrow> candidate list \<Rightarrow> candidate list \<Rightarrow> bool" where
  "preferred ids g g' \<longleftrightarrow> group_score ids g' < group_score ids g
     \<or> group_score ids g' = group_score ids g \<and> map ca_client_id g \<le> map ca_client_id g'"

lemma preferred_trans: "preferred ids f g \<Longrightarrow> preferred ids g h \<Longrightarrow> preferred ids f h"
  by (auto simp: preferred_def)

definition best_of :: "string set \<Rightarrow> candidate list list \<Rightarrow> candidate list option \<Rightarrow> bool" where
  "best_of ids gs found \<longleftrightarrow> (case found of
       None \<Rightarrow> \<forall>g \<in> set gs. \<not> required_daily_mix g
     | Some b \<Rightarrow> b \<in> set gs \<and> required_daily_mix b \<and> (\<forall>g \<in> set gs. required_daily_mix g \<longrightarrow> preferred ids b g))"

lemma best_of_better:
  assumes "best_of ids gs found"
  shows "best_of ids (gs @ [g]) (better_group ids g found)"
proof (cases "required_daily_mix g")
  case mix: True
  show ?thesis
  proof (cases found)
    case None
    with assms mix show ?thesis by (auto simp: best_of_def better_group_def preferred_def)
  next
    case (Some b)
    show ?thesis
    proof (cases "group_score ids b < group_score ids g
        \<or> group_score ids g = group_score ids b \<and> map ca_client_id g < map ca_client_id b")
      case True
      then have *: "preferred ids g b" "preferred ids g g" by (auto simp: preferred_def)
      have "better_group ids g found = Some g" using True Some mix by (simp add: better_group_def)
      with * Some assms mix show ?thesis
        by (auto simp: best_of_def intro: preferred_trans [of ids g b])
    next
      case False
      then have "preferred ids b g" by (auto simp: preferred_def not_less)
      moreover have "better_group ids g found = Some b" using mix by (simp only: better_group_def Some option.case if_not_P [OF False]) simp
      ultimately show ?thesis using Some assms by (auto simp: best_of_def)
    qed
  qed
qed (use assms in \<open>auto simp: best_of_def better_group_def split: option.splits\<close>)

lemma fold_better_group: "best_of ids gs (fold (better_group ids) gs None)"
  by (induction gs rule: rev_induct) (simp_all add: best_of_better, simp add: best_of_def)

definition eligible_fives :: "candidate list \<Rightarrow> candidate list \<Rightarrow> bool" where
  "eligible_fives candidates g \<longleftrightarrow> subseq g (take 14 candidates) \<and> length g = 5 \<and> required_daily_mix g"

lemma balanced_five_Inr:
  "balanced_five candidates ids = Inr selected \<Longrightarrow>
     \<exists>g. eligible_fives candidates g \<and> selected = order_for_conversation g
       \<and> (\<forall>g'. eligible_fives candidates g' \<longrightarrow> preferred ids g g')"
  using fold_better_group [of ids "combinations 5 (take 14 candidates)"]
  by (auto simp: best_of_def balanced_five_def eligible_fives_def set_combinations split: option.splits)

lemma balanced_five_fails:
  "(\<exists>e. balanced_five candidates ids = Inl e) \<longleftrightarrow> (\<nexists>g. eligible_fives candidates g)"
  using fold_better_group [of ids "combinations 5 (take 14 candidates)"]
  by (auto simp: best_of_def balanced_five_def eligible_fives_def set_combinations split: option.splits)

lemma balanced_five_succeeds: "eligible_fives candidates g \<Longrightarrow> \<exists>selected. balanced_five candidates ids = Inr selected"
  using balanced_five_fails [of candidates ids] by (cases "balanced_five candidates ids") auto

lemma subseq_set_mono: "subseq xs ys \<Longrightarrow> set xs \<subseteq> set ys"
  by (induction rule: list_emb.induct) auto

lemma count_list_mset: "count_list xs x = count (mset xs) x"
  by (induction xs) auto

lemma required_daily_mix_mset: "mset g = mset g' \<Longrightarrow> required_daily_mix g = required_daily_mix g'"
  by (simp add: required_daily_mix_def count_list_mset)

lemma mset_order_for_conversation [simp]: "mset (order_for_conversation g) = mset g"
  by (simp add: order_for_conversation_def)

lemma set_order_for_conversation [simp]: "set (order_for_conversation g) = set g"
  by (simp add: order_for_conversation_def)

text \<open>
  C9: of all groups of five among the first fourteen candidates that have the reviewed mix, one is
  selected that no other beats in score, or in client ids at the same score, ordered from light to
  deeper; selection fails only when there is no such group.
\<close>

theorem best_five_selected:
  "case balanced_five candidates ids of
     Inl e \<Rightarrow> \<nexists>g. eligible_fives candidates g
   | Inr selected \<Rightarrow> (\<exists>g. eligible_fives candidates g \<and> mset selected = mset g
       \<and> (\<forall>g'. eligible_fives candidates g' \<longrightarrow> preferred ids g g')
       \<and> sorted (map (\<lambda>c. depth_rank (ca_depth c)) selected))"
proof (cases "balanced_five candidates ids")
  case (Inl e)
  then show ?thesis using balanced_five_fails [of candidates ids] by simp
next
  case (Inr selected)
  then obtain g where g: "eligible_fives candidates g" "selected = order_for_conversation g"
    "\<forall>g'. eligible_fives candidates g' \<longrightarrow> preferred ids g g'" using balanced_five_Inr by blast
  let ?key = "\<lambda>c. (depth_rank (ca_depth c), category_rank (ca_category c), kind_rank (ca_kind c))"
  have "sorted (map ?key selected)" by (simp add: g(2) order_for_conversation_def)
  then have "sorted (map fst (map ?key selected))"
    unfolding sorted_map sorted_wrt_map by (rule sorted_wrt_mono_rel [rotated]) (auto simp: less_eq_prod_def)
  with g Inr show ?thesis by (auto simp: comp_def)
qed

section \<open>Filling from the bank\<close>

lemma validate_fallback_metadata [simp]:
  "validate_candidate u (fallback_metadata u c i theme) recent = validate_candidate u c recent"
  by (simp add: validate_candidate_def content_reasons_def interaction_reasons_def concept_reasons_def
      has_layout_whitespace_def fallback_metadata_def Let_def)

lemma fallback_metadata_simps [simp]:
  "ca_client_id (fallback_metadata u c i theme) = ca_client_id c" "ca_prompt (fallback_metadata u c i theme) = ca_prompt c"
  "ca_intimacy (fallback_metadata u c i theme) = ca_intimacy c"
  "ca_depth (fallback_metadata u c i theme) = SLOT_DEPTHS ! (i mod 5)"
  "ca_theme_role (fallback_metadata u c i theme) = (if i mod 5 < 3 then Themed else Variety)"
  by (simp_all add: fallback_metadata_def)

lemma passes_fallback_metadata [simp]:
  "passes_gates u (fallback_metadata u c i theme) = passes_gates u c"
  by (simp add: passes_gates_def content_reasons_def interaction_reasons_def concept_reasons_def
      has_layout_whitespace_def fallback_metadata_def Let_def)

definition usable :: "folding_unicode \<Rightarrow> ustring list \<Rightarrow> string set \<Rightarrow> candidate \<Rightarrow> bool" where
  "usable u recent used c \<longleftrightarrow> validate_candidate u c recent = [] \<and> ca_client_id c \<notin> used"

lemma fill_guard:
  "validate_candidate u c recent = [] \<and> ca_client_id c \<notin> used \<and> ca_prompt c \<notin> set recent \<longleftrightarrow> usable u recent used c"
  using repeated_prompt_is_near_duplicate [of "ca_prompt c" recent u]
  by (auto simp: usable_def validate_candidate_accepts)

text \<open>What the bank adds: usable questions, each in the next slot of the mix.\<close>

lemma fill_from_bank_adds:
  "\<exists>items. fill_from_bank u theme recent bank general used index
       = general @ map (\<lambda>(i, c). fallback_metadata u c (index + i) theme) (zip [0..<length items] items)
     \<and> subseq items bank \<and> (\<forall>c \<in> set items. usable u recent used c)
     \<and> length general + length items \<le> max 14 (length general)"
proof (induction bank arbitrary: general used index)
  case (Cons raw rest)
  show ?case
  proof (cases "\<not> 14 \<le> length general \<and> usable u recent used raw")
    case False
    then have "fill_from_bank u theme recent (raw # rest) general used index
        = (if 14 \<le> length general then general else fill_from_bank u theme recent rest general used index)"
      using fill_guard [of u raw recent used] by (auto simp: Let_def)
    with Cons [of general used index] show ?thesis
      by (cases "14 \<le> length general") (auto intro: exI [of _ "[]"])
  next
    case True
    let ?item = "fallback_metadata u raw index theme" and ?used = "insert (ca_client_id raw) used"
    have "fill_from_bank u theme recent (raw # rest) general used index
        = fill_from_bank u theme recent rest (general @ [?item]) ?used (index + 1)"
      using True fill_guard [of u raw recent used] by (auto simp: Let_def)
    moreover obtain items where items: "fill_from_bank u theme recent rest (general @ [?item]) ?used (index + 1)
        = (general @ [?item]) @ map (\<lambda>(i, c). fallback_metadata u c (index + 1 + i) theme) (zip [0..<length items] items)"
      "subseq items rest" "\<forall>c \<in> set items. usable u recent ?used c"
      "length (general @ [?item]) + length items \<le> max 14 (length (general @ [?item]))"
      using Cons [of "general @ [?item]" ?used "index + 1"] by blast
    have "map (\<lambda>(i, c). fallback_metadata u c (index + 1 + i) theme) (zip [0..<length items] items)
        = map (\<lambda>(i, c). fallback_metadata u c (index + i) theme) (zip (map Suc [0..<length items]) items)"
      by (simp add: zip_map1 case_prod_unfold comp_def)
    moreover have "[0..<length (raw # items)] = 0 # map Suc [0..<length items]"
      using upt_conv_Cons [of 0 "Suc (length items)"] by (simp add: map_Suc_upt del: upt_Suc)
    ultimately show ?thesis using items True
      by (intro exI [of _ "raw # items"]) (auto simp: usable_def)
  qed
qed (auto intro: exI [of _ "[]"])

text \<open>The bank fills all fourteen places, or all its usable questions are taken.\<close>

lemma fill_from_bank_enough:
  assumes "distinct (map ca_client_id bank)"
  shows "min 14 (length general + length (filter (usable u recent used) bank))
    \<le> length (fill_from_bank u theme recent bank general used index)"
  using assms
proof (induction bank arbitrary: general used index)
  case (Cons raw rest)
  show ?case
  proof (cases "14 \<le> length general")
    case False
    show ?thesis
    proof (cases "usable u recent used raw")
      case True
      let ?item = "fallback_metadata u raw index theme" and ?used = "insert (ca_client_id raw) used"
      have "fill_from_bank u theme recent (raw # rest) general used index
          = fill_from_bank u theme recent rest (general @ [?item]) ?used (index + 1)"
        using True False fill_guard [of u raw recent used] by (auto simp: Let_def)
      moreover have "filter (usable u recent ?used) rest = filter (usable u recent used) rest"
        using Cons.prems by (intro filter_cong) (auto simp: usable_def rev_image_eqI)
      moreover have "distinct (map ca_client_id rest)" using Cons.prems by simp
      ultimately show ?thesis
        using Cons.IH [of "general @ [?item]" ?used "index + 1"] True by simp
    next
      case no: False
      then have "fill_from_bank u theme recent (raw # rest) general used index
          = fill_from_bank u theme recent rest general used index"
        using False fill_guard [of u raw recent used] by (auto simp: Let_def)
      with Cons no show ?thesis by simp
    qed
  qed simp
qed simp

section \<open>Publishing\<close>

definition chosen_bank :: "candidate list \<Rightarrow> candidate list option \<Rightarrow> candidate list" where
  "chosen_bank loaded curated_bank = (case curated_bank of None \<Rightarrow> loaded | Some b \<Rightarrow> (if b = [] then loaded else b))"

definition general_candidates ::
    "folding_unicode \<Rightarrow> candidate list \<Rightarrow> date \<Rightarrow> parsed_batch option \<Rightarrow> ustring list \<Rightarrow> candidate list option
       \<Rightarrow> day_theme option \<Rightarrow> candidate list" where
  "general_candidates u loaded d batch recent curated_bank theme =
     (let accepted = fst (screen_batch u (case batch of None \<Rightarrow> [] | Some b \<Rightarrow> pb_questions b) recent) in
      fill_from_bank u theme recent (rotated_bank d (filter (\<lambda>c. \<not> ca_intimacy c) (chosen_bank loaded curated_bank)))
        (filter (\<lambda>c. \<not> ca_intimacy c) accepted) (ca_client_id ` set accepted) 0)"

lemma mset_rotated_bank [simp]: "mset (rotated_bank d bank) = mset bank"
  unfolding rotated_bank_def Let_def by (metis append_take_drop_id mset_append union_commute)

lemma set_rotated_bank [simp]: "set (rotated_bank d bank) = set bank"
  by (metis mset_rotated_bank set_mset_mset)

lemma general_candidates_pass:
  assumes "c \<in> set (general_candidates u loaded d batch recent curated_bank theme)"
  shows "\<not> ca_intimacy c \<and> passes_gates u c \<and> \<not> is_near_duplicate u (ca_prompt c) recent"
proof -
  let ?accepted = "fst (screen_batch u (case batch of None \<Rightarrow> [] | Some b \<Rightarrow> pb_questions b) recent)"
  let ?bank = "rotated_bank d (filter (\<lambda>c. \<not> ca_intimacy c) (chosen_bank loaded curated_bank))"
  obtain items where items: "general_candidates u loaded d batch recent curated_bank theme
      = filter (\<lambda>c. \<not> ca_intimacy c) ?accepted
        @ map (\<lambda>(i, c). fallback_metadata u c (0 + i) theme) (zip [0..<length items] items)"
    "subseq items ?bank" "\<forall>c \<in> set items. usable u recent (ca_client_id ` set ?accepted) c"
    using fill_from_bank_adds [of u theme recent ?bank "filter (\<lambda>c. \<not> ca_intimacy c) ?accepted" "ca_client_id ` set ?accepted" 0]
    unfolding general_candidates_def Let_def by blast
  from assms items(1) consider "c \<in> set ?accepted" "\<not> ca_intimacy c"
    | i x where "c = fallback_metadata u x i theme" "x \<in> set items" by (auto dest: set_zip_rightD)
  then show ?thesis
  proof cases
    case 1
    then show ?thesis using screen_batch_accepts by blast
  next
    case 2
    have "x \<in> set ?bank" using subseq_set_mono [OF items(2)] 2(2) by blast
    then have "\<not> ca_intimacy x" by simp
    with items(3) 2 show ?thesis by (auto simp: usable_def validate_candidate_accepts)
  qed
qed

definition accepted_of :: "folding_unicode \<Rightarrow> parsed_batch option \<Rightarrow> ustring list \<Rightarrow> candidate list" where
  "accepted_of u batch recent = fst (screen_batch u (case batch of None \<Rightarrow> [] | Some b \<Rightarrow> pb_questions b) recent)"

lemma select_pool_strict:
  assumes "select_pool u loaded d batch recent settings failure curated_bank theme knowledge context = Inr r"
    and "os_strict_recovery settings"
  shows "\<exists>ids. balanced_five (filter (\<lambda>c. \<not> ca_intimacy c) (accepted_of u batch recent)) ids = Inr (pp_general (pr_pool r))"
    and "pp_intimacy_alternatives (pr_pool r) = filter ca_intimacy (accepted_of u batch recent)"
  using assms
  by (auto simp: select_pool_def accepted_of_def Let_def bind_exc_Inr_iff pool_of_def split: prod.splits)

lemma select_pool_lenient:
  assumes "select_pool u loaded d batch recent settings failure curated_bank theme knowledge context = Inr r"
    and "\<not> os_strict_recovery settings"
  shows "\<exists>ids. balanced_five (general_candidates u loaded d batch recent curated_bank theme) ids = Inr (pp_general (pr_pool r))"
    and "intimacy_pool d (accepted_of u batch recent) (chosen_bank loaded curated_bank)
      = Inr (pp_intimacy_alternatives (pr_pool r))"
proof -
  let ?G = "general_candidates u loaded d batch recent curated_bank theme"
  obtain accepted rejected where scr: "screen_batch u (case batch of None \<Rightarrow> [] | Some b \<Rightarrow> pb_questions b) recent = (accepted, rejected)"
    by (metis prod.exhaust)
  have G: "?G = fill_from_bank u theme recent (rotated_bank d (filter (\<lambda>c. \<not> ca_intimacy c) (chosen_bank loaded curated_bank)))
      (filter (\<lambda>c. \<not> ca_intimacy c) accepted) (ca_client_id ` set accepted) 0"
    by (simp add: general_candidates_def scr)
  have bank: "(case curated_bank of None \<Rightarrow> loaded | Some b \<Rightarrow> (if b = [] then loaded else b)) = chosen_bank loaded curated_bank"
    by (simp add: chosen_bank_def)
  have acc: "accepted_of u batch recent = accepted" by (simp add: accepted_of_def scr)
  note parts = select_pool_def scr Let_def prod.case bank if_not_P [OF assms(2)] G [symmetric]
  obtain xs where xs: "intimacy_pool d accepted (chosen_bank loaded curated_bank) = Inr xs"
    using assms(1) unfolding parts bind_exc_Inr_iff by blast
  obtain five where five: "balanced_five ?G (ca_client_id ` set (filter (\<lambda>c. \<not> ca_intimacy c) accepted)) = Inr five"
    using assms(1) unfolding parts bind_exc_Inr_iff by blast
  have "pp_general (pr_pool r) = five" "pp_intimacy_alternatives (pr_pool r) = xs"
    using assms(1) unfolding parts xs five bind_exc.simps by (auto simp only: bind_exc_Inr_iff pool_of_def sum.inject
        pipeline_result.simps published_pool.simps)
  with xs five show "\<exists>ids. balanced_five ?G ids = Inr (pp_general (pr_pool r))"
    "intimacy_pool d (accepted_of u batch recent) (chosen_bank loaded curated_bank)
      = Inr (pp_intimacy_alternatives (pr_pool r))"
    unfolding acc by blast+
qed

lemma nth_mod_mem:
  assumes "xs \<noteq> []"
  shows "xs ! nat (n mod int (length xs)) \<in> set xs"
  using assms by (intro nth_mem) (simp add: nat_less_iff)

lemma intimacy_pool_Inr:
  assumes "intimacy_pool d accepted curated = Inr xs" "c \<in> set xs"
  shows "ca_intimacy c \<and> (c \<in> set accepted \<or> c \<in> set curated)"
proof (cases "filter ca_intimacy accepted = []")
  case False
  with assms show ?thesis by (auto simp: intimacy_pool_def Let_def)
next
  case True
  with assms have "filter ca_intimacy curated \<noteq> []"
    "c = filter ca_intimacy curated ! nat (toordinal d mod int (length (filter ca_intimacy curated)))"
    unfolding intimacy_pool_def Let_def by (auto simp: bind_exc_Inr_iff guard_def split: if_splits)
  then have "c \<in> set (filter ca_intimacy curated)" using nth_mod_mem by metis
  then show ?thesis by simp
qed

lemma select_pool_Inr:
  assumes "select_pool u loaded d batch recent settings failure curated_bank theme knowledge context = Inr r"
  obtains cs ids where "balanced_five cs ids = Inr (pp_general (pr_pool r))"
    "\<And>c. c \<in> set cs \<Longrightarrow> \<not> ca_intimacy c \<and> passes_gates u c \<and> \<not> is_near_duplicate u (ca_prompt c) recent"
    "\<And>c. c \<in> set (pp_intimacy_alternatives (pr_pool r)) \<Longrightarrow>
       ca_intimacy c \<and> (passes_gates u c \<or> c \<in> set (chosen_bank loaded curated_bank))"
proof -
  have acc: "c \<in> set (accepted_of u batch recent) \<Longrightarrow> passes_gates u c \<and> \<not> is_near_duplicate u (ca_prompt c) recent" for c
    unfolding accepted_of_def using screen_batch_accepts by blast
  show ?thesis
  proof (cases "os_strict_recovery settings")
    case True
    from select_pool_strict [OF assms True] acc show ?thesis by (auto intro!: that)
  next
    case False
    from select_pool_lenient [OF assms False] acc show ?thesis
      by (meson general_candidates_pass intimacy_pool_Inr that)
  qed
qed


section \<open>Selection succeeds\<close>

lemma five_slots:
  assumes "length items = 5"
  shows "required_daily_mix (map (\<lambda>(i, c). fallback_metadata u c (0 + i) theme) (zip [0..<5] items))"
proof -
  obtain a b c d e where "items = [a, b, c, d, e]"
    using assms by (auto simp: length_Suc_conv eval_nat_numeral)
  then show ?thesis by (simp add: required_daily_mix_def SLOT_DEPTHS_def upt_rec)
qed

text \<open>Five usable questions of the bank complete the mix when nine or fewer general ones precede them.\<close>

lemma filled_pool_has_five:
  assumes "length general \<le> 9" "distinct (map ca_client_id bank)" "5 \<le> length (filter (usable u recent used) bank)"
  shows "5 \<le> length (fill_from_bank u theme recent bank general used 0)
    \<and> (\<exists>g. eligible_fives (fill_from_bank u theme recent bank general used 0) g)"
proof -
  let ?fill = "fill_from_bank u theme recent bank general used 0"
  obtain items where items: "?fill = general @ map (\<lambda>(i, c). fallback_metadata u c (0 + i) theme) (zip [0..<length items] items)"
    using fill_from_bank_adds [of u theme recent bank general used 0] by blast
  have len: "length general + 5 \<le> length ?fill"
    using fill_from_bank_enough [OF assms(2), of general u recent used theme 0] assms(1,3) by simp
  then have five: "5 \<le> length items" unfolding items by simp
  define g where "g = map (\<lambda>(i, c). fallback_metadata u c (0 + i) theme) (zip [0..<5] (take 5 items))"
  have "take 5 (map (\<lambda>(i, c). fallback_metadata u c (0 + i) theme) (zip [0..<length items] items)) = g"
    using five by (simp add: g_def take_map take_zip)
  then have "take (length general + 5) ?fill = general @ g" unfolding items by simp
  moreover have "prefix (take (length general + 5) ?fill) (take 14 ?fill)"
    using assms(1) by (intro take_is_prefix [of "length general + 5" "take 14 ?fill", THEN back_subst [of "\<lambda>x. prefix x (take 14 ?fill)"]]) simp
  ultimately have "prefix (general @ g) (take 14 ?fill)" by simp
  then obtain zs where "take 14 ?fill = (general @ g) @ zs" by (auto simp: prefix_def)
  moreover have "subseq ([] @ g @ []) (general @ g @ zs)" by (intro list_emb_append_mono) auto
  ultimately have "subseq g (take 14 ?fill)" by simp
  moreover have "length g = 5" "required_daily_mix g"
    using five five_slots [of "take 5 items"] by (simp_all add: g_def)
  ultimately show ?thesis using len by (auto simp: eligible_fives_def)
qed

lemma length_filter_mono:
  "(\<And>x. p x \<Longrightarrow> q x) \<Longrightarrow> length (filter p xs) \<le> length (filter q xs)"
  by (induction xs) auto

lemma fst_screen_batch: "subseq (fst (screen_batch u cs seen)) cs"
proof (induction cs arbitrary: seen)
  case (Cons c cs)
  show ?case using Cons [of seen] Cons [of "seen @ [ca_prompt c]"] by (auto simp: Let_def split: prod.splits)
qed simp

lemma select_pool_returns:
  assumes "\<not> os_strict_recovery settings"
    and "length (filter (\<lambda>c. \<not> ca_intimacy c) (case batch of None \<Rightarrow> [] | Some b \<Rightarrow> pb_questions b)) \<le> 9"
    and "distinct (map ca_client_id (chosen_bank loaded curated_bank))"
    and "5 \<le> length (filter (\<lambda>c. \<not> ca_intimacy c \<and> usable u recent
          (ca_client_id ` set (case batch of None \<Rightarrow> [] | Some b \<Rightarrow> pb_questions b)) c) (chosen_bank loaded curated_bank))"
    and "\<exists>c \<in> set (chosen_bank loaded curated_bank). ca_intimacy c"
  shows "\<exists>r. select_pool u loaded d batch recent settings failure curated_bank theme knowledge context = Inr r"
proof -
  let ?cs = "case batch of None \<Rightarrow> [] | Some b \<Rightarrow> pb_questions b" and ?curated = "chosen_bank loaded curated_bank"
  obtain accepted rejected where scr: "screen_batch u ?cs recent = (accepted, rejected)" by (metis prod.exhaust)
  let ?bank = "filter (\<lambda>c. \<not> ca_intimacy c) ?curated" and ?generated = "filter (\<lambda>c. \<not> ca_intimacy c) accepted"
    and ?used = "ca_client_id ` set accepted"
  have sub: "subseq accepted ?cs" using fst_screen_batch [of u ?cs recent] by (simp add: scr)
  then have "length ?generated \<le> 9"
    using list_emb_length [OF subseq_filter [OF sub]] assms(2) by (metis le_trans)
  moreover have "distinct (map ca_client_id (rotated_bank d ?bank))"
  proof -
    have "mset (map ca_client_id (rotated_bank d ?bank)) = mset (map ca_client_id ?bank)" by simp
    moreover have "distinct (map ca_client_id ?bank)" using assms(3) by (simp add: distinct_map_filter)
    ultimately show ?thesis by (metis mset_eq_imp_distinct_iff)
  qed
  moreover have "5 \<le> length (filter (usable u recent ?used) (rotated_bank d ?bank))"
  proof -
    have "?used \<subseteq> ca_client_id ` set ?cs" using subseq_set_mono [OF sub] by blast
    then have "set (filter (\<lambda>c. \<not> ca_intimacy c \<and> usable u recent (ca_client_id ` set ?cs) c) ?curated)
        \<subseteq> set (filter (usable u recent ?used) ?bank)" by (auto simp: usable_def)
    moreover have "distinct ?curated" using assms(3) by (simp add: distinct_map)
    ultimately have "length (filter (\<lambda>c. \<not> ca_intimacy c \<and> usable u recent (ca_client_id ` set ?cs) c) ?curated)
        \<le> length (filter (usable u recent ?used) ?bank)"
      by (metis card_mono distinct_card distinct_filter finite_set)
    moreover have "length (filter (usable u recent ?used) (rotated_bank d ?bank)) = length (filter (usable u recent ?used) ?bank)"
      by (metis mset_filter mset_rotated_bank size_mset)
    ultimately show ?thesis using assms(4) by linarith
  qed
  ultimately have fill: "5 \<le> length (fill_from_bank u theme recent (rotated_bank d ?bank) ?generated ?used 0)"
    "\<exists>g. eligible_fives (fill_from_bank u theme recent (rotated_bank d ?bank) ?generated ?used 0) g"
    using filled_pool_has_five [of ?generated "rotated_bank d ?bank" u recent ?used theme] by blast+
  have nonempty: "?bank \<noteq> []"
  proof
    assume "?bank = []"
    then have "filter (\<lambda>c. \<not> ca_intimacy c \<and> usable u recent (ca_client_id ` set ?cs) c) ?curated = []"
      by (auto simp: filter_empty_conv)
    with assms(4) show False by simp
  qed
  have intimate: "filter ca_intimacy ?curated \<noteq> []" using assms(5) by (auto simp: filter_empty_conv)
  obtain xs where xs: "intimacy_pool d accepted ?curated = Inr xs"
    unfolding intimacy_pool_def Let_def guard_def if_P [OF intimate] by (cases "filter ca_intimacy accepted = []") simp_all
  obtain selected where selected: "balanced_five (fill_from_bank u theme recent (rotated_bank d ?bank) ?generated ?used 0)
      (ca_client_id ` set ?generated) = Inr selected"
    using fill(2) balanced_five_succeeds by blast
  have curated: "(case curated_bank of None \<Rightarrow> loaded | Some b \<Rightarrow> (if b = [] then loaded else b)) = ?curated"
    by (simp add: chosen_bank_def)
  show ?thesis
    unfolding select_pool_def scr Let_def prod.case if_not_P [OF assms(1)] curated guard_def if_P [OF nonempty] bind_exc.simps
      if_P [OF fill(1)] xs selected by (intro exI) (rule refl)
qed


text \<open>
  The bound of nine is sharp: ten general questions that are all light leave four places for the bank,
  whose first four slots hold one deeper question where the mix needs two.
\<close>

lemma count_slots:
  assumes "length items \<le> 4"
  shows "count_list (map ca_depth (map (\<lambda>(i, c). fallback_metadata u c (0 + i) theme) (zip [0..<length items] items))) Deeper \<le> 1"
proof -
  have "map ca_depth (map (\<lambda>(i, c). fallback_metadata u c (0 + i) theme) (zip [0..<length items] items))
      = map ((\<lambda>i. SLOT_DEPTHS ! (i mod 5)) \<circ> fst) (zip [0..<length items] items)"
    by (simp add: split_beta comp_def)
  also have "\<dots> = map (\<lambda>i. SLOT_DEPTHS ! (i mod 5)) [0..<length items]"
    by (simp only: map_map [symmetric] map_fst_zip length_upt diff_zero)
  finally have depths: "map ca_depth (map (\<lambda>(i, c). fallback_metadata u c (0 + i) theme) (zip [0..<length items] items)) = \<dots>" .
  have "length items = 0 \<or> length items = 1 \<or> length items = 2 \<or> length items = 3 \<or> length items = 4"
    using assms by linarith
  then show ?thesis unfolding depths by (elim disjE) (simp_all add: SLOT_DEPTHS_def upt_rec)
qed

lemma count_list_subseq: "subseq xs ys \<Longrightarrow> count_list xs x \<le> count_list ys x"
  by (induction rule: list_emb.induct) auto

theorem ten_light_questions_fail:
  assumes "\<not> os_strict_recovery settings"
    and "10 \<le> length (filter (\<lambda>c. \<not> ca_intimacy c) (accepted_of u batch recent))"
    and "\<forall>c \<in> set (accepted_of u batch recent). ca_depth c = Light"
  shows "\<exists>e. select_pool u loaded d batch recent settings failure curated_bank theme knowledge context = Inl e"
proof (rule ccontr)
  assume "\<not> ?thesis"
  then obtain r where r: "select_pool u loaded d batch recent settings failure curated_bank theme knowledge context = Inr r"
    by (cases "select_pool u loaded d batch recent settings failure curated_bank theme knowledge context") blast+
  let ?G = "general_candidates u loaded d batch recent curated_bank theme"
  let ?generated = "filter (\<lambda>c. \<not> ca_intimacy c) (accepted_of u batch recent)"
  obtain ids where "balanced_five ?G ids = Inr (pp_general (pr_pool r))" using select_pool_lenient(1) [OF r assms(1)] by blast
  then obtain g where g: "eligible_fives ?G g" using balanced_five_Inr by blast
  obtain items where G: "?G = ?generated @ map (\<lambda>(i, c). fallback_metadata u c (0 + i) theme) (zip [0..<length items] items)"
    and len: "length ?generated + length items \<le> max 14 (length ?generated)"
    unfolding general_candidates_def accepted_of_def Let_def using fill_from_bank_adds by blast
  have "count_list (map ca_depth g) Deeper \<le> count_list (map ca_depth (take 14 ?G)) Deeper"
    using g by (intro count_list_subseq subseq_map) (simp add: eligible_fives_def)
  also have "\<dots> \<le> count_list (map ca_depth ?G) Deeper"
    by (metis append_take_drop_id count_list_append le_add1 map_append)
  also have "\<dots> \<le> 1"
  proof -
    have "count_list (map ca_depth ?generated) Deeper = 0"
      using assms(3) by (subst count_list_0_iff) auto
    moreover have "length items \<le> 4" using assms(2) len by (cases "length ?generated \<le> 14") auto
    ultimately show ?thesis using count_slots [of items u theme] unfolding G map_append count_list_append by linarith
  qed
  finally show False using g by (simp add: eligible_fives_def required_daily_mix_def)
qed

text \<open>A question of the bank is compared to recent ones only, not to those the model just wrote.\<close>

lemma bank_repeats_the_batch:
  assumes "length general < 14" "usable u recent used raw"
  shows "fallback_metadata u raw index theme \<in> set (fill_from_bank u theme recent (raw # rest) general used index)"
proof -
  have "fill_from_bank u theme recent (raw # rest) general used index
      = fill_from_bank u theme recent rest (general @ [fallback_metadata u raw index theme]) (insert (ca_client_id raw) used) (index + 1)"
    using assms fill_guard [of u raw recent used] by (auto simp: Let_def)
  moreover obtain xs where "fill_from_bank u theme recent rest (general @ [fallback_metadata u raw index theme])
      (insert (ca_client_id raw) used) (index + 1) = (general @ [fallback_metadata u raw index theme]) @ xs"
    using fill_from_bank_adds by blast
  ultimately show ?thesis by simp
qed

section \<open>Witnesses\<close>

definition tiny_unicode :: folding_unicode where
  "tiny_unicode = \<lparr>nfkc = id, category = (\<lambda>_. ''Ll''), is_space = (\<lambda>c. c = 32), is_digit = (\<lambda>_. False),
     is_decimal = (\<lambda>_. False), is_word = (\<lambda>c. 97 \<le> c \<and> c \<le> 122), casefold = id\<rparr>"

definition demo_question :: "nat \<Rightarrow> bool \<Rightarrow> candidate" where
  "demo_question i intimate =
     \<lparr>ca_client_id = [char_of (97 + i)], ca_kind = Free, ca_prompt = [97 + i, 63],
      ca_category = (if intimate then Intimacy else Playful), ca_intimacy = intimate, ca_options = [], ca_option_icons = [],
      ca_scale_low_label = None, ca_scale_high_label = None, ca_concept_family = [], ca_concept_summary = [],
      ca_depth = Light, ca_theme_role = Variety, ca_theme_tags = []\<rparr>"

definition demo_bank :: "candidate list" where
  "demo_bank = map (\<lambda>i. demo_question i (i = 5)) [0..<6]"

definition demo_settings :: ollama_settings where
  "demo_settings = \<lparr>os_model = ''qwen3'', os_manifest_digest = ''0edc'', os_strict_recovery = False\<rparr>"

lemma demo_questions_pass: "list_all (\<lambda>i. validate_candidate tiny_unicode (demo_question i (i = 5)) [] = []) [0..<6]"
  by code_simp

lemma demo_bank_usable:
  "distinct (map ca_client_id (chosen_bank demo_bank None))"
  "length (filter (\<lambda>c. \<not> ca_intimacy c \<and> usable tiny_unicode [] {} c) (chosen_bank demo_bank None)) = 5"
  "\<exists>c \<in> set (chosen_bank demo_bank None). ca_intimacy c"
proof -
  have bank: "chosen_bank demo_bank None = map (\<lambda>i. demo_question i (i = 5)) [0..<6]"
    by (simp add: chosen_bank_def demo_bank_def)
  have intimacy: "ca_intimacy (demo_question i b) = b" for i b by (simp add: demo_question_def)
  show "distinct (map ca_client_id (chosen_bank demo_bank None))" by code_simp
  have "filter ((\<lambda>c. \<not> ca_intimacy c \<and> usable tiny_unicode [] {} c) \<circ> (\<lambda>i. demo_question i (i = 5))) [0..<6]
      = filter (\<lambda>i. i \<noteq> 5) [0..<6]"
    using demo_questions_pass by (intro filter_cong) (simp_all add: intimacy usable_def list_all_iff)
  then show "length (filter (\<lambda>c. \<not> ca_intimacy c \<and> usable tiny_unicode [] {} c) (chosen_bank demo_bank None)) = 5"
    unfolding bank filter_map length_map by (simp add: upt_rec)
  show "\<exists>c \<in> set (chosen_bank demo_bank None). ca_intimacy c"
    unfolding bank set_map bex_simps by (intro bexI [of _ 5]) (simp_all add: intimacy)
qed



theorem best_five_selected_witness:
  "\<exists>selected g. balanced_five (map (\<lambda>(i, c). fallback_metadata tiny_unicode c (0 + i) None) (zip [0..<5] (take 5 demo_bank))) {}
       = Inr selected \<and> length g = 5 \<and> mset selected = mset g"
proof -
  let ?five = "map (\<lambda>(i, c). fallback_metadata tiny_unicode c (0 + i) None) (zip [0..<5] (take 5 demo_bank))"
  have "eligible_fives ?five ?five"
    using five_slots [of "take 5 demo_bank" tiny_unicode None] by (simp add: eligible_fives_def demo_bank_def)
  then obtain selected where "balanced_five ?five {} = Inr selected" using balanced_five_succeeds by blast
  then show ?thesis using best_five_selected [of ?five "{}"] by (auto simp: eligible_fives_def)
qed

end
