(* ===== verification/Quiz.thy ===== *)
theory Quiz
  imports Pairing
begin

text \<open>
  The daily quiz (\<^verbatim>\<open>quiz_v2_service.py\<close>, \<^verbatim>\<open>quiz_v2_mutations.py\<close>,
  \<^verbatim>\<open>routes/quizzes_v2.py\<close>) and the consent that governs it
  (\<^verbatim>\<open>update_preferences\<close> of \<^verbatim>\<open>routes/couples.py\<close>): a day is a snapshot of
  five questions, both members answer in private drafts, and the answers are shown when both finished.

  This theory has the rows, the snapshot and the view of a day, \<open>Quiz_Changes\<close> what members do to it,
  \<open>Quiz_Consent\<close> the replacement of questions and the custom queue. Fresh identifiers come with the
  request. What the response models validate on output is left out.
\<close>

section \<open>Rows\<close>

datatype quiz_answer =
    Single_choice string
  | Multiple_choice "string list"
  | Free_text ustring
  | Partner_guess string string
  | Weighted_choice "(string \<times> int) list"
  | Weighted_scale int

record question =
  qn_id :: uuid
  qn_publish_date :: date
  qn_kind :: string
  qn_prompt :: ustring
  qn_category :: string
  qn_intimacy :: bool
  qn_options :: "ustring list"
  qn_option_icons :: "string list"
  qn_scale_low_label :: "ustring option"
  qn_scale_high_label :: "ustring option"
  qn_interaction_version :: int
  qn_display_order :: "int option"
  qn_custom_slot :: "nat option"
  qn_surprise :: bool
  qn_source :: string
  qn_normalized_hash :: string
  qn_couple_id :: "uuid option"
  qn_created_by :: "uuid option"
  qn_disabled_at :: "instant option"

record quiz_day =
  qd_id :: uuid
  qd_couple_id :: uuid
  qd_quiz_date :: date
  qd_revision :: nat
  qd_revealed_at :: "instant option"
  qd_created_at :: instant

record quiz_day_question =
  ql_quiz_day_id :: uuid
  ql_question_id :: uuid
  ql_position :: nat

record quiz_day_member =
  qm_quiz_day_id :: uuid
  qm_account_id :: uuid
  qm_completed_at :: "instant option"

record quiz_draft =
  qf_quiz_day_id :: uuid
  qf_question_id :: uuid
  qf_account_id :: uuid
  qf_answer :: quiz_answer
  qf_revision :: nat
  qf_updated_at :: instant

record quiz_operation =
  qo_couple_id :: uuid
  qo_account_id :: "uuid option"
  qo_operation_id :: uuid
  qo_action :: string
  qo_quiz_date :: date
  qo_created_at :: instant

record question_report =
  qr_question_id :: uuid
  qr_couple_id :: uuid
  qr_reporter_id :: "uuid option"
  qr_reason :: string
  qr_created_at :: instant

record quiz_db = pairing_db +
  questions :: "question list"
  quiz_days :: "quiz_day list"
  quiz_day_questions :: "quiz_day_question list"
  quiz_day_members :: "quiz_day_member list"
  quiz_drafts :: "quiz_draft list"
  quiz_operations :: "quiz_operation list"
  question_reports :: "question_report list"

definition CATCH_UP_DAYS :: int where "CATCH_UP_DAYS = 7"
definition HISTORY_DAYS :: int where "HISTORY_DAYS = 30"
definition FALLBACK_ICONS :: "string list" where
  "FALLBACK_ICONS = [''heart'', ''chat'', ''home'', ''meal'', ''movie'', ''music'']"

section \<open>Dates\<close>

definition utc_today :: "instant \<Rightarrow> date" where
  "utc_today now = now div day"

definition require_visible_date :: "date \<Rightarrow> instant \<Rightarrow> exc + unit" where
  "require_visible_date d now =
     guard (d \<le> utc_today now \<and> utc_today now - (HISTORY_DAYS - 1) \<le> d)
       (HTTPException 404 ''Quiz day is unavailable'')"

definition date_is_editable :: "date \<Rightarrow> instant \<Rightarrow> bool" where
  "date_is_editable d now \<longleftrightarrow> utc_today now - CATCH_UP_DAYS \<le> d"

section \<open>The snapshot of a day\<close>

definition linked :: "'a quiz_db_scheme \<Rightarrow> uuid \<Rightarrow> bool" where
  "linked db question_id \<longleftrightarrow> question_id \<in> ql_question_id ` set (quiz_day_questions db)"

definition due_custom_questions :: "'a quiz_db_scheme \<Rightarrow> uuid \<Rightarrow> date \<Rightarrow> bool \<Rightarrow> question list" where
  "due_custom_questions db couple_id quiz_date intimacy =
     take 5 (sort_key (\<lambda>q. (qn_publish_date q, (case qn_custom_slot q of None \<Rightarrow> 0 | Some n \<Rightarrow> n), qn_id q))
       (select (\<lambda>q. qn_couple_id q = Some couple_id \<and> qn_publish_date q \<le> quiz_date
          \<and> qn_disabled_at q = None \<and> qn_custom_slot q \<noteq> None \<and> \<not> linked db (qn_id q)
          \<and> (intimacy \<or> \<not> qn_intimacy q)) (questions db)))"

text \<open>\<^verbatim>\<open>ORDER BY display_order ASC NULLS LAST, id\<close>.\<close>

definition display_key :: "question \<Rightarrow> nat \<times> int \<times> uuid" where
  "display_key q = (case qn_display_order q of None \<Rightarrow> (1, 0, qn_id q) | Some n \<Rightarrow> (0, n, qn_id q))"

definition global_question :: "date \<Rightarrow> bool \<Rightarrow> question \<Rightarrow> bool" where
  "global_question d intimacy q \<longleftrightarrow>
     qn_publish_date q = d \<and> qn_couple_id q = None \<and> qn_intimacy q = intimacy \<and> qn_disabled_at q = None"

definition questions_for_day :: "'a quiz_db_scheme \<Rightarrow> uuid \<Rightarrow> date \<Rightarrow> exc + question list" where
  "questions_for_day db couple_id quiz_date =
     bind_exc (both_members_consent db couple_id ''intimacy_enabled'') (\<lambda>intimacy.
     let custom = due_custom_questions db couple_id quiz_date intimacy;
         remaining = 5 - length custom;
         intimate = (if remaining \<noteq> 0 \<and> intimacy
           then (case scalar_by qn_id (global_question quiz_date True) (questions db) of
                   None \<Rightarrow> [] | Some q \<Rightarrow> [q])
           else []);
         general = take (remaining - length intimate)
           (sort_key display_key (select (global_question quiz_date False) (questions db)))
     in Inr (custom @ general @ intimate))"

definition find_day :: "'a quiz_db_scheme \<Rightarrow> uuid \<Rightarrow> quiz_day option" where
  "find_day db i = scalar (\<lambda>d. qd_id d = i) (quiz_days db)"

definition day_slot :: "quiz_day \<Rightarrow> uuid \<times> date" where
  "day_slot d = (qd_couple_id d, qd_quiz_date d)"

text \<open>The insert of a new day, its two members and its five questions.\<close>

definition insert_day ::
    "'a quiz_db_scheme \<Rightarrow> quiz_day \<Rightarrow> question list \<Rightarrow> exc + 'a quiz_db_scheme" where
  "insert_day db d qs =
     bind_exc (insert_unique qd_id d (quiz_days db)) (\<lambda>_.
     bind_exc (insert_unique day_slot d (quiz_days db)) (\<lambda>day_rows.
     let pair = select (\<lambda>m. mem_couple_id m = qd_couple_id d \<and> is_active m) (members db) in
     bind_exc (guard (length pair = 2) (HTTPException 409 ''Couple membership is incomplete'')) (\<lambda>_.
       Inr (db\<lparr>quiz_days := day_rows,
               quiz_day_members := quiz_day_members db
                 @ map (\<lambda>m. \<lparr>qm_quiz_day_id = qd_id d, qm_account_id = mem_account_id m, qm_completed_at = None\<rparr>) pair,
               quiz_day_questions := quiz_day_questions db
                 @ map (\<lambda>(i, q). \<lparr>ql_quiz_day_id = qd_id d, ql_question_id = qn_id q, ql_position = i\<rparr>)
                     (zip [1..<Suc (length qs)] qs)\<rparr>))))"

definition materialize_day ::
    "'a quiz_db_scheme \<Rightarrow> couple_member \<Rightarrow> date \<Rightarrow> instant \<Rightarrow> uuid \<Rightarrow> exc + 'a quiz_db_scheme \<times> quiz_day" where
  "materialize_day db member quiz_date now fresh =
     bind_exc (require_visible_date quiz_date now) (\<lambda>_.
     bind_exc (lock_couple db (mem_couple_id member)) (\<lambda>_.
     case scalar (\<lambda>d. qd_couple_id d = mem_couple_id member \<and> qd_quiz_date d = quiz_date) (quiz_days db) of
       Some existing \<Rightarrow> Inr (db, existing)
     | None \<Rightarrow>
         bind_exc (questions_for_day db (mem_couple_id member) quiz_date) (\<lambda>qs.
         bind_exc (guard (length qs = 5) (HTTPException 503 ''Daily questions are being prepared'')) (\<lambda>_.
         let d = \<lparr>qd_id = fresh, qd_couple_id = mem_couple_id member, qd_quiz_date = quiz_date,
                  qd_revision = 0, qd_revealed_at = None, qd_created_at = now\<rparr>
         in bind_exc (insert_day db d qs) (\<lambda>db. Inr (db, d))))))"

section \<open>The view of a day\<close>

record quiz_option =
  qp_id :: string
  qp_label :: ustring
  qp_icon_key :: string

record quiz_question_view =
  qv_id :: uuid
  qv_position :: nat
  qv_interaction_version :: int
  qv_kind :: string
  qv_prompt :: ustring
  qv_category :: string
  qv_intimacy :: bool
  qv_options :: "quiz_option list"
  qv_scale_low_label :: "ustring option"
  qv_scale_high_label :: "ustring option"
  qv_my_answer :: "quiz_answer option"
  qv_my_answer_revision :: nat
  qv_partner_answer :: "quiz_answer option"

record quiz_day_view =
  qy_quiz_date :: date
  qy_status :: string
  qy_revision :: nat
  qy_my_finished :: bool
  qy_partner_finished :: bool
  qy_revealed :: bool
  qy_editable :: bool
  qy_questions :: "quiz_question_view list"

fun decimal :: "nat \<Rightarrow> string" where
  "decimal n = (if n < 10 then [char_of (48 + n)] else decimal (n div 10) @ [char_of (48 + n mod 10)])"

definition option_id :: "nat \<Rightarrow> string" where
  "option_id index = ''o'' @ decimal index"

text \<open>\<^verbatim>\<open>icons[index - 1]\<close> raises when a question has fewer icons than options.\<close>

definition question_response ::
    "quiz_day_question \<Rightarrow> question \<Rightarrow> quiz_draft option \<Rightarrow> quiz_draft option \<Rightarrow> bool \<Rightarrow> exc + quiz_question_view" where
  "question_response link q mine partner revealed =
     (let icons = (if qn_option_icons q \<noteq> [] then qn_option_icons q
            else map (\<lambda>i. FALLBACK_ICONS ! (i mod length FALLBACK_ICONS)) [0..<length (qn_options q)])
      in bind_exc (guard (length (qn_options q) \<le> length icons) (LookupError ''list index out of range'')) (\<lambda>_.
         Inr \<lparr>qv_id = qn_id q, qv_position = ql_position link, qv_interaction_version = qn_interaction_version q,
              qv_kind = qn_kind q, qv_prompt = qn_prompt q, qv_category = qn_category q, qv_intimacy = qn_intimacy q,
              qv_options = map (\<lambda>(i, label). \<lparr>qp_id = option_id (i + 1), qp_label = label, qp_icon_key = icons ! i\<rparr>)
                (zip [0..<length (qn_options q)] (qn_options q)),
              qv_scale_low_label = qn_scale_low_label q, qv_scale_high_label = qn_scale_high_label q,
              qv_my_answer = map_option qf_answer mine,
              qv_my_answer_revision = (case mine of None \<Rightarrow> 0 | Some f \<Rightarrow> qf_revision f),
              qv_partner_answer = (if revealed then map_option qf_answer partner else None)\<rparr>))"

definition day_status :: "quiz_day \<Rightarrow> quiz_day_member \<Rightarrow> bool \<Rightarrow> instant \<Rightarrow> string" where
  "day_status d mine has_drafts now =
     (if qd_revealed_at d \<noteq> None then ''revealed''
      else if \<not> date_is_editable (qd_quiz_date d) now then ''expired''
      else if qm_completed_at mine \<noteq> None then ''waiting''
      else if has_drafts then ''in_progress'' else ''not_started'')"

definition links_of :: "'a quiz_db_scheme \<Rightarrow> uuid \<Rightarrow> quiz_day_question list" where
  "links_of db i = filter (\<lambda>l. ql_quiz_day_id l = i) (quiz_day_questions db)"

definition states_of :: "'a quiz_db_scheme \<Rightarrow> uuid \<Rightarrow> quiz_day_member list" where
  "states_of db i = filter (\<lambda>s. qm_quiz_day_id s = i) (quiz_day_members db)"

definition drafts_of :: "'a quiz_db_scheme \<Rightarrow> uuid \<Rightarrow> quiz_draft list" where
  "drafts_of db i = filter (\<lambda>f. qf_quiz_day_id f = i) (quiz_drafts db)"

definition day_rows :: "'a quiz_db_scheme \<Rightarrow> uuid \<Rightarrow> (quiz_day_question \<times> question) list" where
  "day_rows db i =
     List.map_filter (\<lambda>l. map_option (Pair l) (scalar (\<lambda>q. qn_id q = ql_question_id l) (questions db)))
       (sort_key ql_position (links_of db i))"

definition day_response ::
    "'a quiz_db_scheme \<Rightarrow> quiz_day \<Rightarrow> uuid \<Rightarrow> instant \<Rightarrow> exc + quiz_day_view" where
  "day_response db d actor_id now =
     (let drafts = rev (drafts_of db (qd_id d));
          mine = (\<lambda>i. scalar (\<lambda>f. qf_question_id f = i \<and> qf_account_id f = actor_id) drafts);
          partner = (\<lambda>i. scalar (\<lambda>f. qf_question_id f = i \<and> qf_account_id f \<noteq> actor_id) drafts);
          revealed = qd_revealed_at d \<noteq> None
      in case (scalar (\<lambda>s. qm_account_id s = actor_id) (states_of db (qd_id d)),
               scalar (\<lambda>s. qm_account_id s \<noteq> actor_id) (states_of db (qd_id d))) of
           (Some my_state, Some partner_state) \<Rightarrow>
             bind_exc (collect_exc (\<lambda>(link, q). question_response link q (mine (qn_id q)) (partner (qn_id q)) revealed)
                         (day_rows db (qd_id d))) (\<lambda>views.
               Inr \<lparr>qy_quiz_date = qd_quiz_date d,
                    qy_status = day_status d my_state (list_ex (\<lambda>f. qf_account_id f = actor_id) drafts) now,
                    qy_revision = qd_revision d, qy_my_finished = (qm_completed_at my_state \<noteq> None),
                    qy_partner_finished = (qm_completed_at partner_state \<noteq> None), qy_revealed = revealed,
                    qy_editable = (date_is_editable (qd_quiz_date d) now \<and> \<not> revealed), qy_questions = views\<rparr>)
         | _ \<Rightarrow> Inl (RuntimeError ''coroutine raised StopIteration''))"

end
