(* ===== verification/Quiz_Changes.thy ===== *)
theory Quiz_Changes
  imports Quiz
begin

text \<open>
  What members do to a quiz: private drafts, finishing and reopening
  (\<^verbatim>\<open>quiz_v2_mutations.py\<close>), and the routes of \<^verbatim>\<open>routes/quizzes_v2.py\<close>
  around them, with the history.
\<close>

section \<open>Answers\<close>

fun answer_kind :: "quiz_answer \<Rightarrow> string" where
  "answer_kind (Single_choice _) = ''single_choice''"
| "answer_kind (Multiple_choice _) = ''multiple_choice''"
| "answer_kind (Free_text _) = ''free_text''"
| "answer_kind (Partner_guess _ _) = ''partner_guess''"
| "answer_kind (Weighted_choice _) = ''weighted_choice''"
| "answer_kind (Weighted_scale _) = ''weighted_scale''"

fun supplied_options :: "quiz_answer \<Rightarrow> string set" where
  "supplied_options (Single_choice i) = {i}"
| "supplied_options (Multiple_choice is) = set is"
| "supplied_options (Partner_guess i j) = {i, j}"
| "supplied_options (Weighted_choice ratings) = fst ` set ratings"
| "supplied_options _ = {}"

definition validate_answer :: "question \<Rightarrow> quiz_answer \<Rightarrow> exc + quiz_answer" where
  "validate_answer q answer =
     (let option_ids = set (map option_id [1..<Suc (length (qn_options q))]);
          supplied = supplied_options answer
      in bind_exc (guard (answer_kind answer = qn_kind q) (HTTPException 422 ''Answer kind does not match'')) (\<lambda>_.
         bind_exc (guard (answer_kind answer = ''weighted_choice'' \<longrightarrow> supplied = option_ids)
                     (HTTPException 422 ''Every option needs a rating'')) (\<lambda>_.
         bind_exc (guard (supplied \<subseteq> option_ids) (HTTPException 422 ''Answer option is unavailable'')) (\<lambda>_.
           Inr answer))))"

section \<open>Drafts, finishing and reopening\<close>

definition quiz_operation_key :: "quiz_operation \<Rightarrow> uuid \<times> uuid option \<times> uuid" where
  "quiz_operation_key o' = (qo_couple_id o', qo_account_id o', qo_operation_id o')"

definition operation_exists :: "'a quiz_db_scheme \<Rightarrow> uuid \<Rightarrow> uuid \<Rightarrow> uuid \<Rightarrow> bool" where
  "operation_exists db couple_id actor_id operation_id \<longleftrightarrow>
     scalar (\<lambda>o'. quiz_operation_key o' = (couple_id, Some actor_id, operation_id)) (quiz_operations db) \<noteq> None"

definition record_quiz_operation ::
    "'a quiz_db_scheme \<Rightarrow> uuid \<Rightarrow> uuid \<Rightarrow> uuid \<Rightarrow> string \<Rightarrow> date \<Rightarrow> instant \<Rightarrow> exc + 'a quiz_db_scheme" where
  "record_quiz_operation db couple_id actor_id operation_id action quiz_date now =
     bind_exc (insert_unique quiz_operation_key
         \<lparr>qo_couple_id = couple_id, qo_account_id = Some actor_id, qo_operation_id = operation_id,
          qo_action = action, qo_quiz_date = quiz_date, qo_created_at = now\<rparr> (quiz_operations db))
       (\<lambda>rows. Inr (db\<lparr>quiz_operations := rows\<rparr>))"

text \<open>\<^verbatim>\<open>day.revision += 1\<close>, with the reveal when it is due.\<close>

definition bump_day :: "'a quiz_db_scheme \<Rightarrow> uuid \<Rightarrow> instant option \<Rightarrow> 'a quiz_db_scheme" where
  "bump_day db i reveal =
     db\<lparr>quiz_days := update_where (\<lambda>d. qd_id d = i)
          (\<lambda>d. d\<lparr>qd_revision := qd_revision d + 1,
                qd_revealed_at := (case reveal of None \<Rightarrow> qd_revealed_at d | Some t \<Rightarrow> Some t)\<rparr>) (quiz_days db)\<rparr>"

definition require_editable_member ::
    "'a quiz_db_scheme \<Rightarrow> quiz_day \<Rightarrow> uuid \<Rightarrow> bool \<Rightarrow> instant \<Rightarrow> exc + quiz_day_member" where
  "require_editable_member db d actor_id allow_finished now =
     bind_exc (guard (qd_revealed_at d = None \<and> date_is_editable (qd_quiz_date d) now)
                 (HTTPException 409 ''Quiz day is no longer editable'')) (\<lambda>_.
     case scalar (\<lambda>s. qm_account_id s = actor_id) (states_of db (qd_id d)) of
       None \<Rightarrow> Inl (HTTPException 404 ''Quiz day is unavailable'')
     | Some s \<Rightarrow>
         (if qm_completed_at s \<noteq> None \<and> \<not> allow_finished
          then Inl (HTTPException 409 ''Reopen the quiz before editing'') else Inr s))"

definition require_day_revision :: "quiz_day \<Rightarrow> nat \<Rightarrow> exc + unit" where
  "require_day_revision d expected =
     guard (qd_revision d = expected) (HTTPException 409 ''Quiz day changed; refresh and retry'')"

definition draft_key :: "quiz_draft \<Rightarrow> uuid \<times> uuid \<times> uuid" where
  "draft_key f = (qf_quiz_day_id f, qf_question_id f, qf_account_id f)"

text \<open>Creating the draft of a question, or revising it.\<close>

definition write_draft ::
    "'a quiz_db_scheme \<Rightarrow> uuid \<Rightarrow> uuid \<Rightarrow> uuid \<Rightarrow> quiz_answer \<Rightarrow> nat \<Rightarrow> instant \<Rightarrow> exc + 'a quiz_db_scheme" where
  "write_draft db day_id question_id actor_id answer expected now =
     (let mine = (\<lambda>f. draft_key f = (day_id, question_id, actor_id));
          draft = scalar mine (quiz_drafts db);
          revision = (case draft of None \<Rightarrow> 0 | Some f \<Rightarrow> qf_revision f)
      in bind_exc (guard (revision = expected) (HTTPException 409 ''Answer draft changed; refresh and retry'')) (\<lambda>_.
         Inr (db\<lparr>quiz_drafts := (if draft = None
           then quiz_drafts db @ [\<lparr>qf_quiz_day_id = day_id, qf_question_id = question_id, qf_account_id = actor_id,
                  qf_answer = answer, qf_revision = 1, qf_updated_at = now\<rparr>]
           else update_where mine (\<lambda>f. f\<lparr>qf_answer := answer, qf_revision := qf_revision f + 1,
                  qf_updated_at := now\<rparr>) (quiz_drafts db))\<rparr>)))"

definition save_draft ::
    "'a quiz_db_scheme \<Rightarrow> quiz_day \<Rightarrow> uuid \<Rightarrow> uuid \<Rightarrow> uuid \<Rightarrow> nat \<Rightarrow> quiz_answer \<Rightarrow> instant
       \<Rightarrow> exc + 'a quiz_db_scheme" where
  "save_draft db d actor_id question_id operation_id expected answer now =
     (if operation_exists db (qd_couple_id d) actor_id operation_id then Inr db
      else
        bind_exc (require_editable_member db d actor_id False now) (\<lambda>_.
        case (if question_id \<in> ql_question_id ` set (links_of db (qd_id d))
              then scalar (\<lambda>q. qn_id q = question_id) (questions db) else None) of
          None \<Rightarrow> Inl (HTTPException 404 ''Question is unavailable'')
        | Some q \<Rightarrow>
            bind_exc (validate_answer q answer) (\<lambda>answer.
            bind_exc (write_draft db (qd_id d) question_id actor_id answer expected now) (\<lambda>db.
              record_quiz_operation (bump_day db (qd_id d) None) (qd_couple_id d) actor_id operation_id
                ''draft'' (qd_quiz_date d) now))))"

definition set_completed ::
    "'a quiz_db_scheme \<Rightarrow> uuid \<Rightarrow> (uuid \<Rightarrow> bool) \<Rightarrow> instant option \<Rightarrow> 'a quiz_db_scheme" where
  "set_completed db day_id accs t =
     db\<lparr>quiz_day_members := update_where (\<lambda>s. qm_quiz_day_id s = day_id \<and> accs (qm_account_id s))
          (\<lambda>s. s\<lparr>qm_completed_at := t\<rparr>) (quiz_day_members db)\<rparr>"

definition finish_day ::
    "'a quiz_db_scheme \<Rightarrow> quiz_day \<Rightarrow> uuid \<Rightarrow> uuid \<Rightarrow> nat \<Rightarrow> instant \<Rightarrow> exc + 'a quiz_db_scheme" where
  "finish_day db d actor_id operation_id expected now =
     (if operation_exists db (qd_couple_id d) actor_id operation_id then Inr db
      else
        bind_exc (require_editable_member db d actor_id False now) (\<lambda>_.
        bind_exc (require_day_revision d expected) (\<lambda>_.
        bind_exc (guard (length (filter (\<lambda>f. qf_account_id f = actor_id) (drafts_of db (qd_id d))) = 5)
                    (HTTPException 422 ''Answer all five questions'')) (\<lambda>_.
        let db = set_completed db (qd_id d) (\<lambda>a. a = actor_id) (Some now);
            incomplete = length (filter (\<lambda>s. qm_completed_at s = None) (states_of db (qd_id d)))
        in record_quiz_operation (bump_day db (qd_id d) (if incomplete = 0 then Some now else None))
             (qd_couple_id d) actor_id operation_id ''finish'' (qd_quiz_date d) now))))"

definition reopen_day ::
    "'a quiz_db_scheme \<Rightarrow> quiz_day \<Rightarrow> uuid \<Rightarrow> uuid \<Rightarrow> nat \<Rightarrow> instant \<Rightarrow> exc + 'a quiz_db_scheme" where
  "reopen_day db d actor_id operation_id expected now =
     (if operation_exists db (qd_couple_id d) actor_id operation_id then Inr db
      else
        bind_exc (require_editable_member db d actor_id True now) (\<lambda>_.
        bind_exc (require_day_revision d expected) (\<lambda>_.
          record_quiz_operation
            (bump_day (set_completed db (qd_id d) (\<lambda>a. a = actor_id) None) (qd_id d) None)
            (qd_couple_id d) actor_id operation_id ''reopen'' (qd_quiz_date d) now)))"

section \<open>Routes\<close>

text \<open>The row of a day after the mutation, for the reply.\<close>

definition current_day :: "'a quiz_db_scheme \<Rightarrow> quiz_day \<Rightarrow> quiz_day" where
  "current_day db d = (case find_day db (qd_id d) of None \<Rightarrow> d | Some d' \<Rightarrow> d')"

definition view_quiz_day ::
    "'a quiz_db_scheme \<Rightarrow> uuid \<Rightarrow> date \<Rightarrow> instant \<Rightarrow> uuid \<Rightarrow> exc + 'a quiz_db_scheme \<times> quiz_day_view" where
  "view_quiz_day db actor_id quiz_date now fresh =
     bind_exc (active_member db actor_id) (\<lambda>member.
     bind_exc (materialize_day db member quiz_date now fresh) (\<lambda>(db, d).
     bind_exc (day_response db d actor_id now) (\<lambda>v. Inr (db, v))))"

definition today_quiz ::
    "'a quiz_db_scheme \<Rightarrow> uuid \<Rightarrow> instant \<Rightarrow> uuid \<Rightarrow> exc + 'a quiz_db_scheme \<times> quiz_day_view" where
  "today_quiz db actor_id now fresh = view_quiz_day db actor_id (utc_today now) now fresh"

definition quiz_status ::
    "'a quiz_db_scheme \<Rightarrow> uuid \<Rightarrow> instant \<Rightarrow> uuid
       \<Rightarrow> exc + 'a quiz_db_scheme \<times> (date \<times> nat \<times> bool \<times> bool \<times> bool)" where
  "quiz_status db actor_id now fresh =
     bind_exc (view_quiz_day db actor_id (utc_today now) now fresh) (\<lambda>(db, v).
       Inr (db, (qy_quiz_date v, qy_revision v, qy_my_finished v, qy_partner_finished v, qy_revealed v)))"

definition put_draft ::
    "'a quiz_db_scheme \<Rightarrow> uuid \<Rightarrow> date \<Rightarrow> uuid \<Rightarrow> uuid \<Rightarrow> nat \<Rightarrow> quiz_answer \<Rightarrow> instant \<Rightarrow> uuid
       \<Rightarrow> exc + 'a quiz_db_scheme \<times> quiz_day_view" where
  "put_draft db actor_id quiz_date question_id operation_id expected answer now fresh =
     bind_exc (active_member db actor_id) (\<lambda>member.
     bind_exc (materialize_day db member quiz_date now fresh) (\<lambda>(db, d).
     bind_exc (save_draft db d actor_id question_id operation_id expected answer now) (\<lambda>db.
     bind_exc (day_response db (current_day db d) actor_id now) (\<lambda>v. Inr (db, v)))))"

definition reopen ::
    "'a quiz_db_scheme \<Rightarrow> uuid \<Rightarrow> date \<Rightarrow> uuid \<Rightarrow> nat \<Rightarrow> instant \<Rightarrow> uuid
       \<Rightarrow> exc + 'a quiz_db_scheme \<times> quiz_day_view" where
  "reopen db actor_id quiz_date operation_id expected now fresh =
     bind_exc (active_member db actor_id) (\<lambda>member.
     bind_exc (materialize_day db member quiz_date now fresh) (\<lambda>(db, d).
     bind_exc (reopen_day db d actor_id operation_id expected now) (\<lambda>db.
     bind_exc (day_response db (current_day db d) actor_id now) (\<lambda>v. Inr (db, v)))))"

definition quiz_activity :: "quiz_day \<Rightarrow> uuid \<Rightarrow> uuid \<Rightarrow> instant \<Rightarrow> activity_event" where
  "quiz_activity d actor_id operation_id now =
     \<lparr>act_couple_id = qd_couple_id d, act_actor_id = Some actor_id, act_sequence = 0,
      act_dedupe_key = [Lit ''quiz:finish:'', Id operation_id],
      act_kind = (if qd_revealed_at d \<noteq> None then ''quiz_revealed'' else ''quiz_submitted''),
      act_target_type = Some ''quiz'', act_target_id = Some (qd_id d),
      act_target_title = None, act_emoji = None, act_created_at = now\<rparr>"

text \<open>
  The alerts of a finish: the partner's, once per day and kind, and the withdrawal of the one that
  waited for the actor. The title of the activity, the date in ISO format, is left out.
\<close>

definition finish_alerts ::
    "'a quiz_db_scheme \<Rightarrow> quiz_day \<Rightarrow> uuid \<Rightarrow> instant \<Rightarrow> uuid \<Rightarrow> exc + 'a quiz_db_scheme \<times> uuid option" where
  "finish_alerts db d actor_id now event_id =
     bind_exc
       (case partner_id_for db (qd_couple_id d) actor_id of
          None \<Rightarrow> Inr (db, None)
        | Some partner_id \<Rightarrow>
            enqueue_quiz_event db now event_id (qd_couple_id d) (qd_id d) (qd_quiz_date d) partner_id (Some actor_id)
              (if qd_revealed_at d \<noteq> None then Nk_quiz_results_ready else Nk_quiz_partner_finished))
       (\<lambda>(db, recipient).
          Inr (if qd_revealed_at d \<noteq> None
               then delete_events (\<lambda>e. ne_recipient_id e = actor_id \<and> ne_source_id e = qd_id d
                      \<and> ne_kind e = Nk_quiz_partner_finished) db
               else db, recipient))"

definition finish ::
    "'a quiz_db_scheme \<Rightarrow> uuid \<Rightarrow> date \<Rightarrow> uuid \<Rightarrow> nat \<Rightarrow> instant \<Rightarrow> uuid \<Rightarrow> uuid
       \<Rightarrow> exc + 'a quiz_db_scheme \<times> quiz_day_view \<times> uuid option" where
  "finish db actor_id quiz_date operation_id expected now fresh event_id =
     bind_exc (active_member db actor_id) (\<lambda>member.
     bind_exc (materialize_day db member quiz_date now fresh) (\<lambda>(db, d).
     let was_finished = (case scalar (\<lambda>s. qm_account_id s = actor_id) (states_of db (qd_id d)) of
           None \<Rightarrow> False | Some s \<Rightarrow> qm_completed_at s \<noteq> None)
     in bind_exc (finish_day db d actor_id operation_id expected now) (\<lambda>db.
        let d = current_day db d;
            db = record_activity db (quiz_activity d actor_id operation_id now)
        in bind_exc (if was_finished then Inr (db, None) else finish_alerts db d actor_id now event_id)
             (\<lambda>(db, recipient).
           bind_exc (day_response db d actor_id now) (\<lambda>v. Inr (db, v, recipient))))))"

section \<open>History\<close>

definition history_items ::
    "'a quiz_db_scheme \<Rightarrow> couple_member \<Rightarrow> instant \<Rightarrow> exc + (date \<times> string \<times> nat \<times> nat) list" where
  "history_items db member now =
     collect_exc (\<lambda>d. bind_exc (day_response db d (mem_account_id member) now) (\<lambda>v.
         Inr (qd_quiz_date d, qy_status v,
              length (filter (\<lambda>q. qv_my_answer q \<noteq> None) (qy_questions v)),
              length (filter (\<lambda>l. list_ex (\<lambda>q. qn_id q = ql_question_id l
                  \<and> qn_couple_id q = Some (mem_couple_id member) \<and> qn_source q = ''couple'') (questions db))
                (links_of db (qd_id d))))))
       (sort_key (\<lambda>d. - qd_quiz_date d)
         (select (\<lambda>d. qd_couple_id d = mem_couple_id member
            \<and> utc_today now - (HISTORY_DAYS - 1) \<le> qd_quiz_date d \<and> qd_quiz_date d \<le> utc_today now) (quiz_days db)))"

definition quiz_history ::
    "'a quiz_db_scheme \<Rightarrow> uuid \<Rightarrow> int \<Rightarrow> instant \<Rightarrow> exc + (date \<times> string \<times> nat \<times> nat) list" where
  "quiz_history db actor_id days now =
     bind_exc (guard (days = 30) (HTTPException 422 ''History window must be 30 days'')) (\<lambda>_.
     bind_exc (active_member db actor_id) (\<lambda>member. history_items db member now))"

end
