(* ===== verification/Quiz_Consent.thy ===== *)
theory Quiz_Consent
  imports Quiz_Changes Question_Gates
begin

text \<open>
  How a question leaves a day or enters the couple's queue: the revocation of intimacy consent
  (\<^verbatim>\<open>revoke_unrevealed_intimacy\<close>, \<^verbatim>\<open>update_preferences\<close> of
  \<^verbatim>\<open>routes/couples.py\<close>), reports (\<^verbatim>\<open>report_question\<close>), and custom
  questions (\<^verbatim>\<open>quiz_custom_service.py\<close>).

  \<open>bank\<close> is the curated bank, \<open>sha\<close> the digest of \<open>normalized_hash\<close>, \<open>zi\<close> the time zone database.
\<close>

section \<open>Storing a question\<close>

definition question_scope :: "question \<Rightarrow> date \<times> uuid option \<times> string" where
  "question_scope q = (qn_publish_date q, qn_couple_id q, qn_normalized_hash q)"

definition same_slot :: "question \<Rightarrow> question \<Rightarrow> bool" where
  "same_slot q r \<longleftrightarrow> qn_couple_id q \<noteq> None \<and> qn_custom_slot q \<noteq> None
     \<and> qn_couple_id r = qn_couple_id q \<and> qn_publish_date r = qn_publish_date q \<and> qn_custom_slot r = qn_custom_slot q"

text \<open>The primary key and the two unique indexes that can hold a question of a couple.\<close>

definition insert_question :: "question \<Rightarrow> question list \<Rightarrow> exc + question list" where
  "insert_question q rows =
     bind_exc (insert_unique qn_id q rows) (\<lambda>_.
     bind_exc (insert_unique question_scope q rows) (\<lambda>stored.
     bind_exc (guard (\<not> list_ex (same_slot q) rows) IntegrityError) (\<lambda>_. Inr stored)))"

definition bank_question ::
    "folding_unicode \<Rightarrow> (ustring \<Rightarrow> string) \<Rightarrow> candidate \<Rightarrow> uuid \<Rightarrow> date \<Rightarrow> uuid \<Rightarrow> bool \<Rightarrow> string \<Rightarrow> question" where
  "bank_question u sha item fresh d couple_id intimacy source =
     \<lparr>qn_id = fresh, qn_publish_date = d, qn_kind = kind_value (ca_kind item), qn_prompt = ca_prompt item,
      qn_category = category_value (ca_category item), qn_intimacy = intimacy, qn_options = ca_options item,
      qn_option_icons = ca_option_icons item, qn_scale_low_label = ca_scale_low_label item,
      qn_scale_high_label = ca_scale_high_label item, qn_interaction_version = 2, qn_display_order = None,
      qn_custom_slot = None, qn_surprise = False, qn_source = source,
      qn_normalized_hash = normalized_hash u sha (ca_prompt item), qn_couple_id = Some couple_id,
      qn_created_by = None, qn_disabled_at = None\<rparr>"

section \<open>Replacing a question of a day\<close>

definition used_ids :: "'a quiz_db_scheme \<Rightarrow> uuid \<Rightarrow> uuid set" where
  "used_ids db day_id = ql_question_id ` set (links_of db day_id)"

definition reported :: "'a quiz_db_scheme \<Rightarrow> uuid \<Rightarrow> uuid \<Rightarrow> bool" where
  "reported db couple_id question_id \<longleftrightarrow>
     list_ex (\<lambda>r. qr_question_id r = question_id \<and> qr_couple_id r = couple_id) (question_reports db)"

text \<open>The first global question of the day that is not in it and was not reported by the couple.\<close>

definition global_replacement :: "'a quiz_db_scheme \<Rightarrow> quiz_day \<Rightarrow> uuid \<Rightarrow> bool \<Rightarrow> question option" where
  "global_replacement db d couple_id intimacy =
     scalar_by display_key (\<lambda>q. global_question (qd_quiz_date d) intimacy q
        \<and> qn_id q \<notin> used_ids db (qd_id d) \<and> \<not> reported db couple_id (qn_id q)) (questions db)"

definition general_replacement ::
    "folding_unicode \<Rightarrow> (ustring \<Rightarrow> string) \<Rightarrow> candidate list \<Rightarrow> 'a quiz_db_scheme \<Rightarrow> quiz_day \<Rightarrow> uuid \<Rightarrow> uuid
       \<Rightarrow> exc + 'a quiz_db_scheme \<times> question" where
  "general_replacement u sha bank db d couple_id fresh =
     (case global_replacement db d couple_id False of
        Some q \<Rightarrow> Inr (db, q)
      | None \<Rightarrow>
          (let used_hashes = qn_normalized_hash ` set (select (\<lambda>q. qn_id q \<in> used_ids db (qd_id d)) (questions db))
           in case scalar (\<lambda>item. \<not> ca_intimacy item \<and> normalized_hash u sha (ca_prompt item) \<notin> used_hashes) bank of
                None \<Rightarrow> Inl (RuntimeError ''coroutine raised StopIteration'')
              | Some item \<Rightarrow>
                  (let q = bank_question u sha item fresh (qd_quiz_date d) couple_id False ''consent_fallback''
                   in bind_exc (insert_question q (questions db)) (\<lambda>rows. Inr (db\<lparr>questions := rows\<rparr>, q)))))"

text \<open>The link takes the new question; answers to the old one and both finish markers go.\<close>

definition swap_question :: "'a quiz_db_scheme \<Rightarrow> uuid \<Rightarrow> uuid \<Rightarrow> uuid \<Rightarrow> 'a quiz_db_scheme" where
  "swap_question db day_id prior new =
     bump_day (set_completed
       (db\<lparr>quiz_day_questions := update_where (\<lambda>l. ql_quiz_day_id l = day_id \<and> ql_question_id l = prior)
              (\<lambda>l. l\<lparr>ql_question_id := new\<rparr>) (quiz_day_questions db),
           quiz_drafts := delete_where (\<lambda>f. qf_quiz_day_id f = day_id \<and> qf_question_id f = prior) (quiz_drafts db)\<rparr>)
       day_id (\<lambda>_. True) None) day_id None"

definition intimate_rows :: "'a quiz_db_scheme \<Rightarrow> uuid \<Rightarrow> (quiz_day \<times> quiz_day_question) list" where
  "intimate_rows db couple_id =
     List.map_filter (\<lambda>l. case find_day db (ql_quiz_day_id l) of
         None \<Rightarrow> None
       | Some d \<Rightarrow>
           (if qd_couple_id d = couple_id \<and> qd_revealed_at d = None
               \<and> list_ex (\<lambda>q. qn_id q = ql_question_id l \<and> qn_intimacy q) (questions db)
            then Some (d, l) else None)) (quiz_day_questions db)"

text \<open>\<open>fresh i\<close> is the id of the question the \<open>i\<close>th round of the loop may insert.\<close>

fun revoke_rows ::
    "folding_unicode \<Rightarrow> (ustring \<Rightarrow> string) \<Rightarrow> candidate list \<Rightarrow> uuid \<Rightarrow> (nat \<Rightarrow> uuid) \<Rightarrow> nat
       \<Rightarrow> (quiz_day \<times> quiz_day_question) list \<Rightarrow> 'a quiz_db_scheme \<Rightarrow> exc + 'a quiz_db_scheme" where
  "revoke_rows u sha bank couple_id fresh i [] db = Inr db"
| "revoke_rows u sha bank couple_id fresh i ((d, l) # rows) db =
     bind_exc (general_replacement u sha bank db d couple_id (fresh i)) (\<lambda>(db, q).
       revoke_rows u sha bank couple_id fresh (Suc i) rows (swap_question db (qd_id d) (ql_question_id l) (qn_id q)))"

definition revoke_unrevealed_intimacy ::
    "folding_unicode \<Rightarrow> (ustring \<Rightarrow> string) \<Rightarrow> candidate list \<Rightarrow> 'a quiz_db_scheme \<Rightarrow> uuid \<Rightarrow> (nat \<Rightarrow> uuid)
       \<Rightarrow> exc + 'a quiz_db_scheme" where
  "revoke_unrevealed_intimacy u sha bank db couple_id fresh =
     revoke_rows u sha bank couple_id fresh 0 (intimate_rows db couple_id) db"

section \<open>Preferences of a couple\<close>

record preferences_request =
  pf_intimacy_enabled :: "bool option"
  pf_location_enabled :: "bool option"
  pf_proximity_threshold_m :: "real option"
  pf_home_timezone :: "string option"

text \<open>The anniversary date, which no modelled code writes, is left out.\<close>

record preferences_response =
  pv_couple_id :: uuid
  pv_proximity_threshold_m :: real
  pv_intimacy_enabled_by_me :: bool
  pv_intimacy_enabled_by_both :: bool
  pv_location_enabled_by_me :: bool
  pv_location_enabled_by_both :: bool
  pv_home_timezone :: string

definition couple_preferences :: "'a core_db_scheme \<Rightarrow> couple_member \<Rightarrow> exc + preferences_response" where
  "couple_preferences db member =
     bind_exc (lock_couple db (mem_couple_id member)) (\<lambda>c.
     bind_exc (both_members_consent db (cpl_id c) ''intimacy_enabled'') (\<lambda>intimacy.
     bind_exc (both_members_consent db (cpl_id c) ''location_enabled'') (\<lambda>location.
       Inr \<lparr>pv_couple_id = cpl_id c, pv_proximity_threshold_m = cpl_proximity_threshold_m c,
            pv_intimacy_enabled_by_me = mem_intimacy_enabled member, pv_intimacy_enabled_by_both = intimacy,
            pv_location_enabled_by_me = mem_location_enabled member, pv_location_enabled_by_both = location,
            pv_home_timezone = cpl_home_timezone c\<rparr>)))"

definition get_couple_preferences :: "'a core_db_scheme \<Rightarrow> uuid \<Rightarrow> exc + preferences_response" where
  "get_couple_preferences db actor_id = bind_exc (active_member db actor_id) (couple_preferences db)"

definition own_row :: "couple_member \<Rightarrow> couple_member \<Rightarrow> bool" where
  "own_row member m \<longleftrightarrow> mem_couple_id m = mem_couple_id member \<and> mem_account_id m = mem_account_id member"

text \<open>The intimacy choice; withdrawing it replaces what is not revealed yet.\<close>

definition apply_intimacy ::
    "folding_unicode \<Rightarrow> (ustring \<Rightarrow> string) \<Rightarrow> candidate list \<Rightarrow> 'a quiz_db_scheme \<Rightarrow> couple_member \<Rightarrow> bool option
       \<Rightarrow> (nat \<Rightarrow> uuid) \<Rightarrow> exc + 'a quiz_db_scheme" where
  "apply_intimacy u sha bank db member choice fresh =
     (case choice of
        None \<Rightarrow> Inr db
      | Some b \<Rightarrow>
          (let db = db\<lparr>members := update_where (own_row member) (\<lambda>m. m\<lparr>mem_intimacy_enabled := b\<rparr>) (members db)\<rparr>
           in if b then Inr db else revoke_unrevealed_intimacy u sha bank db (mem_couple_id member) fresh))"

text \<open>The location choice; withdrawing it deletes the coordinates of both.\<close>

definition apply_location :: "'a quiz_db_scheme \<Rightarrow> couple_member \<Rightarrow> bool option \<Rightarrow> 'a quiz_db_scheme" where
  "apply_location db member choice =
     (case choice of
        None \<Rightarrow> db
      | Some b \<Rightarrow>
          (let db = db\<lparr>members := update_where (own_row member) (\<lambda>m. m\<lparr>mem_location_enabled := b\<rparr>) (members db)\<rparr>
           in if b then db
              else db\<lparr>location_samples := delete_where (\<lambda>s. ls_couple_id s = mem_couple_id member) (location_samples db)\<rparr>))"

definition checked_timezone :: "(string \<Rightarrow> exc + 'z) \<Rightarrow> string option \<Rightarrow> exc + unit" where
  "checked_timezone zi choice =
     (case choice of
        None \<Rightarrow> Inr ()
      | Some key \<Rightarrow>
          (case zi key of
             Inr _ \<Rightarrow> Inr ()
           | Inl (ZoneInfoNotFoundError _) \<Rightarrow> Inl (HTTPException 422 ''Timezone is invalid'')
           | Inl e \<Rightarrow> Inl e))"

definition update_couple_preferences ::
    "folding_unicode \<Rightarrow> (ustring \<Rightarrow> string) \<Rightarrow> candidate list \<Rightarrow> (string \<Rightarrow> exc + 'z) \<Rightarrow> 'a quiz_db_scheme \<Rightarrow> uuid
       \<Rightarrow> preferences_request \<Rightarrow> instant \<Rightarrow> (nat \<Rightarrow> uuid) \<Rightarrow> exc + 'a quiz_db_scheme \<times> preferences_response" where
  "update_couple_preferences u sha bank zi db actor_id payload now fresh =
     bind_exc (active_member db actor_id) (\<lambda>member.
     bind_exc (lock_couple db (mem_couple_id member)) (\<lambda>c.
     bind_exc (apply_intimacy u sha bank db member (pf_intimacy_enabled payload) fresh) (\<lambda>db.
     let db = apply_location db member (pf_location_enabled payload) in
     bind_exc (checked_timezone zi (pf_home_timezone payload)) (\<lambda>_.
     let db = db\<lparr>couples := update_where (\<lambda>x. cpl_id x = cpl_id c)
           (\<lambda>x. x\<lparr>cpl_proximity_threshold_m := (case pf_proximity_threshold_m payload of None \<Rightarrow> cpl_proximity_threshold_m x | Some t \<Rightarrow> t),
                 cpl_home_timezone := (case pf_home_timezone payload of None \<Rightarrow> cpl_home_timezone x | Some z \<Rightarrow> z),
                 cpl_updated_at := now\<rparr>) (couples db)\<rparr>;
         member = member\<lparr>
           mem_intimacy_enabled := (case pf_intimacy_enabled payload of None \<Rightarrow> mem_intimacy_enabled member | Some b \<Rightarrow> b),
           mem_location_enabled := (case pf_location_enabled payload of None \<Rightarrow> mem_location_enabled member | Some b \<Rightarrow> b)\<rparr>
     in bind_exc (couple_preferences db member) (\<lambda>v. Inr (db, v))))))"

section \<open>Reports\<close>

definition report_target ::
    "'a quiz_db_scheme \<Rightarrow> uuid \<Rightarrow> uuid \<Rightarrow> exc + quiz_day \<times> quiz_day_question \<times> question" where
  "report_target db couple_id question_id =
     (let rows = List.map_filter (\<lambda>l. case (find_day db (ql_quiz_day_id l), scalar (\<lambda>q. qn_id q = question_id) (questions db)) of
            (Some d, Some q) \<Rightarrow> (if ql_question_id l = question_id \<and> qd_couple_id d = couple_id then Some (d, l, q) else None)
          | _ \<Rightarrow> None) (quiz_day_questions db)
      in case scalar_by (\<lambda>(d, l, q). - qd_quiz_date d) (\<lambda>_. True) rows of
           None \<Rightarrow> Inl (HTTPException 404 ''Question is unavailable'')
         | Some row \<Rightarrow> Inr row)"

fun curated_replacement ::
    "folding_unicode \<Rightarrow> (ustring \<Rightarrow> string) \<Rightarrow> candidate list \<Rightarrow> 'a quiz_db_scheme \<Rightarrow> date \<Rightarrow> uuid \<Rightarrow> bool \<Rightarrow> uuid
       \<Rightarrow> exc + 'a quiz_db_scheme \<times> question" where
  "curated_replacement u sha [] db d couple_id allow_intimacy fresh =
     Inl (HTTPException 503 ''No safe replacement is available'')"
| "curated_replacement u sha (item # bank) db d couple_id allow_intimacy fresh =
     (if ca_intimacy item \<noteq> allow_intimacy
         \<or> scalar (\<lambda>q. question_scope q = (d, Some couple_id, normalized_hash u sha (ca_prompt item))) (questions db) \<noteq> None
      then curated_replacement u sha bank db d couple_id allow_intimacy fresh
      else
        (let q = bank_question u sha item fresh d couple_id (ca_intimacy item) ''report_fallback''
         in bind_exc (insert_question q (questions db)) (\<lambda>rows. Inr (db\<lparr>questions := rows\<rparr>, q))))"

definition replace_reported ::
    "folding_unicode \<Rightarrow> (ustring \<Rightarrow> string) \<Rightarrow> candidate list \<Rightarrow> 'a quiz_db_scheme \<Rightarrow> quiz_day \<Rightarrow> question \<Rightarrow> uuid \<Rightarrow> uuid
       \<Rightarrow> exc + 'a quiz_db_scheme" where
  "replace_reported u sha bank db d old couple_id fresh =
     bind_exc (both_members_consent db couple_id ''intimacy_enabled'') (\<lambda>consent.
     bind_exc
       (case global_replacement db d couple_id (if qn_intimacy old then consent else False) of
          Some q \<Rightarrow> Inr (db, q)
        | None \<Rightarrow> curated_replacement u sha bank db (qd_quiz_date d) couple_id (qn_intimacy old \<and> consent) fresh)
       (\<lambda>(db, q). Inr (swap_question db (qd_id d) (qn_id old) (qn_id q))))"

definition report_question ::
    "folding_unicode \<Rightarrow> (ustring \<Rightarrow> string) \<Rightarrow> candidate list \<Rightarrow> 'a quiz_db_scheme \<Rightarrow> uuid \<Rightarrow> uuid \<Rightarrow> string \<Rightarrow> instant \<Rightarrow> uuid
       \<Rightarrow> exc + 'a quiz_db_scheme \<times> string" where
  "report_question u sha bank db actor_id question_id reason now fresh =
     bind_exc (active_member db actor_id) (\<lambda>member.
     bind_exc (lock_couple db (mem_couple_id member)) (\<lambda>_.
     bind_exc (report_target db (mem_couple_id member) question_id) (\<lambda>(d, l, q).
     bind_exc
       (if reported db (mem_couple_id member) question_id then Inr db
        else
          (let db = db\<lparr>question_reports := question_reports db
                 @ [\<lparr>qr_question_id = question_id, qr_couple_id = mem_couple_id member, qr_reporter_id = Some actor_id,
                     qr_reason = reason, qr_created_at = now\<rparr>]\<rparr>
           in if qd_revealed_at d = None then replace_reported u sha bank db d q (mem_couple_id member) fresh
              else Inr db))
       (\<lambda>db. Inr (db, ''Question hidden for your couple and sent for review.'')))))"

section \<open>Custom questions\<close>

record custom_request =
  cq_kind :: string
  cq_prompt :: ustring
  cq_category :: string
  cq_intimacy :: bool
  cq_options :: "quiz_option list"
  cq_scale_low_label :: "ustring option"
  cq_scale_high_label :: "ustring option"
  cq_surprise :: bool

record custom_response =
  cs_id :: uuid
  cs_publish_date :: date
  cs_custom_slot :: nat
  cs_prompt :: ustring
  cs_kind :: string
  cs_category :: string
  cs_surprise :: bool

definition taken_slots :: "'a quiz_db_scheme \<Rightarrow> uuid \<Rightarrow> date \<Rightarrow> nat option set" where
  "taken_slots db couple_id target =
     qn_custom_slot ` set (select (\<lambda>q. qn_couple_id q = Some couple_id \<and> qn_publish_date q = target
       \<and> qn_custom_slot q \<noteq> None) (questions db))"

fun slot_within :: "nat \<Rightarrow> 'a quiz_db_scheme \<Rightarrow> uuid \<Rightarrow> date \<Rightarrow> (date \<times> nat) option" where
  "slot_within 0 db couple_id target = None"
| "slot_within (Suc n) db couple_id target =
     (case scalar (\<lambda>slot. Some slot \<notin> taken_slots db couple_id target) [1..<6] of
        Some slot \<Rightarrow> Some (target, slot)
      | None \<Rightarrow> slot_within n db couple_id (target + 1))"

definition next_slot :: "'a quiz_db_scheme \<Rightarrow> uuid \<Rightarrow> date \<Rightarrow> exc + date \<times> nat" where
  "next_slot db couple_id start =
     (case slot_within 366 db couple_id start of
        None \<Rightarrow> Inl (HTTPException 503 ''Custom queue is full'')
      | Some s \<Rightarrow> Inr s)"

definition new_question ::
    "folding_unicode \<Rightarrow> (ustring \<Rightarrow> string) \<Rightarrow> custom_request \<Rightarrow> uuid \<Rightarrow> uuid \<Rightarrow> date \<Rightarrow> nat \<Rightarrow> uuid \<Rightarrow> question" where
  "new_question u sha payload couple_id actor_id publish_date slot fresh =
     \<lparr>qn_id = fresh, qn_publish_date = publish_date, qn_kind = cq_kind payload, qn_prompt = cq_prompt payload,
      qn_category = cq_category payload, qn_intimacy = cq_intimacy payload,
      qn_options = map qp_label (cq_options payload), qn_option_icons = map qp_icon_key (cq_options payload),
      qn_scale_low_label = cq_scale_low_label payload, qn_scale_high_label = cq_scale_high_label payload,
      qn_interaction_version = 2, qn_display_order = None, qn_custom_slot = Some slot, qn_surprise = cq_surprise payload,
      qn_source = ''couple'', qn_normalized_hash = normalized_hash u sha (cq_prompt payload),
      qn_couple_id = Some couple_id, qn_created_by = Some actor_id, qn_disabled_at = None\<rparr>"

definition custom_response_of :: "question \<Rightarrow> custom_response" where
  "custom_response_of q =
     \<lparr>cs_id = qn_id q, cs_publish_date = qn_publish_date q,
      cs_custom_slot = (case qn_custom_slot q of None \<Rightarrow> 1 | Some n \<Rightarrow> if n = 0 then 1 else n),
      cs_prompt = qn_prompt q, cs_kind = qn_kind q, cs_category = qn_category q, cs_surprise = qn_surprise q\<rparr>"

definition create_custom ::
    "folding_unicode \<Rightarrow> (ustring \<Rightarrow> string) \<Rightarrow> 'a quiz_db_scheme \<Rightarrow> uuid \<Rightarrow> uuid \<Rightarrow> custom_request \<Rightarrow> instant \<Rightarrow> uuid
       \<Rightarrow> exc + 'a quiz_db_scheme \<times> question" where
  "create_custom u sha db couple_id actor_id payload now fresh =
     bind_exc (lock_couple db couple_id) (\<lambda>_.
     bind_exc (guard (scalar (\<lambda>q. qn_couple_id q = Some couple_id
           \<and> qn_normalized_hash q = normalized_hash u sha (cq_prompt payload)
           \<and> qn_disabled_at q = None \<and> utc_today now \<le> qn_publish_date q) (questions db) = None)
         (HTTPException 409 ''That question is already queued'')) (\<lambda>_.
     bind_exc (next_slot db couple_id (utc_today now + 1)) (\<lambda>(publish_date, slot).
     let q = new_question u sha payload couple_id actor_id publish_date slot fresh in
     bind_exc (insert_question q (questions db)) (\<lambda>rows. Inr (db\<lparr>questions := rows\<rparr>, q)))))"

definition owned_pending ::
    "'a quiz_db_scheme \<Rightarrow> uuid \<Rightarrow> uuid \<Rightarrow> uuid \<Rightarrow> instant \<Rightarrow> exc + question" where
  "owned_pending db couple_id actor_id question_id now =
     (case scalar (\<lambda>q. qn_id q = question_id \<and> qn_couple_id q = Some couple_id \<and> qn_created_by q = Some actor_id
          \<and> qn_custom_slot q \<noteq> None \<and> utc_today now < qn_publish_date q \<and> \<not> linked db question_id) (questions db) of
        None \<Rightarrow> Inl (HTTPException 404 ''Custom question is unavailable'')
      | Some q \<Rightarrow> Inr q)"

text \<open>An update of the row; its new digest must be free in its scope, or the index refuses it.\<close>

definition update_custom ::
    "folding_unicode \<Rightarrow> (ustring \<Rightarrow> string) \<Rightarrow> 'a quiz_db_scheme \<Rightarrow> uuid \<Rightarrow> uuid \<Rightarrow> uuid \<Rightarrow> custom_request \<Rightarrow> instant
       \<Rightarrow> exc + 'a quiz_db_scheme \<times> question" where
  "update_custom u sha db couple_id actor_id question_id payload now =
     bind_exc (lock_couple db couple_id) (\<lambda>_.
     bind_exc (owned_pending db couple_id actor_id question_id now) (\<lambda>q.
     let q' = q\<lparr>qn_kind := cq_kind payload, qn_prompt := cq_prompt payload, qn_category := cq_category payload,
           qn_intimacy := cq_intimacy payload, qn_options := map qp_label (cq_options payload),
           qn_option_icons := map qp_icon_key (cq_options payload), qn_scale_low_label := cq_scale_low_label payload,
           qn_scale_high_label := cq_scale_high_label payload,
           qn_normalized_hash := normalized_hash u sha (cq_prompt payload), qn_surprise := cq_surprise payload\<rparr>
     in bind_exc (guard (question_scope q' \<notin> question_scope ` set (filter (\<lambda>r. qn_id r \<noteq> question_id) (questions db)))
                    IntegrityError) (\<lambda>_.
          Inr (db\<lparr>questions := update_where (\<lambda>r. qn_id r = question_id) (\<lambda>_. q') (questions db)\<rparr>, q'))))"

definition delete_custom ::
    "'a quiz_db_scheme \<Rightarrow> uuid \<Rightarrow> uuid \<Rightarrow> uuid \<Rightarrow> instant \<Rightarrow> exc + 'a quiz_db_scheme" where
  "delete_custom db couple_id actor_id question_id now =
     bind_exc (lock_couple db couple_id) (\<lambda>_.
     bind_exc (owned_pending db couple_id actor_id question_id now) (\<lambda>q.
       Inr (db\<lparr>questions := delete_where (\<lambda>r. qn_id r = question_id) (questions db)\<rparr>)))"

definition pending_custom :: "'a quiz_db_scheme \<Rightarrow> uuid \<Rightarrow> (question \<Rightarrow> bool) \<Rightarrow> question list" where
  "pending_custom db couple_id p =
     select (\<lambda>q. qn_couple_id q = Some couple_id \<and> p q \<and> qn_custom_slot q \<noteq> None \<and> \<not> linked db (qn_id q)) (questions db)"

definition by_slot :: "question list \<Rightarrow> question list" where
  "by_slot qs = sort_key (\<lambda>q. (qn_publish_date q, case qn_custom_slot q of None \<Rightarrow> 0 | Some n \<Rightarrow> n)) qs"

text \<open>In SQL \<^verbatim>\<open>created_by != actor\<close> is not true of a null creator.\<close>

definition of_partner :: "uuid \<Rightarrow> question \<Rightarrow> bool" where
  "of_partner actor_id q \<longleftrightarrow> (case qn_created_by q of None \<Rightarrow> False | Some a \<Rightarrow> a \<noteq> actor_id)"

definition creator_queue ::
    "'a quiz_db_scheme \<Rightarrow> uuid \<Rightarrow> uuid \<Rightarrow> custom_response list \<times> custom_response list \<times> nat" where
  "creator_queue db couple_id actor_id =
     (map custom_response_of (by_slot (pending_custom db couple_id (\<lambda>q. qn_created_by q = Some actor_id))),
      map custom_response_of (by_slot (pending_custom db couple_id (\<lambda>q. of_partner actor_id q \<and> \<not> qn_surprise q))),
      length (pending_custom db couple_id (\<lambda>q. of_partner actor_id q \<and> qn_surprise q)))"

definition custom_queue ::
    "'a quiz_db_scheme \<Rightarrow> uuid \<Rightarrow> exc + custom_response list \<times> custom_response list \<times> nat" where
  "custom_queue db actor_id =
     bind_exc (active_member db actor_id) (\<lambda>member. Inr (creator_queue db (mem_couple_id member) actor_id))"

definition post_custom ::
    "folding_unicode \<Rightarrow> (ustring \<Rightarrow> string) \<Rightarrow> 'a quiz_db_scheme \<Rightarrow> uuid \<Rightarrow> custom_request \<Rightarrow> instant \<Rightarrow> uuid
       \<Rightarrow> exc + 'a quiz_db_scheme \<times> custom_response" where
  "post_custom u sha db actor_id payload now fresh =
     bind_exc (active_member db actor_id) (\<lambda>member.
     bind_exc (create_custom u sha db (mem_couple_id member) actor_id payload now fresh) (\<lambda>(db, q).
       Inr (db, custom_response_of q)))"

definition put_custom ::
    "folding_unicode \<Rightarrow> (ustring \<Rightarrow> string) \<Rightarrow> 'a quiz_db_scheme \<Rightarrow> uuid \<Rightarrow> uuid \<Rightarrow> custom_request \<Rightarrow> instant
       \<Rightarrow> exc + 'a quiz_db_scheme \<times> custom_response" where
  "put_custom u sha db actor_id question_id payload now =
     bind_exc (active_member db actor_id) (\<lambda>member.
     bind_exc (update_custom u sha db (mem_couple_id member) actor_id question_id payload now) (\<lambda>(db, q).
       Inr (db, custom_response_of q)))"

definition remove_custom ::
    "'a quiz_db_scheme \<Rightarrow> uuid \<Rightarrow> uuid \<Rightarrow> instant \<Rightarrow> exc + 'a quiz_db_scheme \<times> unit" where
  "remove_custom db actor_id question_id now =
     bind_exc (active_member db actor_id) (\<lambda>member.
     bind_exc (delete_custom db (mem_couple_id member) actor_id question_id now) (\<lambda>db. Inr (db, ())))"

end
