(* ===== verification/Quiz_Safety.thy ===== *)
theory Quiz_Safety
  imports Quiz_Consent Pairing_Safety
begin

text \<open>
  The properties of the daily quiz: a day is always a consistent snapshot that is revealed exactly when
  both finished, and frozen from then on; no unrevealed day of a couple has an intimate question
  without the consent of both.
\<close>

section \<open>Requests\<close>

datatype quiz_request =
    View_day uuid date
  | Put_draft uuid date uuid uuid nat quiz_answer
  | Finish uuid date uuid nat
  | Reopen uuid date uuid nat
  | Report uuid uuid string
  | Prefer uuid preferences_request
  | Post_custom uuid custom_request
  | Put_custom uuid uuid custom_request
  | Remove_custom uuid uuid

datatype quiz_reply =
    Day_reply quiz_day_view
  | Message_reply string
  | Preferences_reply preferences_response
  | Custom_reply custom_response
  | Empty_reply

text \<open>A call carries the clock of its handler and the fresh identifiers it may use.\<close>

type_synonym quiz_call = "quiz_request \<times> instant \<times> (nat \<Rightarrow> uuid)"

fun serve_quiz ::
    "folding_unicode \<Rightarrow> (ustring \<Rightarrow> string) \<Rightarrow> candidate list \<Rightarrow> (string \<Rightarrow> exc + 'z) \<Rightarrow> 'a quiz_db_scheme \<Rightarrow> quiz_call
       \<Rightarrow> exc + 'a quiz_db_scheme \<times> quiz_reply" where
  "serve_quiz u sha bank zi db (View_day a d, now, fresh) =
     bind_exc (view_quiz_day db a d now (fresh 0)) (\<lambda>(db, v). Inr (db, Day_reply v))"
| "serve_quiz u sha bank zi db (Put_draft a d q op' n answer, now, fresh) =
     bind_exc (put_draft db a d q op' n answer now (fresh 0)) (\<lambda>(db, v). Inr (db, Day_reply v))"
| "serve_quiz u sha bank zi db (Finish a d op' n, now, fresh) =
     bind_exc (finish db a d op' n now (fresh 0) (fresh 1)) (\<lambda>(db, v, _). Inr (db, Day_reply v))"
| "serve_quiz u sha bank zi db (Reopen a d op' n, now, fresh) =
     bind_exc (reopen db a d op' n now (fresh 0)) (\<lambda>(db, v). Inr (db, Day_reply v))"
| "serve_quiz u sha bank zi db (Report a q reason, now, fresh) =
     bind_exc (report_question u sha bank db a q reason now (fresh 0)) (\<lambda>(db, m). Inr (db, Message_reply m))"
| "serve_quiz u sha bank zi db (Prefer a payload, now, fresh) =
     bind_exc (update_couple_preferences u sha bank zi db a payload now fresh) (\<lambda>(db, v). Inr (db, Preferences_reply v))"
| "serve_quiz u sha bank zi db (Post_custom a payload, now, fresh) =
     bind_exc (post_custom u sha db a payload now (fresh 0)) (\<lambda>(db, v). Inr (db, Custom_reply v))"
| "serve_quiz u sha bank zi db (Put_custom a q payload, now, fresh) =
     bind_exc (put_custom u sha db a q payload now) (\<lambda>(db, v). Inr (db, Custom_reply v))"
| "serve_quiz u sha bank zi db (Remove_custom a q, now, fresh) =
     bind_exc (remove_custom db a q now) (\<lambda>(db, _). Inr (db, Empty_reply))"

section \<open>The invariant\<close>

definition day_ok :: "'a quiz_db_scheme \<Rightarrow> quiz_day \<Rightarrow> bool" where
  "day_ok db d \<longleftrightarrow>
     (let ls = links_of db (qd_id d); ss = states_of db (qd_id d); fs = drafts_of db (qd_id d) in
      length ls = 5 \<and> distinct (map ql_question_id ls) \<and> ql_question_id ` set ls \<subseteq> qn_id ` set (questions db)
      \<and> length ss = 2 \<and> distinct (map qm_account_id ss)
      \<and> distinct (map (\<lambda>f. (qf_question_id f, qf_account_id f)) fs)
      \<and> (\<forall>f \<in> set fs. qf_question_id f \<in> ql_question_id ` set ls \<and> qf_account_id f \<in> qm_account_id ` set ss)
      \<and> (\<forall>s \<in> set ss. qm_completed_at s \<noteq> None \<longrightarrow>
           length (filter (\<lambda>f. qf_account_id f = qm_account_id s) fs) = 5)
      \<and> (qd_revealed_at d \<noteq> None \<longleftrightarrow> (\<forall>s \<in> set ss. qm_completed_at s \<noteq> None)))"

definition quiz_ok :: "'a quiz_db_scheme \<Rightarrow> bool" where
  "quiz_ok db \<longleftrightarrow> distinct (map qd_id (quiz_days db)) \<and> distinct (map day_slot (quiz_days db))
     \<and> distinct (map qn_id (questions db))
     \<and> ql_quiz_day_id ` set (quiz_day_questions db) \<subseteq> qd_id ` set (quiz_days db)
     \<and> qm_quiz_day_id ` set (quiz_day_members db) \<subseteq> qd_id ` set (quiz_days db)
     \<and> qf_quiz_day_id ` set (quiz_drafts db) \<subseteq> qd_id ` set (quiz_days db)
     \<and> (\<forall>d \<in> set (quiz_days db). day_ok db d)"

text \<open>What a day holds; everything \<open>day_ok\<close> reads.\<close>

definition day_content :: "'a quiz_db_scheme \<Rightarrow> uuid \<Rightarrow> quiz_day_question list \<times> quiz_day_member list \<times> quiz_draft list" where
  "day_content db i = (links_of db i, states_of db i, drafts_of db i)"

lemma day_ok_content:
  assumes "day_content db' (qd_id d') = day_content db (qd_id d)"
    and "qn_id ` set (questions db) \<subseteq> qn_id ` set (questions db')"
    and "(qd_revealed_at d' = None) = (qd_revealed_at d = None)" "day_ok db d"
  shows "day_ok db' d'"
proof -
  from assms(1) have "links_of db' (qd_id d') = links_of db (qd_id d)" "states_of db' (qd_id d') = states_of db (qd_id d)"
    "drafts_of db' (qd_id d') = drafts_of db (qd_id d)" by (simp_all add: day_content_def)
  then show ?thesis
    using assms(4) unfolding day_ok_def Let_def assms(3)
    by (elim conjE, intro conjI) (simp_all only: order_trans [OF _ assms(2)])
qed

section \<open>Frames\<close>

text \<open>The tables the quiz properties speak of.\<close>

definition quiz_tables where
  "quiz_tables (db :: 'a quiz_db_scheme) = (accounts db, couples db, members db, questions db, quiz_days db, quiz_day_questions db,
     quiz_day_members db, quiz_drafts db, quiz_operations db, question_reports db)"

lemma same_tables:
  assumes "quiz_tables db' = quiz_tables db"
  shows "accounts db' = accounts db" "couples db' = couples db" "members db' = members db" "questions db' = questions db"
    "quiz_days db' = quiz_days db" "links_of db' = links_of db" "states_of db' = states_of db" "drafts_of db' = drafts_of db"
    "quiz_day_questions db' = quiz_day_questions db" "quiz_day_members db' = quiz_day_members db"
    "quiz_drafts db' = quiz_drafts db" "quiz_operations db' = quiz_operations db" "question_reports db' = question_reports db"
  using assms unfolding quiz_tables_def prod.inject
  by (elim conjE; simp add: links_of_def states_of_def drafts_of_def fun_eq_iff)+

lemma quiz_ok_tables:
  assumes "quiz_tables db' = quiz_tables db"
  shows "quiz_ok db' = quiz_ok db"
  unfolding quiz_ok_def day_ok_def same_tables [OF assms] by (rule refl)

lemma core_ok_tables:
  assumes "quiz_tables db' = quiz_tables db"
  shows "core_ok db' = core_ok db"
  unfolding core_ok_def active_members_def members_of_def same_tables [OF assms] by (rule refl)

lemma day_content_tables:
  assumes "quiz_tables db' = quiz_tables db"
  shows "day_content db' = day_content db"
  unfolding day_content_def fun_eq_iff same_tables [OF assms] by (intro allI refl)

lemma quiz_tables_activity [simp]: "quiz_tables (record_activity db c) = quiz_tables db"
  using record_activity_frame [of db c] by (auto simp: quiz_tables_def)

lemma quiz_tables_alerts: "only_alerts db db' \<Longrightarrow> quiz_tables db' = quiz_tables db"
  by (auto simp: only_alerts_def quiz_tables_def)

lemma quiz_tables_delete_events [simp]: "quiz_tables (delete_events p db) = quiz_tables db"
  by (simp add: delete_events_def quiz_tables_def Let_def)

lemma quiz_tables_quiz_event:
  "enqueue_quiz_event db now i k q d r a kind = Inr (db', x) \<Longrightarrow> quiz_tables db' = quiz_tables db"
  unfolding enqueue_quiz_event_def by (rule quiz_tables_alerts) (rule only_alerts_partner)

lemma quiz_tables_finish_alerts:
  assumes "finish_alerts db d a now i = Inr (db', r)"
  shows "quiz_tables db' = quiz_tables db"
  using assms unfolding finish_alerts_def
  by (auto simp: bind_exc_Inr_iff split: option.splits if_splits dest!: quiz_tables_quiz_event)

text \<open>Recording an operation writes its own table only.\<close>

lemma record_quiz_operation_Inr:
  "record_quiz_operation db k a op' act d now = Inr db' \<Longrightarrow> \<exists>rows. db' = db\<lparr>quiz_operations := rows\<rparr>"
  by (auto simp: record_quiz_operation_def bind_exc_Inr_iff)

lemma quiz_ok_operations [simp]:
  "quiz_ok (db\<lparr>quiz_operations := rows\<rparr>) = quiz_ok db" "core_ok (db\<lparr>quiz_operations := rows\<rparr>) = core_ok db"
  "day_content (db\<lparr>quiz_operations := rows\<rparr>) = day_content db"
  by (simp_all add: quiz_ok_def day_ok_def links_of_def states_of_def drafts_of_def core_ok_def active_members_def
      members_of_def day_content_def fun_eq_iff)

section \<open>Changing one day\<close>

lemma quiz_okD:
  assumes "quiz_ok db"
  shows "distinct (map qd_id (quiz_days db))" "distinct (map day_slot (quiz_days db))" "distinct (map qn_id (questions db))"
    "d \<in> set (quiz_days db) \<Longrightarrow> day_ok db d"
  using assms by (simp_all add: quiz_ok_def)

lemma quiz_ok_known:
  assumes "quiz_ok db"
  shows "l \<in> set (quiz_day_questions db) \<Longrightarrow> ql_quiz_day_id l \<in> qd_id ` set (quiz_days db)"
    "s \<in> set (quiz_day_members db) \<Longrightarrow> qm_quiz_day_id s \<in> qd_id ` set (quiz_days db)"
    "f \<in> set (quiz_drafts db) \<Longrightarrow> qf_quiz_day_id f \<in> qd_id ` set (quiz_days db)"
  using assms by (auto simp: quiz_ok_def)

lemma rows_of_days:
  "(ql_quiz_day_id ` set (quiz_day_questions db) \<subseteq> A \<and> qm_quiz_day_id ` set (quiz_day_members db) \<subseteq> A
    \<and> qf_quiz_day_id ` set (quiz_drafts db) \<subseteq> A) \<longleftrightarrow> (\<forall>i. i \<notin> A \<longrightarrow> day_content db i = ([], [], []))"
  by (auto simp: day_content_def links_of_def states_of_def drafts_of_def filter_empty_conv)

lemma quiz_ok_by_content:
  "quiz_ok db \<longleftrightarrow> distinct (map qd_id (quiz_days db)) \<and> distinct (map day_slot (quiz_days db))
     \<and> distinct (map qn_id (questions db))
     \<and> (\<forall>i. i \<notin> qd_id ` set (quiz_days db) \<longrightarrow> day_content db i = ([], [], []))
     \<and> (\<forall>d \<in> set (quiz_days db). day_ok db d)"
  unfolding quiz_ok_def rows_of_days [symmetric] by blast

lemma same_day:
  "distinct (map qd_id days) \<Longrightarrow> d \<in> set days \<Longrightarrow> e \<in> set days \<Longrightarrow> qd_id d = qd_id e \<Longrightarrow> d = e"
  by (meson distinct_map inj_onD)

text \<open>A step that touches the rows of one day and that day's row, and may add questions.\<close>

lemma quiz_ok_one_day:
  assumes ok: "quiz_ok db" and d: "d \<in> set (quiz_days db)"
    and days: "quiz_days db' = update_where (\<lambda>x. qd_id x = qd_id d) f (quiz_days db)"
    and f: "\<And>x. qd_id (f x) = qd_id x" "\<And>x. day_slot (f x) = day_slot x"
    and others: "\<And>i. i \<noteq> qd_id d \<Longrightarrow> day_content db' i = day_content db i"
    and qs: "qn_id ` set (questions db) \<subseteq> qn_id ` set (questions db')" "distinct (map qn_id (questions db'))"
    and ok': "day_ok db' (f d)"
  shows "quiz_ok db'"
proof -
  have ids: "map qd_id (quiz_days db') = map qd_id (quiz_days db)" "map day_slot (quiz_days db') = map day_slot (quiz_days db)"
    unfolding days by (rule map_update_where; simp add: f)+
  then have set_ids: "qd_id ` set (quiz_days db') = qd_id ` set (quiz_days db)" by (metis list.set_map)
  have "day_ok db' e" if e: "e \<in> set (quiz_days db')" for e
  proof (cases "qd_id e = qd_id d")
    case True
    with e have "e \<in> f ` {x \<in> set (quiz_days db). qd_id x = qd_id d}"
      unfolding days set_update_where by auto
    then have "e = f d" using same_day [OF quiz_okD(1) [OF ok] _ d] by auto
    with ok' show ?thesis by simp
  next
    case False
    then have "e \<in> set (quiz_days db)" using e f(1) unfolding days set_update_where by auto
    then have "day_ok db e" using quiz_okD(4) [OF ok] by blast
    then show ?thesis by (rule day_ok_content [OF others [OF False] qs(1) refl])
  qed
  moreover have "day_content db' i = ([], [], [])" if "i \<notin> qd_id ` set (quiz_days db')" for i
    using that others [of i] d ok by (auto simp: set_ids quiz_ok_by_content)
  ultimately show ?thesis using ok qs(2) unfolding quiz_ok_by_content ids by blast
qed

lemma find_day_Some: "find_day db i = Some d \<Longrightarrow> d \<in> set (quiz_days db) \<and> qd_id d = i"
  by (auto simp: find_day_def dest: scalar_Some)

lemma quiz_days_bump [simp]:
  "quiz_days (bump_day db i r) = update_where (\<lambda>d. qd_id d = i)
     (\<lambda>d. d\<lparr>qd_revision := qd_revision d + 1, qd_revealed_at := (case r of None \<Rightarrow> qd_revealed_at d | Some t \<Rightarrow> Some t)\<rparr>) (quiz_days db)"
  by (simp add: bump_day_def)

lemma bump_day_simps [simp]:
  "day_content (bump_day db i r) = day_content db" "questions (bump_day db i r) = questions db"
  "members (bump_day db i r) = members db" "couples (bump_day db i r) = couples db" "accounts (bump_day db i r) = accounts db"
  "quiz_day_questions (bump_day db i r) = quiz_day_questions db" "quiz_day_members (bump_day db i r) = quiz_day_members db"
  "quiz_drafts (bump_day db i r) = quiz_drafts db" "quiz_operations (bump_day db i r) = quiz_operations db"
  by (simp_all add: bump_day_def day_content_def links_of_def states_of_def drafts_of_def fun_eq_iff)

lemma rows_of_bump [simp]:
  "links_of (bump_day db i r) = links_of db" "states_of (bump_day db i r) = states_of db"
  "drafts_of (bump_day db i r) = drafts_of db"
  by (simp_all add: bump_day_def links_of_def states_of_def drafts_of_def fun_eq_iff)

lemma rows_of_operations [simp]:
  "links_of (db\<lparr>quiz_operations := rows\<rparr>) = links_of db" "states_of (db\<lparr>quiz_operations := rows\<rparr>) = states_of db"
  "drafts_of (db\<lparr>quiz_operations := rows\<rparr>) = drafts_of db"
  by (simp_all add: links_of_def states_of_def drafts_of_def fun_eq_iff)

lemma set_completed_simps [simp]:
  "questions (set_completed db i p t) = questions db" "quiz_days (set_completed db i p t) = quiz_days db"
  "members (set_completed db i p t) = members db" "couples (set_completed db i p t) = couples db"
  "accounts (set_completed db i p t) = accounts db" "quiz_operations (set_completed db i p t) = quiz_operations db"
  "quiz_day_questions (set_completed db i p t) = quiz_day_questions db" "quiz_drafts (set_completed db i p t) = quiz_drafts db"
  "links_of (set_completed db i p t) = links_of db" "drafts_of (set_completed db i p t) = drafts_of db"
  by (simp_all add: set_completed_def links_of_def drafts_of_def fun_eq_iff)

lemma filter_update_where:
  "(\<And>r. p r \<Longrightarrow> q (f r) = q r) \<Longrightarrow> filter q (update_where p f rows) = update_where p f (filter q rows)"
  by (induction rows) (auto simp: update_where_def)

lemma states_of_set_completed:
  "states_of (set_completed db i p t) j
     = (if j = i then update_where (\<lambda>s. p (qm_account_id s)) (\<lambda>s. s\<lparr>qm_completed_at := t\<rparr>) (states_of db j) else states_of db j)"
proof -
  have "states_of (set_completed db i p t) j = update_where (\<lambda>s. qm_quiz_day_id s = i \<and> p (qm_account_id s))
      (\<lambda>s. s\<lparr>qm_completed_at := t\<rparr>) (states_of db j)"
    unfolding states_of_def set_completed_def by (simp add: filter_update_where)
  also have "\<dots> = (if j = i then update_where (\<lambda>s. p (qm_account_id s)) (\<lambda>s. s\<lparr>qm_completed_at := t\<rparr>) (states_of db j) else states_of db j)"
    by (auto simp: update_where_def states_of_def intro!: map_cong map_idI)
  finally show ?thesis .
qed

lemma accounts_of_states [simp]:
  "map qm_account_id (update_where p (\<lambda>s. s\<lparr>qm_completed_at := t\<rparr>) ss) = map qm_account_id ss"
  by (rule map_update_where) simp

section \<open>Drafts, finishing, reopening\<close>

definition fk :: "quiz_draft \<Rightarrow> uuid \<times> uuid" where
  "fk f = (qf_question_id f, qf_account_id f)"

lemma answers_by_key: "length (filter (\<lambda>f. qf_account_id f = a) fs) = length (filter (\<lambda>k. snd k = a) (map fk fs))"
  by (simp add: filter_map comp_def fk_def)

text \<open>\<open>day_ok\<close> reads of the drafts only which question and member they belong to.\<close>

lemma day_ok_keys:
  "day_ok db d \<longleftrightarrow>
     (let ls = links_of db (qd_id d); ss = states_of db (qd_id d); ks = map fk (drafts_of db (qd_id d)) in
      length ls = 5 \<and> distinct (map ql_question_id ls) \<and> ql_question_id ` set ls \<subseteq> qn_id ` set (questions db)
      \<and> length ss = 2 \<and> distinct (map qm_account_id ss) \<and> distinct ks
      \<and> (\<forall>k \<in> set ks. fst k \<in> ql_question_id ` set ls \<and> snd k \<in> qm_account_id ` set ss)
      \<and> (\<forall>s \<in> set ss. qm_completed_at s \<noteq> None \<longrightarrow> length (filter (\<lambda>k. snd k = qm_account_id s) ks) = 5)
      \<and> (qd_revealed_at d \<noteq> None \<longleftrightarrow> (\<forall>s \<in> set ss. qm_completed_at s \<noteq> None)))"
proof -
  have eq: "(\<lambda>f. (qf_question_id f, qf_account_id f)) = fk" by (simp add: fun_eq_iff fk_def)
  show ?thesis unfolding day_ok_def Let_def eq answers_by_key by (simp only: set_map ball_simps fk_def fst_conv snd_conv)
qed

lemma write_draft_Inr:
  assumes "write_draft db i q a answer n now = Inr db'"
  shows "\<exists>fs. db' = db\<lparr>quiz_drafts := fs\<rparr>"
    and "j \<noteq> i \<Longrightarrow> drafts_of db' j = drafts_of db j"
    and "map fk (drafts_of db' i) = map fk (drafts_of db i) @ (if (q, a) \<in> set (map fk (drafts_of db i)) then [] else [(q, a)])"
proof -
  let ?mine = "\<lambda>f. draft_key f = (i, q, a)"
  let ?new = "\<lparr>qf_quiz_day_id = i, qf_question_id = q, qf_account_id = a, qf_answer = answer, qf_revision = 1, qf_updated_at = now\<rparr>"
  let ?up = "\<lambda>f. f\<lparr>qf_answer := answer, qf_revision := qf_revision f + 1, qf_updated_at := now\<rparr>"
  have db': "db' = db\<lparr>quiz_drafts := (if scalar ?mine (quiz_drafts db) = None then quiz_drafts db @ [?new]
      else update_where ?mine ?up (quiz_drafts db))\<rparr>"
    using assms by (simp add: write_draft_def Let_def bind_exc_Inr_iff)
  then show "\<exists>fs. db' = db\<lparr>quiz_drafts := fs\<rparr>" by blast
  have present: "(q, a) \<in> set (map fk (drafts_of db i)) \<longleftrightarrow> scalar ?mine (quiz_drafts db) \<noteq> None"
    by (auto simp: scalar_None drafts_of_def draft_key_def fk_def)
  have up: "filter (\<lambda>f. qf_quiz_day_id f = j) (update_where ?mine ?up fs)
      = update_where ?mine ?up (filter (\<lambda>f. qf_quiz_day_id f = j) fs)" for j fs
    by (rule filter_update_where) simp
  show "map fk (drafts_of db' i) = map fk (drafts_of db i) @ (if (q, a) \<in> set (map fk (drafts_of db i)) then [] else [(q, a)])"
  proof (cases "scalar ?mine (quiz_drafts db) = None")
    case True
    with present show ?thesis by (simp add: db' drafts_of_def fk_def)
  next
    case False
    then have "db' = db\<lparr>quiz_drafts := update_where ?mine ?up (quiz_drafts db)\<rparr>" unfolding db' by (rule if_not_P [THEN arg_cong])
    then have "drafts_of db' i = update_where ?mine ?up (drafts_of db i)" by (simp add: drafts_of_def up [simplified])
    moreover have "map fk (update_where ?mine ?up fs) = map fk fs" for fs
      by (rule map_update_where) (simp add: fk_def)
    ultimately show ?thesis using False present by simp
  qed
  assume j: "j \<noteq> i"
  show "drafts_of db' j = drafts_of db j"
  proof (cases "scalar ?mine (quiz_drafts db) = None")
    case True
    with j show ?thesis by (simp add: db' drafts_of_def)
  next
    case False
    then have "db' = db\<lparr>quiz_drafts := update_where ?mine ?up (quiz_drafts db)\<rparr>" unfolding db' by (rule if_not_P [THEN arg_cong])
    then have "drafts_of db' j = update_where ?mine ?up (drafts_of db j)" by (simp add: drafts_of_def up [simplified])
    also have "\<dots> = drafts_of db j"
      using j by (intro update_where_none) (auto simp: drafts_of_def draft_key_def)
    finally show ?thesis .
  qed
qed

lemma require_editable_member_Inr:
  assumes "require_editable_member db d a allow now = Inr s"
  shows "qd_revealed_at d = None" "s \<in> set (states_of db (qd_id d))" "qm_account_id s = a"
    "\<not> allow \<Longrightarrow> qm_completed_at s = None"
  using assms
  by (auto simp: require_editable_member_def bind_exc_Inr_iff guard_def dest!: scalar_Some split: option.splits if_splits)

lemma save_draft_cases:
  assumes "save_draft db d a q op' n answer now = Inr db'"
  obtains "db' = db" | s db1 rows where "require_editable_member db d a False now = Inr s"
    "q \<in> ql_question_id ` set (links_of db (qd_id d))" "write_draft db (qd_id d) q a answer n now = Inr db1"
    "db' = (bump_day db1 (qd_id d) None)\<lparr>quiz_operations := rows\<rparr>"
proof (cases "operation_exists db (qd_couple_id d) a op'")
  case True
  with assms that(1) show ?thesis by (simp add: save_draft_def)
next
  case False
  from assms obtain s where s: "require_editable_member db d a False now = Inr s"
    unfolding save_draft_def if_not_P [OF False] bind_exc_Inr_iff by blast
  show ?thesis
  proof (cases "if q \<in> ql_question_id ` set (links_of db (qd_id d)) then scalar (\<lambda>x. qn_id x = q) (questions db) else None")
    case None
    with assms s show ?thesis unfolding save_draft_def if_not_P [OF False] by simp
  next
    case (Some x)
    then have q: "q \<in> ql_question_id ` set (links_of db (qd_id d))" by (simp split: if_splits)
    from assms obtain answer' db1 where v: "validate_answer x answer = Inr answer'"
      and w: "write_draft db (qd_id d) q a answer' n now = Inr db1"
      and r: "record_quiz_operation (bump_day db1 (qd_id d) None) (qd_couple_id d) a op' ''draft'' (qd_quiz_date d) now = Inr db'"
      unfolding save_draft_def if_not_P [OF False] s bind_exc.simps Some option.case bind_exc_Inr_iff by blast
    have "answer' = answer" using v by (auto simp: validate_answer_def Let_def bind_exc_Inr_iff)
    with that(2) [OF s q] w record_quiz_operation_Inr [OF r] show ?thesis by blast
  qed
qed

lemma save_draft_ok:
  assumes ok: "quiz_ok db" and d: "d \<in> set (quiz_days db)"
    and r: "save_draft db d a q op' n answer now = Inr db'"
  shows "quiz_ok db'"
  using r
proof (cases rule: save_draft_cases)
  case 1
  with ok show ?thesis by simp
next
  case (2 s db1 rows)
  note w = write_draft_Inr [OF 2(3)]
  obtain fs where db1: "db1 = db\<lparr>quiz_drafts := fs\<rparr>" using w(1) by blast
  have other: "links_of db1 = links_of db" "states_of db1 = states_of db"
    by (simp_all add: db1 links_of_def states_of_def fun_eq_iff)
  note s = require_editable_member_Inr [OF 2(1)]
  have dok: "day_ok db d" using quiz_okD(4) [OF ok d] .
  have "day_ok db1 d"
  proof -
    let ?ks = "map fk (drafts_of db (qd_id d))"
    let ?ks' = "?ks @ (if (q, a) \<in> set ?ks then [] else [(q, a)])"
    have "distinct (map qm_account_id (states_of db (qd_id d)))" using dok by (simp add: day_ok_def Let_def)
    then have "t = s" if "t \<in> set (states_of db (qd_id d))" "qm_account_id t = a" for t
      using s(2,3) that by (auto simp: distinct_map inj_on_def)
    then have "length (filter (\<lambda>k. snd k = qm_account_id t) ?ks') = length (filter (\<lambda>k. snd k = qm_account_id t) ?ks)"
      if "t \<in> set (states_of db (qd_id d))" "qm_completed_at t \<noteq> None" for t
      using that s(4) by auto
    with dok 2(2) s(2,3) show ?thesis
      unfolding day_ok_keys Let_def w(3) other by (auto simp: db1)
  qed
  then have "day_ok db' (d\<lparr>qd_revision := qd_revision d + 1\<rparr>)"
    by (rule day_ok_content [rotated 3]) (simp_all add: 2(4))
  then show ?thesis
    using w(2) by (intro quiz_ok_one_day [OF ok d, where f = "\<lambda>d. d\<lparr>qd_revision := qd_revision d + 1\<rparr>"])
      (simp_all add: 2(4) db1 day_slot_def day_content_def other [unfolded db1] quiz_okD(3) [OF ok])
qed

lemma finish_day_cases:
  assumes "finish_day db d a op' n now = Inr db'"
  obtains "db' = db" | s rows reveal where "require_editable_member db d a False now = Inr s" "qd_revision d = n"
    "length (filter (\<lambda>f. qf_account_id f = a) (drafts_of db (qd_id d))) = 5"
    "reveal = (if \<forall>s \<in> set (states_of db (qd_id d)). qm_account_id s \<noteq> a \<longrightarrow> qm_completed_at s \<noteq> None then Some now else None)"
    "db' = (bump_day (set_completed db (qd_id d) (\<lambda>x. x = a) (Some now)) (qd_id d) reveal)\<lparr>quiz_operations := rows\<rparr>"
proof (cases "operation_exists db (qd_couple_id d) a op'")
  case True
  with assms that(1) show ?thesis by (simp add: finish_day_def)
next
  case False
  let ?db = "set_completed db (qd_id d) (\<lambda>x. x = a) (Some now)"
  let ?reveal = "if length (filter (\<lambda>s. qm_completed_at s = None) (states_of ?db (qd_id d))) = 0 then Some now else None"
  from assms obtain s where s: "require_editable_member db d a False now = Inr s" "qd_revision d = n"
    "length (filter (\<lambda>f. qf_account_id f = a) (drafts_of db (qd_id d))) = 5"
    and r: "record_quiz_operation (bump_day ?db (qd_id d) ?reveal) (qd_couple_id d) a op' ''finish'' (qd_quiz_date d) now = Inr db'"
    unfolding finish_day_def if_not_P [OF False] Let_def
    by (auto simp: bind_exc_Inr_iff require_day_revision_def guard_def split: if_splits)
  have "?reveal = (if \<forall>s \<in> set (states_of db (qd_id d)). qm_account_id s \<noteq> a \<longrightarrow> qm_completed_at s \<noteq> None then Some now else None)"
    unfolding states_of_set_completed by (auto simp: filter_empty_conv update_where_def)
  with that(2) [OF s] record_quiz_operation_Inr [OF r] show ?thesis by blast
qed

lemma reopen_day_cases:
  assumes "reopen_day db d a op' n now = Inr db'"
  obtains "db' = db" | s rows where "require_editable_member db d a True now = Inr s" "qd_revision d = n"
    "db' = (bump_day (set_completed db (qd_id d) (\<lambda>x. x = a) None) (qd_id d) None)\<lparr>quiz_operations := rows\<rparr>"
proof (cases "operation_exists db (qd_couple_id d) a op'")
  case True
  with assms that(1) show ?thesis by (simp add: reopen_day_def)
next
  case False
  from assms obtain s where s: "require_editable_member db d a True now = Inr s" "qd_revision d = n"
    and r: "record_quiz_operation (bump_day (set_completed db (qd_id d) (\<lambda>x. x = a) None) (qd_id d) None)
      (qd_couple_id d) a op' ''reopen'' (qd_quiz_date d) now = Inr db'"
    unfolding reopen_day_def if_not_P [OF False]
    by (auto simp: bind_exc_Inr_iff require_day_revision_def guard_def split: if_splits)
  with that(2) [OF s] record_quiz_operation_Inr [OF r] show ?thesis by blast
qed

text \<open>Setting finish markers of a day, with the reveal that goes with them.\<close>

lemma set_completed_ok:
  assumes ok: "quiz_ok db" and d: "d \<in> set (quiz_days db)"
    and t: "t \<noteq> None \<Longrightarrow> \<forall>s \<in> set (states_of db (qd_id d)). p (qm_account_id s) \<longrightarrow>
        length (filter (\<lambda>f. qf_account_id f = qm_account_id s) (drafts_of db (qd_id d))) = 5"
    and reveal: "(reveal \<noteq> None \<or> qd_revealed_at d \<noteq> None)
      = (\<forall>s \<in> set (states_of db (qd_id d)). (if p (qm_account_id s) then t else qm_completed_at s) \<noteq> None)"
    and db': "db' = (bump_day (set_completed db (qd_id d) p t) (qd_id d) reveal)\<lparr>quiz_operations := rows\<rparr>"
  shows "quiz_ok db'"
proof -
  let ?f = "\<lambda>d. d\<lparr>qd_revision := qd_revision d + 1, qd_revealed_at := (case reveal of None \<Rightarrow> qd_revealed_at d | Some t \<Rightarrow> Some t)\<rparr>"
  let ?ss = "update_where (\<lambda>s. p (qm_account_id s)) (\<lambda>s. s\<lparr>qm_completed_at := t\<rparr>) (states_of db (qd_id d))"
  have dok: "day_ok db d" using quiz_okD(4) [OF ok d] .
  have tables: "links_of db' = links_of db" "drafts_of db' = drafts_of db" "states_of db' (qd_id d) = ?ss" "questions db' = questions db"
    by (simp_all add: db' states_of_set_completed)
  have "(\<forall>s \<in> set ?ss. qm_completed_at s \<noteq> None)
      = (\<forall>s \<in> set (states_of db (qd_id d)). (if p (qm_account_id s) then t else qm_completed_at s) \<noteq> None)"
    unfolding update_where_def set_map ball_simps by (intro ball_cong) auto
  moreover have "(qd_revealed_at (?f d) \<noteq> None) = (reveal \<noteq> None \<or> qd_revealed_at d \<noteq> None)"
    by (cases reveal) simp_all
  ultimately have "(qd_revealed_at (?f d) \<noteq> None) = (\<forall>s \<in> set ?ss. qm_completed_at s \<noteq> None)"
    using reveal by (simp only:)
  moreover have "\<forall>s \<in> set ?ss. qm_completed_at s \<noteq> None \<longrightarrow>
      length (filter (\<lambda>f. qf_account_id f = qm_account_id s) (drafts_of db (qd_id d))) = 5"
    using dok t by (auto simp: update_where_def day_ok_def Let_def)
  moreover have "qm_account_id ` set ?ss = qm_account_id ` set (states_of db (qd_id d))" by (metis accounts_of_states list.set_map)
  moreover have "length ?ss = length (states_of db (qd_id d))" by (simp add: update_where_def)
  ultimately have "day_ok db' (?f d)"
    using dok unfolding day_ok_def Let_def by (simp add: tables)
  then show ?thesis
    by (intro quiz_ok_one_day [OF ok d, where f = ?f])
      (simp_all add: db' day_slot_def day_content_def states_of_set_completed quiz_okD(3) [OF ok])
qed

lemma finish_day_ok:
  assumes ok: "quiz_ok db" and d: "d \<in> set (quiz_days db)" and r: "finish_day db d a op' n now = Inr db'"
  shows "quiz_ok db'"
  using r
proof (cases rule: finish_day_cases)
  case 1
  with ok show ?thesis by simp
next
  case (2 s rows reveal)
  note s = require_editable_member_Inr [OF 2(1)]
  show ?thesis
    by (rule set_completed_ok [OF ok d _ _ 2(5)]) (use 2(3,4) s(1) in auto)
qed

lemma reopen_day_ok:
  assumes ok: "quiz_ok db" and d: "d \<in> set (quiz_days db)" and r: "reopen_day db d a op' n now = Inr db'"
  shows "quiz_ok db'"
  using r
proof (cases rule: reopen_day_cases)
  case 1
  with ok show ?thesis by simp
next
  case (2 s rows)
  note s = require_editable_member_Inr [OF 2(1)]
  show ?thesis
    by (rule set_completed_ok [OF ok d _ _ 2(3)]) (use s(1-3) in auto)
qed

section \<open>Materializing a day\<close>

lemma distinct_ids_chosen:
  "distinct (map qn_id qs) \<Longrightarrow> distinct (map qn_id (take n (sort_key k (select p qs))))"
  "set (take n (sort_key k (select p qs))) \<subseteq> {q \<in> set qs. p q}"
proof -
  show "set (take n (sort_key k (select p qs))) \<subseteq> {q \<in> set qs. p q}"
    by (auto simp: select_def dest!: in_set_takeD)
  assume "distinct (map qn_id qs)"
  then have "distinct (map qn_id (select p qs))" by (simp add: select_def distinct_map_filter)
  then have "distinct (map qn_id (sort_key k (select p qs)))"
    by (metis mset_map mset_sort mset_eq_imp_distinct_iff)
  then show "distinct (map qn_id (take n (sort_key k (select p qs))))" by (simp add: take_map [symmetric] del: take_map)
qed

lemma questions_for_day_Inr:
  assumes "questions_for_day db k d = Inr qs" "distinct (map qn_id (questions db))"
  shows "distinct (map qn_id qs)" "set qs \<subseteq> set (questions db)"
    "q \<in> set qs \<Longrightarrow> qn_intimacy q \<Longrightarrow> both_members_consent db k ''intimacy_enabled'' = Inr True"
proof -
  from assms(1) obtain b where b: "both_members_consent db k ''intimacy_enabled'' = Inr b"
    by (auto simp: questions_for_day_def bind_exc_Inr_iff)
  define custom where "custom = due_custom_questions db k d b"
  define remaining where "remaining = 5 - length custom"
  define intimate where "intimate = (if remaining \<noteq> 0 \<and> b
    then (case scalar_by qn_id (global_question d True) (questions db) of None \<Rightarrow> [] | Some q \<Rightarrow> [q]) else [])"
  define general where "general = take (remaining - length intimate)
    (sort_key display_key (select (global_question d False) (questions db)))"
  have qs: "qs = custom @ general @ intimate"
    using assms(1) unfolding questions_for_day_def b bind_exc.simps Let_def custom_def [symmetric]
      remaining_def [symmetric] intimate_def [symmetric] general_def [symmetric] by simp
  have c: "distinct (map qn_id custom)" "set custom \<subseteq> {q \<in> set (questions db). qn_couple_id q = Some k \<and> (b \<or> \<not> qn_intimacy q)}"
    unfolding custom_def due_custom_questions_def
    by (rule distinct_ids_chosen(1) [OF assms(2)], rule order_trans [OF distinct_ids_chosen(2)]) auto
  have g: "distinct (map qn_id general)" "set general \<subseteq> {q \<in> set (questions db). global_question d False q}"
    unfolding general_def using distinct_ids_chosen(1) [OF assms(2)] distinct_ids_chosen(2) by blast+
  have i: "distinct (map qn_id intimate) \<and> set intimate \<subseteq> {q \<in> set (questions db). global_question d True q \<and> b}"
  proof (cases "scalar_by qn_id (global_question d True) (questions db)")
    case None
    show ?thesis unfolding intimate_def None option.case by simp
  next
    case (Some q)
    show ?thesis unfolding intimate_def Some option.case using scalar_by_Some(1,2) [OF Some] by simp
  qed
  have inj: "inj_on qn_id (set (questions db))" using assms(2) by (simp add: distinct_map)
  show "set qs \<subseteq> set (questions db)" unfolding qs using c(2) g(2) i by auto
  have apart: "qn_id ` A \<inter> qn_id ` B = {}"
    if "A \<subseteq> set (questions db)" "B \<subseteq> set (questions db)" "\<forall>x \<in> A. \<forall>y \<in> B. x \<noteq> y" for A B
    using that inj by (auto simp: inj_on_def) blast
  have "qn_id ` set custom \<inter> qn_id ` set general = {}" "qn_id ` set custom \<inter> qn_id ` set intimate = {}"
    "qn_id ` set general \<inter> qn_id ` set intimate = {}"
    by (rule apart; use c(2) g(2) i in \<open>force simp: global_question_def\<close>)+
  then show "distinct (map qn_id qs)" unfolding qs using c(1) g(1) i by auto
  assume "q \<in> set qs" "qn_intimacy q"
  then have b using c(2) g(2) i by (auto simp: qs global_question_def)
  with b show "both_members_consent db k ''intimacy_enabled'' = Inr True" by simp
qed

lemma insert_day_Inr:
  assumes "insert_day db d qs = Inr db'"
  defines "pair \<equiv> filter (\<lambda>m. mem_couple_id m = qd_couple_id d \<and> is_active m) (members db)"
  shows "qd_id d \<notin> qd_id ` set (quiz_days db)" "day_slot d \<notin> day_slot ` set (quiz_days db)" "length pair = 2"
    "db' = db\<lparr>quiz_days := quiz_days db @ [d],
      quiz_day_members := quiz_day_members db
        @ map (\<lambda>m. \<lparr>qm_quiz_day_id = qd_id d, qm_account_id = mem_account_id m, qm_completed_at = None\<rparr>) pair,
      quiz_day_questions := quiz_day_questions db
        @ map (\<lambda>(i, q). \<lparr>ql_quiz_day_id = qd_id d, ql_question_id = qn_id q, ql_position = i\<rparr>) (zip [1..<Suc (length qs)] qs)\<rparr>"
  using assms(1)
  by (auto simp: insert_day_def bind_exc_Inr_iff insert_unique_Inr guard_def Let_def pair_def select_def split: if_splits)

lemma links_of_new_day:
  assumes "insert_day db d qs = Inr db'" "quiz_ok db"
  shows "map ql_question_id (links_of db' (qd_id d)) = map qn_id qs" "drafts_of db' (qd_id d) = []"
    "states_of db' (qd_id d) = map (\<lambda>m. \<lparr>qm_quiz_day_id = qd_id d, qm_account_id = mem_account_id m, qm_completed_at = None\<rparr>)
        (filter (\<lambda>m. mem_couple_id m = qd_couple_id d \<and> is_active m) (members db))"
    "i \<noteq> qd_id d \<Longrightarrow> day_content db' i = day_content db i"
proof -
  note i = insert_day_Inr [OF assms(1)]
  from i(1) assms(2) have none: "day_content db (qd_id d) = ([], [], [])" by (simp add: quiz_ok_by_content)
  have "map (ql_question_id \<circ> (\<lambda>(i, q). \<lparr>ql_quiz_day_id = qd_id d, ql_question_id = qn_id q, ql_position = i\<rparr>))
      (zip [1..<Suc (length qs)] qs) = map (qn_id \<circ> snd) (zip [1..<Suc (length qs)] qs)" by (auto simp: comp_def)
  also have "\<dots> = map qn_id (map snd (zip [1..<Suc (length qs)] qs))" by (simp only: map_map)
  also have "\<dots> = map qn_id qs" by (simp only: map_snd_zip length_upt diff_Suc_1)
  finally show "map ql_question_id (links_of db' (qd_id d)) = map qn_id qs"
    using none by (simp add: i(4) links_of_def day_content_def filter_map comp_def split_beta)
  show "drafts_of db' (qd_id d) = []" using none by (simp add: i(4) drafts_of_def day_content_def)
  show "states_of db' (qd_id d) = map (\<lambda>m. \<lparr>qm_quiz_day_id = qd_id d, qm_account_id = mem_account_id m, qm_completed_at = None\<rparr>)
        (filter (\<lambda>m. mem_couple_id m = qd_couple_id d \<and> is_active m) (members db))"
    using none by (simp add: i(4) states_of_def day_content_def filter_map comp_def)
  assume "i \<noteq> qd_id d"
  then show "day_content db' i = day_content db i"
    by (simp add: i(4) day_content_def links_of_def states_of_def drafts_of_def filter_map comp_def split_beta)
qed

lemma insert_day_ok:
  assumes ok: "quiz_ok db" "core_ok db" and r: "insert_day db d qs = Inr db'"
    and qs: "length qs = 5" "distinct (map qn_id qs)" "set qs \<subseteq> set (questions db)" and new: "qd_revealed_at d = None"
  shows "quiz_ok db'"
proof -
  note i = insert_day_Inr [OF r] and l = links_of_new_day [OF r ok(1)]
  let ?pair = "filter (\<lambda>m. mem_couple_id m = qd_couple_id d \<and> is_active m) (members db)"
  have tables: "quiz_days db' = quiz_days db @ [d]" "questions db' = questions db" by (simp_all add: i(4))
  have "distinct (map mem_account_id ?pair)"
  proof -
    have "?pair = filter (\<lambda>m. mem_couple_id m = qd_couple_id d) (active_members db)"
      by (simp add: active_members_def conj_commute)
    then show ?thesis using ok(2) by (simp add: core_ok_def distinct_map_filter)
  qed
  moreover have "\<exists>m. m \<in> set ?pair" using i(3) by (metis length_0_conv list.set_intros(1) neq_Nil_conv zero_neq_numeral)
  moreover have "length (links_of db' (qd_id d)) = 5" using l(1) qs(1) by (metis length_map)
  moreover have "ql_question_id ` set (links_of db' (qd_id d)) = qn_id ` set qs" using l(1) by (metis list.set_map)
  ultimately have "day_ok db' d"
    using i(3) new qs unfolding day_ok_def Let_def l(1-3) by (auto simp: tables comp_def)
  moreover have "day_ok db' e" if "e \<in> set (quiz_days db)" for e
  proof (rule day_ok_content [OF l(4) _ refl quiz_okD(4) [OF ok(1) that]])
    show "qd_id e \<noteq> qd_id d" using that i(1) by (metis imageI)
  qed (simp add: tables)
  moreover have "day_content db' j = ([], [], [])" if "j \<notin> qd_id ` set (quiz_days db')" for j
    using that l(4) [of j] ok(1) by (auto simp: tables quiz_ok_by_content)
  ultimately show ?thesis using ok(1) i(1,2) by (auto simp: quiz_ok_by_content tables)
qed

lemma materialize_day_cases:
  assumes "materialize_day db m date now fresh = Inr (db', d)"
  obtains (old) "db' = db" "d \<in> set (quiz_days db)" "qd_couple_id d = mem_couple_id m" "qd_quiz_date d = date"
  | (new) qs where "insert_day db d qs = Inr db'" "questions_for_day db (mem_couple_id m) date = Inr qs" "length qs = 5"
      "d = \<lparr>qd_id = fresh, qd_couple_id = mem_couple_id m, qd_quiz_date = date, qd_revision = 0, qd_revealed_at = None, qd_created_at = now\<rparr>"
      "\<And>e. e \<in> set (quiz_days db) \<Longrightarrow> day_slot e \<noteq> (mem_couple_id m, date)"
proof (cases "scalar (\<lambda>d. qd_couple_id d = mem_couple_id m \<and> qd_quiz_date d = date) (quiz_days db)")
  case (Some e)
  with assms have "db' = db" "d = e" by (auto simp: materialize_day_def bind_exc_Inr_iff)
  with scalar_Some [OF Some] old show ?thesis by blast
next
  case None
  with assms obtain qs where "questions_for_day db (mem_couple_id m) date = Inr qs" "length qs = 5"
    "d = \<lparr>qd_id = fresh, qd_couple_id = mem_couple_id m, qd_quiz_date = date, qd_revision = 0, qd_revealed_at = None, qd_created_at = now\<rparr>"
    "insert_day db d qs = Inr db'"
    by (auto simp: materialize_day_def bind_exc_Inr_iff guard_def Let_def split: if_splits)
  moreover have "\<And>e. e \<in> set (quiz_days db) \<Longrightarrow> day_slot e \<noteq> (mem_couple_id m, date)"
    using None by (auto simp: scalar_None day_slot_def)
  ultimately show ?thesis using new by blast
qed

lemma insert_day_core [simp]:
  assumes "insert_day db d qs = Inr db'"
  shows "core_ok db' = core_ok db" "members db' = members db" "couples db' = couples db" "questions db' = questions db"
    "d \<in> set (quiz_days db')" "set (quiz_days db) \<subseteq> set (quiz_days db')"
  using insert_day_Inr(4) [OF assms] by (simp_all add: core_ok_def active_members_def members_of_def subset_insertI)

lemma materialize_day_ok:
  assumes ok: "quiz_ok db" "core_ok db" and r: "materialize_day db m date now fresh = Inr (db', d)"
  shows "quiz_ok db' \<and> core_ok db' \<and> d \<in> set (quiz_days db') \<and> qd_couple_id d = mem_couple_id m \<and> qd_quiz_date d = date"
  using r
proof (cases rule: materialize_day_cases)
  case old
  with ok show ?thesis by simp
next
  case (new qs)
  note q = questions_for_day_Inr [OF new(2) quiz_okD(3) [OF ok(1)]]
  have "quiz_ok db'" by (rule insert_day_ok [OF ok new(1,3) q(1,2)]) (simp add: new(4))
  moreover have "d \<in> set (quiz_days db')" by (rule insert_day_core(5) [OF new(1)])
  ultimately show ?thesis using ok(2) insert_day_core(1) [OF new(1)] by (simp add: new(4))
qed

section \<open>Replacing questions\<close>

lemma swap_question_rows:
  "links_of (swap_question db i prior new) j = (if j = i
     then update_where (\<lambda>l. ql_question_id l = prior) (\<lambda>l. l\<lparr>ql_question_id := new\<rparr>) (links_of db j) else links_of db j)"
  "drafts_of (swap_question db i prior new) j = (if j = i
     then delete_where (\<lambda>f. qf_question_id f = prior) (drafts_of db j) else drafts_of db j)"
  "states_of (swap_question db i prior new) j = (if j = i
     then update_where (\<lambda>_. True) (\<lambda>s. s\<lparr>qm_completed_at := None\<rparr>) (states_of db j) else states_of db j)"
proof -
  let ?db = "db\<lparr>quiz_day_questions := update_where (\<lambda>l. ql_quiz_day_id l = i \<and> ql_question_id l = prior)
      (\<lambda>l. l\<lparr>ql_question_id := new\<rparr>) (quiz_day_questions db),
    quiz_drafts := delete_where (\<lambda>f. qf_quiz_day_id f = i \<and> qf_question_id f = prior) (quiz_drafts db)\<rparr>"
  have "links_of ?db j = update_where (\<lambda>l. ql_quiz_day_id l = i \<and> ql_question_id l = prior)
      (\<lambda>l. l\<lparr>ql_question_id := new\<rparr>) (links_of db j)" by (simp add: links_of_def filter_update_where)
  also have "\<dots> = (if j = i then update_where (\<lambda>l. ql_question_id l = prior) (\<lambda>l. l\<lparr>ql_question_id := new\<rparr>) (links_of db j) else links_of db j)"
    by (auto simp: update_where_def links_of_def intro!: map_cong map_idI)
  finally show "links_of (swap_question db i prior new) j = (if j = i
     then update_where (\<lambda>l. ql_question_id l = prior) (\<lambda>l. l\<lparr>ql_question_id := new\<rparr>) (links_of db j) else links_of db j)"
    by (simp add: swap_question_def)
  have "drafts_of ?db j = (if j = i then delete_where (\<lambda>f. qf_question_id f = prior) (drafts_of db j) else drafts_of db j)"
    by (auto simp: drafts_of_def delete_where_def conj_commute intro!: filter_cong)
  then show "drafts_of (swap_question db i prior new) j = (if j = i
     then delete_where (\<lambda>f. qf_question_id f = prior) (drafts_of db j) else drafts_of db j)"
    by (simp add: swap_question_def)
  have "states_of ?db = states_of db" by (simp add: states_of_def fun_eq_iff)
  then show "states_of (swap_question db i prior new) j = (if j = i
     then update_where (\<lambda>_. True) (\<lambda>s. s\<lparr>qm_completed_at := None\<rparr>) (states_of db j) else states_of db j)"
    by (simp add: swap_question_def states_of_set_completed)
qed

lemma swap_question_simps [simp]:
  "questions (swap_question db i prior new) = questions db" "members (swap_question db i prior new) = members db"
  "couples (swap_question db i prior new) = couples db" "accounts (swap_question db i prior new) = accounts db"
  "quiz_days (swap_question db i prior new)
     = update_where (\<lambda>d. qd_id d = i) (\<lambda>d. d\<lparr>qd_revision := qd_revision d + 1\<rparr>) (quiz_days db)"
  "quiz_day_questions (swap_question db i prior new)
     = update_where (\<lambda>l. ql_quiz_day_id l = i \<and> ql_question_id l = prior) (\<lambda>l. l\<lparr>ql_question_id := new\<rparr>) (quiz_day_questions db)"
  by (simp_all add: swap_question_def)

lemma core_ok_same:
  "accounts db' = accounts db \<Longrightarrow> couples db' = couples db \<Longrightarrow> members db' = members db \<Longrightarrow> core_ok db' = core_ok db"
  by (simp add: core_ok_def active_members_def members_of_def)

text \<open>Replacing one of distinct values by a new one.\<close>

lemma replace_distinct:
  assumes "distinct (map g xs)" "new \<notin> g ` set xs" "x \<in> set xs" "g x = prior" "\<And>y. g (f y) = new"
  shows "distinct (map g (update_where (\<lambda>y. g y = prior) f xs))"
    and "g ` set (update_where (\<lambda>y. g y = prior) f xs) = insert new (g ` set xs - {prior})"
proof -
  have "distinct vs \<Longrightarrow> new \<notin> set vs \<Longrightarrow> distinct (map (\<lambda>v. if v = prior then new else v) vs)" for vs
    by (induction vs) auto
  from this [of "map g xs"] have "distinct (map ((\<lambda>v. if v = prior then new else v) \<circ> g) xs)" using assms(1,2) by simp
  moreover have eq: "map g (update_where (\<lambda>y. g y = prior) f xs) = map ((\<lambda>v. if v = prior then new else v) \<circ> g) xs"
    by (simp add: update_where_def assms(5))
  ultimately show "distinct (map g (update_where (\<lambda>y. g y = prior) f xs))" by (simp only:)
  have "g ` set (update_where (\<lambda>y. g y = prior) f xs) = (\<lambda>v. if v = prior then new else v) ` g ` set xs"
    using arg_cong [OF eq, of set] by (simp only: set_map image_comp)
  also have "\<dots> = insert new (g ` set xs - {prior})" using assms(3,4) by (auto simp: image_iff)
  finally show "g ` set (update_where (\<lambda>y. g y = prior) f xs) = insert new (g ` set xs - {prior})" .
qed

lemma swap_question_ok:
  assumes ok: "quiz_ok db" and d: "d \<in> set (quiz_days db)" "qd_revealed_at d = None"
    and l: "l \<in> set (links_of db (qd_id d))"
    and new: "new \<notin> ql_question_id ` set (links_of db (qd_id d))" "new \<in> qn_id ` set (questions db)"
  shows "quiz_ok (swap_question db (qd_id d) (ql_question_id l) new)" (is "quiz_ok ?db")
proof -
  let ?f = "\<lambda>d. d\<lparr>qd_revision := qd_revision d + 1\<rparr>"
  let ?ls = "links_of db (qd_id d)" and ?ss = "states_of db (qd_id d)" and ?fs = "drafts_of db (qd_id d)"
  have dok: "day_ok db d" using quiz_okD(4) [OF ok d(1)] .
  then have "distinct (map ql_question_id ?ls)" by (simp add: day_ok_def Let_def)
  note r = replace_distinct [OF this new(1) l refl, where f = "\<lambda>l. l\<lparr>ql_question_id := new\<rparr>", simplified]
  define ls ss fs where "ls = update_where (\<lambda>x. ql_question_id x = ql_question_id l) (\<lambda>x. x\<lparr>ql_question_id := new\<rparr>) ?ls"
    and "ss = update_where (\<lambda>_. True) (\<lambda>s. s\<lparr>qm_completed_at := None\<rparr>) ?ss"
    and "fs = delete_where (\<lambda>f. qf_question_id f = ql_question_id l) ?fs"
  have rows: "links_of ?db (qd_id (?f d)) = ls" "states_of ?db (qd_id (?f d)) = ss" "drafts_of ?db (qd_id (?f d)) = fs"
    by (simp_all add: ls_def ss_def fs_def swap_question_rows)
  have ss: "length ss = 2" "distinct (map qm_account_id ss)" "qm_account_id ` set ss = qm_account_id ` set ?ss"
    "\<forall>s \<in> set ss. qm_completed_at s = None"
  proof -
    have acc: "map qm_account_id ss = map qm_account_id ?ss" unfolding ss_def by (rule accounts_of_states)
    then show "qm_account_id ` set ss = qm_account_id ` set ?ss" by (metis list.set_map)
    show "distinct (map qm_account_id ss)" using dok unfolding acc by (simp add: day_ok_def Let_def)
    show "length ss = 2" using dok by (simp add: ss_def update_where_def day_ok_def Let_def)
    show "\<forall>s \<in> set ss. qm_completed_at s = None" by (auto simp: ss_def update_where_def)
  qed
  have "ss \<noteq> []" using ss(1) by auto
  then have "\<exists>s. s \<in> set ss" by (cases ss) auto
  moreover have ls: "length ls = 5" "distinct (map ql_question_id ls)"
    "ql_question_id ` set ls = insert new (ql_question_id ` set ?ls - {ql_question_id l})"
    using dok r by (simp_all add: ls_def day_ok_def Let_def update_where_def)
  moreover have "ql_question_id ` set ls \<subseteq> qn_id ` set (questions db)"
    using dok new(2) by (auto simp: ls(3) day_ok_def Let_def)
  moreover have "\<forall>f \<in> set fs. qf_question_id f \<in> ql_question_id ` set ls \<and> qf_account_id f \<in> qm_account_id ` set ss"
    using dok by (auto simp: ls(3) ss(3) fs_def delete_where_def day_ok_def Let_def)
  moreover have "distinct (map (\<lambda>f. (qf_question_id f, qf_account_id f)) fs)"
    using dok by (simp add: fs_def day_ok_def Let_def distinct_delete_where)
  ultimately have "day_ok ?db (?f d)"
    unfolding day_ok_def Let_def rows using ss d(2) by simp
  moreover have "day_content ?db i = day_content db i" if "i \<noteq> qd_id d" for i
    using that by (simp add: day_content_def swap_question_rows)
  ultimately show ?thesis
    using quiz_okD(3) [OF ok]
    by (intro quiz_ok_one_day [OF ok d(1), where f = ?f]) (simp_all add: day_slot_def)
qed

definition intimate_question :: "'a quiz_db_scheme \<Rightarrow> uuid \<Rightarrow> bool" where
  "intimate_question db i \<longleftrightarrow> list_ex (\<lambda>q. qn_id q = i \<and> qn_intimacy q) (questions db)"

lemma insert_question_Inr:
  "insert_question q rows = Inr rows' \<Longrightarrow> qn_id q \<notin> qn_id ` set rows \<and> question_scope q \<notin> question_scope ` set rows \<and> rows' = rows @ [q]"
  by (auto simp: insert_question_def bind_exc_Inr_iff insert_unique_Inr)

lemma quiz_ok_questions:
  assumes "quiz_ok db" "distinct (map qn_id rows)" "qn_id ` set (questions db) \<subseteq> qn_id ` set rows"
  shows "quiz_ok (db\<lparr>questions := rows\<rparr>)"
proof -
  have c: "day_content (db\<lparr>questions := rows\<rparr>) = day_content db"
    by (simp add: day_content_def links_of_def states_of_def drafts_of_def fun_eq_iff)
  have "day_ok (db\<lparr>questions := rows\<rparr>) d" if "d \<in> set (quiz_days db)" for d
    by (rule day_ok_content [OF _ _ refl quiz_okD(4) [OF assms(1) that]]) (simp_all add: c assms(3))
  with assms show ?thesis by (simp add: quiz_ok_by_content c)
qed

text \<open>
  A replacement is a question that is not in the day: one that was there, or one it adds. Then nothing
  but the question table changes.
\<close>

definition replacement :: "'a quiz_db_scheme \<Rightarrow> quiz_day \<Rightarrow> bool \<Rightarrow> 'a quiz_db_scheme \<Rightarrow> question \<Rightarrow> bool" where
  "replacement db d intimate db' q \<longleftrightarrow>
     (db' = db \<and> q \<in> set (questions db) \<and> qn_id q \<notin> used_ids db (qd_id d)
      \<or> db' = db\<lparr>questions := questions db @ [q]\<rparr> \<and> qn_id q \<notin> qn_id ` set (questions db))
     \<and> qn_intimacy q = intimate"

lemma replacement_ok:
  assumes "replacement db d b db' q" "quiz_ok db" "d \<in> set (quiz_days db)"
  shows "quiz_ok db'" "members db' = members db" "couples db' = couples db" "accounts db' = accounts db"
    "day_content db' = day_content db" "quiz_days db' = quiz_days db" "quiz_day_questions db' = quiz_day_questions db"
    "qn_id q \<notin> used_ids db (qd_id d)" "q \<in> set (questions db')" "set (questions db) \<subseteq> set (questions db')"
proof -
  have "ql_question_id ` set (links_of db (qd_id d)) \<subseteq> qn_id ` set (questions db)"
    using quiz_okD(4) [OF assms(2,3)] by (simp add: day_ok_def Let_def)
  then show "qn_id q \<notin> used_ids db (qd_id d)" using assms(1) by (auto simp: replacement_def used_ids_def)
  show "quiz_ok db'"
  proof (cases "db' = db")
    case False
    with assms(1) have "db' = db\<lparr>questions := questions db @ [q]\<rparr>" "qn_id q \<notin> qn_id ` set (questions db)"
      by (simp_all add: replacement_def)
    then show ?thesis using quiz_ok_questions [OF assms(2), of "questions db @ [q]"] quiz_okD(3) [OF assms(2)] by auto
  qed (simp add: assms(2))
qed (use assms(1) in \<open>auto simp: replacement_def day_content_def links_of_def states_of_def drafts_of_def fun_eq_iff\<close>)

lemma global_replacement_Some:
  "global_replacement db d k b = Some q \<Longrightarrow> replacement db d b db q"
  by (auto simp: global_replacement_def replacement_def global_question_def dest: scalar_by_Some(1,2))

lemma bank_question_simps [simp]:
  "qn_id (bank_question u sha item fresh d k b s) = fresh" "qn_intimacy (bank_question u sha item fresh d k b s) = b"
  "question_scope (bank_question u sha item fresh d k b s) = (d, Some k, normalized_hash u sha (ca_prompt item))"
  by (simp_all add: bank_question_def question_scope_def)

lemma general_replacement_Inr:
  assumes "general_replacement u sha bank db d k fresh = Inr (db', q)"
  shows "replacement db d False db' q"
proof (cases "global_replacement db d k False")
  case (Some x)
  with assms have "db' = db" "q = x" by (simp_all add: general_replacement_def)
  with global_replacement_Some [OF Some] show ?thesis by simp
next
  case None
  with assms show ?thesis
    by (auto simp: general_replacement_def replacement_def Let_def bind_exc_Inr_iff dest!: insert_question_Inr split: option.splits)
qed

lemma curated_replacement_Inr:
  "curated_replacement u sha bank db date k b fresh = Inr (db', q) \<Longrightarrow> replacement db d b db' q"
proof (induction bank)
  case (Cons item bank)
  show ?case
  proof (cases "ca_intimacy item \<noteq> b
      \<or> scalar (\<lambda>q. question_scope q = (date, Some k, normalized_hash u sha (ca_prompt item))) (questions db) \<noteq> None")
    case True
    with Cons show ?thesis unfolding curated_replacement.simps if_P [OF True] by blast
  next
    case False
    with Cons.prems show ?thesis unfolding curated_replacement.simps if_not_P [OF False]
      by (auto simp: replacement_def Let_def bind_exc_Inr_iff dest!: insert_question_Inr)
  qed
qed simp

section \<open>Consent\<close>

definition both_consent :: "'a core_db_scheme \<Rightarrow> uuid \<Rightarrow> bool" where
  "both_consent db k \<longleftrightarrow> both_members_consent db k ''intimacy_enabled'' = Inr True"

definition couple_live :: "'a core_db_scheme \<Rightarrow> uuid \<Rightarrow> bool" where
  "couple_live db k \<longleftrightarrow> list_ex (\<lambda>c. cpl_id c = k \<and> cpl_ended_at c = None) (couples db)"

definition exposed :: "'a quiz_db_scheme \<Rightarrow> quiz_day \<Rightarrow> bool" where
  "exposed db d \<longleftrightarrow> qd_revealed_at d = None
     \<and> list_ex (\<lambda>l. intimate_question db (ql_question_id l)) (links_of db (qd_id d))"

definition consent_ok :: "'a quiz_db_scheme \<Rightarrow> bool" where
  "consent_ok db \<longleftrightarrow> (\<forall>d \<in> set (quiz_days db). couple_live db (qd_couple_id d) \<longrightarrow> exposed db d
     \<longrightarrow> both_consent db (qd_couple_id d))"

lemma both_consent_alt:
  "both_consent db k \<longleftrightarrow> length (filter mem_intimacy_enabled (members_of db k)) = 2"
  by (auto simp: both_consent_def both_members_consent_def consent_column_def select_def members_of_def active_members_def
      conj_ac)

lemma consent_cong:
  "members db' = members db \<Longrightarrow> both_consent db' k = both_consent db k"
  "couples db' = couples db \<Longrightarrow> couple_live db' k = couple_live db k"
  by (simp_all add: both_consent_def both_members_consent_def consent_column_def couple_live_def)

lemma consent_ok_step:
  assumes "consent_ok db" "members db' = members db" "couples db' = couples db"
    and "\<And>d'. d' \<in> set (quiz_days db') \<Longrightarrow> exposed db' d' \<Longrightarrow>
      both_consent db (qd_couple_id d') \<or> (\<exists>d \<in> set (quiz_days db). exposed db d \<and> qd_couple_id d = qd_couple_id d')"
  shows "consent_ok db'"
  unfolding consent_ok_def
proof (intro ballI impI)
  fix d' assume d': "d' \<in> set (quiz_days db')" "couple_live db' (qd_couple_id d')" "exposed db' d'"
  then show "both_consent db' (qd_couple_id d')"
    using assms(1,4) consent_cong(1) [OF assms(2)] consent_cong(2) [OF assms(3)] unfolding consent_ok_def by metis
qed

lemma intimate_cong: "questions db' = questions db \<Longrightarrow> intimate_question db' i = intimate_question db i"
  by (simp add: intimate_question_def)

text \<open>A step that rewrites day rows and leaves links and questions alone reveals or keeps.\<close>

lemma consent_ok_bump:
  assumes "consent_ok db" "members db' = members db" "couples db' = couples db" "questions db' = questions db"
    and "links_of db' = links_of db"
    and "quiz_days db' = update_where p f (quiz_days db)"
    and f: "\<And>d. qd_id (f d) = qd_id d" "\<And>d. qd_couple_id (f d) = qd_couple_id d" "\<And>d. qd_revealed_at (f d) = None \<Longrightarrow> qd_revealed_at d = None"
  shows "consent_ok db'"
proof (rule consent_ok_step [OF assms(1-3)], rule disjI2)
  fix d' assume "d' \<in> set (quiz_days db')" "exposed db' d'"
  then obtain d where d: "d \<in> set (quiz_days db)" "d' = d \<or> d' = f d" unfolding assms(6) set_update_where by auto
  then have "exposed db d" using \<open>exposed db' d'\<close> f by (auto simp: exposed_def assms(5) intimate_cong [OF assms(4)])
  with d f(2) show "\<exists>d \<in> set (quiz_days db). exposed db d \<and> qd_couple_id d = qd_couple_id d'" by auto
qed

definition quiz_inv :: "'a quiz_db_scheme \<Rightarrow> bool" where
  "quiz_inv db \<longleftrightarrow> core_ok db \<and> quiz_ok db \<and> consent_ok db"

lemma quiz_inv_tables:
  assumes "quiz_tables db' = quiz_tables db"
  shows "quiz_inv db' = quiz_inv db"
  unfolding quiz_inv_def quiz_ok_tables [OF assms] core_ok_tables [OF assms] consent_ok_def exposed_def intimate_question_def
    couple_live_def both_consent_def both_members_consent_def same_tables [OF assms] by (rule refl)

lemma insert_day_consent:
  assumes "insert_day db d qs = Inr db'" "quiz_ok db" "consent_ok db" "set qs \<subseteq> set (questions db)"
    and "\<And>q. q \<in> set qs \<Longrightarrow> qn_intimacy q \<Longrightarrow> both_consent db (qd_couple_id d)"
  shows "consent_ok db'"
proof (rule consent_ok_step [OF assms(3) insert_day_core(2,3) [OF assms(1)]])
  note l = links_of_new_day [OF assms(1,2)]
  fix e assume e: "e \<in> set (quiz_days db')" "exposed db' e"
  note q = intimate_cong [OF insert_day_core(4) [OF assms(1)]]
  show "both_consent db (qd_couple_id e) \<or> (\<exists>d \<in> set (quiz_days db). exposed db d \<and> qd_couple_id d = qd_couple_id e)"
  proof (cases "e = d")
    case True
    have "ql_question_id ` set (links_of db' (qd_id d)) = qn_id ` set qs" using l(1) by (metis list.set_map)
    moreover obtain x where "x \<in> set (links_of db' (qd_id d))" "intimate_question db (ql_question_id x)"
      using e(2) True by (auto simp: exposed_def list_ex_iff q)
    ultimately obtain y where y: "y \<in> set qs" "intimate_question db (qn_id y)" by (metis image_iff)
    then have "qn_intimacy y"
      using assms(4) quiz_okD(3) [OF assms(2)] by (auto simp: intimate_question_def list_ex_iff distinct_map inj_on_def)
    with y(1) assms(5) True show ?thesis by blast
  next
    case False
    then have "e \<in> set (quiz_days db)" using e(1) insert_day_Inr(4) [OF assms(1)] by simp
    moreover from this have "qd_id e \<noteq> qd_id d" using insert_day_Inr(1) [OF assms(1)] by (metis imageI)
    then have "links_of db' (qd_id e) = links_of db (qd_id e)" using l(4) by (simp add: day_content_def)
    ultimately show ?thesis using e(2) by (auto simp: exposed_def list_ex_iff q)
  qed
qed

lemma materialize_day_inv:
  assumes "quiz_inv db" "materialize_day db m date now fresh = Inr (db', d)"
  shows "quiz_inv db' \<and> d \<in> set (quiz_days db')"
proof -
  have "consent_ok db'"
    using assms(2)
  proof (cases rule: materialize_day_cases)
    case old
    with assms(1) show ?thesis by (simp add: quiz_inv_def)
  next
    case (new qs)
    have ok: "quiz_ok db" "consent_ok db" using assms(1) by (simp_all add: quiz_inv_def)
    note q = questions_for_day_Inr [OF new(2) quiz_okD(3) [OF ok(1)]]
    show ?thesis by (rule insert_day_consent [OF new(1) ok q(2)]) (simp add: new(4) both_consent_def q(3))
  qed
  with materialize_day_ok [of db m date now fresh db' d] assms show ?thesis by (simp add: quiz_inv_def)
qed

lemma save_draft_inv:
  assumes "quiz_inv db" "d \<in> set (quiz_days db)" "save_draft db d a q op' n answer now = Inr db'"
  shows "quiz_inv db'"
proof -
  have ok: "quiz_ok db'" using assms save_draft_ok unfolding quiz_inv_def by blast
  from assms(3) show ?thesis
  proof (cases rule: save_draft_cases)
    case 1
    with assms(1) show ?thesis by simp
  next
    case (2 s db1 rows)
    obtain fs where "db1 = db\<lparr>quiz_drafts := fs\<rparr>" using write_draft_Inr(1) [OF 2(3)] by blast
    note t = 2(4) this
    have "core_ok db'" using assms(1) unfolding quiz_inv_def by (subst core_ok_same [of db' db]) (simp_all add: t)
    moreover have "consent_ok db'"
      by (rule consent_ok_bump [of db, where f = "\<lambda>d. d\<lparr>qd_revision := qd_revision d + 1\<rparr>"])
        (use assms(1) in \<open>simp_all add: t quiz_inv_def links_of_def fun_eq_iff\<close>)
    ultimately show ?thesis using ok by (simp add: quiz_inv_def)
  qed
qed

lemma set_completed_inv:
  assumes "quiz_inv db" "quiz_ok db'"
    and db': "db' = (bump_day (set_completed db i p t) i reveal)\<lparr>quiz_operations := rows\<rparr>"
  shows "quiz_inv db'"
proof -
  have "core_ok db'" using assms(1) unfolding quiz_inv_def by (subst core_ok_same [of db' db]) (simp_all add: db')
  moreover have "consent_ok db'"
    by (rule consent_ok_bump [of db, where f = "\<lambda>d. d\<lparr>qd_revision := qd_revision d + 1,
          qd_revealed_at := (case reveal of None \<Rightarrow> qd_revealed_at d | Some t \<Rightarrow> Some t)\<rparr>"])
      (use assms(1) in \<open>simp_all add: db' quiz_inv_def split: option.splits\<close>)
  ultimately show ?thesis using assms(2) by (simp add: quiz_inv_def)
qed

lemma finish_day_inv:
  assumes "quiz_inv db" "d \<in> set (quiz_days db)" "finish_day db d a op' n now = Inr db'"
  shows "quiz_inv db'"
proof -
  have ok: "quiz_ok db'" using assms finish_day_ok unfolding quiz_inv_def by blast
  from assms(3) show ?thesis
    by (cases rule: finish_day_cases) (use assms(1) set_completed_inv [OF assms(1) ok] in blast)+
qed

lemma reopen_day_inv:
  assumes "quiz_inv db" "d \<in> set (quiz_days db)" "reopen_day db d a op' n now = Inr db'"
  shows "quiz_inv db'"
proof -
  have ok: "quiz_ok db'" using assms reopen_day_ok unfolding quiz_inv_def by blast
  from assms(3) show ?thesis
    by (cases rule: reopen_day_cases) (use assms(1) set_completed_inv [OF assms(1) ok] in blast)+
qed

end
