(* ===== verification/Quiz_Privacy.thy ===== *)
theory Quiz_Privacy
  imports Quiz_Safety
begin

text \<open>
  The promises of the daily quiz over all sequences of requests: consistent days, answers frozen by the
  reveal, no intimate question without the consent of both, and no answer shown before the reveal.
\<close>

section \<open>Revoking consent\<close>

lemma replacement_same_id:
  "replacement db d b db' q \<Longrightarrow> qd_id e = qd_id d \<Longrightarrow> replacement db e b db' q"
  by (simp add: replacement_def)

text \<open>The swap of one link, and what it leaves of intimate questions.\<close>

lemma replaced_intimacy:
  assumes "replacement db d b db1 q" "quiz_ok db" "d \<in> set (quiz_days db)"
  shows "intimate_question db1 (qn_id q) = b"
    and "i \<in> qn_id ` set (questions db) \<Longrightarrow> intimate_question db1 i = intimate_question db i"
proof -
  have "distinct (map qn_id (questions db1))" using quiz_okD(3) [OF replacement_ok(1) [OF assms]] .
  moreover have "q \<in> set (questions db1)" using replacement_ok(9) [OF assms] .
  ultimately show "intimate_question db1 (qn_id q) = b"
    using assms(1) by (auto simp: intimate_question_def list_ex_iff replacement_def distinct_map inj_on_def)
  show "intimate_question db1 i = intimate_question db i" if "i \<in> qn_id ` set (questions db)"
    using assms(1) that by (auto simp: intimate_question_def replacement_def)
qed

lemma linked_question_known:
  assumes "quiz_ok db" "l \<in> set (links_of db i)"
  shows "ql_question_id l \<in> qn_id ` set (questions db)"
proof (cases "i \<in> qd_id ` set (quiz_days db)")
  case True
  then obtain d where "d \<in> set (quiz_days db)" "i = qd_id d" by auto
  with quiz_okD(4) [OF assms(1) this(1)] assms(2) show ?thesis by (auto simp: day_ok_def Let_def)
next
  case False
  with assms have "day_content db i = ([], [], [])" by (simp add: quiz_ok_by_content)
  with assms(2) show ?thesis by (simp add: day_content_def)
qed

text \<open>One replacement: \<open>e\<close> is the day's row now, which the row \<open>d\<close> read before agrees with in its id.\<close>

lemma replace_link:
  assumes ok: "quiz_ok db" and e: "e \<in> set (quiz_days db)" "qd_revealed_at e = None"
    and l: "l \<in> set (links_of db (qd_id e))" and r: "replacement db e b db1 q"
  defines "db2 \<equiv> swap_question db1 (qd_id e) (ql_question_id l) (qn_id q)"
  shows "quiz_ok db2" "members db2 = members db" "couples db2 = couples db" "accounts db2 = accounts db"
    and "x \<in> set (links_of db2 i) \<Longrightarrow> intimate_question db2 (ql_question_id x) \<Longrightarrow>
      b \<and> i = qd_id e \<or> x \<in> set (links_of db i) \<and> intimate_question db (ql_question_id x)
        \<and> (i, ql_question_id x) \<noteq> (qd_id e, ql_question_id l)"
    and "x \<in> set (links_of db i) \<Longrightarrow> (i, ql_question_id x) \<noteq> (qd_id e, ql_question_id l) \<Longrightarrow> x \<in> set (links_of db2 i)"
    and "d' \<in> set (quiz_days db2) \<Longrightarrow> \<exists>d \<in> set (quiz_days db). qd_id d' = qd_id d \<and> day_slot d' = day_slot d
        \<and> qd_revealed_at d' = qd_revealed_at d"
    and "d \<in> set (quiz_days db) \<Longrightarrow> \<exists>d' \<in> set (quiz_days db2). qd_id d' = qd_id d \<and> day_slot d' = day_slot d
        \<and> qd_revealed_at d' = qd_revealed_at d"
    and "qd_id d = qd_id e \<or> day_content db2 (qd_id d) = day_content db (qd_id d)"
proof -
  note ro = replacement_ok [OF r ok e(1)] and ri = replaced_intimacy [OF r ok e(1)]
  have links: "links_of db1 i = links_of db i" for i using ro(5) by (simp add: day_content_def fun_eq_iff)
  have "qn_id q \<notin> ql_question_id ` set (links_of db1 (qd_id e))" using ro(8) by (simp add: used_ids_def links)
  then show "quiz_ok db2"
    unfolding db2_def using ro(9) e l by (intro swap_question_ok [OF ro(1)]) (simp_all add: ro(6) links)
  show "members db2 = members db" "couples db2 = couples db" "accounts db2 = accounts db"
    by (simp_all add: db2_def ro(2-4))
  have rows: "links_of db2 i = (if i = qd_id e then update_where (\<lambda>x. ql_question_id x = ql_question_id l)
      (\<lambda>x. x\<lparr>ql_question_id := qn_id q\<rparr>) (links_of db i) else links_of db i)" for i
    by (simp add: db2_def swap_question_rows links)
  have iq: "intimate_question db2 = intimate_question db1" by (rule ext) (simp add: db2_def intimate_question_def)
  show "b \<and> i = qd_id e \<or> x \<in> set (links_of db i) \<and> intimate_question db (ql_question_id x)
        \<and> (i, ql_question_id x) \<noteq> (qd_id e, ql_question_id l)"
    if x: "x \<in> set (links_of db2 i)" "intimate_question db2 (ql_question_id x)"
  proof (cases "x \<in> set (links_of db i) \<and> (i, ql_question_id x) \<noteq> (qd_id e, ql_question_id l)")
    case True
    then have "ql_question_id x \<in> qn_id ` set (questions db)" using linked_question_known [OF ok] by blast
    with True x(2) show ?thesis by (simp add: iq ri(2))
  next
    case False
    with x(1) have "i = qd_id e" "ql_question_id x = qn_id q" unfolding rows by (auto simp: set_update_where split: if_splits)
    with x(2) show ?thesis by (simp add: iq ri(1))
  qed
  show "x \<in> set (links_of db2 i)" if "x \<in> set (links_of db i)" "(i, ql_question_id x) \<noteq> (qd_id e, ql_question_id l)"
    unfolding rows using that by (auto simp: set_update_where)
  have days: "quiz_days db2 = update_where (\<lambda>d. qd_id d = qd_id e) (\<lambda>d. d\<lparr>qd_revision := qd_revision d + 1\<rparr>) (quiz_days db)"
    by (simp add: db2_def ro(6))
  show "\<exists>d \<in> set (quiz_days db). qd_id d' = qd_id d \<and> day_slot d' = day_slot d \<and> qd_revealed_at d' = qd_revealed_at d"
    if "d' \<in> set (quiz_days db2)"
    using that unfolding days set_update_where by (elim UnE imageE) (auto simp: day_slot_def intro: bexI [rotated])
  show "\<exists>d' \<in> set (quiz_days db2). qd_id d' = qd_id d \<and> day_slot d' = day_slot d \<and> qd_revealed_at d' = qd_revealed_at d"
    if "d \<in> set (quiz_days db)"
    using update_where_mem [OF that, of "\<lambda>d. qd_id d = qd_id e" "\<lambda>d. d\<lparr>qd_revision := qd_revision d + 1\<rparr>"]
    unfolding days by (cases "qd_id d = qd_id e") (auto simp: day_slot_def intro: bexI [rotated])
  show "qd_id d = qd_id e \<or> day_content db2 (qd_id d) = day_content db (qd_id d)"
    using ro(5) by (simp add: db2_def day_content_def swap_question_rows fun_eq_iff)
qed

text \<open>Days keep their identity and reveal through the loop.\<close>

definition same_days :: "'a quiz_db_scheme \<Rightarrow> 'a quiz_db_scheme \<Rightarrow> bool" where
  "same_days db db' \<longleftrightarrow>
     (\<forall>d' \<in> set (quiz_days db'). \<exists>d \<in> set (quiz_days db). qd_id d' = qd_id d \<and> day_slot d' = day_slot d \<and> qd_revealed_at d' = qd_revealed_at d)
     \<and> (\<forall>d \<in> set (quiz_days db). \<exists>d' \<in> set (quiz_days db'). qd_id d' = qd_id d \<and> day_slot d' = day_slot d \<and> qd_revealed_at d' = qd_revealed_at d)"

lemma same_days_trans: "same_days a b \<Longrightarrow> same_days b c \<Longrightarrow> same_days a c"
  unfolding same_days_def by (intro conjI ballI) metis+

lemma same_days_refl [simp]: "same_days a a"
  by (auto simp: same_days_def)

definition row_key :: "quiz_day \<times> quiz_day_question \<Rightarrow> uuid \<times> uuid" where
  "row_key r = (qd_id (fst r), ql_question_id (snd r))"

definition pending_row :: "'a quiz_db_scheme \<Rightarrow> quiz_day \<times> quiz_day_question \<Rightarrow> bool" where
  "pending_row db r \<longleftrightarrow> snd r \<in> set (links_of db (qd_id (fst r)))
     \<and> (\<exists>e \<in> set (quiz_days db). qd_id e = qd_id (fst r) \<and> qd_revealed_at e = None)"

lemma revoke_rows_ok:
  assumes "revoke_rows u sha bank k fresh i rows db = Inr db'" "quiz_ok db"
    and "distinct (map row_key rows)" "\<forall>r \<in> set rows. pending_row db r"
  shows "quiz_ok db' \<and> members db' = members db \<and> couples db' = couples db \<and> accounts db' = accounts db \<and> same_days db db'
    \<and> (\<forall>j x. x \<in> set (links_of db' j) \<longrightarrow> intimate_question db' (ql_question_id x) \<longrightarrow>
        x \<in> set (links_of db j) \<and> intimate_question db (ql_question_id x) \<and> (j, ql_question_id x) \<notin> row_key ` set rows)
    \<and> (\<forall>d \<in> set (quiz_days db). qd_revealed_at d \<noteq> None \<longrightarrow> day_content db' (qd_id d) = day_content db (qd_id d))"
  using assms
proof (induction rows arbitrary: db i)
  case (Cons r rows)
  obtain d l where r: "r = (d, l)" by (cases r)
  from Cons.prems(1) obtain db1 q where g: "general_replacement u sha bank db d k (fresh i) = Inr (db1, q)"
    and rest: "revoke_rows u sha bank k fresh (Suc i) rows (swap_question db1 (qd_id d) (ql_question_id l) (qn_id q)) = Inr db'"
    by (auto simp: r bind_exc_Inr_iff)
  from Cons.prems(4) obtain e where e: "e \<in> set (quiz_days db)" "qd_id e = qd_id d" "qd_revealed_at e = None"
    and l: "l \<in> set (links_of db (qd_id e))" by (auto simp: pending_row_def r)
  let ?db2 = "swap_question db1 (qd_id e) (ql_question_id l) (qn_id q)"
  note s = replace_link [OF Cons.prems(2) e(1,3) l replacement_same_id [OF general_replacement_Inr [OF g] e(2)]]
  have "pending_row ?db2 r'" if r': "r' \<in> set rows" for r'
  proof -
    have "row_key r' \<noteq> row_key r" using Cons.prems(3) r' by (metis distinct.simps(2) image_eqI list.set_map list.simps(9))
    then have "snd r' \<in> set (links_of ?db2 (qd_id (fst r')))"
      using Cons.prems(4) r' e(2) by (intro s(6)) (auto simp: pending_row_def row_key_def r)
    moreover from Cons.prems(4) r' obtain x where "x \<in> set (quiz_days db)" "qd_id x = qd_id (fst r')" "qd_revealed_at x = None"
      by (auto simp: pending_row_def)
    with s(8) [of x] have "\<exists>x \<in> set (quiz_days ?db2). qd_id x = qd_id (fst r') \<and> qd_revealed_at x = None" by metis
    ultimately show ?thesis by (simp add: pending_row_def)
  qed
  then have ih: "quiz_ok db' \<and> members db' = members ?db2 \<and> couples db' = couples ?db2 \<and> accounts db' = accounts ?db2 \<and> same_days ?db2 db'
    \<and> (\<forall>j x. x \<in> set (links_of db' j) \<longrightarrow> intimate_question db' (ql_question_id x) \<longrightarrow>
        x \<in> set (links_of ?db2 j) \<and> intimate_question ?db2 (ql_question_id x) \<and> (j, ql_question_id x) \<notin> row_key ` set rows)
    \<and> (\<forall>d \<in> set (quiz_days ?db2). qd_revealed_at d \<noteq> None \<longrightarrow> day_content db' (qd_id d) = day_content ?db2 (qd_id d))"
    using Cons.prems(3) rest s(1) e(2) by (intro Cons.IH) simp_all
  have same: "same_days db ?db2" using s(7,8) by (auto simp: same_days_def)
  have "day_content db' (qd_id x) = day_content db (qd_id x)" if x: "x \<in> set (quiz_days db)" "qd_revealed_at x \<noteq> None" for x
  proof -
    from s(8) [OF x(1)] obtain x' where "x' \<in> set (quiz_days ?db2)" "qd_id x' = qd_id x" "qd_revealed_at x' \<noteq> None"
      using x(2) by metis
    with ih have "day_content db' (qd_id x) = day_content ?db2 (qd_id x)" by metis
    moreover have "qd_id x \<noteq> qd_id e" using same_day [OF quiz_okD(1) [OF Cons.prems(2)] x(1) e(1)] e(3) x(2) by auto
    ultimately show ?thesis using s(9) [of x] by simp
  qed
  moreover have "x \<in> set (links_of db j) \<and> intimate_question db (ql_question_id x) \<and> (j, ql_question_id x) \<notin> row_key ` set (r # rows)"
    if "x \<in> set (links_of db' j)" "intimate_question db' (ql_question_id x)" for x j
    using ih s(5) [of x j] that e(2) by (auto simp: row_key_def r)
  ultimately show ?case using ih s(2-4) same_days_trans [OF same] by simp
qed simp

lemma distinct_by_group:
  assumes "\<And>i. distinct (map g (filter (\<lambda>x. h x = i) xs))"
  shows "distinct (map (\<lambda>x. (h x, g x)) xs)"
  using assms
proof (induction xs)
  case (Cons x xs)
  have "distinct (map g (filter (\<lambda>x. h x = i) xs))" for i using Cons.prems [of i] by (auto split: if_splits)
  moreover have "(h x, g x) \<notin> (\<lambda>x. (h x, g x)) ` set xs"
    using Cons.prems [of "h x"] by (auto simp: image_iff)
  ultimately show ?case using Cons.IH by simp
qed simp

lemma distinct_links:
  assumes "quiz_ok db"
  shows "distinct (map (\<lambda>l. (ql_quiz_day_id l, ql_question_id l)) (quiz_day_questions db))"
proof (rule distinct_by_group)
  fix i
  show "distinct (map ql_question_id (filter (\<lambda>l. ql_quiz_day_id l = i) (quiz_day_questions db)))"
  proof (cases "i \<in> qd_id ` set (quiz_days db)")
    case True
    then obtain d where "d \<in> set (quiz_days db)" "i = qd_id d" by auto
    with quiz_okD(4) [OF assms this(1)] show ?thesis by (simp add: day_ok_def Let_def links_of_def)
  next
    case False
    with assms have "day_content db i = ([], [], [])" by (simp add: quiz_ok_by_content)
    then show ?thesis by (simp add: day_content_def links_of_def)
  qed
qed

lemma find_day_known:
  assumes "quiz_ok db" "d \<in> set (quiz_days db)"
  shows "find_day db (qd_id d) = Some d"
  unfolding find_day_def using assms same_day [OF quiz_okD(1) [OF assms(1)]] by (intro scalar_unique) auto

definition is_intimate_row :: "'a quiz_db_scheme \<Rightarrow> uuid \<Rightarrow> quiz_day_question \<Rightarrow> quiz_day option" where
  "is_intimate_row db k l = (case find_day db (ql_quiz_day_id l) of
       None \<Rightarrow> None
     | Some d \<Rightarrow> (if qd_couple_id d = k \<and> qd_revealed_at d = None \<and> intimate_question db (ql_question_id l) then Some d else None))"

lemma intimate_rows_alt:
  "intimate_rows db k = map (\<lambda>l. (the (is_intimate_row db k l), l))
     (filter (\<lambda>l. is_intimate_row db k l \<noteq> None) (quiz_day_questions db))"
proof -
  have "intimate_rows db k = List.map_filter (\<lambda>l. map_option (\<lambda>d. (d, l)) (is_intimate_row db k l)) (quiz_day_questions db)"
    unfolding intimate_rows_def is_intimate_row_def intimate_question_def
    by (intro arg_cong [where f = "\<lambda>f. List.map_filter f (quiz_day_questions db)"] ext) (simp split: option.splits)
  also have "\<dots> = map (\<lambda>l. (the (is_intimate_row db k l), l))
     (filter (\<lambda>l. is_intimate_row db k l \<noteq> None) (quiz_day_questions db))"
    by (induction "quiz_day_questions db" rule: list.induct) (auto simp: List.map_filter_def)
  finally show ?thesis .
qed

lemma is_intimate_row_Some:
  assumes "is_intimate_row db k l = Some d"
  shows "d \<in> set (quiz_days db)" "qd_id d = ql_quiz_day_id l" "qd_couple_id d = k" "qd_revealed_at d = None"
    "intimate_question db (ql_question_id l)"
  using assms by (auto simp: is_intimate_row_def dest: find_day_Some split: option.splits if_splits)

lemma intimate_rows_pending:
  assumes "quiz_ok db"
  shows "distinct (map row_key (intimate_rows db k))" "\<forall>r \<in> set (intimate_rows db k). pending_row db r"
proof -
  let ?ls = "filter (\<lambda>l. is_intimate_row db k l \<noteq> None) (quiz_day_questions db)"
  have "map row_key (intimate_rows db k) = map (\<lambda>l. (ql_quiz_day_id l, ql_question_id l)) ?ls"
    unfolding intimate_rows_alt map_map
    by (rule map_cong [OF refl]) (auto simp: row_key_def dest: is_intimate_row_Some(2))
  then show "distinct (map row_key (intimate_rows db k))" using distinct_links [OF assms] by (simp add: distinct_map_filter)
  show "\<forall>r \<in> set (intimate_rows db k). pending_row db r"
    unfolding intimate_rows_alt
    by (auto simp: pending_row_def links_of_def dest: is_intimate_row_Some(1,4) is_intimate_row_Some(2) [symmetric])
qed

lemma intimate_rows_complete:
  assumes "quiz_ok db" "d \<in> set (quiz_days db)" "qd_couple_id d = k" "qd_revealed_at d = None"
    and "l \<in> set (links_of db (qd_id d))" "intimate_question db (ql_question_id l)"
  shows "(qd_id d, ql_question_id l) \<in> row_key ` set (intimate_rows db k)"
proof -
  have l: "l \<in> set (quiz_day_questions db)" "ql_quiz_day_id l = qd_id d" using assms(5) by (auto simp: links_of_def)
  then have "is_intimate_row db k l = Some d" using assms find_day_known [OF assms(1,2)] by (simp add: is_intimate_row_def)
  with l(1) have "(d, l) \<in> set (intimate_rows db k)" unfolding intimate_rows_alt by force
  then show ?thesis by (force simp: row_key_def)
qed

definition frozen :: "'a quiz_db_scheme \<Rightarrow> 'a quiz_db_scheme \<Rightarrow> bool" where
  "frozen db db' \<longleftrightarrow> (\<forall>d \<in> set (quiz_days db). qd_revealed_at d \<noteq> None \<longrightarrow>
     day_content db' (qd_id d) = day_content db (qd_id d)
     \<and> (\<exists>d' \<in> set (quiz_days db'). qd_id d' = qd_id d \<and> qd_revealed_at d' = qd_revealed_at d))"

lemma frozen_refl [simp]: "frozen db db"
  by (auto simp: frozen_def)

lemma frozen_trans: "frozen a b \<Longrightarrow> frozen b c \<Longrightarrow> frozen a c"
  unfolding frozen_def by (intro ballI impI) metis

lemma frozen_tables:
  assumes "quiz_tables db' = quiz_tables db"
  shows "frozen db db'"
  unfolding frozen_def same_tables(5) [OF assms] day_content_tables [OF assms] by blast

lemma frozen_same_days:
  "same_days db db' \<Longrightarrow> (\<And>d. d \<in> set (quiz_days db) \<Longrightarrow> qd_revealed_at d \<noteq> None \<Longrightarrow>
     day_content db' (qd_id d) = day_content db (qd_id d)) \<Longrightarrow> frozen db db'"
  unfolding frozen_def same_days_def by metis

text \<open>After the revocation the couple's unrevealed days have no intimate question; no other day gained one.\<close>

lemma revoke_ok:
  assumes "revoke_unrevealed_intimacy u sha bank db k fresh = Inr db'" "quiz_ok db"
  shows "quiz_ok db'" "members db' = members db" "couples db' = couples db" "accounts db' = accounts db" "frozen db db'"
    and "d' \<in> set (quiz_days db') \<Longrightarrow> exposed db' d' \<Longrightarrow>
      qd_couple_id d' \<noteq> k \<and> (\<exists>d \<in> set (quiz_days db). exposed db d \<and> qd_couple_id d = qd_couple_id d')"
proof -
  note r = revoke_rows_ok [OF assms(1) [unfolded revoke_unrevealed_intimacy_def] assms(2) intimate_rows_pending [OF assms(2)]]
  show "quiz_ok db'" "members db' = members db" "couples db' = couples db" "accounts db' = accounts db" using r by blast+
  show "frozen db db'" using r by (intro frozen_same_days) blast+
  assume d': "d' \<in> set (quiz_days db')" "exposed db' d'"
  then obtain l where l: "l \<in> set (links_of db' (qd_id d'))" "intimate_question db' (ql_question_id l)"
    by (auto simp: exposed_def list_ex_iff)
  with r have k: "l \<in> set (links_of db (qd_id d'))" "intimate_question db (ql_question_id l)"
    "(qd_id d', ql_question_id l) \<notin> row_key ` set (intimate_rows db k)" by blast+
  from r d'(1) obtain d where d: "d \<in> set (quiz_days db)" "qd_id d' = qd_id d" "day_slot d' = day_slot d"
    "qd_revealed_at d' = qd_revealed_at d" unfolding same_days_def by metis
  then have c: "qd_couple_id d' = qd_couple_id d" "qd_revealed_at d = None" using d'(2) by (auto simp: day_slot_def exposed_def)
  have "qd_couple_id d \<noteq> k" using intimate_rows_complete [OF assms(2) d(1) _ c(2), of k l] k d(2) by auto
  moreover have "exposed db d" using c(2) k(1,2) d(2) by (auto simp: exposed_def list_ex_iff)
  ultimately show "qd_couple_id d' \<noteq> k \<and> (\<exists>d \<in> set (quiz_days db). exposed db d \<and> qd_couple_id d = qd_couple_id d')"
    using d(1) c(1) by metis
qed

section \<open>Preferences\<close>

definition same_member :: "couple_member \<Rightarrow> couple_member \<Rightarrow> bool" where
  "same_member m m' \<longleftrightarrow> mem_couple_id m' = mem_couple_id m \<and> mem_account_id m' = mem_account_id m \<and> mem_left_at m' = mem_left_at m"

text \<open>Consent columns and settings are no concern of \<open>core_ok\<close>.\<close>

lemma core_ok_settings:
  assumes "core_ok db" "accounts db' = accounts db"
    and m: "members db' = update_where p g (members db)" "\<And>m. same_member m (g m)"
    and c: "couples db' = update_where q h (couples db)" "\<And>c. cpl_id (h c) = cpl_id c" "\<And>c. cpl_ended_at (h c) = cpl_ended_at c"
  shows "core_ok db'"
proof -
  have g: "mem_couple_id (if p m then g m else m) = mem_couple_id m" "mem_account_id (if p m then g m else m) = mem_account_id m"
    "is_active (if p m then g m else m) = is_active m" for m
    using m(2) [of m] by (auto simp: same_member_def is_active_def)
  have h: "cpl_id (if q c then h c else c) = cpl_id c" "cpl_ended_at (if q c then h c else c) = cpl_ended_at c" for c
    using c(2,3) by auto
  have act: "active_members db' = map (\<lambda>m. if p m then g m else m) (active_members db)"
    unfolding active_members_def m(1) update_where_def filter_map comp_def g by (rule refl)
  have mo: "members_of db' k = map (\<lambda>m. if p m then g m else m) (members_of db k)" for k
    unfolding members_of_def act filter_map comp_def g by (rule refl)
  have "length (members_of db' k) = length (members_of db k)" for k by (simp add: mo)
  moreover have "map cpl_id (couples db') = map cpl_id (couples db)"
    unfolding c(1) update_where_def map_map comp_def h by (rule refl)
  moreover have "cpl_id ` set (couples db') = cpl_id ` set (couples db)"
    unfolding c(1) update_where_def set_map image_image h by (rule refl)
  moreover have "map (\<lambda>m. (mem_couple_id m, mem_account_id m)) (members db') = map (\<lambda>m. (mem_couple_id m, mem_account_id m)) (members db)"
    unfolding m(1) update_where_def map_map comp_def g by (rule refl)
  moreover have "map mem_account_id (active_members db') = map mem_account_id (active_members db)"
    unfolding act map_map comp_def g by (rule refl)
  moreover have "mem_couple_id ` set (members db') = mem_couple_id ` set (members db)"
    unfolding m(1) update_where_def set_map image_image g by (rule refl)
  moreover have "\<forall>x \<in> set (couples db'). length (members_of db (cpl_id x)) = (if cpl_ended_at x = None then 2 else 0)"
    using assms(1) unfolding c(1) update_where_def set_map ball_simps h core_ok_def by blast
  ultimately show ?thesis
    using assms(1,2) unfolding core_ok_def by (simp add: image_subset_iff [symmetric])
qed

lemma members_of_own_row:
  assumes "\<And>m. same_member m (g m)"
  shows "members_of (db\<lparr>members := update_where (own_row m) g (members db)\<rparr>) k
    = (if k = mem_couple_id m then map (\<lambda>x. if own_row m x then g x else x) (members_of db k) else members_of db k)"
proof -
  have g: "mem_couple_id (if own_row m x then g x else x) = mem_couple_id x"
    "is_active (if own_row m x then g x else x) = is_active x" for x
    using assms [of x] by (auto simp: same_member_def is_active_def)
  have "members_of (db\<lparr>members := update_where (own_row m) g (members db)\<rparr>) k
      = map (\<lambda>x. if own_row m x then g x else x) (members_of db k)"
    by (simp add: members_of_def active_members_def update_where_def filter_map comp_def g)
  moreover have "map (\<lambda>x. if own_row m x then g x else x) (members_of db k) = members_of db k" if "k \<noteq> mem_couple_id m"
    using that by (intro map_idI) (auto simp: own_row_def members_of_def)
  ultimately show ?thesis by simp
qed

lemma apply_intimacy_inv:
  assumes inv: "quiz_inv db" and r: "apply_intimacy u sha bank db m choice fresh = Inr db'"
  shows "quiz_inv db' \<and> frozen db db' \<and> couples db' = couples db"
proof (cases choice)
  case None
  with r inv show ?thesis by (simp add: apply_intimacy_def)
next
  case (Some b)
  let ?g = "\<lambda>x. x\<lparr>mem_intimacy_enabled := b\<rparr>" and ?k = "mem_couple_id m"
  let ?db = "db\<lparr>members := update_where (own_row m) ?g (members db)\<rparr>"
  have ok: "core_ok db" "quiz_ok db" "consent_ok db" using inv by (simp_all add: quiz_inv_def)
  have g: "same_member x (?g x)" for x by (simp add: same_member_def)
  have rows: "links_of ?db = links_of db" "states_of ?db = states_of db" "drafts_of ?db = drafts_of db"
    "day_content ?db = day_content db"
    by (simp_all add: links_of_def states_of_def drafts_of_def day_content_def fun_eq_iff)
  have core: "core_ok ?db"
    by (rule core_ok_settings [OF ok(1) _ _ g, where q = "\<lambda>_. False" and h = id]) (simp_all add: update_where_none)
  have qok: "quiz_ok ?db" using ok(2) by (simp add: quiz_ok_def day_ok_def rows)
  have fr: "frozen db ?db" by (auto simp: frozen_def rows)
  have exp: "exposed ?db d = exposed db d" for d by (simp add: exposed_def rows intimate_question_def)
  have live: "couple_live ?db j = couple_live db j" for j by (simp add: couple_live_def)
  have other: "both_consent ?db j = both_consent db j" if "j \<noteq> ?k" for j
    using that unfolding both_consent_alt members_of_own_row [OF g] by simp
  show ?thesis
  proof (cases b)
    case True
    with r Some have db': "db' = ?db" by (simp add: apply_intimacy_def)
    have "both_consent ?db j" if "couple_live db j" "both_consent db j" for j
    proof (cases "j = ?k")
      case True
      from \<open>couple_live db j\<close> ok(1) have len: "length (members_of db j) = 2"
        by (auto simp: couple_live_def list_ex_iff core_ok_def split: if_splits)
      with that(2) have "filter mem_intimacy_enabled (members_of db j) = members_of db j"
        unfolding both_consent_alt by (metis filter_id_conv length_filter_less nat_neq_iff)
      then have "\<forall>x \<in> set (members_of db j). mem_intimacy_enabled x" by (simp add: filter_id_conv)
      then have "filter mem_intimacy_enabled (members_of ?db j) = members_of ?db j"
        unfolding members_of_own_row [OF g] using \<open>b\<close> by (auto simp: filter_id_conv)
      then show ?thesis unfolding both_consent_alt members_of_own_row [OF g] using len by auto
    qed (use that other in blast)
    then have "consent_ok ?db" using ok(3) by (simp add: consent_ok_def exp live)
    with core qok fr show ?thesis by (simp add: db' quiz_inv_def)
  next
    case False
    with r Some have rv: "revoke_unrevealed_intimacy u sha bank ?db ?k fresh = Inr db'" by (simp add: apply_intimacy_def)
    note rv = revoke_ok [OF this qok]
    have "consent_ok db'"
      unfolding consent_ok_def
    proof (intro ballI impI)
      fix d' assume d': "d' \<in> set (quiz_days db')" "couple_live db' (qd_couple_id d')" "exposed db' d'"
      from rv(6) [OF d'(1,3)] obtain d where d: "qd_couple_id d' \<noteq> ?k" "d \<in> set (quiz_days db)" "exposed db d"
        "qd_couple_id d = qd_couple_id d'" by (auto simp: exp)
      moreover have "couple_live db (qd_couple_id d)" using d'(2) d(4) consent_cong(2) [OF rv(3)] by (simp add: live)
      ultimately have "both_consent db (qd_couple_id d')" using ok(3) unfolding consent_ok_def by metis
      then show "both_consent db' (qd_couple_id d')" using consent_cong(1) [OF rv(2)] other [OF d(1)] by simp
    qed
    moreover have "core_ok db'" using core core_ok_same [OF rv(4,3,2)] by simp
    ultimately show ?thesis using rv(1,3) frozen_trans [OF fr rv(5)] by (simp add: quiz_inv_def)
  qed
qed

text \<open>Settings that are not the intimacy choice.\<close>

lemma settings_inv:
  assumes inv: "quiz_inv db" and t: "accounts db' = accounts db" "questions db' = questions db" "quiz_days db' = quiz_days db"
      "day_content db' = day_content db"
    and m: "members db' = update_where p g (members db)" "\<And>x. same_member x (g x) \<and> mem_intimacy_enabled (g x) = mem_intimacy_enabled x"
    and c: "couples db' = update_where q h (couples db)" "\<And>c. cpl_id (h c) = cpl_id c \<and> cpl_ended_at (h c) = cpl_ended_at c"
  shows "quiz_inv db' \<and> frozen db db'"
proof -
  have ok: "core_ok db" "quiz_ok db" "consent_ok db" using inv by (simp_all add: quiz_inv_def)
  have "core_ok db'" by (rule core_ok_settings [OF ok(1) t(1) m(1) _ c(1)]) (simp_all add: m(2) c(2))
  moreover have "quiz_ok db'"
    unfolding quiz_ok_by_content t using ok(2) day_ok_content [of db' _ db] by (auto simp: quiz_ok_by_content t)
  moreover have "consent_ok db'"
  proof -
    have rows: "links_of db' = links_of db" using t(4) by (simp add: day_content_def fun_eq_iff)
    have exp: "exposed db' d = exposed db d" for d by (simp add: exposed_def rows intimate_cong [OF t(2)])
    have g: "mem_couple_id (if p x then g x else x) = mem_couple_id x" "is_active (if p x then g x else x) = is_active x"
      "mem_intimacy_enabled (if p x then g x else x) = mem_intimacy_enabled x" for x
      using m(2) [of x] by (auto simp: same_member_def is_active_def)
    have "both_consent db' k = both_consent db k" for k
      unfolding both_consent_alt members_of_def active_members_def m(1) update_where_def filter_map comp_def length_map g by (rule refl)
    moreover have "couple_live db' k = couple_live db k" for k
    proof -
      have h: "cpl_id (if q c then h c else c) = cpl_id c" "cpl_ended_at (if q c then h c else c) = cpl_ended_at c" for c
        using c(2) by auto
      show ?thesis unfolding couple_live_def c(1) update_where_def list_ex_iff set_map bex_simps h by (rule refl)
    qed
    ultimately show ?thesis using ok(3) by (simp add: consent_ok_def t exp)
  qed
  moreover have "frozen db db'" by (auto simp: frozen_def t)
  ultimately show ?thesis by (simp add: quiz_inv_def)
qed

lemma apply_location_inv:
  assumes "quiz_inv db"
  shows "quiz_inv (apply_location db m choice) \<and> frozen db (apply_location db m choice)
    \<and> couples (apply_location db m choice) = couples db"
proof (cases choice)
  case None
  with assms show ?thesis by (simp add: apply_location_def)
next
  case (Some b)
  have "quiz_inv (apply_location db m choice) \<and> frozen db (apply_location db m choice)"
    by (rule settings_inv [OF assms, where p = "own_row m" and g = "\<lambda>x. x\<lparr>mem_location_enabled := b\<rparr>" and q = "\<lambda>_. False" and h = id])
      (simp_all add: Some apply_location_def Let_def same_member_def update_where_none day_content_def links_of_def states_of_def
        drafts_of_def fun_eq_iff)
  then show ?thesis by (simp add: Some apply_location_def Let_def)
qed

lemma update_preferences_inv:
  assumes inv: "quiz_inv db" and r: "update_couple_preferences u sha bank zi db a payload now fresh = Inr (db', v)"
  shows "quiz_inv db' \<and> frozen db db'"
proof -
  obtain m where m: "active_member db a = Inr m"
    using r unfolding update_couple_preferences_def bind_exc_Inr_iff by blast
  obtain c where c: "lock_couple db (mem_couple_id m) = Inr c"
    using r unfolding update_couple_preferences_def m bind_exc.simps bind_exc_Inr_iff by blast
  obtain db1 where i: "apply_intimacy u sha bank db m (pf_intimacy_enabled payload) fresh = Inr db1"
    using r unfolding update_couple_preferences_def m c bind_exc.simps bind_exc_Inr_iff by blast
  have db': "db' = (apply_location db1 m (pf_location_enabled payload))\<lparr>couples := update_where (\<lambda>x. cpl_id x = cpl_id c)
        (\<lambda>x. x\<lparr>cpl_proximity_threshold_m := (case pf_proximity_threshold_m payload of None \<Rightarrow> cpl_proximity_threshold_m x | Some t \<Rightarrow> t),
           cpl_home_timezone := (case pf_home_timezone payload of None \<Rightarrow> cpl_home_timezone x | Some z \<Rightarrow> z),
           cpl_updated_at := now\<rparr>) (couples (apply_location db1 m (pf_location_enabled payload)))\<rparr>"
    using r unfolding update_couple_preferences_def m c i bind_exc.simps Let_def bind_exc_Inr_iff sum.inject prod.inject
    by (elim exE conjE) (rule sym)
  let ?l = "apply_location db1 m (pf_location_enabled payload)"
  note i = apply_intimacy_inv [OF inv i]
  note l = apply_location_inv [of db1 m "pf_location_enabled payload"]
  have "quiz_inv db' \<and> frozen ?l db'"
    by (rule settings_inv [where p = "\<lambda>_. False" and g = id and q = "\<lambda>x. cpl_id x = cpl_id c"
          and h = "\<lambda>x. x\<lparr>cpl_proximity_threshold_m := (case pf_proximity_threshold_m payload of None \<Rightarrow> cpl_proximity_threshold_m x | Some t \<Rightarrow> t),
           cpl_home_timezone := (case pf_home_timezone payload of None \<Rightarrow> cpl_home_timezone x | Some z \<Rightarrow> z), cpl_updated_at := now\<rparr>"])
      (use i l in \<open>simp_all add: db' same_member_def update_where_none day_content_def links_of_def states_of_def drafts_of_def fun_eq_iff\<close>)
  with i l show ?thesis using frozen_trans by blast
qed

section \<open>Reports and custom questions\<close>

lemma replace_link_inv:
  assumes inv: "quiz_inv db" and e: "e \<in> set (quiz_days db)" "qd_revealed_at e = None"
    and l: "l \<in> set (links_of db (qd_id e))" and r: "replacement db e b db1 q" and b: "b \<Longrightarrow> both_consent db (qd_couple_id e)"
  defines "db2 \<equiv> swap_question db1 (qd_id e) (ql_question_id l) (qn_id q)"
  shows "quiz_inv db2 \<and> frozen db db2"
proof -
  have ok: "core_ok db" "quiz_ok db" "consent_ok db" using inv by (simp_all add: quiz_inv_def)
  note s = replace_link [OF ok(2) e l r, folded db2_def]
  have "consent_ok db2"
  proof (rule consent_ok_step [OF ok(3) s(2,3)])
    fix d' assume d': "d' \<in> set (quiz_days db2)" "exposed db2 d'"
    then obtain x where x: "x \<in> set (links_of db2 (qd_id d'))" "intimate_question db2 (ql_question_id x)"
      by (auto simp: exposed_def list_ex_iff)
    from s(7) [OF d'(1)] obtain d where d: "d \<in> set (quiz_days db)" "qd_id d' = qd_id d" "day_slot d' = day_slot d"
      "qd_revealed_at d' = qd_revealed_at d" by blast
    have c: "qd_couple_id d' = qd_couple_id d" "qd_revealed_at d = None" using d d'(2) by (auto simp: day_slot_def exposed_def)
    from s(5) [OF x] show "both_consent db (qd_couple_id d') \<or> (\<exists>d \<in> set (quiz_days db). exposed db d \<and> qd_couple_id d = qd_couple_id d')"
    proof (elim disjE conjE)
      assume "b" "qd_id d' = qd_id e"
      then have "d = e" using same_day [OF quiz_okD(1) [OF ok(2)] d(1) e(1)] d(2) by simp
      with b \<open>b\<close> c(1) show ?thesis by simp
    next
      assume "x \<in> set (links_of db (qd_id d'))" "intimate_question db (ql_question_id x)"
      then have "exposed db d" using c(2) d(2) by (auto simp: exposed_def list_ex_iff)
      with d(1) c(1) show ?thesis by metis
    qed
  qed
  moreover have "frozen db db2"
  proof (rule frozen_same_days)
    show "same_days db db2" using s(7,8) by (auto simp: same_days_def)
    fix x assume x: "x \<in> set (quiz_days db)" "qd_revealed_at x \<noteq> None"
    then have "qd_id x \<noteq> qd_id e" using same_day [OF quiz_okD(1) [OF ok(2)] x(1) e(1)] e(2) by auto
    then show "day_content db2 (qd_id x) = day_content db (qd_id x)" using s(9) [of x] by simp
  qed
  ultimately show ?thesis using s(1) ok(1) core_ok_same [OF s(4,3,2)] by (simp add: quiz_inv_def)
qed

lemma quiz_inv_reports [simp]:
  "quiz_inv (db\<lparr>question_reports := x\<rparr>) = quiz_inv db" "frozen db (db\<lparr>question_reports := x\<rparr>)"
  "frozen (db\<lparr>question_reports := x\<rparr>) db' = frozen db db'"
proof -
  have rows: "links_of (db\<lparr>question_reports := x\<rparr>) = links_of db" "states_of (db\<lparr>question_reports := x\<rparr>) = states_of db"
    "drafts_of (db\<lparr>question_reports := x\<rparr>) = drafts_of db" "day_content (db\<lparr>question_reports := x\<rparr>) = day_content db"
    by (simp_all add: links_of_def states_of_def drafts_of_def day_content_def fun_eq_iff)
  show "quiz_inv (db\<lparr>question_reports := x\<rparr>) = quiz_inv db"
    by (simp add: quiz_inv_def core_ok_def active_members_def members_of_def quiz_ok_def day_ok_def rows consent_ok_def
        couple_live_def exposed_def intimate_question_def both_consent_def both_members_consent_def consent_column_def)
  show "frozen db (db\<lparr>question_reports := x\<rparr>)" "frozen (db\<lparr>question_reports := x\<rparr>) db' = frozen db db'"
    by (auto simp: frozen_def rows)
qed

lemma report_target_Inr:
  assumes "report_target db k i = Inr (d, l, q)"
  shows "d \<in> set (quiz_days db)" "l \<in> set (links_of db (qd_id d))" "ql_question_id l = i" "qn_id q = i"
    "qd_couple_id d = k" "q \<in> set (questions db)"
proof -
  from assms have "(d, l, q) \<in> set (List.map_filter (\<lambda>l. case (find_day db (ql_quiz_day_id l), scalar (\<lambda>q. qn_id q = i) (questions db)) of
            (Some d, Some q) \<Rightarrow> (if ql_question_id l = i \<and> qd_couple_id d = k then Some (d, l, q) else None)
          | _ \<Rightarrow> None) (quiz_day_questions db))"
    by (auto simp: report_target_def Let_def split: option.splits dest!: scalar_by_Some(1))
  then have r: "l \<in> set (quiz_day_questions db)" "find_day db (ql_quiz_day_id l) = Some d"
    "scalar (\<lambda>q. qn_id q = i) (questions db) = Some q" "ql_question_id l = i" "qd_couple_id d = k"
    by (auto simp: List.map_filter_def split: option.splits if_splits)
  show "ql_question_id l = i" "qd_couple_id d = k" by (rule r)+
  show "d \<in> set (quiz_days db)" "l \<in> set (links_of db (qd_id d))"
    using find_day_Some [OF r(2)] r(1) by (auto simp: links_of_def)
  show "qn_id q = i" "q \<in> set (questions db)" using scalar_Some [OF r(3)] by auto
qed

lemma replace_reported_inv:
  assumes inv: "quiz_inv db" and e: "e \<in> set (quiz_days db)" "qd_revealed_at e = None"
    and l: "l \<in> set (links_of db (qd_id e))" "ql_question_id l = qn_id old" and k: "qd_couple_id e = k"
    and r: "replace_reported u sha bank db e old k fresh = Inr db'"
  shows "quiz_inv db' \<and> frozen db db'"
proof -
  obtain consent where c: "both_members_consent db k ''intimacy_enabled'' = Inr consent"
    using r unfolding replace_reported_def bind_exc_Inr_iff by blast
  let ?b = "qn_intimacy old \<and> consent"
  have b: "(if qn_intimacy old then consent else False) = ?b" by simp
  obtain db1 q where rep: "replacement db e ?b db1 q" and db': "db' = swap_question db1 (qd_id e) (qn_id old) (qn_id q)"
  proof (cases "global_replacement db e k ?b")
    case None
    from r have "bind_exc (curated_replacement u sha bank db (qd_quiz_date e) k ?b fresh)
        (\<lambda>(db, q). Inr (swap_question db (qd_id e) (qn_id old) (qn_id q))) = Inr db'"
      unfolding replace_reported_def c bind_exc.simps b None option.case .
    then obtain db1 q where cr: "curated_replacement u sha bank db (qd_quiz_date e) k ?b fresh = Inr (db1, q)"
      and "db' = swap_question db1 (qd_id e) (qn_id old) (qn_id q)" by (auto simp: bind_exc_Inr_iff)
    with that curated_replacement_Inr [OF cr] show ?thesis by blast
  next
    case (Some x)
    with r that global_replacement_Some [OF Some] show ?thesis
      unfolding replace_reported_def c bind_exc.simps b by auto
  qed
  have "both_consent db (qd_couple_id e)" if ?b using that c by (simp add: both_consent_def k)
  from replace_link_inv [OF inv e l(1) rep this] show ?thesis by (simp add: db' l(2))
qed

lemma report_question_inv:
  assumes inv: "quiz_inv db" and r: "report_question u sha bank db a i reason now fresh = Inr (db', v)"
  shows "quiz_inv db' \<and> frozen db db'"
proof -
  obtain m where m: "active_member db a = Inr m"
    using r unfolding report_question_def bind_exc_Inr_iff by blast
  obtain c where c: "lock_couple db (mem_couple_id m) = Inr c"
    using r unfolding report_question_def m bind_exc.simps bind_exc_Inr_iff by blast
  obtain d l q where t: "report_target db (mem_couple_id m) i = Inr (d, l, q)"
    using r unfolding report_question_def m c bind_exc.simps bind_exc_Inr_iff by (metis prod_cases3)
  note t' = report_target_Inr [OF t]
  show ?thesis
  proof (cases "reported db (mem_couple_id m) i \<or> qd_revealed_at d \<noteq> None")
    case True
    with r inv show ?thesis
      unfolding report_question_def m c t bind_exc.simps prod.case Let_def by (auto split: if_splits)
  next
    case False
    let ?db = "db\<lparr>question_reports := question_reports db
      @ [\<lparr>qr_question_id = i, qr_couple_id = mem_couple_id m, qr_reporter_id = Some a, qr_reason = reason, qr_created_at = now\<rparr>]\<rparr>"
    from False r have "replace_reported u sha bank ?db d q (mem_couple_id m) fresh = Inr db'"
      unfolding report_question_def m c t bind_exc.simps prod.case Let_def by (auto simp: bind_exc_Inr_iff)
    from replace_reported_inv [OF _ _ _ _ _ t'(5) this, of l] t' inv False show ?thesis by (simp add: links_of_def)
  qed
qed

lemma questions_inv:
  assumes inv: "quiz_inv db" and rows: "distinct (map qn_id rows)"
    and same: "\<And>i. linked db i \<Longrightarrow> i \<in> qn_id ` set rows \<and> intimate_question (db\<lparr>questions := rows\<rparr>) i = intimate_question db i"
  shows "quiz_inv (db\<lparr>questions := rows\<rparr>) \<and> frozen db (db\<lparr>questions := rows\<rparr>)"
proof -
  let ?db = "db\<lparr>questions := rows\<rparr>"
  have tables: "links_of ?db = links_of db" "states_of ?db = states_of db" "drafts_of ?db = drafts_of db" "day_content ?db = day_content db"
    by (simp_all add: links_of_def states_of_def drafts_of_def day_content_def fun_eq_iff)
  have linked: "linked db (ql_question_id l)" if "l \<in> set (links_of db i)" for l i
    using that by (auto simp: linked_def links_of_def)
  have ok: "core_ok db" "quiz_ok db" "consent_ok db" using inv by (simp_all add: quiz_inv_def)
  have "day_ok ?db d" if "d \<in> set (quiz_days db)" for d
  proof -
    have "ql_question_id ` set (links_of db (qd_id d)) \<subseteq> qn_id ` set rows" using same linked by blast
    with quiz_okD(4) [OF ok(2) that] show ?thesis by (simp add: day_ok_def Let_def tables)
  qed
  then have "quiz_ok ?db" using ok(2) rows by (simp add: quiz_ok_by_content tables)
  moreover have "exposed ?db d = exposed db d" for d
    using same linked [of _ "qd_id d"] by (auto simp: exposed_def tables list_ex_iff)
  then have "consent_ok ?db"
    using ok(3) by (simp add: consent_ok_def couple_live_def both_consent_def both_members_consent_def consent_column_def)
  moreover have "core_ok ?db" using ok(1) core_ok_same [of ?db db] by simp
  moreover have "frozen db ?db" by (auto simp: frozen_def tables)
  ultimately show ?thesis by (simp add: quiz_inv_def)
qed

lemma linked_known:
  assumes "quiz_inv db" "linked db i"
  shows "i \<in> qn_id ` set (questions db)"
proof -
  obtain l where "l \<in> set (quiz_day_questions db)" "ql_question_id l = i" using assms(2) by (auto simp: linked_def)
  then show ?thesis
    using linked_question_known [of db l "ql_quiz_day_id l"] assms(1) by (auto simp: quiz_inv_def links_of_def)
qed

lemma create_custom_inv:
  assumes "quiz_inv db" "create_custom u sha db k a payload now fresh = Inr (db', q)"
  shows "quiz_inv db' \<and> frozen db db'"
proof -
  from assms(2) obtain q rows where "insert_question q (questions db) = Inr rows" and db': "db' = db\<lparr>questions := rows\<rparr>"
    by (auto simp: create_custom_def bind_exc_Inr_iff Let_def)
  from insert_question_Inr [OF this(1)] have rows: "qn_id q \<notin> qn_id ` set (questions db)" "rows = questions db @ [q]" by auto
  have "distinct (map qn_id (questions db))" using assms(1) quiz_okD(3) by (auto simp: quiz_inv_def)
  with rows linked_known [OF assms(1)] show ?thesis
    unfolding db' by (intro questions_inv [OF assms(1)]) (auto simp: intimate_question_def)
qed

lemma owned_pending_Inr:
  "owned_pending db k a i now = Inr q \<Longrightarrow> q \<in> set (questions db) \<and> qn_id q = i \<and> \<not> linked db i"
  by (auto simp: owned_pending_def dest: scalar_Some split: option.splits)

lemma update_custom_inv:
  assumes "quiz_inv db" "update_custom u sha db k a i payload now = Inr (db', q)"
  shows "quiz_inv db' \<and> frozen db db'"
proof -
  from assms(2) obtain q0 where own: "owned_pending db k a i now = Inr q0"
    unfolding update_custom_def bind_exc_Inr_iff by blast
  have q: "owned_pending db k a i now = Inr q0" "qn_id q = qn_id q0"
    and db': "db' = db\<lparr>questions := update_where (\<lambda>r. qn_id r = i) (\<lambda>_. q) (questions db)\<rparr>"
    using assms(2) own unfolding update_custom_def own bind_exc.simps Let_def bind_exc_Inr_iff by auto
  note q0 = owned_pending_Inr [OF q(1)]
  have ids: "map qn_id (update_where (\<lambda>r. qn_id r = i) (\<lambda>_. q) (questions db)) = map qn_id (questions db)"
    by (rule map_update_where) (simp add: q(2) q0)
  have set_ids: "qn_id ` set (update_where (\<lambda>r. qn_id r = i) (\<lambda>_. q) (questions db)) = qn_id ` set (questions db)"
    using ids by (metis list.set_map)
  have "distinct (map qn_id (questions db))" using assms(1) quiz_okD(3) by (auto simp: quiz_inv_def)
  moreover have "intimate_question db' j = intimate_question db j" if "j \<noteq> i" for j
    using that q(2) q0 by (auto simp: intimate_question_def db' list_ex_iff set_update_where)
  moreover have "j \<in> qn_id ` set (questions db) \<and> j \<noteq> i" if "linked db j" for j
    using linked_known [OF assms(1) that] q0 that by blast
  ultimately show ?thesis
    unfolding db' by (intro questions_inv [OF assms(1)]) (simp_all only: ids set_ids simp_thms)
qed

lemma delete_custom_inv:
  assumes "quiz_inv db" "delete_custom db k a i now = Inr db'"
  shows "quiz_inv db' \<and> frozen db db'"
proof -
  from assms(2) obtain q where q: "owned_pending db k a i now = Inr q"
    and db': "db' = db\<lparr>questions := delete_where (\<lambda>r. qn_id r = i) (questions db)\<rparr>"
    by (auto simp: delete_custom_def bind_exc_Inr_iff)
  have "distinct (map qn_id (questions db))" using assms(1) quiz_okD(3) by (auto simp: quiz_inv_def)
  moreover have "j \<in> qn_id ` set (delete_where (\<lambda>r. qn_id r = i) (questions db)) \<and> intimate_question db' j = intimate_question db j"
    if "linked db j" for j
  proof -
    have "j \<noteq> i" using that owned_pending_Inr [OF q] by blast
    with linked_known [OF assms(1) that] show ?thesis
      by (auto simp: set_delete_where intimate_question_def db' list_ex_iff)
  qed
  ultimately show ?thesis
    unfolding db' by (intro questions_inv [OF assms(1)]) (simp_all add: distinct_delete_where)
qed

section \<open>Every request\<close>

lemma frozen_old_new:
  assumes "quiz_inv db" "materialize_day db m date now fresh = Inr (db', d)"
  shows "frozen db db'"
  using assms(2)
proof (cases rule: materialize_day_cases)
  case (new qs)
  have ok: "quiz_ok db" using assms(1) by (simp add: quiz_inv_def)
  have "qd_id e \<noteq> qd_id d" if "e \<in> set (quiz_days db)" for e
    using that insert_day_Inr(1) [OF new(1)] by (metis imageI)
  then show ?thesis
    using links_of_new_day(4) [OF new(1) ok] insert_day_core(6) [OF new(1)] by (auto simp: frozen_def)
qed simp

lemma frozen_one_day:
  assumes "quiz_ok db" "d \<in> set (quiz_days db)" "qd_revealed_at d = None"
    and "quiz_days db' = update_where (\<lambda>x. qd_id x = qd_id d) f (quiz_days db)"
    and "\<And>i. i \<noteq> qd_id d \<Longrightarrow> day_content db' i = day_content db i"
  shows "frozen db db'"
  unfolding frozen_def
proof (intro ballI impI)
  fix e assume e: "e \<in> set (quiz_days db)" "qd_revealed_at e \<noteq> None"
  then have ne: "qd_id e \<noteq> qd_id d" using same_day [OF quiz_okD(1) [OF assms(1)] e(1) assms(2)] assms(3) by auto
  then have "e \<in> set (quiz_days db')" using e(1) by (auto simp: assms(4) set_update_where)
  with assms(5) [OF ne] show "day_content db' (qd_id e) = day_content db (qd_id e)
      \<and> (\<exists>d' \<in> set (quiz_days db'). qd_id d' = qd_id e \<and> qd_revealed_at d' = qd_revealed_at e)" by blast
qed

lemma save_draft_frozen:
  assumes "quiz_inv db" "d \<in> set (quiz_days db)" "save_draft db d a q op' n answer now = Inr db'"
  shows "frozen db db'"
  using assms(3)
proof (cases rule: save_draft_cases)
  case (2 s db1 rows)
  obtain fs where db1: "db1 = db\<lparr>quiz_drafts := fs\<rparr>" using write_draft_Inr(1) [OF 2(3)] by blast
  have "links_of db1 = links_of db" "states_of db1 = states_of db" by (simp_all add: db1 links_of_def states_of_def fun_eq_iff)
  then show ?thesis
    using assms(1) write_draft_Inr(2) [OF 2(3)]
    by (intro frozen_one_day [OF _ assms(2) require_editable_member_Inr(1) [OF 2(1)]])
      (simp_all add: quiz_inv_def 2(4) db1 day_content_def)
qed simp

lemma completed_frozen:
  assumes "quiz_inv db" "d \<in> set (quiz_days db)" "qd_revealed_at d = None"
    and "db' = (bump_day (set_completed db (qd_id d) p t) (qd_id d) reveal)\<lparr>quiz_operations := rows\<rparr>"
  shows "frozen db db'"
  using assms(1) by (intro frozen_one_day [OF _ assms(2,3)])
    (simp_all add: quiz_inv_def assms(4) day_content_def states_of_set_completed)

lemma finish_day_frozen:
  assumes "quiz_inv db" "d \<in> set (quiz_days db)" "finish_day db d a op' n now = Inr db'"
  shows "frozen db db'"
  using assms(3)
  by (cases rule: finish_day_cases) (auto dest: require_editable_member_Inr(1) intro: completed_frozen [OF assms(1,2)])

lemma reopen_day_frozen:
  assumes "quiz_inv db" "d \<in> set (quiz_days db)" "reopen_day db d a op' n now = Inr db'"
  shows "frozen db db'"
  using assms(3)
  by (cases rule: reopen_day_cases) (auto dest: require_editable_member_Inr(1) intro: completed_frozen [OF assms(1,2)])


lemma quiz_inv_same:
  assumes "quiz_tables db' = quiz_tables db"
  shows "quiz_inv db' = quiz_inv db" "frozen db db'"
  using quiz_inv_tables [OF assms] day_content_tables [OF assms] same_tables(5) [OF assms] by (auto simp: frozen_def)

text \<open>The step the three day routes share: the snapshot, then the mutation.\<close>

lemma materialized:
  assumes "quiz_inv db" "materialize_day db m date now fresh = Inr (db1, d)"
  shows "quiz_inv db1" "d \<in> set (quiz_days db1)" "frozen db db1"
  using materialize_day_inv [OF assms] frozen_old_new [OF assms] by blast+

lemma put_draft_inv:
  assumes "quiz_inv db" "put_draft db a date q op' n answer now fresh = Inr (db', v)"
  shows "quiz_inv db' \<and> frozen db db'"
proof -
  obtain m db1 d where m: "materialize_day db m date now fresh = Inr (db1, d)" and s: "save_draft db1 d a q op' n answer now = Inr db'"
    using assms(2) by (auto simp: put_draft_def bind_exc_Inr_iff)
  show ?thesis
    using save_draft_inv [OF materialized(1,2) [OF assms(1) m] s] save_draft_frozen [OF materialized(1,2) [OF assms(1) m] s]
      frozen_trans [OF materialized(3) [OF assms(1) m]] by blast
qed

lemma reopen_inv:
  assumes "quiz_inv db" "reopen db a date op' n now fresh = Inr (db', v)"
  shows "quiz_inv db' \<and> frozen db db'"
proof -
  obtain m db1 d where m: "materialize_day db m date now fresh = Inr (db1, d)" and s: "reopen_day db1 d a op' n now = Inr db'"
    using assms(2) by (auto simp: reopen_def bind_exc_Inr_iff)
  show ?thesis
    using reopen_day_inv [OF materialized(1,2) [OF assms(1) m] s] reopen_day_frozen [OF materialized(1,2) [OF assms(1) m] s]
      frozen_trans [OF materialized(3) [OF assms(1) m]] by blast
qed

lemma finish_inv:
  assumes "quiz_inv db" "finish db a date op' n now fresh i = Inr (db', v)"
  shows "quiz_inv db' \<and> frozen db db'"
proof -
  obtain m db1 d db2 where m: "materialize_day db m date now fresh = Inr (db1, d)" and s: "finish_day db1 d a op' n now = Inr db2"
    and t: "quiz_tables db' = quiz_tables db2"
    using assms(2) by (auto simp: finish_def bind_exc_Inr_iff Let_def dest!: quiz_tables_finish_alerts split: if_splits)
  have "quiz_inv db2 \<and> frozen db db2"
    using finish_day_inv [OF materialized(1,2) [OF assms(1) m] s] finish_day_frozen [OF materialized(1,2) [OF assms(1) m] s]
      frozen_trans [OF materialized(3) [OF assms(1) m]] by blast
  with quiz_inv_same [OF t] frozen_trans show ?thesis by blast
qed

lemma view_quiz_day_inv:
  assumes "quiz_inv db" "view_quiz_day db a date now fresh = Inr (db', v)"
  shows "quiz_inv db' \<and> frozen db db'"
proof -
  obtain m d where m: "materialize_day db m date now fresh = Inr (db', d)"
    using assms(2) by (auto simp: view_quiz_day_def bind_exc_Inr_iff)
  show ?thesis using materialize_day_inv [OF assms(1) m] frozen_old_new [OF assms(1) m] by blast
qed

lemma serve_quiz_inv:
  assumes "quiz_inv db" "serve_quiz u sha bank zi db call = Inr (db', reply)"
  shows "quiz_inv db' \<and> frozen db db'"
proof -
  obtain r now fresh where c: "call = (r, now, fresh)" by (cases call) auto
  from assms(2) show ?thesis
  proof (cases r)
    case (View_day a date)
    with assms view_quiz_day_inv [OF assms(1)] show ?thesis unfolding c by (auto simp: bind_exc_Inr_iff)
  next
    case (Put_draft a date q op' n answer)
    with assms put_draft_inv [OF assms(1)] show ?thesis unfolding c by (auto simp: bind_exc_Inr_iff)
  next
    case (Finish a date op' n)
    with assms finish_inv [OF assms(1)] show ?thesis unfolding c by (auto simp: bind_exc_Inr_iff)
  next
    case (Reopen a date op' n)
    with assms reopen_inv [OF assms(1)] show ?thesis unfolding c by (auto simp: bind_exc_Inr_iff)
  next
    case (Report a q reason)
    with assms report_question_inv [OF assms(1)] show ?thesis unfolding c by (auto simp: bind_exc_Inr_iff)
  next
    case (Prefer a payload)
    then obtain v where "update_couple_preferences u sha bank zi db a payload now fresh = Inr (db', v)"
      using assms(2) unfolding c by (auto simp: bind_exc_Inr_iff)
    then show ?thesis by (rule update_preferences_inv [OF assms(1)])
  next
    case (Post_custom a payload)
    with assms create_custom_inv [OF assms(1)] show ?thesis unfolding c by (auto simp: post_custom_def bind_exc_Inr_iff)
  next
    case (Put_custom a q payload)
    with assms update_custom_inv [OF assms(1)] show ?thesis unfolding c by (auto simp: put_custom_def bind_exc_Inr_iff)
  next
    case (Remove_custom a q)
    with assms delete_custom_inv [OF assms(1)] show ?thesis unfolding c by (auto simp: remove_custom_def bind_exc_Inr_iff)
  qed
qed

section \<open>Properties\<close>

interpretation quiz: preserving "serve_quiz u sha bank zi" quiz_inv for u sha bank zi
  by unfold_locales (use serve_quiz_inv in blast)

interpretation quiz_reveals: preserving "serve_quiz u sha bank zi" "\<lambda>db. quiz_inv db \<and> frozen db0 db" for u sha bank zi db0
  by unfold_locales (use serve_quiz_inv frozen_trans in blast)

text \<open>
  C7 A quiz day is always a consistent snapshot: whatever requests are served, every day has five
  distinct known questions and its two members, at most one draft per question and member and none for
  anything else; who has finished has answered all five; and it is revealed exactly when both finished.
\<close>

theorem quiz_days_consistent:
  assumes "quiz_inv db"
  shows "quiz_ok (run_ops (serve_quiz u sha bank zi) db calls)"
proof -
  have "quiz_inv (run_ops (serve_quiz u sha bank zi) db calls)" using assms by (rule quiz.inv_run)
  then show ?thesis by (simp add: quiz_inv_def)
qed

text \<open>
  C4 The reveal is final: once the answers of a day are shown, no sequence of requests, reports,
  withdrawals of consent and replays included, changes its questions, who finished it, or any answer.
\<close>

theorem revealed_answers_frozen:
  assumes "quiz_inv db" "d \<in> set (quiz_days db)" "qd_revealed_at d = Some t"
  shows "day_content (run_ops (serve_quiz u sha bank zi) db calls) (qd_id d) = day_content db (qd_id d)
    \<and> (\<exists>d' \<in> set (quiz_days (run_ops (serve_quiz u sha bank zi) db calls)). qd_id d' = qd_id d \<and> qd_revealed_at d' = Some t)"
proof -
  have "frozen db (run_ops (serve_quiz u sha bank zi) db calls)"
    using quiz_reveals.inv_run [of db db u sha bank zi calls] assms(1) by simp
  moreover have "qd_revealed_at d \<noteq> None" using assms(3) by simp
  ultimately show ?thesis using assms(2) unfolding frozen_def assms(3) [symmetric] by blast
qed

text \<open>
  C6 Intimate questions need the consent of both: in whatever state the requests leave, a couple that
  has an unrevealed day with an intimate question is one whose two members both opted in. A withdrawal
  has removed all the others.
\<close>

theorem intimacy_needs_consent:
  assumes "quiz_inv db" "db' = run_ops (serve_quiz u sha bank zi) db calls"
    and "d \<in> set (quiz_days db')" "qd_revealed_at d = None" "l \<in> set (links_of db' (qd_id d))"
    and "q \<in> set (questions db')" "qn_id q = ql_question_id l" "qn_intimacy q"
    and "c \<in> set (couples db')" "cpl_id c = qd_couple_id d" "cpl_ended_at c = None"
  shows "both_members_consent db' (qd_couple_id d) ''intimacy_enabled'' = Inr True"
proof -
  have "quiz_inv db'" unfolding assms(2) using assms(1) by (rule quiz.inv_run)
  then have "consent_ok db'" by (simp add: quiz_inv_def)
  moreover have "couple_live db' (qd_couple_id d)" "exposed db' d"
    using assms(3-11) by (auto simp: couple_live_def exposed_def intimate_question_def list_ex_iff)
  ultimately show ?thesis using assms(3) by (auto simp: consent_ok_def both_consent_def)
qed

section \<open>A withdrawal that fails\<close>

text \<open>
  The fallback looks only at the prompts the day links. One the couple already stores for the date,
  because an earlier replacement was itself replaced, is chosen again, and the index refuses it.
\<close>

lemma withdrawal_hits_stored_prompt:
  assumes "global_replacement db d k False = None"
    and "scalar (\<lambda>item. \<not> ca_intimacy item
        \<and> normalized_hash u sha (ca_prompt item) \<notin> qn_normalized_hash ` set (select (\<lambda>q. qn_id q \<in> used_ids db (qd_id d)) (questions db))) bank
      = Some item"
    and "q \<in> set (questions db)" "question_scope q = (qd_quiz_date d, Some k, normalized_hash u sha (ca_prompt item))"
  shows "general_replacement u sha bank db d k fresh = Inl IntegrityError"
proof -
  have "question_scope (bank_question u sha item fresh (qd_quiz_date d) k False ''consent_fallback'') \<in> question_scope ` set (questions db)"
    using assms(3,4) by (auto simp: image_iff intro!: bexI [of _ q])
  then show ?thesis
    unfolding general_replacement_def Let_def assms(1,2) option.case by (simp add: insert_question_def insert_unique_def)
qed

section \<open>Witnesses\<close>

text \<open>Couple 7 on day 0, with an intimate question; and the same day after both answered.\<close>

definition orbit_question :: "uuid \<Rightarrow> bool \<Rightarrow> question" where
  "orbit_question i intimate =
     \<lparr>qn_id = i, qn_publish_date = 0, qn_kind = ''free_text'', qn_prompt = [97 + i, 63], qn_category = ''playful'',
      qn_intimacy = intimate, qn_options = [], qn_option_icons = [], qn_scale_low_label = None, qn_scale_high_label = None,
      qn_interaction_version = 2, qn_display_order = Some (int i), qn_custom_slot = None, qn_surprise = False,
      qn_source = ''ai'', qn_normalized_hash = [char_of i], qn_couple_id = None, qn_created_by = None, qn_disabled_at = None\<rparr>"

definition orbit_draft :: "uuid \<Rightarrow> uuid \<Rightarrow> quiz_draft" where
  "orbit_draft a i = \<lparr>qf_quiz_day_id = 70, qf_question_id = i, qf_account_id = a, qf_answer = Free_text [a, i], qf_revision = 1,
     qf_updated_at = 0\<rparr>"

definition orbit_quiz :: "instant option \<Rightarrow> quiz_draft list \<Rightarrow> quiz_db" where
  "orbit_quiz done drafts = pairing_db.extend orbit_pairing
     \<lparr>questions = map (\<lambda>i. orbit_question i (i = 85)) [81, 82, 83, 84, 85],
      quiz_days = [\<lparr>qd_id = 70, qd_couple_id = 7, qd_quiz_date = 0, qd_revision = 0, qd_revealed_at = done, qd_created_at = 0\<rparr>],
      quiz_day_questions = map (\<lambda>i. \<lparr>ql_quiz_day_id = 70, ql_question_id = i, ql_position = i - 80\<rparr>) [81, 82, 83, 84, 85],
      quiz_day_members = map (\<lambda>a. \<lparr>qm_quiz_day_id = 70, qm_account_id = a, qm_completed_at = done\<rparr>) [11, 12],
      quiz_drafts = drafts, quiz_operations = [], question_reports = []\<rparr>"

definition orbit_answers :: "quiz_draft list" where
  "orbit_answers = map (orbit_draft 11) [81, 82, 83, 84, 85] @ map (orbit_draft 12) [81, 82, 83, 84, 85]"

lemma orbit_quiz_fields [simp]:
  "members (orbit_quiz t fs) = members orbit_core" "couples (orbit_quiz t fs) = couples orbit_core"
  "accounts (orbit_quiz t fs) = accounts orbit_pairing"
  "questions (orbit_quiz t fs) = map (\<lambda>i. orbit_question i (i = 85)) [81, 82, 83, 84, 85]"
  "quiz_days (orbit_quiz t fs)
     = [\<lparr>qd_id = 70, qd_couple_id = 7, qd_quiz_date = 0, qd_revision = 0, qd_revealed_at = t, qd_created_at = 0\<rparr>]"
  "quiz_day_questions (orbit_quiz t fs)
     = map (\<lambda>i. \<lparr>ql_quiz_day_id = 70, ql_question_id = i, ql_position = i - 80\<rparr>) [81, 82, 83, 84, 85]"
  "quiz_day_members (orbit_quiz t fs) = map (\<lambda>a. \<lparr>qm_quiz_day_id = 70, qm_account_id = a, qm_completed_at = t\<rparr>) [11, 12]"
  "quiz_drafts (orbit_quiz t fs) = fs" "quiz_operations (orbit_quiz t fs) = []" "question_reports (orbit_quiz t fs) = []"
  using orbit_pairing_fields
  by (simp_all add: orbit_quiz_def pairing_db.extend_def del: list.map upt_conv_Cons)

lemma orbit_both_consent: "both_consent (orbit_quiz t fs) 7"
  by (simp add: both_consent_alt members_of_def active_members_def is_active_def orbit_core_def)

lemma orbit_quiz_inv: "quiz_inv (orbit_quiz None [])" "quiz_inv (orbit_quiz (Some 0) orbit_answers)"
proof -
  have "core_ok (orbit_quiz t fs)" for t fs
    using orbit_core_ok by (subst core_ok_same [of _ orbit_pairing]) simp_all
  moreover have "consent_ok (orbit_quiz t fs)" for t fs using orbit_both_consent [of t fs] by (simp add: consent_ok_def)
  moreover have "quiz_ok (orbit_quiz None [])" "quiz_ok (orbit_quiz (Some 0) orbit_answers)"
    by (simp_all add: quiz_ok_def day_ok_def links_of_def states_of_def drafts_of_def orbit_question_def orbit_answers_def
        orbit_draft_def day_slot_def)
  ultimately show "quiz_inv (orbit_quiz None [])" "quiz_inv (orbit_quiz (Some 0) orbit_answers)" by (simp_all add: quiz_inv_def)
qed

definition orbit_unicode :: folding_unicode where
  "orbit_unicode = unicode.extend plain_unicode \<lparr>casefold = id\<rparr>"

abbreviation orbit_serve :: "quiz_db \<Rightarrow> quiz_call \<Rightarrow> exc + quiz_db \<times> quiz_reply" where
  "orbit_serve \<equiv> serve_quiz orbit_unicode (\<lambda>_. ''d'') [] (\<lambda>_. Inr ())"

theorem quiz_days_consistent_witness:
  "quiz_ok (run_ops orbit_serve (orbit_quiz None [])
     [(Put_draft 11 0 81 1 0 (Free_text [104]), hour, \<lambda>_. 90), (Finish 11 0 2 1, hour, \<lambda>_. 91)])"
  by (rule quiz_days_consistent [OF orbit_quiz_inv(1)])

theorem revealed_answers_frozen_witness:
  "drafts_of (run_ops orbit_serve (orbit_quiz (Some 0) orbit_answers)
     [(Put_draft 11 0 81 1 0 (Free_text [104]), hour, \<lambda>_. 90), (Report 12 85 ''unsafe'', hour, \<lambda>_. 91)]) 70 = orbit_answers"
  (is "drafts_of ?db 70 = _")
proof -
  have "day_content ?db (qd_id (hd (quiz_days (orbit_quiz (Some 0) orbit_answers))))
      = day_content (orbit_quiz (Some 0) orbit_answers) (qd_id (hd (quiz_days (orbit_quiz (Some 0) orbit_answers))))"
    by (rule conjunct1 [OF revealed_answers_frozen [OF orbit_quiz_inv(2)]]) simp_all
  moreover have "drafts_of (orbit_quiz (Some 0) orbit_answers) 70 = orbit_answers"
    by (simp add: drafts_of_def orbit_answers_def orbit_draft_def)
  ultimately show ?thesis by (simp add: day_content_def)
qed

lemma orbit_views: "step orbit_serve (orbit_quiz None []) (View_day 11 0, hour, \<lambda>_. 90) = orbit_quiz None []"
proof (rule step_cases [of orbit_serve "orbit_quiz None []" "(View_day 11 0, hour, \<lambda>_. 90)"])
  fix r assume "orbit_serve (orbit_quiz None []) (View_day 11 0, hour, \<lambda>_. 90)
      = Inr (step orbit_serve (orbit_quiz None []) (View_day 11 0, hour, \<lambda>_. 90), r)"
  then obtain m d v where m: "active_member (orbit_quiz None []) 11 = Inr m"
    and d: "materialize_day (orbit_quiz None []) m 0 hour 90
      = Inr (step orbit_serve (orbit_quiz None []) (View_day 11 0, hour, \<lambda>_. 90), d)"
    by (auto simp: view_quiz_day_def bind_exc_Inr_iff)
  have "mem_couple_id m = 7" using m by (auto simp: active_member_def orbit_core_def split: option.splits if_splits dest: scalar_Some)
  with d show ?thesis by (auto simp: materialize_day_def bind_exc_Inr_iff)
qed

theorem intimacy_needs_consent_witness:
  "both_members_consent (run_ops orbit_serve (orbit_quiz None []) [(View_day 11 0, hour, \<lambda>_. 90)]) 7 ''intimacy_enabled'' = Inr True"
proof -
  have run: "run_ops orbit_serve (orbit_quiz None []) [(View_day 11 0, hour, \<lambda>_. 90)] = orbit_quiz None []"
    by (simp only: run_ops.simps orbit_views)
  have "both_members_consent (orbit_quiz None []) (qd_couple_id (hd (quiz_days (orbit_quiz None [])))) ''intimacy_enabled'' = Inr True"
    by (rule intimacy_needs_consent [OF orbit_quiz_inv(1) run [symmetric],
        where l = "\<lparr>ql_quiz_day_id = 70, ql_question_id = 85, ql_position = 5\<rparr>" and q = "orbit_question 85 True"
          and c = "hd (couples orbit_core)"])
      (simp_all add: links_of_def orbit_question_def orbit_core_def)
  then show ?thesis unfolding run by simp
qed

end
