(* ===== verification/Quiz_Secrecy.thy ===== *)
theory Quiz_Secrecy
  imports Quiz_Privacy
begin

text \<open>
  The secrecy of answers before the reveal, as noninterference: two histories that differ only in what
  the partner answered are the same to a member, except for the partner answers of revealed days.
\<close>

section \<open>Noninterference\<close>

text \<open>The outcomes of a history of requests; one that raises is rolled back.\<close>

fun outcomes :: "('db \<Rightarrow> 'op \<Rightarrow> exc + 'db \<times> 'r) \<Rightarrow> 'db \<Rightarrow> 'op list \<Rightarrow> (exc + 'r) list" where
  "outcomes handle db [] = []"
| "outcomes handle db (op # ops) = map_sum id snd (handle db op) # outcomes handle (step handle db op) ops"

lemma length_outcomes [simp]: "length (outcomes handle db ops) = length ops"
  by (induction ops arbitrary: db) simp_all

text \<open>
  \<open>alike\<close>: states an observer cannot tell apart; \<open>same_call\<close>: requests that differ in secrets only;
  \<open>seen op\<close>: what the observer learns from the outcome of \<open>op\<close>. A request the observer knows
  respects the relation, and one with another secret does when both are accepted.
\<close>

locale noninterfering =
  fixes handle :: "'db \<Rightarrow> 'op \<Rightarrow> exc + 'db \<times> 'r"
    and alike :: "'db \<Rightarrow> 'db \<Rightarrow> bool"
    and same_call :: "'op \<Rightarrow> 'op \<Rightarrow> bool"
    and seen :: "'op \<Rightarrow> exc + 'r \<Rightarrow> 'v"
  assumes respects: "alike db db' \<Longrightarrow> alike (step handle db op) (step handle db' op)"
    and shows_alike: "alike db db' \<Longrightarrow>
      seen op (map_sum id snd (handle db op)) = seen op (map_sum id snd (handle db' op))"
    and secrets: "alike db db' \<Longrightarrow> same_call op op' \<Longrightarrow> op \<noteq> op' \<Longrightarrow> handle db op = Inr (d, r) \<Longrightarrow> handle db' op' = Inr (d', r')
      \<Longrightarrow> alike d d' \<and> seen op (Inr r) = seen op (Inr r')"
begin

lemma unwinding:
  assumes "alike db db'" "list_all2 same_call ops ops'"
    and "\<And>i. i < length ops \<Longrightarrow> ops ! i \<noteq> ops' ! i \<Longrightarrow>
      \<not> isl (outcomes handle db ops ! i) \<and> \<not> isl (outcomes handle db' ops' ! i)"
    and "i < length ops"
  shows "seen (ops ! i) (outcomes handle db ops ! i) = seen (ops ! i) (outcomes handle db' ops' ! i)"
  using assms(2,1,3,4)
proof (induction arbitrary: db db' i rule: list_all2_induct)
  case (Cons op ops op' ops')
  have head: "alike (step handle db op) (step handle db' op')
      \<and> seen op (map_sum id snd (handle db op)) = seen op (map_sum id snd (handle db' op'))"
  proof (cases "op = op'")
    case True
    then show ?thesis using respects [OF Cons.prems(1)] shows_alike [OF Cons.prems(1)] by simp
  next
    case False
    with Cons.prems(2) [of 0] obtain d r d' r' where "handle db op = Inr (d, r)" "handle db' op' = Inr (d', r')"
      by (cases "handle db op"; cases "handle db' op'") auto
    with secrets [OF Cons.prems(1) Cons.hyps(1) False] show ?thesis by (simp add: step_def)
  qed
  have rest: "\<not> isl (outcomes handle (step handle db op) ops ! j) \<and> \<not> isl (outcomes handle (step handle db' op') ops' ! j)"
    if "j < length ops" "ops ! j \<noteq> ops' ! j" for j
    using Cons.prems(2) [of "Suc j"] that by simp
  show ?case
    using head Cons.IH [OF conjunct1 [OF head] rest] Cons.prems(3) by (cases i) auto
qed simp

end

section \<open>Databases that differ in hidden answers\<close>

text \<open>Drafts of members other than \<open>a\<close> may hold other answers.\<close>

definition same_draft :: "uuid \<Rightarrow> quiz_draft \<Rightarrow> quiz_draft \<Rightarrow> bool" where
  "same_draft a f g \<longleftrightarrow> g = f\<lparr>qf_answer := qf_answer g\<rparr> \<and> (qf_account_id f = a \<longrightarrow> g = f)"

definition same_drafts :: "uuid \<Rightarrow> quiz_draft list \<Rightarrow> quiz_draft list \<Rightarrow> bool" where
  "same_drafts a fs gs \<longleftrightarrow> list_all2 (same_draft a) fs gs"

definition alike :: "uuid \<Rightarrow> 'a quiz_db_scheme \<Rightarrow> 'a quiz_db_scheme \<Rightarrow> bool" where
  "alike a db db' \<longleftrightarrow> db' = db\<lparr>quiz_drafts := quiz_drafts db'\<rparr> \<and> same_drafts a (quiz_drafts db) (quiz_drafts db')"

lemma same_draft_simps:
  assumes "same_draft a f g"
  shows "qf_quiz_day_id g = qf_quiz_day_id f" "qf_question_id g = qf_question_id f" "qf_account_id g = qf_account_id f"
    "qf_revision g = qf_revision f" "qf_updated_at g = qf_updated_at f" "draft_key g = draft_key f"
    "qf_account_id f = a \<Longrightarrow> qf_answer g = qf_answer f"
proof -
  have g: "g = f\<lparr>qf_answer := qf_answer g\<rparr>" using assms by (simp add: same_draft_def)
  show "qf_quiz_day_id g = qf_quiz_day_id f" "qf_question_id g = qf_question_id f" "qf_account_id g = qf_account_id f"
    "qf_revision g = qf_revision f" "qf_updated_at g = qf_updated_at f" "draft_key g = draft_key f"
    by (subst g, simp add: draft_key_def)+
  show "qf_account_id f = a \<Longrightarrow> qf_answer g = qf_answer f" using assms by (simp add: same_draft_def)
qed

lemma same_draft_iff:
  "same_draft a f g \<longleftrightarrow> qf_quiz_day_id g = qf_quiz_day_id f \<and> qf_question_id g = qf_question_id f
     \<and> qf_account_id g = qf_account_id f \<and> qf_revision g = qf_revision f \<and> qf_updated_at g = qf_updated_at f
     \<and> (qf_account_id f = a \<longrightarrow> qf_answer g = qf_answer f)"
  by (cases f; cases g) (auto simp: same_draft_def)

lemma same_drafts_filter:
  assumes "same_drafts a fs gs" "\<And>f g. same_draft a f g \<Longrightarrow> p g = p f"
  shows "same_drafts a (filter p fs) (filter p gs)"
  using assms(1) unfolding same_drafts_def by (induction rule: list_all2_induct) (auto dest: assms(2))

lemma same_drafts_scalar:
  assumes "same_drafts a fs gs" "\<And>f g. same_draft a f g \<Longrightarrow> p g = p f"
  shows "rel_option (same_draft a) (scalar p fs) (scalar p gs)"
  using assms(1) unfolding same_drafts_def by (induction rule: list_all2_induct) (auto simp: assms(2))

lemma same_drafts_list_ex:
  assumes "same_drafts a fs gs" "\<And>f g. same_draft a f g \<Longrightarrow> p g = p f"
  shows "list_ex p gs = list_ex p fs"
  using assms(1) unfolding same_drafts_def by (induction rule: list_all2_induct) (auto simp: assms(2))

lemma same_drafts_rev: "same_drafts a fs gs \<Longrightarrow> same_drafts a (rev fs) (rev gs)"
  by (simp add: same_drafts_def)

lemma same_drafts_length: "same_drafts a fs gs \<Longrightarrow> length gs = length fs"
  by (auto simp: same_drafts_def dest: list_all2_lengthD)

lemma same_drafts_refl [simp]: "same_drafts a fs fs"
  by (simp add: same_drafts_def list_all2_refl same_draft_def)


lemma alikeE:
  assumes "alike a db db'"
  obtains gs where "db' = db\<lparr>quiz_drafts := gs\<rparr>" "same_drafts a (quiz_drafts db) gs"
  using assms unfolding alike_def by metis

lemma alike_fields:
  assumes "alike a db db'"
  shows "accounts db' = accounts db" "couples db' = couples db" "members db' = members db" "activity_events db' = activity_events db"
    "preferences db' = preferences db" "devices db' = devices db" "events db' = events db" "deliveries db' = deliveries db"
    "location_samples db' = location_samples db" "questions db' = questions db" "quiz_days db' = quiz_days db"
    "quiz_day_questions db' = quiz_day_questions db" "quiz_day_members db' = quiz_day_members db"
    "quiz_operations db' = quiz_operations db" "question_reports db' = question_reports db"
  using assms by (auto elim!: alikeE)

lemma alike_drafts: "alike a db db' \<Longrightarrow> same_drafts a (quiz_drafts db) (quiz_drafts db')"
  by (simp add: alike_def)

lemma alikeI: "same_drafts a (quiz_drafts db) gs \<Longrightarrow> alike a db (db\<lparr>quiz_drafts := gs\<rparr>)"
  by (simp add: alike_def)

lemma alike_refl: "alike a db db"
  by (simp add: alike_def)

lemma alike_updates:
  assumes "alike a db db'"
  shows "alike a (db\<lparr>couples := x1\<rparr>) (db'\<lparr>couples := x1\<rparr>)" "alike a (db\<lparr>members := x2\<rparr>) (db'\<lparr>members := x2\<rparr>)"
    "alike a (db\<lparr>activity_events := x3\<rparr>) (db'\<lparr>activity_events := x3\<rparr>)" "alike a (db\<lparr>preferences := x4\<rparr>) (db'\<lparr>preferences := x4\<rparr>)"
    "alike a (db\<lparr>events := x5\<rparr>) (db'\<lparr>events := x5\<rparr>)" "alike a (db\<lparr>deliveries := x6\<rparr>) (db'\<lparr>deliveries := x6\<rparr>)"
    "alike a (db\<lparr>location_samples := x7\<rparr>) (db'\<lparr>location_samples := x7\<rparr>)" "alike a (db\<lparr>questions := x8\<rparr>) (db'\<lparr>questions := x8\<rparr>)"
    "alike a (db\<lparr>quiz_days := x9\<rparr>) (db'\<lparr>quiz_days := x9\<rparr>)" "alike a (db\<lparr>quiz_day_questions := x10\<rparr>) (db'\<lparr>quiz_day_questions := x10\<rparr>)"
    "alike a (db\<lparr>quiz_day_members := x11\<rparr>) (db'\<lparr>quiz_day_members := x11\<rparr>)"
    "alike a (db\<lparr>quiz_operations := x12\<rparr>) (db'\<lparr>quiz_operations := x12\<rparr>)"
    "alike a (db\<lparr>question_reports := x13\<rparr>) (db'\<lparr>question_reports := x13\<rparr>)"
proof -
  obtain gs where gs: "db' = db\<lparr>quiz_drafts := gs\<rparr>" "same_drafts a (quiz_drafts db) gs" by (rule alikeE [OF assms])
  show "alike a (db\<lparr>couples := x1\<rparr>) (db'\<lparr>couples := x1\<rparr>)" using gs(2) by (simp add: gs(1) alike_def)
  show "alike a (db\<lparr>members := x2\<rparr>) (db'\<lparr>members := x2\<rparr>)" using gs(2) by (simp add: gs(1) alike_def)
  show "alike a (db\<lparr>activity_events := x3\<rparr>) (db'\<lparr>activity_events := x3\<rparr>)" using gs(2) by (simp add: gs(1) alike_def)
  show "alike a (db\<lparr>preferences := x4\<rparr>) (db'\<lparr>preferences := x4\<rparr>)" using gs(2) by (simp add: gs(1) alike_def)
  show "alike a (db\<lparr>events := x5\<rparr>) (db'\<lparr>events := x5\<rparr>)" using gs(2) by (simp add: gs(1) alike_def)
  show "alike a (db\<lparr>deliveries := x6\<rparr>) (db'\<lparr>deliveries := x6\<rparr>)" using gs(2) by (simp add: gs(1) alike_def)
  show "alike a (db\<lparr>location_samples := x7\<rparr>) (db'\<lparr>location_samples := x7\<rparr>)" using gs(2) by (simp add: gs(1) alike_def)
  show "alike a (db\<lparr>questions := x8\<rparr>) (db'\<lparr>questions := x8\<rparr>)" using gs(2) by (simp add: gs(1) alike_def)
  show "alike a (db\<lparr>quiz_days := x9\<rparr>) (db'\<lparr>quiz_days := x9\<rparr>)" using gs(2) by (simp add: gs(1) alike_def)
  show "alike a (db\<lparr>quiz_day_questions := x10\<rparr>) (db'\<lparr>quiz_day_questions := x10\<rparr>)" using gs(2) by (simp add: gs(1) alike_def)
  show "alike a (db\<lparr>quiz_day_members := x11\<rparr>) (db'\<lparr>quiz_day_members := x11\<rparr>)" using gs(2) by (simp add: gs(1) alike_def)
  show "alike a (db\<lparr>quiz_operations := x12\<rparr>) (db'\<lparr>quiz_operations := x12\<rparr>)" using gs(2) by (simp add: gs(1) alike_def)
  show "alike a (db\<lparr>question_reports := x13\<rparr>) (db'\<lparr>question_reports := x13\<rparr>)" using gs(2) by (simp add: gs(1) alike_def)
qed

lemma alike_write_drafts:
  assumes "alike a db db'" "same_drafts a fs gs"
  shows "alike a (db\<lparr>quiz_drafts := fs\<rparr>) (db'\<lparr>quiz_drafts := gs\<rparr>)"
proof -
  obtain hs where "db' = db\<lparr>quiz_drafts := hs\<rparr>" by (rule alikeE [OF assms(1)])
  with assms(2) show ?thesis by (simp add: alike_def)
qed

section \<open>Results\<close>

text \<open>The same error, or the same reply over databases that are alike.\<close>

abbreviation respected :: "uuid \<Rightarrow> exc + 'a quiz_db_scheme \<times> 'r \<Rightarrow> exc + 'a quiz_db_scheme \<times> 'r \<Rightarrow> bool" where
  "respected a \<equiv> rel_sum (=) (rel_prod (alike a) (=))"

abbreviation respected_db :: "uuid \<Rightarrow> exc + 'a quiz_db_scheme \<Rightarrow> exc + 'a quiz_db_scheme \<Rightarrow> bool" where
  "respected_db a \<equiv> rel_sum (=) (alike a)"

lemma bind_rel:
  "rel_sum (=) R r r' \<Longrightarrow> (\<And>x x'. R x x' \<Longrightarrow> rel_sum (=) S (k x) (k' x')) \<Longrightarrow> rel_sum (=) S (bind_exc r k) (bind_exc r' k')"
  by (cases r; cases r') auto

lemma bind_rel_same:
  "(\<And>x. rel_sum (=) S (k x) (k' x)) \<Longrightarrow> rel_sum (=) S (bind_exc r k) (bind_exc r k')"
  by (cases r) auto

lemma respects_if:
  "(p \<Longrightarrow> rel_sum (=) R x x') \<Longrightarrow> (\<not> p \<Longrightarrow> rel_sum (=) R y y') \<Longrightarrow> rel_sum (=) R (if p then x else y) (if p then x' else y')"
  by simp

lemma respects_option:
  "(o' = None \<Longrightarrow> rel_sum (=) R x x') \<Longrightarrow> (\<And>v. o' = Some v \<Longrightarrow> rel_sum (=) R (f v) (f' v))
    \<Longrightarrow> rel_sum (=) R (case o' of None \<Rightarrow> x | Some v \<Rightarrow> f v) (case o' of None \<Rightarrow> x' | Some v \<Rightarrow> f' v)"
  by (cases o') simp_all

section \<open>What does not read drafts\<close>

lemma alike_reads:
  assumes "alike a db db'"
  shows "active_member db' b = active_member db b" "lock_couple db' k = lock_couple db k"
    "both_members_consent db' k c = both_members_consent db k c" "partner_id_for db' k b = partner_id_for db k b"
    "find_day db' i = find_day db i" "links_of db' i = links_of db i" "states_of db' i = states_of db i"
    "linked db' i = linked db i" "operation_exists db' k b op' = operation_exists db k b op'"
    "reported db' k i = reported db k i" "max_sequence db' k = max_sequence db k"
  unfolding active_member_def lock_couple_def both_members_consent_def partner_id_for_def find_day_def links_of_def states_of_def
    linked_def operation_exists_def reported_def max_sequence_def alike_fields [OF assms] by (rule refl)+

lemma alike_reads_more:
  assumes "alike a db db'"
  shows "questions_for_day db' k date = questions_for_day db k date" "day_rows db' i = day_rows db i"
    "current_day db' d = current_day db d" "used_ids db' i = used_ids db i"
    "intimate_rows db' k = intimate_rows db k" "report_target db' k i = report_target db k i"
    "couple_preferences db' m = couple_preferences db m" "owned_pending db' k b i now = owned_pending db k b i now"
    "global_replacement db' d k b' = global_replacement db d k b'"
  unfolding questions_for_day_def due_custom_questions_def day_rows_def current_day_def used_ids_def intimate_rows_def report_target_def
    couple_preferences_def owned_pending_def global_replacement_def alike_reads [OF assms] alike_fields [OF assms] by (rule refl)+

lemma alike_next_slot:
  assumes "alike a db db'"
  shows "next_slot db' k date = next_slot db k date"
proof -
  have "slot_within n db' k date = slot_within n db k date" for n date
    by (induction n arbitrary: date) (simp_all add: taken_slots_def alike_fields [OF assms] split: option.splits)
  then show ?thesis by (simp add: next_slot_def)
qed

section \<open>Activity and alerts\<close>

lemma respects_activity: "alike a db db' \<Longrightarrow> alike a (record_activity db e) (record_activity db' e)"
  unfolding record_activity_def Let_def
  by (auto simp: alike_fields alike_reads alike_updates split: option.splits)

lemma respects_preferences_for:
  assumes "alike a db db'"
  shows "respected a (preferences_for db b now) (preferences_for db' b now)"
  unfolding preferences_for_def Let_def alike_fields [OF assms]
  by (simp add: alike_updates [OF assms] split: option.splits)

lemma respects_publish:
  assumes "alike a db db'"
  shows "respected a (publish db e now) (publish db' e now)"
  unfolding publish_def alike_fields [OF assms]
  by (intro bind_rel_same) (simp add: create_active_deliveries_def insert_deliveries_def alike_fields [OF assms] alike_updates assms)

lemma respects_quiz_event:
  assumes "alike a db db'"
  shows "respected a (enqueue_quiz_event db now i k q d r b kind) (enqueue_quiz_event db' now i k q d r b kind)"
  unfolding enqueue_quiz_event_def enqueue_partner_event_def
  by (rule bind_rel [OF respects_preferences_for [OF assms]])
    (auto simp: alike_fields intro!: respects_publish split: option.splits)

lemma respects_delete_events: "alike a db db' \<Longrightarrow> alike a (delete_events p db) (delete_events p db')"
  by (simp add: delete_events_def Let_def alike_fields alike_updates)

lemma respects_finish_alerts:
  assumes "alike a db db'"
  shows "respected a (finish_alerts db d b now i) (finish_alerts db' d b now i)"
  unfolding finish_alerts_def alike_reads [OF assms]
proof (rule bind_rel)
  show "respected a (case partner_id_for db (qd_couple_id d) b of None \<Rightarrow> Inr (db, None)
      | Some x \<Rightarrow> enqueue_quiz_event db now i (qd_couple_id d) (qd_id d) (qd_quiz_date d) x (Some b) kind)
    (case partner_id_for db (qd_couple_id d) b of None \<Rightarrow> Inr (db', None)
      | Some x \<Rightarrow> enqueue_quiz_event db' now i (qd_couple_id d) (qd_id d) (qd_quiz_date d) x (Some b) kind)" for kind
    using assms by (auto intro: respects_quiz_event split: option.splits)
qed (auto intro: respects_delete_events)

section \<open>Days\<close>

lemma respects_materialize:
  assumes "alike a db db'"
  shows "respected a (materialize_day db m date now fresh) (materialize_day db' m date now fresh)"
proof -
  have ins: "respected_db a (insert_day db d qs) (insert_day db' d qs)" for d qs
    unfolding insert_day_def Let_def alike_fields [OF assms]
    by (intro bind_rel_same) (simp only: rel_sum_simps alike_updates assms)
  show ?thesis
    unfolding materialize_day_def alike_reads [OF assms] alike_reads_more [OF assms] alike_fields [OF assms] Let_def
    by (intro bind_rel_same respects_option; (rule bind_rel [OF ins])?; simp add: assms)
qed

lemma alike_bump: "alike a db db' \<Longrightarrow> alike a (bump_day db i t) (bump_day db' i t)"
  by (simp add: bump_day_def alike_fields alike_updates)

lemma alike_set_completed: "alike a db db' \<Longrightarrow> alike a (set_completed db i p t) (set_completed db' i p t)"
  by (simp add: set_completed_def alike_fields alike_updates)

lemma respects_record_operation:
  assumes "alike a db db'"
  shows "respected_db a (record_quiz_operation db k b op' act d now) (record_quiz_operation db' k b op' act d now)"
  unfolding record_quiz_operation_def alike_fields [OF assms] by (intro bind_rel_same) (simp add: alike_updates assms)

lemma alike_require:
  "alike a db db' \<Longrightarrow> require_editable_member db' d b f now = require_editable_member db d b f now"
  by (simp add: require_editable_member_def alike_reads)

text \<open>The drafts of one member, as the finish counts them.\<close>

lemma alike_count:
  assumes "alike a db db'"
  shows "length (filter (\<lambda>f. qf_account_id f = b) (drafts_of db' i)) = length (filter (\<lambda>f. qf_account_id f = b) (drafts_of db i))"
  unfolding drafts_of_def
  by (rule same_drafts_length [of a], intro same_drafts_filter, rule alike_drafts [OF assms]) (simp_all add: same_draft_simps)

lemma respects_finish_day:
  assumes "alike a db db'"
  shows "respected_db a (finish_day db d b op' n now) (finish_day db' d b op' n now)"
proof -
  note c = alike_set_completed [OF assms]
  show ?thesis
    unfolding finish_day_def Let_def alike_reads [OF assms] alike_require [OF assms] alike_count [OF assms] alike_reads [OF c]
    using assms by (auto intro!: bind_rel_same respects_record_operation alike_bump c)
qed

lemma respects_reopen_day:
  assumes "alike a db db'"
  shows "respected_db a (reopen_day db d b op' n now) (reopen_day db' d b op' n now)"
  unfolding reopen_day_def alike_reads [OF assms] alike_require [OF assms]
  using assms by (auto intro!: bind_rel_same respects_record_operation alike_bump alike_set_completed)


section \<open>Replacing questions\<close>

lemma alike_swap:
  assumes "alike a db db'"
  shows "alike a (swap_question db i old new) (swap_question db' i old new)"
  unfolding swap_question_def alike_fields [OF assms] delete_where_def
  by (intro alike_bump alike_set_completed alike_write_drafts alike_updates assms same_drafts_filter alike_drafts [OF assms])
    (simp add: same_draft_simps)

lemma respects_add_question:
  "alike a db db' \<Longrightarrow> respected a (bind_exc (insert_question q (questions db)) (\<lambda>rows. Inr (db\<lparr>questions := rows\<rparr>, x)))
     (bind_exc (insert_question q (questions db')) (\<lambda>rows. Inr (db'\<lparr>questions := rows\<rparr>, x)))"
  by (simp add: alike_fields alike_updates bind_rel_same)

lemma respects_general_replacement:
  assumes "alike a db db'"
  shows "respected a (general_replacement u sha bank db d k fresh) (general_replacement u sha bank db' d k fresh)"
  unfolding general_replacement_def Let_def alike_reads_more [OF assms] alike_fields(10) [OF assms, symmetric]
  by (intro respects_option)
    (use assms respects_add_question [OF assms] in \<open>simp_all add: alike_fields [OF assms]\<close>)

lemma respects_curated_replacement:
  assumes "alike a db db'"
  shows "respected a (curated_replacement u sha bank db date k b fresh) (curated_replacement u sha bank db' date k b fresh)"
proof (induction bank)
  case (Cons item bank)
  then show ?case
    unfolding curated_replacement.simps Let_def alike_fields [OF assms]
    by (intro respects_if) (use respects_add_question [OF assms] in \<open>simp_all add: alike_fields [OF assms]\<close>)
qed simp

lemma respects_revoke_rows:
  "alike a db db' \<Longrightarrow> respected_db a (revoke_rows u sha bank k fresh i rows db) (revoke_rows u sha bank k fresh i rows db')"
proof (induction rows arbitrary: i db db')
  case (Cons row rows)
  show ?case
    by (cases row) (auto intro!: bind_rel [OF respects_general_replacement [OF Cons.prems]] Cons.IH alike_swap)
qed simp

lemma respects_replace_reported:
  assumes "alike a db db'"
  shows "respected_db a (replace_reported u sha bank db d old k fresh) (replace_reported u sha bank db' d old k fresh)"
  unfolding replace_reported_def alike_reads [OF assms] alike_reads_more [OF assms]
  by (intro bind_rel_same bind_rel [where R = "rel_prod (alike a) (=)"] respects_option respects_curated_replacement assms)
    (auto intro: alike_swap assms)

section \<open>Preferences, reports and custom questions\<close>

lemma respects_preferences:
  assumes "alike a db db'"
  shows "respected a (update_couple_preferences u sha bank zi db b payload now fresh)
    (update_couple_preferences u sha bank zi db' b payload now fresh)"
proof -
  have intimacy: "respected_db a (apply_intimacy u sha bank db m choice fresh) (apply_intimacy u sha bank db' m choice fresh)" for m choice
    unfolding apply_intimacy_def Let_def alike_fields [OF assms]
  proof (intro respects_option respects_if)
    fix v
    let ?up = "members_update (\<lambda>_. update_where (own_row m) (\<lambda>x. x\<lparr>mem_intimacy_enabled := v\<rparr>) (members db))"
    have al: "alike a (?up db) (?up db')" by (rule alike_updates(2) [OF assms])
    show "respected_db a (Inr (?up db)) (Inr (?up db'))" using al by simp
    show "respected_db a (revoke_unrevealed_intimacy u sha bank (?up db) (mem_couple_id m) fresh)
        (revoke_unrevealed_intimacy u sha bank (?up db') (mem_couple_id m) fresh)"
      unfolding revoke_unrevealed_intimacy_def alike_reads_more [OF al] by (rule respects_revoke_rows [OF al])
  qed (simp add: assms)
  have location: "alike a (apply_location db1 m choice) (apply_location db1' m choice)" if "alike a db1 db1'" for db1 db1' m choice
    using that by (auto simp: apply_location_def Let_def alike_fields alike_updates split: option.splits)
  show ?thesis
    unfolding update_couple_preferences_def Let_def alike_reads [OF assms]
  proof (intro bind_rel_same bind_rel [OF intimacy])
    fix m c db1 db1' x y
    assume "alike a db1 db1'"
    then have al: "alike a (apply_location db1 m x) (apply_location db1' m x)" by (rule location)
    have al': "alike a ((apply_location db1 m x)\<lparr>couples := rows\<rparr>) ((apply_location db1' m x)\<lparr>couples := rows\<rparr>)" for rows
      by (rule alike_updates(1) [OF al])
    show "respected a
        (bind_exc (couple_preferences ((apply_location db1 m x)\<lparr>couples := update_where p f (couples (apply_location db1 m x))\<rparr>) n)
          (\<lambda>v. Inr ((apply_location db1 m x)\<lparr>couples := update_where p f (couples (apply_location db1 m x))\<rparr>, v)))
        (bind_exc (couple_preferences ((apply_location db1' m x)\<lparr>couples := update_where p f (couples (apply_location db1' m x))\<rparr>) n)
          (\<lambda>v. Inr ((apply_location db1' m x)\<lparr>couples := update_where p f (couples (apply_location db1' m x))\<rparr>, v)))" for p f n
      unfolding alike_fields [OF al] alike_reads_more [OF al'] by (intro bind_rel_same) (simp add: al')
  qed
qed

lemma respects_report:
  assumes "alike a db db'"
  shows "respected a (report_question u sha bank db b i reason now fresh) (report_question u sha bank db' b i reason now fresh)"
proof -
  have al: "alike a (db\<lparr>question_reports := rows\<rparr>) (db'\<lparr>question_reports := rows\<rparr>)" for rows
    by (rule alike_updates(13) [OF assms])
  show ?thesis
    unfolding report_question_def Let_def alike_reads [OF assms] alike_reads_more [OF assms] alike_fields [OF assms]
    by (intro bind_rel_same) (auto intro!: bind_rel [where R = "alike a"] respects_replace_reported al simp: assms)
qed

lemma respects_post_custom:
  assumes "alike a db db'"
  shows "respected a (post_custom u sha db b payload now fresh) (post_custom u sha db' b payload now fresh)"
proof -
  have "respected a (create_custom u sha db k b payload now fresh) (create_custom u sha db' k b payload now fresh)" for k
    unfolding create_custom_def Let_def alike_reads [OF assms] alike_next_slot [OF assms]
    by (intro bind_rel_same) (auto intro!: bind_rel_same simp: alike_updates assms alike_fields [OF assms])
  note c = this
  show ?thesis
    unfolding post_custom_def alike_reads [OF assms] by (intro bind_rel_same bind_rel [OF c]) auto
qed

lemma respects_put_custom:
  assumes "alike a db db'"
  shows "respected a (put_custom u sha db b i payload now) (put_custom u sha db' b i payload now)"
proof -
  have "respected a (update_custom u sha db k b i payload now) (update_custom u sha db' k b i payload now)" for k
    unfolding update_custom_def Let_def alike_reads [OF assms] alike_reads_more [OF assms] alike_fields [OF assms]
    by (intro bind_rel_same) (simp add: alike_updates assms)
  note c = this
  show ?thesis
    unfolding put_custom_def alike_reads [OF assms] by (intro bind_rel_same bind_rel [OF c]) auto
qed

lemma respects_remove_custom:
  assumes "alike a db db'"
  shows "respected a (remove_custom db b i now) (remove_custom db' b i now)"
  unfolding remove_custom_def delete_custom_def alike_reads [OF assms] alike_reads_more [OF assms] alike_fields [OF assms]
  by (auto intro!: bind_rel_same bind_rel [where R = "alike a"] simp: alike_updates assms)


section \<open>Writing an answer\<close>

lemma alike_write_draft:
  assumes "alike a db db'" "b = a \<Longrightarrow> x = y"
  shows "respected_db a (write_draft db i q b x n now) (write_draft db' i q b y n now)"
proof -
  let ?mine = "\<lambda>f. draft_key f = (i, q, b)"
  note d = alike_drafts [OF assms(1)]
  have sc: "rel_option (same_draft a) (scalar ?mine (quiz_drafts db)) (scalar ?mine (quiz_drafts db'))"
    by (rule same_drafts_scalar [OF d]) (simp add: same_draft_simps)
  have new: "same_draft a \<lparr>qf_quiz_day_id = i, qf_question_id = q, qf_account_id = b, qf_answer = x, qf_revision = r, qf_updated_at = now\<rparr>
      \<lparr>qf_quiz_day_id = i, qf_question_id = q, qf_account_id = b, qf_answer = y, qf_revision = r, qf_updated_at = now\<rparr>" for r
    using assms(2) by (auto simp: same_draft_iff)
  have "same_draft a (if ?mine f then f\<lparr>qf_answer := x, qf_revision := qf_revision f + 1, qf_updated_at := now\<rparr> else f)
      (if ?mine g then g\<lparr>qf_answer := y, qf_revision := qf_revision g + 1, qf_updated_at := now\<rparr> else g)" if "same_draft a f g" for f g
    using that assms(2) by (auto simp: same_draft_iff draft_key_def)
  note revise = this
  have upd: "same_drafts a
      (update_where ?mine (\<lambda>f. f\<lparr>qf_answer := x, qf_revision := qf_revision f + 1, qf_updated_at := now\<rparr>) (quiz_drafts db))
      (update_where ?mine (\<lambda>f. f\<lparr>qf_answer := y, qf_revision := qf_revision f + 1, qf_updated_at := now\<rparr>) (quiz_drafts db'))"
    unfolding same_drafts_def update_where_def list_all2_map1 list_all2_map2
    by (rule list_all2_mono [OF d [unfolded same_drafts_def] revise])
  have add: "same_drafts a (quiz_drafts db @ [f]) (quiz_drafts db' @ [g])" if "same_draft a f g" for f g
    using d that by (simp add: same_drafts_def list_all2_appendI)
  show ?thesis
  proof (cases "scalar ?mine (quiz_drafts db)")
    case None
    then have "scalar ?mine (quiz_drafts db') = None" using sc by (simp add: option.rel_sel)
    with None show ?thesis
      unfolding write_draft_def Let_def by (auto intro!: bind_rel_same alike_write_drafts assms(1) add new)
  next
    case (Some f)
    then obtain g where "scalar ?mine (quiz_drafts db') = Some g" "same_draft a f g"
      using sc by (cases "scalar ?mine (quiz_drafts db')") auto
    with Some show ?thesis
      unfolding write_draft_def Let_def by (auto intro!: bind_rel_same alike_write_drafts assms(1) upd [simplified] simp: same_draft_simps)
  qed
qed

lemma respects_save_tail:
  assumes "alike a db db'" "b = a \<Longrightarrow> x = y"
  shows "respected_db a
    (bind_exc (write_draft db i q b x n now) (\<lambda>db. record_quiz_operation (bump_day db j t) k b op' act d now))
    (bind_exc (write_draft db' i q b y n now) (\<lambda>db. record_quiz_operation (bump_day db j t) k b op' act d now))"
  by (rule bind_rel [OF alike_write_draft [OF assms]]) (auto intro: respects_record_operation alike_bump)

lemma respects_save_draft:
  assumes "alike a db db'"
  shows "respected_db a (save_draft db d b q op' n x now) (save_draft db' d b q op' n x now)"
  unfolding save_draft_def alike_reads [OF assms] alike_require [OF assms] alike_fields(10) [OF assms]
  by (intro respects_if bind_rel_same respects_option respects_save_tail assms) (simp_all add: assms)

text \<open>The partner's answers \<open>x\<close> and \<open>y\<close>, both accepted, leave databases that are alike.\<close>

lemma secret_save_draft:
  assumes "alike a db db'" "b \<noteq> a" "save_draft db d b q op' n x now = Inr d1" "save_draft db' d b q op' n y now = Inr d2"
  shows "alike a d1 d2"
proof (cases "operation_exists db (qd_couple_id d) b op'")
  case True
  with assms show ?thesis by (simp add: save_draft_def alike_reads [OF assms(1)])
next
  case False
  from assms(3) False obtain w where w: "(if q \<in> ql_question_id ` set (links_of db (qd_id d))
      then scalar (\<lambda>r. qn_id r = q) (questions db) else None) = Some w"
    by (auto simp: save_draft_def bind_exc_Inr_iff split: option.splits)
  have v: "z' = z" if "validate_answer w z = Inr z'" for z z'
    using that by (auto simp: validate_answer_def Let_def bind_exc_Inr_iff)
  have d1: "bind_exc (write_draft db (qd_id d) q b x n now)
      (\<lambda>db. record_quiz_operation (bump_day db (qd_id d) None) (qd_couple_id d) b op' ''draft'' (qd_quiz_date d) now) = Inr d1"
    using assms(3) False v unfolding save_draft_def w by (auto simp: bind_exc_Inr_iff)
  have d2: "bind_exc (write_draft db' (qd_id d) q b y n now)
      (\<lambda>db. record_quiz_operation (bump_day db (qd_id d) None) (qd_couple_id d) b op' ''draft'' (qd_quiz_date d) now) = Inr d2"
    using assms(4) False v unfolding save_draft_def alike_reads [OF assms(1)] alike_fields(10) [OF assms(1)] w
    by (auto simp: bind_exc_Inr_iff)
  show ?thesis
    using respects_save_tail [OF assms(1), of b x y "qd_id d" q n now "qd_id d" None "qd_couple_id d" op' "''draft''" "qd_quiz_date d"]
      assms(2) unfolding d1 d2 by simp
qed

section \<open>What a member sees\<close>

text \<open>The partner's answers of a revealed day are the only secret a reply may show.\<close>

definition veil_question :: "quiz_question_view \<Rightarrow> quiz_question_view" where
  "veil_question v = v\<lparr>qv_partner_answer := None\<rparr>"

definition veil :: "quiz_day_view \<Rightarrow> quiz_day_view" where
  "veil v = (if qy_revealed v then v\<lparr>qy_questions := map veil_question (qy_questions v)\<rparr> else v)"

lemma collect_rel:
  "(\<And>x. rel_sum (=) R (f x) (f' x)) \<Longrightarrow> rel_sum (=) (list_all2 R) (collect_exc f xs) (collect_exc f' xs)"
proof (induction xs)
  case (Cons x xs)
  then show ?case by (auto intro!: bind_rel [where R = R] bind_rel [where R = "list_all2 R"])
qed simp

lemma respects_question_response:
  assumes "rel_option (same_draft a) m m'" "rel_option (same_draft a) p p'" "\<And>f. m = Some f \<Longrightarrow> qf_account_id f = b"
  shows "rel_sum (=) (\<lambda>v v'. b = a \<longrightarrow> (if revealed then veil_question v' = veil_question v else v' = v))
    (question_response l q m p revealed) (question_response l q m' p' revealed)"
proof -
  have m: "m' = m" if "b = a" using that assms(1,3) by (cases m; cases m') (auto simp: same_draft_def)
  show ?thesis
    unfolding question_response_def Let_def by (rule bind_rel_same) (cases "b = a"; simp add: veil_question_def m)
qed

lemma respects_day_response:
  assumes "alike a db db'"
  shows "rel_sum (=) (\<lambda>v v'. b = a \<longrightarrow> veil v' = veil v) (day_response db d b now) (day_response db' d b now)"
proof -
  let ?fs = "rev (drafts_of db (qd_id d))" and ?gs = "rev (drafts_of db' (qd_id d))"
  have d: "same_drafts a ?fs ?gs"
    unfolding drafts_of_def by (intro same_drafts_rev same_drafts_filter alike_drafts [OF assms]) (simp add: same_draft_simps)
  have sc: "rel_option (same_draft a) (scalar p ?fs) (scalar p ?gs)" if "\<And>f g. same_draft a f g \<Longrightarrow> p g = p f" for p
    by (rule same_drafts_scalar [OF d that])
  have any: "list_ex (\<lambda>f. qf_account_id f = b) ?gs = list_ex (\<lambda>f. qf_account_id f = b) ?fs"
    by (rule same_drafts_list_ex [OF d]) (simp add: same_draft_simps)
  let ?rev = "qd_revealed_at d \<noteq> None"
  let ?view = "\<lambda>fs (link, q). question_response link q
      (scalar (\<lambda>f. qf_question_id f = qn_id q \<and> qf_account_id f = b) fs) (scalar (\<lambda>f. qf_question_id f = qn_id q \<and> qf_account_id f \<noteq> b) fs) ?rev"
  have "rel_sum (=) (\<lambda>v v'. b = a \<longrightarrow> (if ?rev then veil_question v' = veil_question v else v' = v)) (?view ?fs x) (?view ?gs x)" for x
    unfolding case_prod_unfold
  proof (rule respects_question_response)
    show "qf_account_id f = b" if "scalar (\<lambda>f. qf_question_id f = qn_id (snd x) \<and> qf_account_id f = b) ?fs = Some f" for f
      using scalar_Some [OF that] by simp
  qed (rule sc, simp add: same_draft_simps)+
  then have views: "rel_sum (=) (list_all2 (\<lambda>v v'. b = a \<longrightarrow> (if ?rev then veil_question v' = veil_question v else v' = v)))
      (collect_exc (?view ?fs) (day_rows db (qd_id d))) (collect_exc (?view ?gs) (day_rows db (qd_id d)))"
    by (rule collect_rel)
  have same: "(if ?rev then map veil_question vs' = map veil_question vs else vs' = vs)"
    if "list_all2 (\<lambda>v v'. b = a \<longrightarrow> (if ?rev then veil_question v' = veil_question v else v' = v)) vs vs'" "b = a" for vs vs'
    using that(1) by (induction rule: list_all2_induct) (use that(2) in \<open>auto split: if_splits\<close>)
  show ?thesis
  proof (cases "scalar (\<lambda>s. qm_account_id s = b) (states_of db (qd_id d)) = None
      \<or> scalar (\<lambda>s. qm_account_id s \<noteq> b) (states_of db (qd_id d)) = None")
    case True
    then show ?thesis unfolding day_response_def Let_def alike_reads [OF assms] by (auto split: option.splits)
  next
    case False
    then obtain me other where "scalar (\<lambda>s. qm_account_id s = b) (states_of db (qd_id d)) = Some me"
      "scalar (\<lambda>s. qm_account_id s \<noteq> b) (states_of db (qd_id d)) = Some other" by auto
    then show ?thesis
      unfolding day_response_def Let_def alike_reads [OF assms] alike_reads_more [OF assms] any
      by (simp only: prod.case option.case, intro bind_rel [OF views])
        (simp only: rel_sum_simps, intro impI, drule (1) same, simp add: veil_def split: if_splits)
  qed
qed


section \<open>Requests\<close>

text \<open>The tail of the day routes: the view of the caller.\<close>

abbreviation respected_view :: "uuid \<Rightarrow> uuid \<Rightarrow> exc + 'a quiz_db_scheme \<times> quiz_day_view \<Rightarrow> exc + 'a quiz_db_scheme \<times> quiz_day_view \<Rightarrow> bool" where
  "respected_view a b \<equiv> rel_sum (=) (rel_prod (alike a) (\<lambda>v v'. b = a \<longrightarrow> veil v' = veil v))"

lemma respects_reply:
  assumes "alike a db db'"
  shows "respected_view a b (bind_exc (day_response db d b now) (\<lambda>v. Inr (db, v)))
    (bind_exc (day_response db' d b now) (\<lambda>v. Inr (db', v)))"
  by (rule bind_rel [OF respects_day_response [OF assms]]) (simp add: assms)

lemma respects_view:
  assumes "alike a db db'"
  shows "respected_view a b (view_quiz_day db b date now fresh) (view_quiz_day db' b date now fresh)"
  unfolding view_quiz_day_def alike_reads [OF assms]
  by (intro bind_rel_same bind_rel [OF respects_materialize [OF assms]]) (auto intro: respects_reply)

lemma respects_mutation:
  fixes act :: "'a quiz_db_scheme \<Rightarrow> quiz_day \<Rightarrow> exc + 'a quiz_db_scheme"
  assumes "\<And>db db' d. alike a db db' \<Longrightarrow> respected_db a (act db d) (act db' d)" and "alike a db db'"
  shows "respected_view a b
    (bind_exc (active_member db b) (\<lambda>m. bind_exc (materialize_day db m date now fresh) (\<lambda>(db, d).
      bind_exc (act db d) (\<lambda>db. bind_exc (day_response db (current_day db d) b now) (\<lambda>v. Inr (db, v))))))
    (bind_exc (active_member db' b) (\<lambda>m. bind_exc (materialize_day db' m date now fresh) (\<lambda>(db, d).
      bind_exc (act db d) (\<lambda>db. bind_exc (day_response db (current_day db d) b now) (\<lambda>v. Inr (db, v))))))"
  unfolding alike_reads [OF assms(2)]
proof (intro bind_rel_same bind_rel [OF respects_materialize [OF assms(2)]], clarsimp)
  fix m db1 d and db1' :: "'a quiz_db_scheme"
  assume "alike a db1 db1'"
  then show "respected_view a b
     (bind_exc (act db1 d) (\<lambda>db. bind_exc (day_response db (current_day db d) b now) (\<lambda>v. Inr (db, v))))
     (bind_exc (act db1' d) (\<lambda>db. bind_exc (day_response db (current_day db d) b now) (\<lambda>v. Inr (db, v))))"
    by (intro bind_rel [OF assms(1)]) (simp_all add: respects_reply alike_reads_more)
qed

lemma respects_put_draft:
  "alike a db db' \<Longrightarrow> respected_view a b (put_draft db b date q op' n x now fresh) (put_draft db' b date q op' n x now fresh)"
  unfolding put_draft_def by (rule respects_mutation) (auto intro: respects_save_draft)

lemma respects_reopen:
  "alike a db db' \<Longrightarrow> respected_view a b (reopen db b date op' n now fresh) (reopen db' b date op' n now fresh)"
  unfolding reopen_def by (rule respects_mutation) (auto intro: respects_reopen_day)

lemma respects_finish:
  fixes db db' :: "'a quiz_db_scheme"
  assumes "alike a db db'"
  shows "rel_sum (=) (rel_prod (alike a) (rel_prod (\<lambda>v v'. b = a \<longrightarrow> veil v' = veil v) (=)))
    (finish db b date op' n now fresh i) (finish db' b date op' n now fresh i)"
  unfolding finish_def alike_reads [OF assms] Let_def
proof (intro bind_rel_same bind_rel [OF respects_materialize [OF assms]], clarify, simp only: rel_prod_inject, clarify)
  fix db1 db1' :: "'a quiz_db_scheme" and d
  assume al: "alike a db1 db1'"
  have tail: "rel_sum (=) (rel_prod (alike a) (rel_prod (\<lambda>v v'. b = a \<longrightarrow> veil v' = veil v) (=)))
      (bind_exc (if w then Inr (db3, None) else finish_alerts db3 e b now i)
        (\<lambda>(db, recipient). bind_exc (day_response db e b now) (\<lambda>v. Inr (db, v, recipient))))
      (bind_exc (if w then Inr (db3', None) else finish_alerts db3' e b now i)
        (\<lambda>(db, recipient). bind_exc (day_response db e b now) (\<lambda>v. Inr (db, v, recipient))))"
    if "alike a db3 db3'" for db3 db3' :: "'a quiz_db_scheme" and e w
    by (rule bind_rel [where R = "rel_prod (alike a) (=)"])
      (use that respects_finish_alerts [OF that] in \<open>auto intro!: bind_rel [OF respects_day_response]\<close>)
  show "rel_sum (=) (rel_prod (alike a) (rel_prod (\<lambda>v v'. b = a \<longrightarrow> veil v' = veil v) (=)))
      (bind_exc (finish_day db1 d b op' n now) (\<lambda>db.
        bind_exc (if (case scalar (\<lambda>s. qm_account_id s = b) (states_of db1 (qd_id d)) of None \<Rightarrow> False | Some s \<Rightarrow> qm_completed_at s \<noteq> None)
            then Inr (record_activity db (quiz_activity (current_day db d) b op' now), None)
            else finish_alerts (record_activity db (quiz_activity (current_day db d) b op' now)) (current_day db d) b now i)
          (\<lambda>(db', recipient). bind_exc (day_response db' (current_day db d) b now) (\<lambda>v. Inr (db', v, recipient)))))
      (bind_exc (finish_day db1' d b op' n now) (\<lambda>db.
        bind_exc (if (case scalar (\<lambda>s. qm_account_id s = b) (states_of db1' (qd_id d)) of None \<Rightarrow> False | Some s \<Rightarrow> qm_completed_at s \<noteq> None)
            then Inr (record_activity db (quiz_activity (current_day db d) b op' now), None)
            else finish_alerts (record_activity db (quiz_activity (current_day db d) b op' now)) (current_day db d) b now i)
          (\<lambda>(db', recipient). bind_exc (day_response db' (current_day db d) b now) (\<lambda>v. Inr (db', v, recipient)))))"
    unfolding alike_reads [OF al]
    by (rule bind_rel [OF respects_finish_day [OF al]]) (simp only: alike_reads_more, intro tail respects_activity)
qed

fun requester :: "quiz_call \<Rightarrow> uuid" where
  "requester (View_day a d, now, fresh) = a"
| "requester (Put_draft a d q op' n x, now, fresh) = a"
| "requester (Finish a d op' n, now, fresh) = a"
| "requester (Reopen a d op' n, now, fresh) = a"
| "requester (Report a q reason, now, fresh) = a"
| "requester (Prefer a payload, now, fresh) = a"
| "requester (Post_custom a payload, now, fresh) = a"
| "requester (Put_custom a q payload, now, fresh) = a"
| "requester (Remove_custom a q, now, fresh) = a"

fun veil_reply :: "quiz_reply \<Rightarrow> quiz_reply" where
  "veil_reply (Day_reply v) = Day_reply (veil v)"
| "veil_reply r = r"

text \<open>What member \<open>a\<close> learns of the outcome of a call: nothing of another's, no partner answer of their own.\<close>

definition seen_by :: "uuid \<Rightarrow> quiz_call \<Rightarrow> exc + quiz_reply \<Rightarrow> (exc + quiz_reply) option" where
  "seen_by a call outcome = (if requester call = a then Some (map_sum id veil_reply outcome) else None)"

text \<open>The same call, or drafts of someone other than \<open>a\<close> with different answers.\<close>

inductive same_but_secret :: "uuid \<Rightarrow> quiz_call \<Rightarrow> quiz_call \<Rightarrow> bool" for a where
  same: "same_but_secret a call call"
| secret: "b \<noteq> a \<Longrightarrow> same_but_secret a (Put_draft b d q op' n x, now, fresh) (Put_draft b d q op' n y, now, fresh)"

abbreviation respected_reply :: "uuid \<Rightarrow> quiz_call \<Rightarrow> exc + 'a quiz_db_scheme \<times> quiz_reply \<Rightarrow> exc + 'a quiz_db_scheme \<times> quiz_reply \<Rightarrow> bool" where
  "respected_reply a call \<equiv> rel_sum (=) (rel_prod (alike a) (\<lambda>r r'. requester call = a \<longrightarrow> veil_reply r' = veil_reply r))"

lemma respects_serve:
  assumes "alike a db db'"
  shows "respected_reply a call (serve_quiz u sha bank zi db call) (serve_quiz u sha bank zi db' call)"
proof -
  obtain r now fresh where c: "call = (r, now, fresh)" by (cases call) auto
  show ?thesis
    unfolding c
    by (cases r)
      (auto intro!: bind_rel [OF respects_view [OF assms]] bind_rel [OF respects_put_draft [OF assms]]
        bind_rel [OF respects_finish [OF assms]] bind_rel [OF respects_reopen [OF assms]] bind_rel [OF respects_report [OF assms]]
        bind_rel [OF respects_preferences [OF assms]] bind_rel [OF respects_post_custom [OF assms]]
        bind_rel [OF respects_put_custom [OF assms]] bind_rel [OF respects_remove_custom [OF assms]])
qed

lemma secret_put_draft:
  assumes "alike a db db'" "b \<noteq> a" "put_draft db b d q op' n x now fresh = Inr (d1, v)" "put_draft db' b d q op' n y now fresh = Inr (d2, v')"
  shows "alike a d1 d2"
proof -
  obtain m db1 e where 1: "active_member db b = Inr m" "materialize_day db m d now fresh = Inr (db1, e)"
    "save_draft db1 e b q op' n x now = Inr d1"
    using assms(3) by (auto simp: put_draft_def bind_exc_Inr_iff)
  obtain db1' where 2: "materialize_day db' m d now fresh = Inr (db1', e)" "alike a db1 db1'"
    using respects_materialize [OF assms(1), of m d now fresh] 1(2) by (cases "materialize_day db' m d now fresh") auto
  then have "save_draft db1' e b q op' n y now = Inr d2"
    using assms(4) 1(1) alike_reads(1) [OF assms(1)] by (auto simp: put_draft_def bind_exc_Inr_iff)
  with secret_save_draft [OF 2(2) assms(2) 1(3)] show ?thesis by blast
qed

interpretation quiz_secrets: noninterfering "serve_quiz u sha bank zi" "alike a" "same_but_secret a" "seen_by a" for u sha bank zi a
proof
  fix db db' :: "'b quiz_db_scheme" and call call' d d' r r'
  assume al: "alike a db db'"
  note serve = respects_serve [OF al, of call u sha bank zi]
  show "alike a (step (serve_quiz u sha bank zi) db call) (step (serve_quiz u sha bank zi) db' call)"
    using serve al by (auto simp: step_def rel_sum.simps split: sum.splits)
  show "seen_by a call (map_sum id snd (serve_quiz u sha bank zi db call))
      = seen_by a call (map_sum id snd (serve_quiz u sha bank zi db' call))"
    using serve by (auto simp: seen_by_def rel_sum.simps)
  assume "same_but_secret a call call'" "call \<noteq> call'"
    and "serve_quiz u sha bank zi db call = Inr (d, r)" "serve_quiz u sha bank zi db' call' = Inr (d', r')"
  then show "alike a d d' \<and> seen_by a call (Inr r) = seen_by a call (Inr r')"
    by (cases rule: same_but_secret.cases) (auto simp: bind_exc_Inr_iff seen_by_def dest: secret_put_draft [OF al])
qed

text \<open>
  C3 Answers stay secret until the reveal: take two histories of requests that differ only in what
  members other than \<open>a\<close> wrote in drafts that were accepted. Every request of \<open>a\<close> has the same outcome
  in both, the same error or the same reply, except for the partner answers in views of revealed days.
\<close>

theorem partner_answers_hidden:
  assumes "list_all2 (same_but_secret a) calls calls'"
    and "\<And>j. j < length calls \<Longrightarrow> calls ! j \<noteq> calls' ! j \<Longrightarrow>
      \<not> isl (outcomes (serve_quiz u sha bank zi) db calls ! j) \<and> \<not> isl (outcomes (serve_quiz u sha bank zi) db calls' ! j)"
    and "i < length calls" "requester (calls ! i) = a"
  shows "map_sum id veil_reply (outcomes (serve_quiz u sha bank zi) db calls ! i)
    = map_sum id veil_reply (outcomes (serve_quiz u sha bank zi) db calls' ! i)"
  using quiz_secrets.unwinding [OF alike_refl assms(1,2,3)] assms(4) by (simp add: seen_by_def)


section \<open>Witness\<close>

text \<open>Member 12 answers question 81 with one text or another; member 11 looks at the day.\<close>

definition orbit_secret :: "ustring \<Rightarrow> quiz_call list" where
  "orbit_secret text = [(Put_draft 12 0 81 1 0 (Free_text text), hour, \<lambda>_. 90), (View_day 11 0, hour, \<lambda>_. 91)]"

abbreviation orbit_day :: "nat \<Rightarrow> quiz_day" where
  "orbit_day n \<equiv> \<lparr>qd_id = 70, qd_couple_id = 7, qd_quiz_date = 0, qd_revision = n, qd_revealed_at = None, qd_created_at = 0\<rparr>"

lemma orbit_draft_saved:
  "\<exists>db. save_draft (orbit_quiz None []) (orbit_day 0) 12 81 1 0 (Free_text text) hour = Inr db
     \<and> links_of db 70 = quiz_day_questions (orbit_quiz None []) \<and> states_of db 70 = quiz_day_members (orbit_quiz None [])
     \<and> questions db = questions (orbit_quiz None [])"
  by (simp add: save_draft_def operation_exists_def require_editable_member_def date_is_editable_def utc_today_def CATCH_UP_DAYS_def
      links_of_def states_of_def validate_answer_def orbit_question_def write_draft_def Let_def record_quiz_operation_def
      insert_unique_def bump_day_def guard_def)

lemma orbit_day_shown:
  assumes "links_of db 70 = quiz_day_questions (orbit_quiz None [])" "states_of db 70 = quiz_day_members (orbit_quiz None [])"
    "questions db = questions (orbit_quiz None [])" "qd_id d = 70"
  shows "\<exists>v. day_response db d 12 now = Inr v"
  by (simp add: day_response_def Let_def day_rows_def assms List.map_filter_def question_response_def orbit_question_def guard_def)

lemma orbit_secret_accepted: "\<not> isl (outcomes orbit_serve (orbit_quiz None []) (orbit_secret text) ! 0)"
proof -
  obtain db where s: "save_draft (orbit_quiz None []) (orbit_day 0) 12 81 1 0 (Free_text text) hour = Inr db"
    and db: "links_of db 70 = quiz_day_questions (orbit_quiz None [])" "states_of db 70 = quiz_day_members (orbit_quiz None [])"
      "questions db = questions (orbit_quiz None [])" using orbit_draft_saved by blast
  have "qd_id (current_day db (orbit_day 0)) = 70"
    by (auto simp: current_day_def dest: find_day_Some split: option.splits)
  from orbit_day_shown [OF db this] obtain v where v: "day_response db (current_day db (orbit_day 0)) 12 hour = Inr v" by blast
  have m: "active_member (orbit_quiz None []) 12 = Inr (members orbit_core ! 1)"
    "materialize_day (orbit_quiz None []) (members orbit_core ! 1) 0 hour 90 = Inr (orbit_quiz None [], orbit_day 0)"
    by (simp_all add: active_member_def orbit_core_def is_active_def materialize_day_def require_visible_date_def utc_today_def
        HISTORY_DAYS_def lock_couple_def guard_def)
  have "orbit_serve (orbit_quiz None []) (Put_draft 12 0 81 1 0 (Free_text text), hour, \<lambda>_. 90) = Inr (db, Day_reply v)"
    by (simp add: put_draft_def m s v del: One_nat_def)
  then show ?thesis by (simp add: orbit_secret_def)
qed

theorem partner_answers_hidden_witness:
  "map_sum id veil_reply (outcomes orbit_serve (orbit_quiz None []) (orbit_secret [104]) ! 1)
    = map_sum id veil_reply (outcomes orbit_serve (orbit_quiz None []) (orbit_secret [105]) ! 1)"
proof (rule partner_answers_hidden [where a = 11])
  show "list_all2 (same_but_secret 11) (orbit_secret [104]) (orbit_secret [105])"
    by (auto simp: orbit_secret_def intro: same_but_secret.intros)
  show "\<not> isl (outcomes orbit_serve (orbit_quiz None []) (orbit_secret [104]) ! j)
      \<and> \<not> isl (outcomes orbit_serve (orbit_quiz None []) (orbit_secret [105]) ! j)"
    if "j < length (orbit_secret [104])" "orbit_secret [104] ! j \<noteq> orbit_secret [105] ! j" for j
  proof (cases j)
    case 0
    with orbit_secret_accepted show ?thesis by simp
  next
    case (Suc n)
    with that show ?thesis by (simp add: orbit_secret_def)
  qed
qed (simp_all add: orbit_secret_def)

end
