(* ===== verification/Attachments.thy ===== *)
theory Attachments
  imports Quiz_Changes "HOL-Library.Word"
begin

text \<open>
  Files attached to notes: the policy (\<^verbatim>\<open>attachment_storage.py\<close>), the accounting of
  private storage (\<^verbatim>\<open>attachment_quota.py\<close>), the resumable upload, download and deletion
  (\<^verbatim>\<open>routes/attachments.py\<close>), the read-only access of former members
  (\<^verbatim>\<open>routes/archive_attachments.py\<close>) and the cleanup
  (\<^verbatim>\<open>attachment_maintenance.py\<close>).

  The database is rolled back when a handler raises, the files are not: a handler that writes bytes
  returns the files apart from its result. The digest \<open>sha\<close> of a file and the free bytes of the volume
  are parameters. A storage key stands for its three paths.
\<close>

section \<open>Rows and files\<close>

datatype attachment_status = Uploading | Pending_scan | Scanning | Available | Rejected | Deleted

record note_attachment =
  na_id :: uuid
  na_note_id :: uuid
  na_couple_id :: uuid
  na_uploaded_by :: "uuid option"
  na_operation_id :: uuid
  na_file_name :: ustring
  na_media_type :: string
  na_size_bytes :: int
  na_uploaded_bytes :: int
  na_sha256 :: string
  na_storage_key :: string
  na_status :: attachment_status
  na_rejection_reason :: "string option"
  na_created_at :: instant
  na_updated_at :: instant
  na_scanned_at :: "instant option"
  na_deleted_at :: "instant option"

datatype job_status = Job_pending | Job_leased | Job_completed | Job_rejected

record attachment_job =
  aj_attachment_id :: uuid
  aj_status :: job_status
  aj_attempts :: nat
  aj_next_attempt_at :: instant
  aj_lease_expires_at :: "instant option"
  aj_leased_by :: "string option"
  aj_last_error :: "string option"
  aj_created_at :: instant
  aj_updated_at :: instant

text \<open>The singleton row of the storage accounting, without its timestamp.\<close>

record attachments_db = quiz_db +
  note_attachments :: "note_attachment list"
  attachment_jobs :: "attachment_job list"
  reserved_bytes :: "int option"

type_synonym bytes = "8 word list"

record files =
  staging :: "string \<rightharpoonup> bytes"
  processing :: "string \<rightharpoonup> bytes"
  available :: "string \<rightharpoonup> bytes"

section \<open>Policy\<close>

definition ALLOWED_MEDIA_TYPES :: "string set" where
  "ALLOWED_MEDIA_TYPES = {''image/jpeg'', ''image/png'', ''image/webp'', ''image/gif'', ''application/pdf'', ''text/plain'',
     ''text/markdown'', ''audio/mpeg'', ''audio/mp4'', ''audio/ogg'', ''video/mp4'', ''video/webm''}"

definition MAX_FILE_BYTES :: int where "MAX_FILE_BYTES = 100 * 1024 * 1024"
definition COUPLE_QUOTA_BYTES :: int where "COUPLE_QUOTA_BYTES = 2 * 1024 * 1024 * 1024"
definition GLOBAL_QUOTA_BYTES :: int where "GLOBAL_QUOTA_BYTES = 50 * 1024 * 1024 * 1024"
definition MIN_FREE_STORAGE_BYTES :: int where "MIN_FREE_STORAGE_BYTES = 5 * 1024 * 1024 * 1024"
definition MAX_CONCURRENT_UPLOADS_PER_COUPLE :: nat where "MAX_CONCURRENT_UPLOADS_PER_COUPLE = 4"
definition MAX_CHUNK_BYTES :: nat where "MAX_CHUNK_BYTES = 4 * 1024 * 1024"

definition hex_digit :: "char \<Rightarrow> bool" where
  "hex_digit c \<longleftrightarrow> c \<in> set ''0123456789abcdef''"

text \<open>\<^verbatim>\<open>s.split("/")\<close>, and the last part \<^verbatim>\<open>PurePath\<close> keeps: empty parts and dots are dropped.\<close>

fun split_slashes :: "ustring \<Rightarrow> ustring list" where
  "split_slashes [] = [[]]"
| "split_slashes (c # s) =
     (if c = 47 then [] # split_slashes s
      else (case split_slashes s of [] \<Rightarrow> [[c]] | part # parts \<Rightarrow> (c # part) # parts))"

definition path_name :: "ustring \<Rightarrow> ustring" where
  "path_name s = (let parts = filter (\<lambda>part. part \<noteq> [] \<and> part \<noteq> ascii ''.'') (split_slashes s)
                  in if parts = [] then [] else last parts)"

definition safe_file_name :: "'u unicode_scheme \<Rightarrow> ustring \<Rightarrow> exc + ustring" where
  "safe_file_name u value =
     (let normalized = strip u (path_name (map (\<lambda>c. if c = 92 then 47 else c) value));
          cleaned = filter (\<lambda>c. 32 \<le> c) normalized
      in if cleaned = [] \<or> cleaned = ascii ''.'' \<or> cleaned = ascii ''..''
         then Inl (AttachmentPolicyError ''invalid_file_name'') else Inr (take 255 cleaned))"

definition validate_metadata :: "string \<Rightarrow> int \<Rightarrow> string \<Rightarrow> exc + unit" where
  "validate_metadata media_type size_bytes sha256 =
     bind_exc (guard (media_type \<in> ALLOWED_MEDIA_TYPES) (AttachmentPolicyError ''unsupported_media_type'')) (\<lambda>_.
     bind_exc (guard (0 < size_bytes \<and> size_bytes \<le> MAX_FILE_BYTES) (AttachmentPolicyError ''file_too_large'')) (\<lambda>_.
       guard (length sha256 = 64 \<and> list_all hex_digit sha256) (AttachmentPolicyError ''invalid_sha256'')))"

definition validate_chunk :: "int \<Rightarrow> nat \<Rightarrow> int \<Rightarrow> exc + unit" where
  "validate_chunk offset chunk_size total_size =
     bind_exc (guard (0 \<le> offset \<and> 0 < chunk_size \<and> chunk_size \<le> MAX_CHUNK_BYTES)
                 (AttachmentPolicyError ''invalid_chunk'')) (\<lambda>_.
       guard (offset + int chunk_size \<le> total_size) (AttachmentPolicyError ''chunk_exceeds_file''))"

definition has_upload_capacity :: "int \<Rightarrow> int \<Rightarrow> bool" where
  "has_upload_capacity free incoming_bytes \<longleftrightarrow> incoming_bytes + MIN_FREE_STORAGE_BYTES \<le> free"

text \<open>\<^verbatim>\<open>except AttachmentPolicyError as error: raise HTTPException(code, str(error))\<close>.\<close>

definition policy_as :: "nat \<Rightarrow> exc + 'a \<Rightarrow> exc + 'a" where
  "policy_as code result =
     (case result of Inl (AttachmentPolicyError reason) \<Rightarrow> Inl (HTTPException code reason) | r \<Rightarrow> r)"

lemma policy_as_Inr [simp]: "policy_as code result = Inr x \<longleftrightarrow> result = Inr x"
  by (auto simp: policy_as_def split: sum.splits exc.splits)

section \<open>Accounting\<close>

text \<open>The statuses that hold storage, and the rows that count.\<close>

definition holds_storage :: "attachment_status \<Rightarrow> bool" where
  "holds_storage s \<longleftrightarrow> s \<in> {Uploading, Pending_scan, Scanning, Available}"

definition counted :: "note_attachment \<Rightarrow> bool" where
  "counted a \<longleftrightarrow> na_deleted_at a = None \<and> holds_storage (na_status a)"

definition lock_storage_state :: "'a attachments_db_scheme \<Rightarrow> exc + int" where
  "lock_storage_state db =
     (case reserved_bytes db of
        None \<Rightarrow> Inl (RuntimeError ''attachment storage state is unavailable'')
      | Some n \<Rightarrow> Inr n)"

definition reserve_storage :: "'a attachments_db_scheme \<Rightarrow> int \<Rightarrow> exc + 'a attachments_db_scheme" where
  "reserve_storage db size_bytes =
     bind_exc (lock_storage_state db) (\<lambda>n.
     bind_exc (guard (n + size_bytes \<le> GLOBAL_QUOTA_BYTES) (AttachmentPolicyError ''global_quota_exceeded'')) (\<lambda>_.
       Inr (db\<lparr>reserved_bytes := Some (n + size_bytes)\<rparr>)))"

definition adjust_storage :: "'a attachments_db_scheme \<Rightarrow> int \<Rightarrow> exc + 'a attachments_db_scheme" where
  "adjust_storage db delta_bytes =
     bind_exc (lock_storage_state db) (\<lambda>n.
     bind_exc (guard (n + delta_bytes \<le> GLOBAL_QUOTA_BYTES) (AttachmentPolicyError ''global_quota_exceeded'')) (\<lambda>_.
     bind_exc (guard (0 \<le> n + delta_bytes) (RuntimeError ''attachment storage accounting invariant failed'')) (\<lambda>_.
       Inr (db\<lparr>reserved_bytes := Some (n + delta_bytes)\<rparr>))))"

definition counted_bytes :: "note_attachment list \<Rightarrow> int" where
  "counted_bytes rows = sum_list (map na_size_bytes (filter counted rows))"

definition reconcile_storage :: "'a attachments_db_scheme \<Rightarrow> exc + 'a attachments_db_scheme" where
  "reconcile_storage db =
     bind_exc (lock_storage_state db) (\<lambda>_.
     let t = counted_bytes (note_attachments db)
     in bind_exc (guard (t \<le> GLOBAL_QUOTA_BYTES) (RuntimeError ''attachment storage exceeds its global ceiling'')) (\<lambda>_.
          Inr (db\<lparr>reserved_bytes := Some t\<rparr>)))"

section \<open>Authorization\<close>

definition authorized_note ::
    "'a attachments_db_scheme \<Rightarrow> uuid \<Rightarrow> uuid \<Rightarrow> bool \<Rightarrow> exc + couple_member \<times> note_row" where
  "authorized_note db actor_id note_id include_archived =
     bind_exc (active_member db actor_id) (\<lambda>member.
     case scalar (\<lambda>n. nt_id n = note_id \<and> nt_couple_id n = mem_couple_id member
            \<and> (include_archived \<or> nt_archived_at n = None)) (note_rows db) of
       None \<Rightarrow> Inl (HTTPException 404 ''Note is unavailable'')
     | Some n \<Rightarrow> Inr (member, n))"

definition authorized_attachment ::
    "'a attachments_db_scheme \<Rightarrow> uuid \<Rightarrow> uuid \<Rightarrow> uuid \<Rightarrow> exc + note_attachment" where
  "authorized_attachment db actor_id note_id attachment_id =
     bind_exc (authorized_note db actor_id note_id False) (\<lambda>(member, _).
     case scalar (\<lambda>a. na_id a = attachment_id \<and> na_note_id a = note_id \<and> na_couple_id a = mem_couple_id member
            \<and> na_deleted_at a = None) (note_attachments db) of
       None \<Rightarrow> Inl (HTTPException 404 ''Attachment is unavailable'')
     | Some a \<Rightarrow> Inr a)"

section \<open>Responses\<close>

text \<open>What a client is told; \<open>ap_downloadable\<close> stands for the presence of the download URL.\<close>

record attachment_view =
  ap_id :: uuid
  ap_note_id :: uuid
  ap_file_name :: ustring
  ap_media_type :: string
  ap_size_bytes :: int
  ap_uploaded_bytes :: int
  ap_sha256 :: string
  ap_status :: attachment_status
  ap_rejection_reason :: "string option"
  ap_downloadable :: bool
  ap_created_at :: instant
  ap_updated_at :: instant

definition attachment_response :: "note_attachment \<Rightarrow> bool \<Rightarrow> attachment_view" where
  "attachment_response a downloadable =
     \<lparr>ap_id = na_id a, ap_note_id = na_note_id a, ap_file_name = na_file_name a, ap_media_type = na_media_type a,
      ap_size_bytes = na_size_bytes a, ap_uploaded_bytes = na_uploaded_bytes a, ap_sha256 = na_sha256 a,
      ap_status = na_status a, ap_rejection_reason = na_rejection_reason a, ap_downloadable = downloadable,
      ap_created_at = na_created_at a, ap_updated_at = na_updated_at a\<rparr>"

definition attachment_view_of :: "note_attachment \<Rightarrow> attachment_view" where
  "attachment_view_of a = attachment_response a (na_status a = Available)"

definition list_attachments :: "'a attachments_db_scheme \<Rightarrow> uuid \<Rightarrow> uuid \<Rightarrow> exc + attachment_view list" where
  "list_attachments db actor_id note_id =
     bind_exc (authorized_note db actor_id note_id False) (\<lambda>(member, _).
       Inr (map attachment_view_of (sort_key na_created_at
         (select (\<lambda>a. na_note_id a = note_id \<and> na_couple_id a = mem_couple_id member \<and> na_deleted_at a = None)
            (note_attachments db)))))"

section \<open>Creating an upload\<close>

text \<open>
  The handlers that change files authorize before they lock the couple: the database of those first
  reads is \<open>db0\<close>, the one under the lock \<open>db\<close>.
\<close>

record create_request =
  cr_operation_id :: uuid
  cr_file_name :: ustring
  cr_media_type :: string
  cr_size_bytes :: int
  cr_sha256 :: string

definition validated_file_name :: "'u unicode_scheme \<Rightarrow> create_request \<Rightarrow> exc + ustring" where
  "validated_file_name u payload =
     policy_as 422 (bind_exc (validate_metadata (cr_media_type payload) (cr_size_bytes payload) (cr_sha256 payload))
       (\<lambda>_. safe_file_name u (cr_file_name payload)))"

definition same_upload :: "note_attachment \<Rightarrow> create_request \<Rightarrow> ustring \<Rightarrow> bool" where
  "same_upload a payload file_name \<longleftrightarrow>
     na_file_name a = file_name \<and> na_media_type a = cr_media_type payload
     \<and> na_size_bytes a = cr_size_bytes payload \<and> na_sha256 a = cr_sha256 payload"

definition reserve_upload_capacity ::
    "'a attachments_db_scheme \<Rightarrow> uuid \<Rightarrow> int \<Rightarrow> int \<Rightarrow> exc + 'a attachments_db_scheme" where
  "reserve_upload_capacity db couple_id size_bytes free =
     (let concurrent = length (select (\<lambda>a. na_couple_id a = couple_id \<and> na_deleted_at a = None
            \<and> na_status a = Uploading) (note_attachments db));
          reserved = counted_bytes (select (\<lambda>a. na_couple_id a = couple_id) (note_attachments db))
      in bind_exc (guard (concurrent < MAX_CONCURRENT_UPLOADS_PER_COUPLE) (HTTPException 429 ''too_many_active_uploads'')) (\<lambda>_.
         bind_exc (guard (reserved + size_bytes \<le> COUPLE_QUOTA_BYTES) (HTTPException 413 ''couple_quota_exceeded'')) (\<lambda>_.
         bind_exc (guard (has_upload_capacity free size_bytes) (HTTPException 507 ''attachment_storage_unavailable'')) (\<lambda>_.
           policy_as 507 (reserve_storage db size_bytes)))))"

definition new_attachment ::
    "uuid \<Rightarrow> uuid \<Rightarrow> uuid \<Rightarrow> create_request \<Rightarrow> ustring \<Rightarrow> instant \<Rightarrow> uuid \<Rightarrow> string \<Rightarrow> note_attachment" where
  "new_attachment note_id couple_id actor_id payload file_name now fresh key =
     \<lparr>na_id = fresh, na_note_id = note_id, na_couple_id = couple_id, na_uploaded_by = Some actor_id,
      na_operation_id = cr_operation_id payload, na_file_name = file_name, na_media_type = cr_media_type payload,
      na_size_bytes = cr_size_bytes payload, na_uploaded_bytes = 0, na_sha256 = cr_sha256 payload,
      na_storage_key = key, na_status = Uploading, na_rejection_reason = None, na_created_at = now,
      na_updated_at = now, na_scanned_at = None, na_deleted_at = None\<rparr>"

text \<open>The primary key and the two unique constraints.\<close>

definition insert_attachment :: "note_attachment \<Rightarrow> note_attachment list \<Rightarrow> exc + note_attachment list" where
  "insert_attachment a rows =
     bind_exc (insert_unique na_id a rows) (\<lambda>_.
     bind_exc (insert_unique (\<lambda>a. (na_note_id a, na_operation_id a)) a rows) (\<lambda>_.
       insert_unique na_storage_key a rows))"

definition prior_or_new_upload ::
    "'a attachments_db_scheme \<Rightarrow> uuid \<Rightarrow> uuid \<Rightarrow> uuid \<Rightarrow> create_request \<Rightarrow> ustring \<Rightarrow> int \<Rightarrow> instant \<Rightarrow> uuid \<Rightarrow> string
       \<Rightarrow> exc + 'a attachments_db_scheme \<times> attachment_view" where
  "prior_or_new_upload db couple_id actor_id note_id payload file_name free now fresh key =
     (case scalar (\<lambda>a. na_note_id a = note_id \<and> na_operation_id a = cr_operation_id payload) (note_attachments db) of
        Some prior \<Rightarrow>
          (if \<not> same_upload prior payload file_name then Inl (HTTPException 409 ''operation_id_payload_mismatch'')
           else Inr (db, attachment_view_of prior))
      | None \<Rightarrow>
          bind_exc (reserve_upload_capacity db couple_id (cr_size_bytes payload) free) (\<lambda>db.
          let a = new_attachment note_id couple_id actor_id payload file_name now fresh key
          in bind_exc (insert_attachment a (note_attachments db)) (\<lambda>rows.
               Inr (db\<lparr>note_attachments := rows\<rparr>, attachment_view_of a))))"

definition create_attachment ::
    "'u unicode_scheme \<Rightarrow> 'a attachments_db_scheme \<Rightarrow> 'a attachments_db_scheme \<Rightarrow> uuid \<Rightarrow> uuid \<Rightarrow> create_request \<Rightarrow> int
       \<Rightarrow> instant \<Rightarrow> uuid \<Rightarrow> string \<Rightarrow> exc + 'a attachments_db_scheme \<times> attachment_view" where
  "create_attachment u db0 db actor_id note_id payload free now fresh key =
     bind_exc (authorized_note db0 actor_id note_id False) (\<lambda>(member, n).
     bind_exc (lock_couple db (mem_couple_id member)) (\<lambda>_.
     bind_exc (validated_file_name u payload) (\<lambda>file_name.
       prior_or_new_upload db (mem_couple_id member) actor_id (nt_id n) payload file_name free now fresh key)))"

section \<open>Uploading a chunk\<close>

text \<open>The \<^verbatim>\<open>content-length\<close> header: absent, not a number, or a number.\<close>

datatype content_length = No_length | Bad_length | Length int

fun read_parts :: "bytes \<Rightarrow> bytes list \<Rightarrow> exc + bytes" where
  "read_parts body [] = Inr body"
| "read_parts body (part # parts) =
     (if MAX_CHUNK_BYTES < length (body @ part) then Inl (HTTPException 413 ''chunk_too_large'')
      else read_parts (body @ part) parts)"

definition read_chunk :: "content_length \<Rightarrow> bytes list \<Rightarrow> exc + bytes" where
  "read_chunk declared parts =
     (case declared of
        Bad_length \<Rightarrow> Inl (HTTPException 400 ''invalid_content_length'')
      | Length n \<Rightarrow> (if int MAX_CHUNK_BYTES < n then Inl (HTTPException 413 ''chunk_too_large'') else read_parts [] parts)
      | No_length \<Rightarrow> read_parts [] parts)"

text \<open>The staged file after the append, and whether it raised. Opening creates an absent file.\<close>

definition append_chunk :: "bytes option \<Rightarrow> nat \<Rightarrow> bytes \<Rightarrow> bytes \<times> exc option" where
  "append_chunk target offset body =
     (let stored = (case target of None \<Rightarrow> [] | Some b \<Rightarrow> b)
      in if length stored < offset then (stored, Some (AttachmentPolicyError ''stored_offset_mismatch''))
         else (take offset stored @ body, None))"

definition new_job :: "uuid \<Rightarrow> instant \<Rightarrow> attachment_job" where
  "new_job i now =
     \<lparr>aj_attachment_id = i, aj_status = Job_pending, aj_attempts = 0, aj_next_attempt_at = now,
      aj_lease_expires_at = None, aj_leased_by = None, aj_last_error = None, aj_created_at = now, aj_updated_at = now\<rparr>"

text \<open>
  The \<^verbatim>\<open>UPDATE\<close> of the columns a handler changed; that it hits no row is an error.
\<close>

definition update_attachment ::
    "'a attachments_db_scheme \<Rightarrow> uuid \<Rightarrow> (note_attachment \<Rightarrow> note_attachment) \<Rightarrow> exc + 'a attachments_db_scheme" where
  "update_attachment db i f =
     bind_exc (guard (i \<in> na_id ` set (note_attachments db)) StaleDataError) (\<lambda>_.
       Inr (db\<lparr>note_attachments := update_where (\<lambda>r. na_id r = i) f (note_attachments db)\<rparr>))"

text \<open>The rows after the chunk is stored: the offset, and at the end the digest decides.\<close>

definition finish_chunk ::
    "(bytes \<Rightarrow> string) \<Rightarrow> 'a attachments_db_scheme \<Rightarrow> note_attachment \<Rightarrow> bytes \<Rightarrow> nat \<Rightarrow> instant
       \<Rightarrow> exc + 'a attachments_db_scheme \<times> note_attachment" where
  "finish_chunk sha db a stored n now =
     (let moved = (\<lambda>r. r\<lparr>na_uploaded_bytes := na_uploaded_bytes a + int n, na_updated_at := now\<rparr>)
      in if na_uploaded_bytes a + int n \<noteq> na_size_bytes a
         then bind_exc (update_attachment db (na_id a) moved) (\<lambda>db. Inr (db, moved a))
         else if sha stored \<noteq> na_sha256 a
         then let rejected = (\<lambda>r. moved r\<lparr>na_status := Rejected, na_rejection_reason := Some ''sha256_mismatch''\<rparr>)
              in bind_exc (adjust_storage db (- na_size_bytes a)) (\<lambda>db.
                 bind_exc (update_attachment db (na_id a) rejected) (\<lambda>db. Inr (db, rejected a)))
         else let pending = (\<lambda>r. moved r\<lparr>na_status := Pending_scan\<rparr>)
              in bind_exc (insert_unique aj_attachment_id (new_job (na_id a) now) (attachment_jobs db)) (\<lambda>jobs.
                 bind_exc (update_attachment (db\<lparr>attachment_jobs := jobs\<rparr>) (na_id a) pending) (\<lambda>db.
                   Inr (db, pending a))))"

text \<open>
  The checks before the file is touched. The item is first read before the lock, in \<open>db0\<close>; the
  query under the lock, in \<open>db\<close>, returns the object the session already holds, and does not
  refresh its columns.
\<close>

definition upload_target ::
    "'a attachments_db_scheme \<Rightarrow> 'a attachments_db_scheme \<Rightarrow> uuid \<Rightarrow> uuid \<Rightarrow> uuid \<Rightarrow> nat \<Rightarrow> content_length
       \<Rightarrow> bytes list \<Rightarrow> exc + note_attachment \<times> bytes" where
  "upload_target db0 db actor_id note_id attachment_id upload_offset declared parts =
     bind_exc (authorized_attachment db0 actor_id note_id attachment_id) (\<lambda>a.
     bind_exc (lock_couple db (na_couple_id a)) (\<lambda>_.
     bind_exc (guard (attachment_id \<in> na_id ` set (note_attachments db) \<and> na_status a = Uploading)
                 (HTTPException 409 ''attachment_not_uploading'')) (\<lambda>_.
     bind_exc (guard (int upload_offset = na_uploaded_bytes a) (HTTPException 409 ''upload_offset_mismatch'')) (\<lambda>_.
     bind_exc (read_chunk declared parts) (\<lambda>body.
     bind_exc (policy_as 422 (validate_chunk (int upload_offset) (length body) (na_size_bytes a))) (\<lambda>_.
       Inr (a, body)))))))"

definition upload_attachment_chunk ::
    "(bytes \<Rightarrow> string) \<Rightarrow> 'a attachments_db_scheme \<Rightarrow> 'a attachments_db_scheme \<Rightarrow> files \<Rightarrow> uuid \<Rightarrow> uuid \<Rightarrow> uuid \<Rightarrow> nat
       \<Rightarrow> content_length \<Rightarrow> bytes list \<Rightarrow> instant \<Rightarrow> files \<times> (exc + 'a attachments_db_scheme \<times> attachment_view)" where
  "upload_attachment_chunk sha db0 db fs actor_id note_id attachment_id upload_offset declared parts now =
     (case upload_target db0 db actor_id note_id attachment_id upload_offset declared parts of
        Inl e \<Rightarrow> (fs, Inl e)
      | Inr (a, body) \<Rightarrow>
          (let key = na_storage_key a;
               (stored, failure) = append_chunk (staging fs key) upload_offset body;
               fs = fs\<lparr>staging := (staging fs)(key \<mapsto> stored)\<rparr>
           in case failure of
                Some (AttachmentPolicyError reason) \<Rightarrow> (fs, Inl (HTTPException 409 reason))
              | Some e \<Rightarrow> (fs, Inl e)
              | None \<Rightarrow>
                  (case finish_chunk sha db a stored (length body) now of
                     Inl e \<Rightarrow> (fs, Inl e)
                   | Inr (db, a) \<Rightarrow>
                       (if na_status a = Rejected then fs\<lparr>staging := (staging fs)(key := None)\<rparr> else fs,
                        Inr (db, attachment_view_of a)))))"

section \<open>Download and deletion\<close>

text \<open>The bytes a \<^verbatim>\<open>GET\<close> streams; \<^verbatim>\<open>HEAD\<close> answers with their length.\<close>

definition available_file :: "files \<Rightarrow> note_attachment \<Rightarrow> exc \<Rightarrow> exc + bytes" where
  "available_file fs a e =
     (case available fs (na_storage_key a) of
        None \<Rightarrow> Inl e
      | Some b \<Rightarrow> (if int (length b) \<noteq> na_size_bytes a then Inl e else Inr b))"

definition download_attachment ::
    "'a attachments_db_scheme \<Rightarrow> files \<Rightarrow> uuid \<Rightarrow> uuid \<Rightarrow> uuid \<Rightarrow> exc + bytes" where
  "download_attachment db fs actor_id note_id attachment_id =
     bind_exc (authorized_attachment db actor_id note_id attachment_id) (\<lambda>a.
     bind_exc (guard (na_status a = Available) (HTTPException 409 ''attachment_not_available'')) (\<lambda>_.
       available_file fs a (HTTPException 503 ''attachment_bytes_unavailable'')))"

text \<open>
  The transaction of a deletion, with the key whose files are removed after the commit. The item is
  read in \<open>db0\<close>, before the lock, and not again.
\<close>

definition delete_attachment ::
    "'a attachments_db_scheme \<Rightarrow> 'a attachments_db_scheme \<Rightarrow> uuid \<Rightarrow> uuid \<Rightarrow> uuid \<Rightarrow> instant
       \<Rightarrow> exc + 'a attachments_db_scheme \<times> string" where
  "delete_attachment db0 db actor_id note_id attachment_id now =
     bind_exc (authorized_attachment db0 actor_id note_id attachment_id) (\<lambda>a.
     bind_exc (lock_couple db (na_couple_id a)) (\<lambda>_.
     bind_exc (if holds_storage (na_status a) then adjust_storage db (- na_size_bytes a) else Inr db) (\<lambda>db.
     bind_exc (update_attachment db (na_id a)
                 (\<lambda>r. r\<lparr>na_deleted_at := Some now, na_status := Deleted, na_updated_at := now\<rparr>)) (\<lambda>db.
       Inr (db, na_storage_key a)))))"

definition remove_files :: "files \<Rightarrow> string \<Rightarrow> files" where
  "remove_files fs key =
     fs\<lparr>staging := (staging fs)(key := None), processing := (processing fs)(key := None),
        available := (available fs)(key := None)\<rparr>"

section \<open>Archives\<close>

definition archived_note :: "'a attachments_db_scheme \<Rightarrow> uuid \<Rightarrow> uuid \<Rightarrow> uuid \<Rightarrow> exc + note_row" where
  "archived_note db actor_id archive_id note_id =
     bind_exc (archived_member db actor_id archive_id) (\<lambda>_.
     case scalar (\<lambda>n. nt_id n = note_id \<and> nt_couple_id n = archive_id) (note_rows db) of
       None \<Rightarrow> Inl (HTTPException 404 ''Archive is unavailable'')
     | Some n \<Rightarrow> Inr n)"

definition archived_attachment ::
    "'a attachments_db_scheme \<Rightarrow> uuid \<Rightarrow> uuid \<Rightarrow> uuid \<Rightarrow> uuid \<Rightarrow> exc + note_attachment" where
  "archived_attachment db actor_id archive_id note_id attachment_id =
     bind_exc (archived_note db actor_id archive_id note_id) (\<lambda>_.
     case scalar (\<lambda>a. na_id a = attachment_id \<and> na_note_id a = note_id \<and> na_couple_id a = archive_id
            \<and> na_status a = Available \<and> na_deleted_at a = None) (note_attachments db) of
       None \<Rightarrow> Inl (HTTPException 404 ''Archive is unavailable'')
     | Some a \<Rightarrow> Inr a)"

definition list_archive_attachments ::
    "'a attachments_db_scheme \<Rightarrow> uuid \<Rightarrow> uuid \<Rightarrow> uuid \<Rightarrow> exc + attachment_view list" where
  "list_archive_attachments db actor_id archive_id note_id =
     bind_exc (archived_note db actor_id archive_id note_id) (\<lambda>_.
       Inr (map (\<lambda>a. attachment_response a True) (sort_key na_created_at
         (select (\<lambda>a. na_note_id a = note_id \<and> na_couple_id a = archive_id \<and> na_status a = Available
            \<and> na_deleted_at a = None) (note_attachments db)))))"

definition download_archive_attachment ::
    "'a attachments_db_scheme \<Rightarrow> files \<Rightarrow> uuid \<Rightarrow> uuid \<Rightarrow> uuid \<Rightarrow> uuid \<Rightarrow> exc + bytes" where
  "download_archive_attachment db fs actor_id archive_id note_id attachment_id =
     bind_exc (archived_attachment db actor_id archive_id note_id attachment_id) (\<lambda>a.
       available_file fs a (HTTPException 503 ''Archive bytes are unavailable''))"

section \<open>Cleanup\<close>

definition stale_upload :: "instant \<Rightarrow> note_attachment \<Rightarrow> bool" where
  "stale_upload now a \<longleftrightarrow> na_status a = Uploading \<and> na_updated_at a \<le> now - 24 * hour"

definition old_rejection :: "instant \<Rightarrow> note_attachment \<Rightarrow> bool" where
  "old_rejection now a \<longleftrightarrow> na_status a = Rejected \<and> na_updated_at a \<le> now - 7 * day"

definition expired_note :: "'a attachments_db_scheme \<Rightarrow> instant \<Rightarrow> uuid \<Rightarrow> bool" where
  "expired_note db now i \<longleftrightarrow>
     list_ex (\<lambda>n. nt_id n = i \<and> (case nt_purge_after n of None \<Rightarrow> False | Some t \<Rightarrow> t \<le> now)) (note_rows db)"

text \<open>Deleting an attachment deletes its job (\<^verbatim>\<open>ON DELETE CASCADE\<close>).\<close>

definition delete_attachments :: "(note_attachment \<Rightarrow> bool) \<Rightarrow> 'a attachments_db_scheme \<Rightarrow> 'a attachments_db_scheme" where
  "delete_attachments p db =
     (let gone = map na_id (select p (note_attachments db))
      in db\<lparr>note_attachments := delete_where p (note_attachments db),
            attachment_jobs := delete_where (\<lambda>j. aj_attachment_id j \<in> set gone) (attachment_jobs db)\<rparr>)"

definition prepare_attachment_cleanup ::
    "'a attachments_db_scheme \<Rightarrow> instant \<Rightarrow> 'a attachments_db_scheme \<times> string list" where
  "prepare_attachment_cleanup db now =
     (delete_attachments (old_rejection now) (delete_attachments (stale_upload now) db),
      map na_storage_key (select (\<lambda>a. expired_note db now (na_note_id a) \<or> stale_upload now a \<or> old_rejection now a)
        (note_attachments db)))"

end
