(* ===== verification/Attachment_Sanitizers.thy ===== *)
theory Attachment_Sanitizers
  imports Attachments
begin

text \<open>
  What may be published of a file (\<^verbatim>\<open>attachment_sanitizers.py\<close>): the signature decides the type, which
  must be the declared one, and the file is written anew within the budgets of its kind. Text is
  modelled down to its bytes. The image library, the PDF renderer, \<^verbatim>\<open>ffprobe\<close> and \<^verbatim>\<open>ffmpeg\<close> are
  parameters; the budgets the code enforces on what they report are not.
\<close>

section \<open>Errors and tools\<close>

datatype media_error = Attachment_rejected string | Scan_unavailable string | Other_error

text \<open>What \<^verbatim>\<open>float(duration)\<close> gives: an exception, no finite number (also when absent), or seconds.\<close>

datatype duration_text = Not_a_number | Not_finite | Seconds real

record probe_result =
  pr_kinds :: "string option list"
  pr_duration :: duration_text

text \<open>Whether a PDF needs a password, and the pixel size of each rendered page.\<close>

record pdf_file =
  pf_needs_pass :: bool
  pf_pages :: "(nat \<times> nat) list"

record 'f media_tools =
  mt_open_image :: "bytes \<Rightarrow> media_error + 'f list"
  mt_frame_size :: "'f \<Rightarrow> nat \<times> nat"
  mt_clean_frame :: "'f \<Rightarrow> string \<Rightarrow> 'f"
  mt_save_image :: "string \<Rightarrow> 'f list \<Rightarrow> media_error + bytes"
  mt_open_pdf :: "bytes \<Rightarrow> pdf_file option"
  mt_save_pdf :: "bytes \<Rightarrow> media_error + bytes"
  mt_probe :: "bytes \<Rightarrow> media_error + probe_result"
  mt_transcode :: "string \<Rightarrow> bytes \<Rightarrow> bytes option"

section \<open>Text\<close>

text \<open>The strict UTF-8 codec, on byte values: no overlong forms, no surrogates.\<close>

definition continuation :: "nat \<Rightarrow> bool" where
  "continuation b \<longleftrightarrow> 128 \<le> b \<and> b < 192"

fun utf8_decode :: "nat list \<Rightarrow> nat list option" where
  "utf8_decode [] = Some []"
| "utf8_decode (b # bs) =
     (if b < 128 then map_option ((#) b) (utf8_decode bs)
      else if b < 194 then None
      else if b < 224 then
        (case bs of
           b1 # bs \<Rightarrow>
             (if continuation b1 then map_option ((#) ((b - 192) * 64 + (b1 - 128))) (utf8_decode bs) else None)
         | _ \<Rightarrow> None)
      else if b < 240 then
        (case bs of
           b1 # b2 # bs \<Rightarrow>
             (let c = (b - 224) * 4096 + (b1 - 128) * 64 + (b2 - 128)
              in if continuation b1 \<and> continuation b2 \<and> 2048 \<le> c \<and> \<not> (55296 \<le> c \<and> c < 57344)
                 then map_option ((#) c) (utf8_decode bs) else None)
         | _ \<Rightarrow> None)
      else if b < 245 then
        (case bs of
           b1 # b2 # b3 # bs \<Rightarrow>
             (let c = (b - 240) * 262144 + (b1 - 128) * 4096 + (b2 - 128) * 64 + (b3 - 128)
              in if continuation b1 \<and> continuation b2 \<and> continuation b3 \<and> 65536 \<le> c \<and> c < 1114112
                 then map_option ((#) c) (utf8_decode bs) else None)
         | _ \<Rightarrow> None)
      else None)"

definition utf8_char :: "nat \<Rightarrow> nat list" where
  "utf8_char c =
     (if c < 128 then [c]
      else if c < 2048 then [192 + c div 64, 128 + c mod 64]
      else if c < 65536 then [224 + c div 4096, 128 + c div 64 mod 64, 128 + c mod 64]
      else [240 + c div 262144, 128 + c div 4096 mod 64, 128 + c div 64 mod 64, 128 + c mod 64])"

definition utf8_encode :: "nat list \<Rightarrow> nat list" where
  "utf8_encode cs = concat (map utf8_char cs)"

text \<open>
  Reading in text mode turns every line ending into a line feed; \<open>cr\<close> tells that the character before
  was a carriage return.
\<close>

fun newlines :: "bool \<Rightarrow> nat list \<Rightarrow> nat list" where
  "newlines cr [] = []"
| "newlines cr (c # cs) =
     (if c = 13 then 10 # newlines True cs
      else if c = 10 \<and> cr then newlines False cs
      else c # newlines False cs)"

definition universal_newlines :: "nat list \<Rightarrow> nat list" where
  "universal_newlines cs = newlines False cs"

definition read_valid_text :: "bytes \<Rightarrow> media_error + nat list" where
  "read_valid_text source =
     (case utf8_decode (map unat source) of
        None \<Rightarrow> Inl (Attachment_rejected ''invalid_text'')
      | Some cs \<Rightarrow>
          (let text = universal_newlines cs
           in if 0 \<in> set text then Inl (Attachment_rejected ''invalid_text'') else Inr text))"

definition sanitize_text :: "bytes \<Rightarrow> media_error + bytes" where
  "sanitize_text source = map_sum id (\<lambda>text. map of_nat (utf8_encode text)) (read_valid_text source)"

section \<open>The type of a file\<close>

definition starts_with :: "'a list \<Rightarrow> 'a list \<Rightarrow> bool" where
  "starts_with p s \<longleftrightarrow> take (length p) s = p"

definition image_or_document_type :: "bytes \<Rightarrow> string option" where
  "image_or_document_type header =
     (if starts_with [0xFF, 0xD8, 0xFF] header then Some ''image/jpeg''
      else if starts_with [0x89, 0x50, 0x4E, 0x47, 0x0D, 0x0A, 0x1A, 0x0A] header then Some ''image/png''
      else if starts_with [0x47, 0x49, 0x46, 0x38, 0x37, 0x61] header
              \<or> starts_with [0x47, 0x49, 0x46, 0x38, 0x39, 0x61] header then Some ''image/gif''
      else if take 4 header = [0x52, 0x49, 0x46, 0x46] \<and> take 4 (drop 8 header) = [0x57, 0x45, 0x42, 0x50]
           then Some ''image/webp''
      else if starts_with [0x25, 0x50, 0x44, 0x46, 0x2D] header then Some ''application/pdf''
      else None)"

definition container_media_type :: "'f media_tools \<Rightarrow> bytes \<Rightarrow> string \<Rightarrow> media_error + string" where
  "container_media_type tools source declared =
     (if declared \<notin> {''audio/mp4'', ''video/mp4''} then Inl (Attachment_rejected ''media_type_mismatch'')
      else (case mt_probe tools source of
          Inl e \<Rightarrow> Inl e
        | Inr p \<Rightarrow>
            (if Some ''video'' \<in> set (pr_kinds p) then Inr ''video/mp4''
             else if set (pr_kinds p) = {Some ''audio''} then Inr ''audio/mp4''
             else Inl (Attachment_rejected ''invalid_media_streams''))))"

definition audio_or_container_type ::
    "'f media_tools \<Rightarrow> bytes \<Rightarrow> bytes \<Rightarrow> string \<Rightarrow> media_error + string option" where
  "audio_or_container_type tools source header declared =
     (if starts_with [0x4F, 0x67, 0x67, 0x53] header then Inr (Some ''audio/ogg'')
      else if starts_with [0x1A, 0x45, 0xDF, 0xA3] header then Inr (Some ''video/webm'')
      else if 12 \<le> length header \<and> take 4 (drop 4 header) = [0x66, 0x74, 0x79, 0x70]
           then map_sum id Some (container_media_type tools source declared)
      else if starts_with [0x49, 0x44, 0x33] header
              \<or> 2 \<le> length header \<and> header ! 0 = 0xFF \<and> and (header ! 1) 0xE0 = 0xE0
           then Inr (Some ''audio/mpeg'')
      else Inr None)"

definition detect_media_type :: "'f media_tools \<Rightarrow> bytes \<Rightarrow> string \<Rightarrow> media_error + string" where
  "detect_media_type tools source declared =
     (let header = take 32 source
      in case image_or_document_type header of
           Some t \<Rightarrow> Inr t
         | None \<Rightarrow>
             (case audio_or_container_type tools source header declared of
                Inl e \<Rightarrow> Inl e
              | Inr (Some t) \<Rightarrow> Inr t
              | Inr None \<Rightarrow>
                  (if declared = ''text/plain'' \<or> declared = ''text/markdown''
                   then map_sum id (\<lambda>_. declared) (read_valid_text source)
                   else Inl (Attachment_rejected ''unrecognized_media_signature''))))"

section \<open>Images, documents and media\<close>

definition pixels :: "nat \<times> nat \<Rightarrow> nat" where
  "pixels extent = fst extent * snd extent"

text \<open>The loop over the frames: the frame and pixel budgets, checked before a frame is kept.\<close>

fun clean_frames ::
    "'f media_tools \<Rightarrow> string \<Rightarrow> 'f list \<Rightarrow> nat \<Rightarrow> 'f list \<Rightarrow> media_error + 'f list" where
  "clean_frames tools format kept pixel_count [] = Inr kept"
| "clean_frames tools format kept pixel_count (frame # frames) =
     (if 300 \<le> length kept then Inl (Attachment_rejected ''too_many_image_frames'')
      else
        (let pixel_count = pixel_count + pixels (mt_frame_size tools frame)
         in if 80000000 < pixel_count then Inl (Attachment_rejected ''image_pixel_budget_exceeded'')
            else clean_frames tools format (kept @ [mt_clean_frame tools frame format]) pixel_count frames))"

definition image_format :: "string \<Rightarrow> string option" where
  "image_format media_type = map_of
     [(''image/jpeg'', ''JPEG''), (''image/png'', ''PNG''), (''image/webp'', ''WEBP''), (''image/gif'', ''GIF'')] media_type"

definition sanitize_image :: "'f media_tools \<Rightarrow> bytes \<Rightarrow> string \<Rightarrow> media_error + bytes" where
  "sanitize_image tools source media_type =
     (case image_format media_type of
        None \<Rightarrow> Inl Other_error
      | Some format \<Rightarrow>
          (case mt_open_image tools source of
             Inl e \<Rightarrow> Inl e
           | Inr found \<Rightarrow>
               (case clean_frames tools format [] 0 found of
                  Inl e \<Rightarrow> Inl e
                | Inr [] \<Rightarrow> Inl (Attachment_rejected ''invalid_image'')
                | Inr (frame # frames) \<Rightarrow>
                    mt_save_image tools format
                      (if frames \<noteq> [] \<and> format \<in> {''GIF'', ''WEBP''} then frame # frames else [frame]))))"

definition MAX_MEDIA_SECONDS :: real where "MAX_MEDIA_SECONDS = 600"
definition MAX_PDF_PAGES :: nat where "MAX_PDF_PAGES = 100"
definition MAX_PDF_PIXELS :: nat where "MAX_PDF_PIXELS = 300000000"

fun pdf_pixels_allowed :: "nat \<Rightarrow> (nat \<times> nat) list \<Rightarrow> bool" where
  "pdf_pixels_allowed n [] = True"
| "pdf_pixels_allowed n (page # pages) =
     (let n = n + pixels page in n \<le> MAX_PDF_PIXELS \<and> pdf_pixels_allowed n pages)"

definition sanitize_pdf :: "'f media_tools \<Rightarrow> bytes \<Rightarrow> media_error + bytes" where
  "sanitize_pdf tools source =
     (case mt_open_pdf tools source of
        None \<Rightarrow> Inl (Attachment_rejected ''invalid_pdf'')
      | Some original \<Rightarrow>
          (if pf_needs_pass original \<or> length (pf_pages original) < 1
           then Inl (Attachment_rejected ''invalid_pdf'')
           else if MAX_PDF_PAGES < length (pf_pages original)
           then Inl (Attachment_rejected ''too_many_pdf_pages'')
           else if \<not> pdf_pixels_allowed 0 (pf_pages original)
           then Inl (Attachment_rejected ''pdf_pixel_budget_exceeded'')
           else mt_save_pdf tools source))"

definition known_media_codec :: "string \<Rightarrow> bool" where
  "known_media_codec media_type \<longleftrightarrow>
     media_type \<in> {''audio/mpeg'', ''audio/mp4'', ''audio/ogg'', ''video/mp4'', ''video/webm''}"

definition within_seconds :: "real \<Rightarrow> duration_text \<Rightarrow> bool" where
  "within_seconds limit d \<longleftrightarrow> (case d of Seconds t \<Rightarrow> 0 < t \<and> t \<le> limit | _ \<Rightarrow> False)"

definition checked_transcode :: "'f media_tools \<Rightarrow> bytes \<Rightarrow> string \<Rightarrow> media_error + bytes" where
  "checked_transcode tools source media_type =
     (case mt_transcode tools media_type source of
        None \<Rightarrow> Inl (Attachment_rejected ''invalid_media'')
      | Some out \<Rightarrow>
          (case mt_probe tools out of
             Inl e \<Rightarrow> Inl e
           | Inr q \<Rightarrow>
               (if pr_duration q = Not_a_number then Inl Other_error
                else if \<not> within_seconds (MAX_MEDIA_SECONDS + 1) (pr_duration q)
                then Inl (Attachment_rejected ''invalid_sanitized_media'') else Inr out)))"

definition sanitize_media :: "'f media_tools \<Rightarrow> bytes \<Rightarrow> string \<Rightarrow> media_error + bytes" where
  "sanitize_media tools source media_type =
     (case mt_probe tools source of
        Inl e \<Rightarrow> Inl e
      | Inr p \<Rightarrow>
          (if pr_duration p = Not_a_number then Inl (Attachment_rejected ''invalid_media_duration'')
           else if \<not> within_seconds MAX_MEDIA_SECONDS (pr_duration p)
           then Inl (Attachment_rejected ''media_duration_exceeded'')
           else if \<not> known_media_codec media_type then Inl Other_error
           else checked_transcode tools source media_type))"

definition sanitize_file :: "'f media_tools \<Rightarrow> bytes \<Rightarrow> string \<Rightarrow> media_error + bytes" where
  "sanitize_file tools source declared =
     (case detect_media_type tools source declared of
        Inl e \<Rightarrow> Inl e
      | Inr media_type \<Rightarrow>
          (if media_type \<noteq> declared then Inl (Attachment_rejected ''media_type_mismatch'')
           else if starts_with ''image/'' media_type then sanitize_image tools source media_type
           else if media_type = ''application/pdf'' then sanitize_pdf tools source
           else if starts_with ''audio/'' media_type \<or> starts_with ''video/'' media_type
           then sanitize_media tools source media_type
           else sanitize_text source))"

section \<open>Published text\<close>

definition scalar_value :: "nat \<Rightarrow> bool" where
  "scalar_value c \<longleftrightarrow> c < 1114112 \<and> \<not> (55296 \<le> c \<and> c < 57344)"

lemma utf8_decode_multi:
  "2 \<le> p \<Longrightarrow> p < 32 \<Longrightarrow> q < 64 \<Longrightarrow>
     utf8_decode ((192 + p) # (128 + q) # bs) = map_option ((#) (p * 64 + q)) (utf8_decode bs)"
  "p < 16 \<Longrightarrow> q < 64 \<Longrightarrow> r < 64 \<Longrightarrow> p * 4096 + q * 64 + r = c \<Longrightarrow> 2048 \<le> c \<Longrightarrow> scalar_value c \<Longrightarrow>
     utf8_decode ((224 + p) # (128 + q) # (128 + r) # bs) = map_option ((#) c) (utf8_decode bs)"
  "p < 5 \<Longrightarrow> q < 64 \<Longrightarrow> r < 64 \<Longrightarrow> t < 64 \<Longrightarrow> p * 262144 + q * 4096 + r * 64 + t = c \<Longrightarrow> 65536 \<le> c \<Longrightarrow> scalar_value c \<Longrightarrow>
     utf8_decode ((240 + p) # (128 + q) # (128 + r) # (128 + t) # bs) = map_option ((#) c) (utf8_decode bs)"
  by (simp_all add: continuation_def scalar_value_def)

lemma utf8_decode_char:
  assumes "scalar_value c"
  shows "utf8_decode (utf8_char c @ bs) = map_option ((#) c) (utf8_decode bs)"
proof -
  have two: "c div 64 * 64 + c mod 64 = c" by simp
  have d2: "c div 4096 = c div 64 div 64" and d3: "c div 262144 = c div 4096 div 64"
    by (simp_all add: div_mult2_eq [symmetric])
  have "c div 64 div 64 * 64 + c div 64 mod 64 = c div 64" by simp
  with two d2 have three: "c div 4096 * 4096 + c div 64 mod 64 * 64 + c mod 64 = c" by linarith
  have "c div 4096 div 64 * 64 + c div 4096 mod 64 = c div 4096" by simp
  with three d3 have four: "c div 262144 * 262144 + c div 4096 mod 64 * 4096 + c div 64 mod 64 * 64 + c mod 64 = c"
    by linarith
  have "c < 1114112" using assms by (simp add: scalar_value_def)
  then have big: "c div 262144 < 5" by simp
  consider "c < 128" | "128 \<le> c" "c < 2048" | "2048 \<le> c" "c < 65536" | "65536 \<le> c" by linarith
  then show ?thesis
  proof cases
    case 1 then show ?thesis by (simp add: utf8_char_def)
  next
    case 2
    then have char: "utf8_char c = [192 + c div 64, 128 + c mod 64]" and "2 \<le> c div 64" "c div 64 < 32"
      by (simp_all add: utf8_char_def)
    then have "utf8_decode ((192 + c div 64) # (128 + c mod 64) # bs) = map_option ((#) c) (utf8_decode bs)"
      using utf8_decode_multi(1) [of "c div 64" "c mod 64" bs] two by simp
    then show ?thesis by (simp only: char append.simps)
  next
    case 3
    then have "c div 4096 < 16" by simp
    with 3 utf8_decode_multi(2) [OF _ _ _ three _ assms] show ?thesis by (simp add: utf8_char_def del: utf8_decode.simps)
  next
    case 4
    with big utf8_decode_multi(3) [OF _ _ _ _ four _ assms] show ?thesis by (simp add: utf8_char_def del: utf8_decode.simps)
  qed
qed

lemma utf8_roundtrip: "list_all scalar_value cs \<Longrightarrow> utf8_decode (utf8_encode cs) = Some cs"
  unfolding utf8_encode_def by (induction cs) (simp_all add: utf8_decode_char)

lemma scalar_heads:
  "b < 128 \<Longrightarrow> scalar_value b"
  "b < 224 \<Longrightarrow> continuation b1 \<Longrightarrow> scalar_value ((b - 192) * 64 + (b1 - 128))"
  "b < 240 \<Longrightarrow> continuation b1 \<Longrightarrow> continuation b2 \<Longrightarrow> c = (b - 224) * 4096 + (b1 - 128) * 64 + (b2 - 128)
     \<Longrightarrow> 55296 \<le> c \<longrightarrow> \<not> c < 57344 \<Longrightarrow> scalar_value c"
  "65536 \<le> c \<Longrightarrow> c < 1114112 \<Longrightarrow> scalar_value c"
  by (auto simp: scalar_value_def continuation_def)

lemma utf8_decode_scalar: "utf8_decode bs = Some cs \<Longrightarrow> list_all scalar_value cs"
proof (induction "length bs" arbitrary: bs cs rule: less_induct)
  case less
  have IH: "list_all scalar_value z" if "utf8_decode bs' = Some z" "length bs' < length bs" for bs' z
    using less.hyps that by blast
  show ?case
  proof (cases bs)
    case (Cons b rest)
    note d = less.prems [unfolded Cons utf8_decode.simps Let_def]
    consider "b < 128" | "\<not> b < 128" "b < 194" | "\<not> b < 194" "b < 224" | "\<not> b < 224" "b < 240" | "\<not> b < 240" by linarith
    then show ?thesis
    proof cases
      case 1 with d Cons show ?thesis by (auto simp: scalar_heads(1) dest: IH)
    next
      case 2 with d show ?thesis by simp
    next
      case 3 with d Cons show ?thesis by (auto simp: scalar_heads(2) split: list.splits if_splits dest: IH)
    next
      case 4
      with d obtain b1 b2 bs' z c where "rest = b1 # b2 # bs'" "utf8_decode bs' = Some z" "cs = c # z"
        and "scalar_value c"
        by (auto split: list.splits if_splits dest: scalar_heads(3) [OF \<open>b < 240\<close> _ _ refl])
      with Cons IH [of bs' z] show ?thesis by simp
    next
      case 5
      with d obtain b1 b2 b3 bs' z c where "rest = b1 # b2 # b3 # bs'" "utf8_decode bs' = Some z" "cs = c # z"
        and "scalar_value c"
        by (auto simp: scalar_heads(4) split: list.splits if_splits)
      with Cons IH [of bs' z] show ?thesis by simp
    qed
  qed (use less.prems in simp)
qed

lemma utf8_bytes:
  assumes "scalar_value c" "b \<in> set (utf8_char c)"
  shows "b < 256"
proof -
  have low: "128 + k mod 64 < (256::nat)" for k
    using mod_less_divisor [of 64 k] by linarith
  have bound: "c < 1114112" using assms(1) by (simp add: scalar_value_def)
  have "c div 262144 < 5" "c < 2048 \<Longrightarrow> c div 64 < 32" "c < 65536 \<Longrightarrow> c div 4096 < 16" using bound by simp_all
  then have "240 + c div 262144 < 256" "c < 2048 \<Longrightarrow> 192 + c div 64 < 256" "c < 65536 \<Longrightarrow> 224 + c div 4096 < 256" by simp_all
  moreover have "b = c \<and> c < 128 \<or> b = 192 + c div 64 \<and> c < 2048 \<or> b = 224 + c div 4096 \<and> c < 65536 \<or> b = 240 + c div 262144
      \<or> (\<exists>k. b = 128 + k mod 64)"
    using assms(2) unfolding utf8_char_def by (simp only: split: if_splits) (simp_all only: set_simps insert_iff empty_iff, blast+)
  ultimately show ?thesis using low by (elim disjE) auto
qed
lemma set_newlines: "x \<in> set (newlines cr cs) \<Longrightarrow> x \<noteq> 13 \<and> (x = 10 \<or> x \<in> set cs)"
  by (induction cs arbitrary: cr) (force split: if_splits)+

lemma newlines_id: "13 \<notin> set cs \<Longrightarrow> newlines False cs = cs"
  by (induction cs) auto

lemmas set_universal_newlines = set_newlines [of _ False, folded universal_newlines_def]
lemmas universal_newlines_id = newlines_id [folded universal_newlines_def]

lemma read_valid_text_Inr:
  assumes "read_valid_text source = Inr t"
  shows "list_all scalar_value t \<and> 0 \<notin> set t \<and> 13 \<notin> set t"
proof -
  from assms obtain cs where cs: "utf8_decode (map unat source) = Some cs" and t: "t = universal_newlines cs"
    and "0 \<notin> set t"
    by (auto simp: read_valid_text_def Let_def split: option.splits if_splits)
  with utf8_decode_scalar [OF cs] set_universal_newlines [of _ cs] show ?thesis
    by (force simp: list_all_iff scalar_value_def)
qed

lemma unat_bytes: "list_all (\<lambda>b. b < 256) bs \<Longrightarrow> map unat (map of_nat bs :: bytes) = bs"
  by (induction bs) (simp_all add: unat_of_nat)

text \<open>
  C35: a text file is only published as valid UTF-8 without NUL characters and carriage returns, and
  sanitizing the published bytes again gives the same bytes.
\<close>
theorem published_text_canonical:
  assumes "sanitize_text source = Inr out"
  shows "\<exists>t. utf8_decode (map unat out) = Some t \<and> 0 \<notin> set t \<and> 13 \<notin> set t \<and> sanitize_text out = Inr out"
proof -
  from assms obtain t where "read_valid_text source = Inr t" and out: "out = map of_nat (utf8_encode t)"
    by (cases "read_valid_text source") (auto simp: sanitize_text_def)
  then have t: "list_all scalar_value t" "0 \<notin> set t" "13 \<notin> set t"
    by (auto dest: read_valid_text_Inr)
  have "list_all (\<lambda>b. b < 256) (utf8_encode t)"
    using t(1) utf8_bytes by (auto simp: utf8_encode_def list_all_iff)
  then have decoded: "utf8_decode (map unat out) = Some t"
    unfolding out by (simp only: unat_bytes utf8_roundtrip [OF t(1)])
  have "read_valid_text out = Inr t"
    using t(2,3) by (simp add: read_valid_text_def decoded universal_newlines_id)
  then have "sanitize_text out = Inr out" by (simp add: sanitize_text_def out)
  with t(2,3) decoded show ?thesis by blast
qed

section \<open>Published types and budgets\<close>

lemma clean_frames_budget:
  assumes "clean_frames tools format kept n frames = Inr out" "length kept \<le> 300" "n \<le> 80000000"
  shows "length kept + length frames \<le> 300 \<and> n + sum_list (map (\<lambda>f. pixels (mt_frame_size tools f)) frames) \<le> 80000000"
  using assms
  by (induction tools format kept n frames rule: clean_frames.induct) (auto simp: Let_def split: if_splits)

lemma pdf_budget:
  "pdf_pixels_allowed n pages \<Longrightarrow> pages \<noteq> [] \<Longrightarrow> n + sum_list (map pixels pages) \<le> MAX_PDF_PIXELS"
proof (induction n pages rule: pdf_pixels_allowed.induct)
  case (2 n page pages)
  then show ?case by (cases pages) (auto simp: Let_def add.assoc)
qed simp

lemma image_published:
  assumes "sanitize_image tools source declared = Inr out"
  shows "\<exists>frames. mt_open_image tools source = Inr frames \<and> frames \<noteq> [] \<and> length frames \<le> 300
    \<and> sum_list (map (\<lambda>f. pixels (mt_frame_size tools f)) frames) \<le> 80000000"
proof -
  from assms obtain format frames kept where "mt_open_image tools source = Inr frames"
    and kept: "clean_frames tools format [] 0 frames = Inr kept" "kept \<noteq> []"
    by (auto simp: sanitize_image_def split: option.splits sum.splits list.splits)
  with clean_frames_budget [OF kept(1)] show ?thesis by (cases frames) auto
qed

lemma pdf_published:
  assumes "sanitize_pdf tools source = Inr out"
  shows "\<exists>p. mt_open_pdf tools source = Some p \<and> \<not> pf_needs_pass p \<and> length (pf_pages p) \<in> {1..100}
    \<and> sum_list (map pixels (pf_pages p)) \<le> 300000000"
proof -
  from assms obtain p where p: "mt_open_pdf tools source = Some p" "\<not> pf_needs_pass p" "pf_pages p \<noteq> []"
    "length (pf_pages p) \<le> MAX_PDF_PAGES" "pdf_pixels_allowed 0 (pf_pages p)"
    by (auto simp: sanitize_pdf_def not_less split: option.splits if_splits)
  with pdf_budget [OF p(5)] show ?thesis
    by (cases "pf_pages p") (auto simp: MAX_PDF_PAGES_def MAX_PDF_PIXELS_def)
qed

lemma media_published:
  assumes "sanitize_media tools source declared = Inr out"
  shows "\<exists>p q. mt_probe tools source = Inr p \<and> within_seconds 600 (pr_duration p)
    \<and> mt_probe tools out = Inr q \<and> within_seconds 601 (pr_duration q)"
  using assms
  by (auto simp: sanitize_media_def checked_transcode_def MAX_MEDIA_SECONDS_def split: sum.splits if_splits option.splits)

text \<open>
  C17: a file is only published when its bytes have the type the client declared - a file that starts with
  the signature of an image or a document under no other type - and within the budgets of its kind:
  at most 300 frames and 80 million pixels, 100 pages and 300 million pixels, or ten minutes.
\<close>
theorem published_within_policy:
  assumes published: "sanitize_file tools source declared = Inr out"
  shows "detect_media_type tools source declared = Inr declared
    \<and> (\<forall>t. image_or_document_type (take 32 source) = Some t \<longrightarrow> declared = t)
    \<and> (starts_with ''image/'' declared \<longrightarrow> (\<exists>frames. mt_open_image tools source = Inr frames \<and> frames \<noteq> []
           \<and> length frames \<le> 300 \<and> sum_list (map (\<lambda>f. pixels (mt_frame_size tools f)) frames) \<le> 80000000))
    \<and> (declared = ''application/pdf'' \<longrightarrow> (\<exists>p. mt_open_pdf tools source = Some p \<and> \<not> pf_needs_pass p
           \<and> length (pf_pages p) \<in> {1..100} \<and> sum_list (map pixels (pf_pages p)) \<le> 300000000))
    \<and> (starts_with ''audio/'' declared \<or> starts_with ''video/'' declared \<longrightarrow>
           (\<exists>p q. mt_probe tools source = Inr p \<and> within_seconds 600 (pr_duration p)
              \<and> mt_probe tools out = Inr q \<and> within_seconds 601 (pr_duration q)))"
proof -
  from published have detected: "detect_media_type tools source declared = Inr declared"
    by (auto simp: sanitize_file_def split: sum.splits if_splits)
  note out = published [unfolded sanitize_file_def detected, simplified]
  show ?thesis
  proof (intro conjI)
    show "\<forall>t. image_or_document_type (take 32 source) = Some t \<longrightarrow> declared = t"
      using detected by (auto simp: detect_media_type_def Let_def)
  qed (use detected out in \<open>auto simp: starts_with_def split: if_splits
         dest!: image_published pdf_published media_published\<close>)
qed

section \<open>Witnesses\<close>

text \<open>Tools that find one small frame and one page, and a second of sound.\<close>

definition demo_tools :: "unit media_tools" where
  "demo_tools =
     \<lparr>mt_open_image = \<lambda>_. Inr [()], mt_frame_size = \<lambda>_. (2, 3), mt_clean_frame = \<lambda>f _. f,
      mt_save_image = \<lambda>_ _. Inr [0xFF, 0xD8, 0xFF], mt_open_pdf = \<lambda>_. Some \<lparr>pf_needs_pass = False, pf_pages = [(4, 5)]\<rparr>,
      mt_save_pdf = \<lambda>_. Inr [1], mt_probe = \<lambda>_. Inr \<lparr>pr_kinds = [Some ''audio''], pr_duration = Seconds 1\<rparr>,
      mt_transcode = \<lambda>_ b. Some b\<rparr>"

theorem published_within_policy_witness:
  "detect_media_type demo_tools [0xFF, 0xD8, 0xFF, 7] ''image/jpeg'' = Inr ''image/jpeg''"
  using published_within_policy [of demo_tools "[0xFF, 0xD8, 0xFF, 7]" "''image/jpeg''" "[0xFF, 0xD8, 0xFF]"]
  by (simp add: sanitize_file_def detect_media_type_def image_or_document_type_def starts_with_def Let_def
      sanitize_image_def image_format_def demo_tools_def pixels_def)

theorem published_text_canonical_witness:
  "\<exists>t. utf8_decode (map unat ([104, 195, 169, 10, 105] :: bytes)) = Some t \<and> 0 \<notin> set t \<and> 13 \<notin> set t
     \<and> sanitize_text [104, 195, 169, 10, 105] = Inr [104, 195, 169, 10, 105]"
  by (rule published_text_canonical [of "[104, 195, 169, 13, 10, 105]"])
    (simp add: sanitize_text_def read_valid_text_def universal_newlines_def continuation_def utf8_encode_def
      utf8_char_def)

end
