(* ===== verification/Attachment_Worker.thy ===== *)
theory Attachment_Worker
  imports Attachment_Sanitizers
begin

text \<open>
  The worker that scans and publishes uploads (\<^verbatim>\<open>attachment_media.py\<close>), one function per transaction or
  file operation, in the order the worker runs them, and the sweep of orphaned files
  (\<^verbatim>\<open>attachment_maintenance.py\<close>). What clamd answers to the bytes it is sent is a parameter.
\<close>

definition MAX_JOB_ATTEMPTS :: nat where "MAX_JOB_ATTEMPTS = 8"
definition JOB_LEASE_MINUTES :: int where "JOB_LEASE_MINUTES = 10"

section \<open>The scanner\<close>

text \<open>
  The stream to clamd: each block of at most a MiB after its length as four bytes, big-endian, and
  a length of zero at the end.
\<close>

function (sequential) blocks :: "nat \<Rightarrow> 'a list \<Rightarrow> 'a list list" where
  "blocks n [] = []"
| "blocks n s = (if n = 0 then [] else take n s # blocks n (drop n s))"
  by pat_completeness auto
termination by (relation "measure (\<lambda>(n, s). length s)") auto

definition block_length :: "nat \<Rightarrow> bytes" where
  "block_length n = map (\<lambda>i. ucast (drop_bit (8 * i) (of_nat n :: 32 word))) [3, 2, 1, 0]"

definition BLOCK_BYTES :: nat where "BLOCK_BYTES = 1024 * 1024"

definition instream :: "bytes \<Rightarrow> bytes" where
  "instream source =
     concat (map (\<lambda>b. block_length (length b) @ b) (blocks BLOCK_BYTES source)) @ block_length 0"

text \<open>The answer: what arrives until a terminator, without trailing terminators.\<close>

fun received :: "string list \<Rightarrow> string" where
  "received [] = []"
| "received (chunk # chunks) =
     (if chunk = [] then []
      else if CHR 0x00 \<in> set chunk \<or> CHR 0x0A \<in> set chunk then chunk
      else chunk @ received chunks)"

definition read_clamav_response :: "string list \<Rightarrow> string" where
  "read_clamav_response chunks = rev (dropWhile (\<lambda>c. c = CHR 0x00 \<or> c = CHR 0x0A) (rev (received chunks)))"

definition ends_with :: "string \<Rightarrow> string \<Rightarrow> bool" where
  "ends_with p s \<longleftrightarrow> starts_with (rev p) (rev s)"

fun contains :: "string \<Rightarrow> string \<Rightarrow> bool" where
  "contains p [] = (p = [])"
| "contains p (c # s) \<longleftrightarrow> starts_with p (c # s) \<or> contains p s"

text \<open>\<open>clamd\<close> is the answer to a stream, or \<open>None\<close> when the connection fails.\<close>

definition clamav_scan :: "(bytes \<Rightarrow> string list option) \<Rightarrow> bytes \<Rightarrow> media_error + bool" where
  "clamav_scan clamd source =
     (case clamd (instream source) of
        None \<Rightarrow> Inl (Scan_unavailable ''clamav_unavailable'')
      | Some chunks \<Rightarrow>
          (let response = read_clamav_response chunks
           in if ends_with ''OK'' response then Inr True
              else if contains ''FOUND'' response then Inr False
              else Inl (Scan_unavailable ''clamav_invalid_response'')))"

section \<open>Claiming a job\<close>

definition job_is_ready :: "instant \<Rightarrow> attachment_job \<Rightarrow> bool" where
  "job_is_ready now j \<longleftrightarrow>
     aj_status j = Job_pending \<and> aj_next_attempt_at j \<le> now
     \<or> aj_status j = Job_leased \<and> (case aj_lease_expires_at j of None \<Rightarrow> False | Some t \<Rightarrow> t \<le> now)"

definition claimable :: "'a attachments_db_scheme \<Rightarrow> instant \<Rightarrow> attachment_job \<Rightarrow> bool" where
  "claimable db now j \<longleftrightarrow>
     job_is_ready now j \<and> aj_attempts j < MAX_JOB_ATTEMPTS
     \<and> list_ex (\<lambda>a. na_id a = aj_attachment_id j \<and> na_deleted_at a = None
          \<and> na_status a \<in> {Pending_scan, Scanning}) (note_attachments db)"

definition set_item ::
    "'a attachments_db_scheme \<Rightarrow> uuid \<Rightarrow> (note_attachment \<Rightarrow> note_attachment) \<Rightarrow> 'a attachments_db_scheme" where
  "set_item db i f = db\<lparr>note_attachments := update_where (\<lambda>a. na_id a = i) f (note_attachments db)\<rparr>"

definition set_job ::
    "'a attachments_db_scheme \<Rightarrow> uuid \<Rightarrow> (attachment_job \<Rightarrow> attachment_job) \<Rightarrow> 'a attachments_db_scheme" where
  "set_job db i f = db\<lparr>attachment_jobs := update_where (\<lambda>j. aj_attachment_id j = i) f (attachment_jobs db)\<rparr>"

definition claim_ready ::
    "string \<Rightarrow> 'a attachments_db_scheme \<Rightarrow> instant \<Rightarrow> 'a attachments_db_scheme \<times> uuid option" where
  "claim_ready worker_id db now =
     (case scalar_by (\<lambda>j. (aj_next_attempt_at j, aj_created_at j)) (claimable db now) (attachment_jobs db) of
        None \<Rightarrow> (db, None)
      | Some j \<Rightarrow>
          (set_job
             (set_item db (aj_attachment_id j) (\<lambda>a. a\<lparr>na_status := Scanning, na_updated_at := now\<rparr>))
             (aj_attachment_id j)
             (\<lambda>j. j\<lparr>aj_status := Job_leased, aj_attempts := Suc (aj_attempts j),
                aj_lease_expires_at := Some (now + JOB_LEASE_MINUTES * minute), aj_leased_by := Some worker_id,
                aj_updated_at := now\<rparr>),
           Some (aj_attachment_id j)))"

section \<open>Processing\<close>

text \<open>What the worker keeps of the item while it processes it.\<close>

record media_work =
  mw_id :: uuid
  mw_key :: string
  mw_media_type :: string
  mw_expected_hash :: string

definition begin_work :: "'a attachments_db_scheme \<Rightarrow> uuid \<Rightarrow> media_work option" where
  "begin_work db i =
     (case scalar (\<lambda>a. na_id a = i) (note_attachments db) of
        None \<Rightarrow> None
      | Some a \<Rightarrow>
          (if na_status a \<noteq> Scanning then None
           else Some \<lparr>mw_id = i, mw_key = na_storage_key a, mw_media_type = na_media_type a,
                      mw_expected_hash = na_sha256 a\<rparr>))"

definition check_hash :: "(bytes \<Rightarrow> string) \<Rightarrow> files \<Rightarrow> media_work \<Rightarrow> media_error + unit" where
  "check_hash sha fs w =
     (if map_option sha (staging fs (mw_key w)) \<noteq> Some (mw_expected_hash w)
      then Inl (Attachment_rejected ''upload_bytes_missing_or_changed'') else Inr ())"

text \<open>A missing source raises an \<^verbatim>\<open>OSError\<close>, which the scanner reports as unavailable.\<close>

definition check_malware :: "(bytes \<Rightarrow> media_error + bool) \<Rightarrow> files \<Rightarrow> media_work \<Rightarrow> media_error + unit" where
  "check_malware scanner fs w =
     (case staging fs (mw_key w) of
        None \<Rightarrow> Inl (Scan_unavailable ''clamav_unavailable'')
      | Some source \<Rightarrow>
          (case scanner source of
             Inl e \<Rightarrow> Inl e
           | Inr clean \<Rightarrow> (if clean then Inr () else Inl (Attachment_rejected ''malware_detected''))))"

text \<open>The work file is removed, then written; the \<^verbatim>\<open>finally\<close> clause removes it after an error.\<close>

definition write_work ::
    "(bytes \<Rightarrow> string \<Rightarrow> media_error + bytes) \<Rightarrow> files \<Rightarrow> media_work \<Rightarrow> files \<times> (media_error + unit)" where
  "write_work sanitize fs w =
     (let cleared = fs\<lparr>processing := (processing fs)(mw_key w := None)\<rparr>
      in case staging fs (mw_key w) of
           None \<Rightarrow> (cleared, Inl Other_error)
         | Some source \<Rightarrow>
             (case sanitize source (mw_media_type w) of
                Inl e \<Rightarrow> (cleared, Inl e)
              | Inr out \<Rightarrow> (fs\<lparr>processing := (processing fs)(mw_key w \<mapsto> out)\<rparr>, Inr ())))"

definition replace_target ::
    "(bytes \<Rightarrow> string) \<Rightarrow> files \<Rightarrow> media_work \<Rightarrow> files \<times> (media_error + string \<times> int)" where
  "replace_target sha fs w =
     (let cleared = fs\<lparr>processing := (processing fs)(mw_key w := None)\<rparr>
      in case processing fs (mw_key w) of
           None \<Rightarrow> (cleared, Inl Other_error)
         | Some out \<Rightarrow>
             (if MAX_FILE_BYTES < int (length out)
              then (cleared, Inl (Attachment_rejected ''sanitized_file_too_large''))
              else (cleared\<lparr>available := (available fs)(mw_key w \<mapsto> out)\<rparr>, Inr (sha out, int (length out)))))"

definition couple_reserved_except :: "'a attachments_db_scheme \<Rightarrow> uuid \<Rightarrow> uuid \<Rightarrow> int" where
  "couple_reserved_except db couple_id attachment_id =
     counted_bytes (select (\<lambda>a. na_couple_id a = couple_id \<and> na_id a \<noteq> attachment_id) (note_attachments db))"

definition complete_item :: "string \<Rightarrow> int \<Rightarrow> instant \<Rightarrow> note_attachment \<Rightarrow> note_attachment" where
  "complete_item sanitized_hash final_size now a =
     a\<lparr>na_status := Available, na_sha256 := sanitized_hash, na_size_bytes := final_size,
       na_uploaded_bytes := final_size, na_scanned_at := Some now, na_updated_at := now\<rparr>"

definition complete_job :: "instant \<Rightarrow> attachment_job \<Rightarrow> attachment_job" where
  "complete_job now j =
     j\<lparr>aj_status := Job_completed, aj_lease_expires_at := None, aj_leased_by := None, aj_last_error := None,
       aj_updated_at := now\<rparr>"

definition attachment_activity :: "note_attachment \<Rightarrow> instant \<Rightarrow> activity_event" where
  "attachment_activity a now =
     \<lparr>act_couple_id = na_couple_id a, act_actor_id = na_uploaded_by a, act_sequence = 0,
      act_dedupe_key = [Lit ''attachment:available:'', Id (na_id a)], act_kind = ''attachment_available'',
      act_target_type = Some ''note'', act_target_id = Some (na_note_id a), act_target_title = None,
      act_emoji = None, act_created_at = now\<rparr>"

text \<open>
  The transaction that makes an item available. The couple was looked up just before, in another
  session; an item's couple never changes. \<open>Inr (_, False)\<close> stands for the refusals.
\<close>

definition mark_available ::
    "'a attachments_db_scheme \<Rightarrow> uuid \<Rightarrow> string \<Rightarrow> int \<Rightarrow> instant \<Rightarrow> exc + 'a attachments_db_scheme \<times> bool" where
  "mark_available db attachment_id sanitized_hash final_size now =
     (case scalar (\<lambda>a. na_id a = attachment_id) (note_attachments db) of
        None \<Rightarrow> Inr (db, False)
      | Some a \<Rightarrow>
          (case scalar (\<lambda>c. cpl_id c = na_couple_id a) (couples db) of
             None \<Rightarrow> Inr (db, False)
           | Some c \<Rightarrow>
               (if na_status a \<noteq> Scanning then Inr (db, False)
                else if COUPLE_QUOTA_BYTES < couple_reserved_except db (na_couple_id a) attachment_id + final_size
                then Inr (db, False)
                else (case adjust_storage db (final_size - na_size_bytes a) of
                    Inl (AttachmentPolicyError reason) \<Rightarrow> Inr (db, False)
                  | Inl e \<Rightarrow> Inl e
                  | Inr db \<Rightarrow>
                      (let db = set_item db attachment_id (complete_item sanitized_hash final_size now);
                           db = set_job db attachment_id (complete_job now)
                       in Inr (if cpl_ended_at c = None then record_activity db (attachment_activity a now) else db,
                               True))))))"

section \<open>Giving up\<close>

definition retry_delay :: "nat \<Rightarrow> duration" where
  "retry_delay attempts = min 300 (5 * 2 ^ (attempts - 1)) * second"

text \<open>The transaction of \<^verbatim>\<open>_retry_or_reject\<close>, and whether the item is to be rejected now.\<close>

definition retry_or_reject ::
    "'a attachments_db_scheme \<Rightarrow> uuid \<Rightarrow> string \<Rightarrow> instant \<Rightarrow> 'a attachments_db_scheme \<times> bool" where
  "retry_or_reject db i reason now =
     (case scalar (\<lambda>j. aj_attachment_id j = i) (attachment_jobs db) of
        None \<Rightarrow> (db, False)
      | Some j \<Rightarrow>
          (if i \<notin> na_id ` set (note_attachments db) then (db, False)
           else if MAX_JOB_ATTEMPTS \<le> aj_attempts j then (db, True)
           else
             (set_job
                (set_item db i (\<lambda>a. a\<lparr>na_status := Pending_scan, na_updated_at := now\<rparr>))
                i
                (\<lambda>j. j\<lparr>aj_status := Job_pending, aj_next_attempt_at := now + retry_delay (aj_attempts j),
                   aj_lease_expires_at := None, aj_leased_by := None, aj_last_error := Some reason,
                   aj_updated_at := now\<rparr>), False)))"

text \<open>The transaction of \<^verbatim>\<open>_reject\<close>, and the key whose files are removed after the commit.\<close>

definition reject ::
    "'a attachments_db_scheme \<Rightarrow> uuid \<Rightarrow> string \<Rightarrow> instant \<Rightarrow> exc + 'a attachments_db_scheme \<times> string option" where
  "reject db i reason now =
     (case scalar (\<lambda>a. na_id a = i) (note_attachments db) of
        None \<Rightarrow> Inr (db, None)
      | Some a \<Rightarrow>
          (if na_couple_id a \<notin> cpl_id ` set (couples db) then Inr (db, None)
           else
             bind_exc (if holds_storage (na_status a) then adjust_storage db (- na_size_bytes a) else Inr db) (\<lambda>db.
             let db = set_item db i (\<lambda>a. a\<lparr>na_status := Rejected, na_rejection_reason := Some reason,
                        na_updated_at := now\<rparr>);
                 db = set_job db i (\<lambda>j. j\<lparr>aj_status := Job_rejected, aj_last_error := Some reason,
                        aj_lease_expires_at := None, aj_leased_by := None, aj_updated_at := now\<rparr>)
             in Inr (db, Some (na_storage_key a)))))"

section \<open>The worker\<close>

text \<open>
  Where the worker stands, between two of its transactions or file operations. \<open>Giving_up\<close> is an error
  caught by \<^verbatim>\<open>scan_pending_once\<close>.
\<close>

datatype media_phase =
    Idle
  | Claimed uuid
  | Working media_work
  | Hashed media_work
  | Scanned media_work
  | Written media_work
  | Replaced media_work string int
  | Published media_work
  | Giving_up uuid media_error

text \<open>
  The worker's surroundings: the digest, and what the scanner and the sanitizer answer at the time of
  their \<open>n\<close>th call, which may differ from call to call.
\<close>

record media_host =
  mh_sha :: "bytes \<Rightarrow> string"
  mh_scanner :: "nat \<Rightarrow> bytes \<Rightarrow> media_error + bool"
  mh_sanitize :: "nat \<Rightarrow> bytes \<Rightarrow> string \<Rightarrow> media_error + bytes"

datatype place = Staging | Processing | Published_files

definition unlink :: "files \<Rightarrow> place \<times> string \<Rightarrow> files" where
  "unlink fs target =
     (case target of
        (Staging, key) \<Rightarrow> fs\<lparr>staging := (staging fs)(key := None)\<rparr>
      | (Processing, key) \<Rightarrow> fs\<lparr>processing := (processing fs)(key := None)\<rparr>
      | (Published_files, key) \<Rightarrow> fs\<lparr>available := (available fs)(key := None)\<rparr>)"

definition three_paths :: "string \<Rightarrow> (place \<times> string) list" where
  "three_paths key = [(Staging, key), (Processing, key), (Published_files, key)]"

fun after_check :: "media_work \<Rightarrow> media_phase \<Rightarrow> media_error + 'b \<Rightarrow> media_phase" where
  "after_check w p (Inl e) = Giving_up (mw_id w) e"
| "after_check w p (Inr _) = p"

text \<open>
  One step: the new database, files and phase, and the paths the worker starts to remove.
\<close>

fun worker_step ::
    "media_host \<Rightarrow> nat \<Rightarrow> string \<Rightarrow> instant \<Rightarrow> 'a attachments_db_scheme \<times> files \<times> media_phase
       \<Rightarrow> 'a attachments_db_scheme \<times> files \<times> media_phase \<times> (place \<times> string) list" where
  "worker_step h n me now (db, fs, Idle) =
     (case claim_ready me db now of
        (db, None) \<Rightarrow> (db, fs, Idle, [])
      | (db, Some i) \<Rightarrow> (db, fs, Claimed i, []))"
| "worker_step h n me now (db, fs, Claimed i) =
     (case begin_work db i of None \<Rightarrow> (db, fs, Idle, []) | Some w \<Rightarrow> (db, fs, Working w, []))"
| "worker_step h n me now (db, fs, Working w) =
     (db, fs, after_check w (Hashed w) (check_hash (mh_sha h) fs w), [])"
| "worker_step h n me now (db, fs, Hashed w) =
     (db, fs, after_check w (Scanned w) (check_malware (mh_scanner h n) fs w), [])"
| "worker_step h n me now (db, fs, Scanned w) =
     (case write_work (mh_sanitize h n) fs w of (fs, r) \<Rightarrow> (db, fs, after_check w (Written w) r, []))"
| "worker_step h n me now (db, fs, Written w) =
     (case replace_target (mh_sha h) fs w of
        (fs, Inl e) \<Rightarrow> (db, fs, Giving_up (mw_id w) e, [])
      | (fs, Inr (digest, final_size)) \<Rightarrow> (db, fs, Replaced w digest final_size, []))"
| "worker_step h n me now (db, fs, Replaced w digest final_size) =
     (case mark_available db (mw_id w) digest final_size now of
        Inl e \<Rightarrow> (db, fs, Giving_up (mw_id w) Other_error, [])
      | Inr (db, True) \<Rightarrow> (db, fs, Published w, [])
      | Inr (db, False) \<Rightarrow>
          (db, fs, Giving_up (mw_id w) (Attachment_rejected ''quota_exceeded_after_sanitization''), []))"
| "worker_step h n me now (db, fs, Published w) = (db, unlink fs (Staging, mw_key w), Idle, [])"
| "worker_step h n me now (db, fs, Giving_up i (Attachment_rejected reason)) =
     (case reject db i (take 40 reason) now of
        Inl e \<Rightarrow> (db, fs, Idle, [])
      | Inr (db, key) \<Rightarrow> (db, fs, Idle, (case key of None \<Rightarrow> [] | Some k \<Rightarrow> three_paths k)))"
| "worker_step h n me now (db, fs, Giving_up i (Scan_unavailable reason)) =
     (case retry_or_reject db i (take 40 reason) now of
        (db, False) \<Rightarrow> (db, fs, Idle, [])
      | (db, True) \<Rightarrow> (db, fs, Giving_up i (Attachment_rejected ''retry_limit_exceeded''), []))"
| "worker_step h n me now (db, fs, Giving_up i Other_error) =
     (case retry_or_reject db i ''processing_failed'' now of
        (db, False) \<Rightarrow> (db, fs, Idle, [])
      | (db, True) \<Rightarrow> (db, fs, Giving_up i (Attachment_rejected ''retry_limit_exceeded''), []))"

section \<open>Orphans\<close>

text \<open>The keys whose files the maintenance keeps, and the files it removes: unknown and an hour old.\<close>

definition known_keys :: "'a attachments_db_scheme \<Rightarrow> string list" where
  "known_keys db = map na_storage_key (select counted (note_attachments db))"

definition delete_orphan_files :: "files \<Rightarrow> (place \<times> string \<Rightarrow> instant) \<Rightarrow> string list \<Rightarrow> instant \<Rightarrow> files" where
  "delete_orphan_files fs mtime keep now =
     (let gone = (\<lambda>p key. key \<notin> set keep \<and> mtime (p, key) \<le> now - hour)
      in fs\<lparr>staging := (\<lambda>key. if gone Staging key then None else staging fs key),
            processing := (\<lambda>key. if gone Processing key then None else processing fs key),
            available := (\<lambda>key. if gone Published_files key then None else available fs key)\<rparr>)"

end
