(* ===== verification/Attachment_Invariants.thy ===== *)
theory Attachment_Invariants
  imports Attachment_Safety
begin

text \<open>
  The invariants of the attachment store, kept by every step, and what they give: exact accounting,
  uploads that keep exactly the accepted bytes, no unscanned byte served, bounded retries.
\<close>

section \<open>Invariants\<close>

text \<open>A published byte string: a sanitizer's output for bytes the scanner found clean.\<close>

definition clean :: "media_host \<Rightarrow> string \<Rightarrow> bytes \<Rightarrow> bool" where
  "clean h media_type out \<longleftrightarrow>
     (\<exists>source n m. mh_scanner h n source = Inr True \<and> mh_sanitize h m source media_type = Inr out)"

text \<open>Processing an item, the worker may still replace its published file.\<close>

fun in_process :: "media_phase \<Rightarrow> bool" where
  "in_process (Claimed i) = True"
| "in_process (Working w) = True"
| "in_process (Hashed w) = True"
| "in_process (Scanned w) = True"
| "in_process (Written w) = True"
| "in_process (Replaced w digest n) = True"
| "in_process _ = False"

fun phase_work :: "media_phase \<Rightarrow> media_work option" where
  "phase_work (Working w) = Some w"
| "phase_work (Hashed w) = Some w"
| "phase_work (Scanned w) = Some w"
| "phase_work (Written w) = Some w"
| "phase_work (Replaced w digest n) = Some w"
| "phase_work (Published w) = Some w"
| "phase_work _ = None"

text \<open>The bytes the worker has checked so far.\<close>

fun phase_bytes :: "media_host \<Rightarrow> files \<Rightarrow> media_phase \<Rightarrow> bool" where
  "phase_bytes h fs (Scanned w) = (\<forall>b. staging fs (mw_key w) = Some b \<longrightarrow> (\<exists>n. mh_scanner h n b = Inr True))"
| "phase_bytes h fs (Written w) = (\<forall>b. processing fs (mw_key w) = Some b \<longrightarrow> clean h (mw_media_type w) b)"
| "phase_bytes h fs (Replaced w digest n) =
     (0 \<le> n \<and> (\<forall>b. available fs (mw_key w) = Some b \<longrightarrow> clean h (mw_media_type w) b \<and> mh_sha h b = digest \<and> int (length b) = n))"
| "phase_bytes h fs _ = True"

text \<open>What holds of a row: of the phase that is on it, its published file and its upload.\<close>

definition phase_row :: "media_phase \<Rightarrow> note_attachment \<Rightarrow> bool" where
  "phase_row p a \<longleftrightarrow>
     (phase_id p = Some (na_id a) \<longrightarrow>
        (na_deleted_at a = None \<longleftrightarrow> holds_storage (na_status a)) \<and> na_status a \<noteq> Uploading
        \<and> (in_process p \<longrightarrow> na_status a = Scanning \<or> \<not> holds_storage (na_status a))
        \<and> (\<forall>w. phase_work p = Some w \<longrightarrow> mw_key w = na_storage_key a \<and> mw_media_type w = na_media_type a))"

definition published_row :: "media_host \<Rightarrow> files \<Rightarrow> note_attachment \<Rightarrow> bool" where
  "published_row h fs a \<longleftrightarrow>
     (na_status a = Available \<longrightarrow> (\<forall>b. available fs (na_storage_key a) = Some b \<longrightarrow>
        clean h (na_media_type a) b \<and> mh_sha h b = na_sha256 a \<and> int (length b) = na_size_bytes a))"

definition upload_row :: "files \<Rightarrow> (uuid \<Rightarrow> bytes) \<Rightarrow> uuid list \<Rightarrow> note_attachment \<Rightarrow> bool" where
  "upload_row fs sent claims a \<longleftrightarrow>
     (na_status a = Uploading \<longrightarrow>
        int (length (sent (na_id a))) = na_uploaded_bytes a
        \<and> (\<forall>b. staging fs (na_storage_key a) = Some b \<longrightarrow>
             length b < length (sent (na_id a)) \<or> take (length (sent (na_id a))) b = sent (na_id a))
        \<and> na_id a \<notin> set claims)"

definition row_ok :: "media_host \<Rightarrow> media_sys \<Rightarrow> note_attachment \<Rightarrow> bool" where
  "row_ok h s a \<longleftrightarrow> 0 \<le> na_size_bytes a \<and> (na_id a, na_storage_key a) \<in> set (ms_issued s)
     \<and> phase_row (ms_phase s) a \<and> published_row h (ms_files s) a \<and> upload_row (ms_files s) (ms_sent s) (ms_claims s) a"

text \<open>Identifiers and keys are issued once; a phase is on an issued item.\<close>

definition issued_ok :: "media_sys \<Rightarrow> bool" where
  "issued_ok s \<longleftrightarrow> distinct (map fst (ms_issued s)) \<and> distinct (map snd (ms_issued s))
     \<and> (\<forall>i. phase_id (ms_phase s) = Some i \<longrightarrow> i \<in> fst ` set (ms_issued s))
     \<and> (\<forall>w. phase_work (ms_phase s) = Some w \<longrightarrow> (mw_id w, mw_key w) \<in> set (ms_issued s))
     \<and> (\<forall>i. i \<notin> fst ` set (ms_issued s) \<longrightarrow> ms_sent s i = [] \<and> i \<notin> set (ms_claims s))"

definition jobs_ok :: "media_sys \<Rightarrow> bool" where
  "jobs_ok s \<longleftrightarrow> distinct (map aj_attachment_id (attachment_jobs (ms_db s)))
     \<and> (\<forall>i. count_list (ms_claims s) i \<le> 8)
     \<and> (\<forall>j \<in> set (attachment_jobs (ms_db s)). aj_attachment_id j \<in> na_id ` set (note_attachments (ms_db s))
          \<and> count_list (ms_claims s) (aj_attachment_id j) \<le> aj_attempts j \<and> aj_attempts j \<le> 8)"

definition media_inv :: "media_host \<Rightarrow> media_sys \<Rightarrow> bool" where
  "media_inv h s \<longleftrightarrow> quota_ok (ms_db s) \<and> distinct (map na_id (note_attachments (ms_db s)))
     \<and> (\<forall>a \<in> set (note_attachments (ms_db s)). row_ok h s a)
     \<and> issued_ok s \<and> phase_bytes h (ms_files s) (ms_phase s) \<and> jobs_ok s"

lemma media_invI:
  assumes "quota_ok (ms_db s)" "distinct (map na_id (note_attachments (ms_db s)))"
    and "\<And>a. a \<in> set (note_attachments (ms_db s)) \<Longrightarrow> row_ok h s a"
    and "issued_ok s" "phase_bytes h (ms_files s) (ms_phase s)" "jobs_ok s"
  shows "media_inv h s"
  using assms by (simp add: media_inv_def)

lemma media_inv_rows: "media_inv h s \<Longrightarrow> a \<in> set (note_attachments (ms_db s)) \<Longrightarrow> row_ok h s a"
  by (simp add: media_inv_def)

text \<open>Two rows with one key are the same row.\<close>

lemma same_key_same_id:
  assumes "media_inv h s" "a \<in> set (note_attachments (ms_db s))" "(i, na_storage_key a) \<in> set (ms_issued s)"
  shows "na_id a = i"
proof -
  from assms(1,2) have "(na_id a, na_storage_key a) \<in> set (ms_issued s)" and "distinct (map snd (ms_issued s))"
    by (auto simp: media_inv_def row_ok_def issued_ok_def)
  with assms(3) show ?thesis by (metis distinct_map inj_onD prod.inject snd_conv)
qed

lemma rows_same_id:
  assumes "media_inv h s" "a \<in> set (note_attachments (ms_db s))" "b \<in> set (note_attachments (ms_db s))" "na_id a = na_id b"
  shows "a = b"
  using assms by (auto simp: media_inv_def distinct_map dest: inj_onD)

section \<open>Changes of one row\<close>

text \<open>
  A step that changes one row and, of the files, at most its staged one keeps the invariant, when the
  changed row and the worker's bytes still fit.
\<close>

lemma item_change_rows:
  assumes "item_change db db' a f" "r' \<in> set (note_attachments db')" "distinct (map na_id (note_attachments db))"
  shows "r' = f a \<or> r' \<in> set (note_attachments db) \<and> na_id r' \<noteq> na_id a"
proof -
  from assms(1) have a: "a \<in> set (note_attachments db)"
    and rows: "note_attachments db' = update_where (\<lambda>r. na_id r = na_id a) f (note_attachments db)"
    by (simp_all add: item_change_def)
  from assms(2) obtain r where r: "r \<in> set (note_attachments db)" "r' = (if na_id r = na_id a then f r else r)"
    unfolding rows update_where_def by auto
  show ?thesis
  proof (cases "na_id r = na_id a")
    case True
    with a r(1) assms(3) have "r = a" by (auto simp: distinct_map dest: inj_onD)
    with r(2) True show ?thesis by simp
  qed (use r in auto)
qed

lemma item_change_ids:
  assumes "item_change db db' a f" "distinct (map na_id (note_attachments db))"
  shows "map na_id (note_attachments db') = map na_id (note_attachments db)"
proof -
  from assms(1) have a: "a \<in> set (note_attachments db)" "na_id (f a) = na_id a"
    and rows: "note_attachments db' = update_where (\<lambda>r. na_id r = na_id a) f (note_attachments db)"
    by (simp_all add: item_change_def)
  have "na_id (if na_id r = na_id a then f r else r) = na_id r" if "r \<in> set (note_attachments db)" for r
    using that a assms(2) by (auto simp: distinct_map dest: inj_onD)
  then show ?thesis unfolding rows update_where_def by simp
qed

lemma item_change_jobs:
  assumes "jobs_ok s" "item_change (ms_db s) db' a f" "distinct (map na_id (note_attachments (ms_db s)))"
    and "attachment_jobs db' = attachment_jobs (ms_db s) \<or> job_change (ms_db s) db' (na_id a) 0"
    and "ms_db s' = db'" "ms_claims s' = ms_claims s"
  shows "jobs_ok s'"
proof -
  have ids: "na_id ` set (note_attachments db') = na_id ` set (note_attachments (ms_db s))"
    using item_change_ids [OF assms(2,3)] by (metis set_map)
  have old: "\<exists>j0 \<in> set (attachment_jobs (ms_db s)). aj_attachment_id j0 = aj_attachment_id j \<and> aj_attempts j0 = aj_attempts j"
    if "j \<in> set (attachment_jobs db')" for j
    using assms(4)
  proof
    assume "job_change (ms_db s) db' (na_id a) 0"
    then obtain g where "attachment_jobs db' = update_where (\<lambda>j. aj_attachment_id j = na_id a) g (attachment_jobs (ms_db s))"
      and g: "\<And>j. aj_attachment_id (g j) = aj_attachment_id j \<and> aj_attempts (g j) = aj_attempts j"
      by (auto simp: job_change_def)
    with that obtain j0 where "j0 \<in> set (attachment_jobs (ms_db s))" "j = g j0 \<or> j = j0"
      by (auto simp: update_where_def)
    with g show ?thesis by metis
  qed (use that in auto)
  show ?thesis
    unfolding jobs_ok_def assms(5,6) ids
  proof (intro conjI ballI)
    have "distinct (map aj_attachment_id (attachment_jobs (ms_db s)))" using assms(1) by (simp add: jobs_ok_def)
    then show "distinct (map aj_attachment_id (attachment_jobs db'))"
      using assms(4) by (auto simp: job_change_def map_update_where)
    show "\<forall>i. count_list (ms_claims s) i \<le> 8" using assms(1) by (simp add: jobs_ok_def)
    fix j assume "j \<in> set (attachment_jobs db')"
    with old obtain j0 where j0: "j0 \<in> set (attachment_jobs (ms_db s))" and j: "aj_attachment_id j = aj_attachment_id j0"
      "aj_attempts j = aj_attempts j0" by metis
    with assms(1) have "aj_attachment_id j0 \<in> na_id ` set (note_attachments (ms_db s))
      \<and> count_list (ms_claims s) (aj_attachment_id j0) \<le> aj_attempts j0 \<and> aj_attempts j0 \<le> 8"
      by (simp add: jobs_ok_def)
    then show "aj_attachment_id j \<in> na_id ` set (note_attachments (ms_db s))"
      "count_list (ms_claims s) (aj_attachment_id j) \<le> aj_attempts j" "aj_attempts j \<le> 8"
      unfolding j by blast+
  qed
qed

text \<open>A row is still fine when its files are as before or gone, and no history of it changed.\<close>

lemma row_frame:
  assumes "row_ok h s r" and "set (ms_issued s) \<subseteq> set (ms_issued s')" and "phase_row (ms_phase s') r"
    and "available (ms_files s') (na_storage_key r) \<in> {available (ms_files s) (na_storage_key r), None}"
    and "staging (ms_files s') (na_storage_key r) \<in> {staging (ms_files s) (na_storage_key r), None}"
    and "ms_sent s' (na_id r) = ms_sent s (na_id r)"
    and "na_id r \<in> set (ms_claims s') \<Longrightarrow> na_id r \<in> set (ms_claims s)"
  shows "row_ok h s' r"
proof -
  have "published_row h (ms_files s') r"
    using assms(1,4) by (force simp: row_ok_def published_row_def)
  moreover have "upload_row (ms_files s') (ms_sent s') (ms_claims s') r"
    using assms(1,5-7) unfolding row_ok_def upload_row_def assms(6) by (metis insertE option.distinct(1) singletonD)
  ultimately show ?thesis using assms(1-3) by (auto simp: row_ok_def)
qed

lemma phase_row_other: "phase_id p \<noteq> Some (na_id r) \<Longrightarrow> phase_row p r"
  by (simp add: phase_row_def)

lemma row_ok_phase: "row_ok h s r \<Longrightarrow> phase_row (ms_phase s) r"
  by (simp add: row_ok_def)

text \<open>
  The invariant after a change of one row, from what the step must show of the new row, of the worker's
  bytes and of the history.
\<close>

lemma inv_item_change:
  assumes inv: "media_inv h s" and change: "item_change (ms_db s) (ms_db s') a f"
    and within: "weight (f a) \<le> weight a \<or>
      sum_of weight (note_attachments (ms_db s)) + (weight (f a) - weight a) \<le> GLOBAL_QUOTA_BYTES
      \<and> sum_of (couple_weight (na_couple_id a)) (note_attachments (ms_db s)) + (weight (f a) - weight a) \<le> COUPLE_QUOTA_BYTES"
    and own: "row_ok h s' (f a)"
    and others: "\<And>r. r \<in> set (note_attachments (ms_db s)) \<Longrightarrow> na_id r \<noteq> na_id a \<Longrightarrow> row_ok h s' r"
    and rest: "issued_ok s'" "phase_bytes h (ms_files s') (ms_phase s')" "jobs_ok s'"
  shows "media_inv h s'"
proof (rule media_invI)
  from inv have ids: "distinct (map na_id (note_attachments (ms_db s)))" and quota: "quota_ok (ms_db s)"
    by (simp_all add: media_inv_def)
  show "quota_ok (ms_db s')" by (rule quota_item_change [OF quota ids change within])
  show "distinct (map na_id (note_attachments (ms_db s')))"
    unfolding item_change_ids [OF change ids] by (rule ids)
  show "row_ok h s' r" if "r \<in> set (note_attachments (ms_db s'))" for r
    using item_change_rows [OF change that ids] own others by blast
qed (fact rest)+

lemma item_change_own: "item_change db db' a f \<Longrightarrow> a \<in> set (note_attachments db) \<and> na_id (f a) = na_id a
    \<and> na_storage_key (f a) = na_storage_key a \<and> na_couple_id (f a) = na_couple_id a \<and> na_media_type (f a) = na_media_type a"
  by (simp add: item_change_def)

section \<open>Requests\<close>

lemma append_chunk_None:
  "append_chunk target offset body = (stored, None) \<Longrightarrow>
     stored = take offset (case target of None \<Rightarrow> [] | Some b \<Rightarrow> b) @ body \<and> offset \<le> length (case target of None \<Rightarrow> [] | Some b \<Rightarrow> b)"
  by (auto simp: append_chunk_def Let_def split: if_splits)

lemma append_chunk_Some:
  "append_chunk target offset body = (stored, Some e) \<Longrightarrow> length stored < offset"
  by (auto simp: append_chunk_def Let_def split: if_splits)

text \<open>The bytes stored at the offset are the accepted ones, followed by what is written.\<close>

lemma stored_chunk:
  assumes inv: "media_inv h s" and a: "uploadable (ms_db s) i offset a"
    and append: "append_chunk (staging (ms_files s) (na_storage_key a)) offset body = (stored, None)"
  shows "stored = ms_sent s i @ body \<and> offset = length (ms_sent s i)"
proof -
  from a have row: "a \<in> set (note_attachments (ms_db s))" "na_id a = i" "na_status a = Uploading"
    "int offset = na_uploaded_bytes a" by (simp_all add: uploadable_def)
  from media_inv_rows [OF inv row(1)] row(2,3)
  have up: "int (length (ms_sent s i)) = na_uploaded_bytes a"
    "\<And>b. staging (ms_files s) (na_storage_key a) = Some b \<Longrightarrow>
       length b < length (ms_sent s i) \<or> take (length (ms_sent s i)) b = ms_sent s i"
    by (auto simp: row_ok_def upload_row_def)
  with row(4) have offset: "offset = length (ms_sent s i)" by simp
  with append_chunk_None [OF append] up(2) show ?thesis
    by (auto simp: not_less split: option.splits)
qed

text \<open>No phase is on an item that is being uploaded, so its staged file is not the worker's.\<close>

lemma uploadable_no_phase:
  assumes "media_inv h s" "uploadable (ms_db s) i offset a"
  shows "phase_id (ms_phase s) \<noteq> Some (na_id a)"
  using assms by (auto simp: media_inv_def row_ok_def phase_row_def uploadable_def)

lemma phase_work_id: "phase_work p = Some w \<Longrightarrow> phase_id p = Some (mw_id w)"
  by (cases p) auto

lemma upload_phase_bytes:
  assumes inv: "media_inv h s" and a: "uploadable (ms_db s) i offset a"
  shows "phase_bytes h ((ms_files s)\<lparr>staging := (staging (ms_files s))(na_storage_key a := x)\<rparr>) (ms_phase s)"
proof -
  have "mw_key w \<noteq> na_storage_key a" if "ms_phase s = Scanned w" for w
  proof
    assume "mw_key w = na_storage_key a"
    moreover have "(mw_id w, mw_key w) \<in> set (ms_issued s)"
      using inv that by (auto simp: media_inv_def issued_ok_def)
    ultimately have "na_id a = mw_id w"
      using same_key_same_id [OF inv] a by (auto simp: uploadable_def)
    with uploadable_no_phase [OF inv a] that show False by simp
  qed
  moreover have "phase_bytes h (ms_files s) (ms_phase s)" using inv by (simp add: media_inv_def)
  ultimately show ?thesis by (cases "ms_phase s") auto
qed

text \<open>Another row does not have the key of this one.\<close>

lemma other_key:
  assumes "media_inv h s" "a \<in> set (note_attachments (ms_db s))" "r \<in> set (note_attachments (ms_db s))" "na_id r \<noteq> na_id a"
  shows "na_storage_key r \<noteq> na_storage_key a"
proof
  assume "na_storage_key r = na_storage_key a"
  moreover have "(na_id r, na_storage_key r) \<in> set (ms_issued s)"
    using media_inv_rows [OF assms(1,3)] by (simp add: row_ok_def)
  ultimately show False using same_key_same_id [OF assms(1,2)] assms(4) by metis
qed

lemma inv_files:
  assumes inv: "media_inv h s"
    and rows: "\<And>r. r \<in> set (note_attachments (ms_db s)) \<Longrightarrow> row_ok h (s\<lparr>ms_files := fs\<rparr>) r"
    and "phase_bytes h fs (ms_phase s)"
  shows "media_inv h (s\<lparr>ms_files := fs\<rparr>)"
  using assms by (auto simp: media_inv_def issued_ok_def jobs_ok_def)

lemma inv_staged:
  assumes inv: "media_inv h s" and a: "uploadable (ms_db s) i offset a"
    and x: "\<And>b. x = Some b \<Longrightarrow> length b < length (ms_sent s i) \<or> take (length (ms_sent s i)) b = ms_sent s i"
  shows "media_inv h (s\<lparr>ms_files := (ms_files s)\<lparr>staging := (staging (ms_files s))(na_storage_key a := x)\<rparr>\<rparr>)"
proof (rule inv_files [OF inv])
  fix r assume r: "r \<in> set (note_attachments (ms_db s))"
  note ok = media_inv_rows [OF inv r]
  show "row_ok h (s\<lparr>ms_files := (ms_files s)\<lparr>staging := (staging (ms_files s))(na_storage_key a := x)\<rparr>\<rparr>) r"
  proof (cases "na_id r = na_id a")
    case True
    with r a inv rows_same_id have "r = a" by (auto simp: uploadable_def)
    with ok x a show ?thesis
      by (auto simp: row_ok_def published_row_def upload_row_def uploadable_def)
  next
    case False
    with other_key [OF inv _ r] a have "na_storage_key r \<noteq> na_storage_key a" by (auto simp: uploadable_def)
    with ok show ?thesis by (auto simp: row_ok_def published_row_def upload_row_def)
  qed
qed (rule upload_phase_bytes [OF inv a])

lemma inv_upload_lost:
  assumes inv: "media_inv h s"
    and lost: "upload_attachment_chunk (mh_sha h) (ms_db s) (ms_db s) (ms_files s) actor_id note_id i offset declared parts now = (fs', r)"
  shows "media_inv h (s\<lparr>ms_files := fs'\<rparr>)"
  using upload_attachment_chunk_files [OF lost]
proof
  assume "fs' = ms_files s"
  with inv show ?thesis by simp
next
  assume "\<exists>a x. uploadable (ms_db s) i offset a \<and> fs' = (ms_files s)\<lparr>staging := (staging (ms_files s))(na_storage_key a := x)\<rparr>
    \<and> (x = None \<or> (\<exists>failure. append_chunk (staging (ms_files s) (na_storage_key a)) offset (concat parts) = (the x, failure)))"
  then obtain a x where a: "uploadable (ms_db s) i offset a"
    and fs': "fs' = (ms_files s)\<lparr>staging := (staging (ms_files s))(na_storage_key a := x)\<rparr>"
    and x: "x = None \<or> (\<exists>failure. append_chunk (staging (ms_files s) (na_storage_key a)) offset (concat parts) = (the x, failure))"
    by blast
  have "a \<in> set (note_attachments (ms_db s))" using a by (simp add: uploadable_def)
  from media_inv_rows [OF inv this] a have sent: "offset = length (ms_sent s i)"
    by (simp add: uploadable_def row_ok_def upload_row_def)
  show ?thesis unfolding fs'
  proof (rule inv_staged [OF inv a])
    fix b assume "x = Some b"
    with x obtain failure where append: "append_chunk (staging (ms_files s) (na_storage_key a)) offset (concat parts) = (b, failure)"
      by auto
    show "length b < length (ms_sent s i) \<or> take (length (ms_sent s i)) b = ms_sent s i"
    proof (cases failure)
      case None
      with stored_chunk [OF inv a] append have "b = ms_sent s i @ concat parts" by blast
      then show ?thesis by simp
    next
      case (Some e)
      with append_chunk_Some append sent show ?thesis by auto
    qed
  qed
qed

lemma inv_upload_torn:
  assumes inv: "media_inv h s" and target: "upload_target (ms_db s) (ms_db s) actor_id note_id i offset declared parts = Inr (a, body)"
    and append: "append_chunk (staging (ms_files s) (na_storage_key a)) offset junk = (stored, None)"
  shows "media_inv h (s\<lparr>ms_files := (ms_files s)\<lparr>staging := (staging (ms_files s))(na_storage_key a \<mapsto> stored)\<rparr>\<rparr>)"
proof -
  from upload_target_Inr [OF target] have a: "uploadable (ms_db s) i offset a" by blast
  show ?thesis
    by (rule inv_staged [OF inv a]) (use stored_chunk [OF inv a append] in auto)
qed

lemma uploadable_row:
  assumes "media_inv h s" "uploadable (ms_db s) i offset a"
  shows "row_ok h s a" "na_id a = i" "na_status a = Uploading"
  using assms by (auto simp: uploadable_def dest: media_inv_rows)

lemma inv_upload:
  assumes inv: "media_inv h s"
    and up: "upload_attachment_chunk (mh_sha h) (ms_db s) (ms_db s) (ms_files s) actor_id note_id i offset declared parts now
      = (fs', Inr (db', v))"
  shows "media_inv h (s\<lparr>ms_db := db', ms_files := fs', ms_sent := (ms_sent s)(i := ms_sent s i @ concat parts)\<rparr>)"
    (is "media_inv h ?s'")
proof -
  from upload_attachment_chunk_Inr [OF up] obtain a f stored where a: "uploadable (ms_db s) i offset a"
    and append: "append_chunk (staging (ms_files s) (na_storage_key a)) offset (concat parts) = (stored, None)"
    and change: "item_change (ms_db s) db' a f"
    and upd: "chunk_done (mh_sha h) (ms_db s) db' a (f a) stored (length (concat parts))"
    and w: "weight (f a) \<in> {weight a, 0}"
    and fs': "fs' = (ms_files s)\<lparr>staging := (staging (ms_files s))(na_storage_key a := if na_status (f a) = Rejected then None else Some stored)\<rparr>"
    by blast
  note row = uploadable_row [OF inv a]
  from row have facts: "0 \<le> na_size_bytes a" "(i, na_storage_key a) \<in> set (ms_issued s)"
    "int (length (ms_sent s i)) = na_uploaded_bytes a" "i \<notin> set (ms_claims s)"
    by (simp_all add: row_ok_def upload_row_def)
  have stored: "stored = ms_sent s i @ concat parts" using stored_chunk [OF inv a append] by blast
  have phase: "phase_id (ms_phase s) \<noteq> Some i" using uploadable_no_phase [OF inv a] row(2) by simp
  from inv have ids: "distinct (map na_id (note_attachments (ms_db s)))" by (simp add: media_inv_def)
  show ?thesis
  proof (rule inv_item_change [OF inv])
    show "item_change (ms_db s) (ms_db ?s') a f" using change by simp
    show "weight (f a) \<le> weight a \<or> sum_of weight (note_attachments (ms_db s)) + (weight (f a) - weight a) \<le> GLOBAL_QUOTA_BYTES
      \<and> sum_of (couple_weight (na_couple_id a)) (note_attachments (ms_db s)) + (weight (f a) - weight a) \<le> COUPLE_QUOTA_BYTES"
      using w facts(1) by (auto simp: weight_def)
    have "phase_row (ms_phase s) (f a)" using phase row(2) item_change_own [OF change] by (intro phase_row_other) simp
    moreover have "na_status (f a) \<noteq> Available" using upd by (auto simp: chunk_done_def)
    moreover have "int (length (ms_sent s i @ concat parts)) = na_uploaded_bytes (f a)"
      using upd facts(3) by (simp add: chunk_done_def)
    ultimately show "row_ok h ?s' (f a)"
      using facts upd item_change_own [OF change] row(2) stored
      by (simp add: row_ok_def published_row_def upload_row_def fs' chunk_done_def)
    show "row_ok h ?s' r" if "r \<in> set (note_attachments (ms_db s))" "na_id r \<noteq> na_id a" for r
    proof -
      have "na_storage_key r \<noteq> na_storage_key a" using other_key [OF inv _ that] a by (simp add: uploadable_def)
      moreover have "na_id r \<noteq> i" using that(2) row(2) by simp
      moreover note media_inv_rows [OF inv that(1)]
      ultimately show ?thesis
        by (simp add: row_ok_def published_row_def upload_row_def fs')
    qed
    have "i \<in> fst ` set (ms_issued s)" using facts(2) by force
    moreover have "issued_ok s" using inv by (simp add: media_inv_def)
    ultimately show "issued_ok ?s'" by (auto simp: issued_ok_def)
    show "phase_bytes h (ms_files ?s') (ms_phase ?s')" using upload_phase_bytes [OF inv a] by (simp add: fs')
    show "jobs_ok ?s'"
    proof (cases "attachment_jobs db' = attachment_jobs (ms_db s)")
      case True
      with inv item_change_jobs [OF _ change ids] show ?thesis by (simp add: media_inv_def)
    next
      case False
      with upd obtain t where jobs: "attachment_jobs db' = attachment_jobs (ms_db s) @ [new_job (na_id a) t]"
        by (auto simp: chunk_done_def)
      have "na_id ` set (note_attachments db') = na_id ` set (note_attachments (ms_db s))"
        using item_change_ids [OF change ids] by (metis set_map)
      moreover have "count_list (ms_claims s) i = 0" using facts(4) by (simp add: count_list_0_iff)
      moreover have "na_id a \<notin> aj_attachment_id ` set (attachment_jobs (ms_db s))"
        using upd False by (auto simp: chunk_done_def)
      ultimately show ?thesis
        using inv row(2) a by (auto simp: media_inv_def jobs_ok_def jobs new_job_def uploadable_def)
    qed
  qed
qed

lemma tables_eq:
  "attachment_tables db' = attachment_tables db \<longleftrightarrow> note_attachments db' = note_attachments db
     \<and> attachment_jobs db' = attachment_jobs db \<and> reserved_bytes db' = reserved_bytes db"
  by (auto simp: attachment_tables_def)

lemma inv_elsewhere:
  assumes "media_inv h s" "attachment_tables db' = attachment_tables (ms_db s)"
  shows "media_inv h (s\<lparr>ms_db := db'\<rparr>)"
  using assms by (auto simp: media_inv_def tables_eq quota_ok_def row_ok_def issued_ok_def jobs_ok_def)

lemma inv_issue:
  assumes inv: "media_inv h s" and fresh: "i \<notin> fst ` set (ms_issued s)" "key \<notin> snd ` set (ms_issued s)"
  shows "media_inv h (s\<lparr>ms_issued := (i, key) # ms_issued s\<rparr>)"
proof -
  have "issued_ok (s\<lparr>ms_issued := (i, key) # ms_issued s\<rparr>)"
    using inv fresh by (fastforce simp: media_inv_def issued_ok_def)
  with inv show ?thesis by (auto simp: media_inv_def row_ok_def jobs_ok_def)
qed

lemma inv_create:
  assumes inv: "media_inv h s"
    and created: "create_attachment (u :: unicode) db0 (ms_db s) actor_id note_id payload free now i key = Inr (db', v)"
    and fresh: "i \<notin> fst ` set (ms_issued s)" "key \<notin> snd ` set (ms_issued s)"
  shows "media_inv h (s\<lparr>ms_db := db', ms_issued := (i, key) # ms_issued s\<rparr>)" (is "media_inv h ?s'")
  using create_attachment_Inr [OF created]
proof
  assume "attachment_tables db' = attachment_tables (ms_db s)"
  then have "media_inv h (s\<lparr>ms_issued := (i, key) # ms_issued s, ms_db := db'\<rparr>)"
    by (intro inv_elsewhere [OF inv_issue [OF inv fresh]]) simp
  moreover have "s\<lparr>ms_issued := (i, key) # ms_issued s, ms_db := db'\<rparr> = ?s'" by simp
  ultimately show ?thesis by (simp only:)
next
  assume "\<exists>a n. note_attachments db' = note_attachments (ms_db s) @ [a] \<and> attachment_jobs db' = attachment_jobs (ms_db s)
       \<and> reserved_bytes (ms_db s) = Some n \<and> reserved_bytes db' = Some (n + na_size_bytes a)
       \<and> n + na_size_bytes a \<le> GLOBAL_QUOTA_BYTES
       \<and> sum_of (couple_weight (na_couple_id a)) (note_attachments (ms_db s)) + na_size_bytes a \<le> COUPLE_QUOTA_BYTES
       \<and> na_id a = i \<and> na_storage_key a = key \<and> na_status a = Uploading \<and> na_deleted_at a = None
       \<and> na_uploaded_bytes a = 0 \<and> 0 < na_size_bytes a"
  then obtain a n where rows: "note_attachments db' = note_attachments (ms_db s) @ [a]"
    and jobs: "attachment_jobs db' = attachment_jobs (ms_db s)"
    and reserved: "reserved_bytes (ms_db s) = Some n" "reserved_bytes db' = Some (n + na_size_bytes a)"
      "n + na_size_bytes a \<le> GLOBAL_QUOTA_BYTES"
      "sum_of (couple_weight (na_couple_id a)) (note_attachments (ms_db s)) + na_size_bytes a \<le> COUPLE_QUOTA_BYTES"
    and a: "na_id a = i" "na_storage_key a = key" "na_status a = Uploading" "na_deleted_at a = None"
      "na_uploaded_bytes a = 0" "0 < na_size_bytes a"
    by blast
  note inv' = inv_issue [OF inv fresh]
  have w: "weight a = na_size_bytes a" using a by (simp add: weight_def counted_def holds_storage_def)
  from inv fresh have unused: "ms_sent s i = []" "i \<notin> set (ms_claims s)" "phase_id (ms_phase s) \<noteq> Some i"
    by (auto simp: media_inv_def issued_ok_def)
  show ?thesis
  proof (rule media_invI)
    show "quota_ok (ms_db ?s')"
      using inv reserved w by (auto simp: media_inv_def quota_ok_def rows couple_weight_def)
    show "distinct (map na_id (note_attachments (ms_db ?s')))"
      using inv fresh a(1) by (auto simp: media_inv_def rows row_ok_def rev_image_eqI)
    have own: "row_ok h ?s' a"
      using a unused by (simp add: row_ok_def published_row_def upload_row_def phase_row_def)
    show "row_ok h ?s' r" if "r \<in> set (note_attachments (ms_db ?s'))" for r
      using that own media_inv_rows [OF inv'] by (auto simp: rows row_ok_def)
    show "issued_ok ?s'" "phase_bytes h (ms_files ?s') (ms_phase ?s')"
      using inv' by (auto simp: media_inv_def issued_ok_def)
    show "jobs_ok ?s'" using inv' by (auto simp: media_inv_def jobs_ok_def rows jobs)
  qed
qed

lemma inv_delete:
  assumes inv: "media_inv h s" and deleted: "delete_attachment (ms_db s) (ms_db s) actor_id note_id i now = Inr (db', key)"
  shows "media_inv h (s\<lparr>ms_db := db', ms_unlinks := ul\<rparr>)" (is "media_inv h ?s'")
proof -
  from delete_attachment_Inr [OF deleted] obtain a f where change: "item_change (ms_db s) db' a f"
    and jobs: "attachment_jobs db' = attachment_jobs (ms_db s)"
    and f: "na_status (f a) = Deleted" "na_deleted_at (f a) \<noteq> None" "weight (f a) = 0" "na_size_bytes (f a) = na_size_bytes a"
    by blast
  note own = item_change_own [OF change]
  then have row: "row_ok h s a" using media_inv_rows [OF inv] by blast
  from inv have ids: "distinct (map na_id (note_attachments (ms_db s)))" by (simp add: media_inv_def)
  show ?thesis
  proof (rule inv_item_change [OF inv])
    show "item_change (ms_db s) (ms_db ?s') a f" using change by simp
    show "weight (f a) \<le> weight a \<or> sum_of weight (note_attachments (ms_db s)) + (weight (f a) - weight a) \<le> GLOBAL_QUOTA_BYTES
      \<and> sum_of (couple_weight (na_couple_id a)) (note_attachments (ms_db s)) + (weight (f a) - weight a) \<le> COUPLE_QUOTA_BYTES"
      using f(3) row by (simp add: weight_def row_ok_def)
    show "row_ok h ?s' (f a)"
      using row f own by (auto simp: row_ok_def published_row_def upload_row_def phase_row_def holds_storage_def)
    show "row_ok h ?s' r" if "r \<in> set (note_attachments (ms_db s))" for r
      using media_inv_rows [OF inv that] by (simp add: row_ok_def)
    show "issued_ok ?s'" "phase_bytes h (ms_files ?s') (ms_phase ?s')" using inv by (auto simp: media_inv_def issued_ok_def)
    have "jobs_ok s" using inv by (simp add: media_inv_def)
    then show "jobs_ok ?s'" by (rule item_change_jobs [OF _ change ids]) (simp_all add: jobs)
  qed
qed

section \<open>Maintenance\<close>

lemma note_attachments_delete [simp]:
  "note_attachments (delete_attachments p db) = delete_where p (note_attachments db)"
  by (simp add: delete_attachments_def)

text \<open>After deletions the remaining jobs belong to remaining rows.\<close>

definition jobs_subset :: "attachments_db \<Rightarrow> attachments_db \<Rightarrow> bool" where
  "jobs_subset db db' \<longleftrightarrow> set (note_attachments db') \<subseteq> set (note_attachments db)
     \<and> (\<exists>q. note_attachments db' = filter q (note_attachments db))
     \<and> (\<exists>q. attachment_jobs db' = filter q (attachment_jobs db))
     \<and> (aj_attachment_id ` set (attachment_jobs db) \<subseteq> na_id ` set (note_attachments db) \<longrightarrow>
          aj_attachment_id ` set (attachment_jobs db') \<subseteq> na_id ` set (note_attachments db'))"

lemma jobs_subset_delete: "jobs_subset db (delete_attachments p db)"
  by (auto simp: jobs_subset_def delete_attachments_def delete_where_def select_def Let_def)

lemma jobs_subset_trans: "jobs_subset db1 db2 \<Longrightarrow> jobs_subset db2 db3 \<Longrightarrow> jobs_subset db1 db3"
  unfolding jobs_subset_def by (auto simp: conj_commute)

lemma sum_of_filter_le:
  "(\<And>a. a \<in> set rows \<Longrightarrow> 0 \<le> g a) \<Longrightarrow> sum_of g (filter q rows) \<le> sum_of g rows"
  by (induction rows) (auto intro: add_increasing)

lemma reconcile_storage_Inr:
  "reconcile_storage db = Inr db' \<Longrightarrow> db' = db\<lparr>reserved_bytes := Some (sum_of weight (note_attachments db))\<rparr>
     \<and> sum_of weight (note_attachments db) \<le> GLOBAL_QUOTA_BYTES"
  by (auto simp: reconcile_storage_def bind_exc_Inr_iff guard_def Let_def counted_bytes_sum split: if_splits)

lemma inv_maintenance:
  assumes inv: "media_inv h s" and cleanup: "prepare_attachment_cleanup (ms_db s) now = (db1, keys)"
    and cascade: "attachment_tables db2 = attachment_tables (delete_attachments p db1)"
    and reconciled: "reconcile_storage db2 = Inr db'"
  shows "media_inv h (s\<lparr>ms_db := db', ms_unlinks := ul\<rparr>)" (is "media_inv h ?s'")
proof -
  from cleanup have db1: "db1 = delete_attachments (old_rejection now) (delete_attachments (stale_upload now) (ms_db s))"
    by (simp add: prepare_attachment_cleanup_def)
  have "jobs_subset (ms_db s) (delete_attachments p db1)"
    unfolding db1
    by (rule jobs_subset_trans [OF jobs_subset_trans [OF jobs_subset_delete jobs_subset_delete] jobs_subset_delete])
  with cascade reconcile_storage_Inr [OF reconciled] have sub: "jobs_subset (ms_db s) db'"
    by (simp add: jobs_subset_def tables_eq)
  then obtain q where rows: "note_attachments db' = filter q (note_attachments (ms_db s))" by (auto simp: jobs_subset_def)
  have positive: "0 \<le> couple_weight k a" if "a \<in> set (note_attachments (ms_db s))" for k a
    using media_inv_rows [OF inv that] by (simp add: couple_weight_def weight_def row_ok_def)
  show ?thesis
  proof (rule media_invI)
    have "sum_of (couple_weight k) (note_attachments db') \<le> COUPLE_QUOTA_BYTES" for k
    proof -
      have "sum_of (couple_weight k) (note_attachments db') \<le> sum_of (couple_weight k) (note_attachments (ms_db s))"
        unfolding rows by (rule sum_of_filter_le) (rule positive)
      also have "\<dots> \<le> COUPLE_QUOTA_BYTES" using inv by (simp add: media_inv_def quota_ok_def)
      finally show ?thesis .
    qed
    with reconcile_storage_Inr [OF reconciled] show "quota_ok (ms_db ?s')" by (simp add: quota_ok_def)
    show "distinct (map na_id (note_attachments (ms_db ?s')))"
      using inv by (simp add: rows media_inv_def distinct_map_filter)
    show "row_ok h ?s' r" if "r \<in> set (note_attachments (ms_db ?s'))" for r
      using that media_inv_rows [OF inv, of r] by (simp add: rows row_ok_def)
    show "issued_ok ?s'" "phase_bytes h (ms_files ?s') (ms_phase ?s')" using inv by (auto simp: media_inv_def issued_ok_def)
    show "jobs_ok ?s'" using inv sub
      by (auto simp: media_inv_def jobs_ok_def jobs_subset_def image_subset_iff distinct_map_filter)
  qed
qed

section \<open>Files and failures\<close>

lemma inv_remove:
  assumes inv: "media_inv h s"
  shows "media_inv h (s\<lparr>ms_files := unlink (ms_files s) t\<rparr>)"
proof (rule inv_files [OF inv])
  obtain pl key where t: "t = (pl, key)" by (cases t)
  show "row_ok h (s\<lparr>ms_files := unlink (ms_files s) t\<rparr>) r" if "r \<in> set (note_attachments (ms_db s))" for r
    by (rule row_frame [OF media_inv_rows [OF inv that]])
      (use media_inv_rows [OF inv that] in \<open>auto simp: t unlink_def row_ok_def split: place.splits\<close>)
  have "phase_bytes h (ms_files s) (ms_phase s)" using inv by (simp add: media_inv_def)
  then show "phase_bytes h (unlink (ms_files s) t) (ms_phase s)"
    by (cases "ms_phase s"; cases pl) (auto simp: t unlink_def)
qed

text \<open>A change of the phase that keeps to the item, with its checks done.\<close>

lemma inv_phase:
  assumes inv: "media_inv h s"
    and rows: "\<And>r. r \<in> set (note_attachments (ms_db s)) \<Longrightarrow> phase_row (ms_phase s) r \<Longrightarrow> phase_row p r"
    and ids: "\<And>i. phase_id p = Some i \<Longrightarrow> i \<in> fst ` set (ms_issued s)"
    and works: "\<And>w. phase_work p = Some w \<Longrightarrow> (mw_id w, mw_key w) \<in> set (ms_issued s)"
    and "phase_bytes h (ms_files s) p"
  shows "media_inv h (s\<lparr>ms_phase := p\<rparr>)"
proof (rule media_invI)
  show "row_ok h (s\<lparr>ms_phase := p\<rparr>) r" if "r \<in> set (note_attachments (ms_db (s\<lparr>ms_phase := p\<rparr>)))" for r
    using media_inv_rows [OF inv, of r] rows [of r] that by (simp add: row_ok_def)
  show "issued_ok (s\<lparr>ms_phase := p\<rparr>)" using inv ids works by (simp add: media_inv_def issued_ok_def)
qed (use assms in \<open>simp_all add: media_inv_def jobs_ok_def\<close>)

lemma phase_issued:
  assumes "media_inv h s"
  shows "phase_id (ms_phase s) = Some i \<Longrightarrow> i \<in> fst ` set (ms_issued s)"
    and "phase_work (ms_phase s) = Some w \<Longrightarrow> (mw_id w, mw_key w) \<in> set (ms_issued s)"
  using assms by (simp_all add: media_inv_def issued_ok_def)

lemma inv_give_up:
  assumes inv: "media_inv h s" and i: "phase_id (ms_phase s) = Some i"
  shows "media_inv h (s\<lparr>ms_phase := Giving_up i e\<rparr>)"
  by (rule inv_phase [OF inv]) (use i phase_issued [OF inv] in \<open>auto simp: phase_row_def\<close>)

lemma inv_idle: "media_inv h s \<Longrightarrow> media_inv h (s\<lparr>ms_phase := Idle\<rparr>)"
  by (rule inv_phase) (auto simp: phase_row_def)

lemma inv_torn_work:
  assumes inv: "media_inv h s"
  shows "media_inv h (s\<lparr>ms_phase := Idle, ms_files := (ms_files s)\<lparr>processing := x\<rparr>\<rparr>)"
  using inv_files [OF inv_idle [OF inv], of "(ms_files s)\<lparr>processing := x\<rparr>"] inv
  by (simp add: media_inv_def row_ok_def published_row_def upload_row_def phase_row_def)

section \<open>The worker\<close>

text \<open>The worker's changes of database and phase, with the history of claims.\<close>

lemma inv_worker_item:
  assumes inv: "media_inv h s" and change: "item_change (ms_db s) db' a f"
    and jobs: "job_change (ms_db s) db' (na_id a) 0" and phase: "phase_id (ms_phase s) = Some (na_id a)"
    and p: "p = Idle \<or> p = Published w \<and> ms_phase s = Replaced w digest n"
    and within: "weight (f a) \<le> weight a \<or>
      sum_of weight (note_attachments (ms_db s)) + (weight (f a) - weight a) \<le> GLOBAL_QUOTA_BYTES
      \<and> sum_of (couple_weight (na_couple_id a)) (note_attachments (ms_db s)) + (weight (f a) - weight a) \<le> COUPLE_QUOTA_BYTES"
    and f: "0 \<le> na_size_bytes (f a)" "na_status (f a) \<noteq> Uploading" "phase_row p (f a)" "published_row h (ms_files s) (f a)"
  shows "media_inv h (s\<lparr>ms_db := db', ms_phase := p\<rparr>)" (is "media_inv h ?s'")
proof (rule inv_item_change [OF inv])
  note own = item_change_own [OF change]
  then have row: "row_ok h s a" using media_inv_rows [OF inv] by blast
  from inv have ids: "distinct (map na_id (note_attachments (ms_db s)))" and "jobs_ok s" by (simp_all add: media_inv_def)
  show "item_change (ms_db s) (ms_db ?s') a f" using change by simp
  show "row_ok h ?s' (f a)" using f own row by (simp add: row_ok_def upload_row_def)
  show "row_ok h ?s' r" if "r \<in> set (note_attachments (ms_db s))" "na_id r \<noteq> na_id a" for r
  proof -
    have "phase_id p \<noteq> Some (na_id r)" using p phase that(2) by auto
    with media_inv_rows [OF inv that(1)] show ?thesis by (simp add: row_ok_def phase_row_other)
  qed
  show "issued_ok ?s'"
    using inv p phase_issued [OF inv] by (auto simp: media_inv_def issued_ok_def)
  show "phase_bytes h (ms_files ?s') (ms_phase ?s')" using p by auto
  show "jobs_ok ?s'" by (rule item_change_jobs [OF \<open>jobs_ok s\<close> change ids disjI2 [OF jobs]]) simp_all
qed (use within in simp)

lemma phase_live:
  assumes "media_inv h s" "phase_id (ms_phase s) = Some i" "a \<in> set (note_attachments (ms_db s))" "na_id a = i"
  shows "na_deleted_at a = None \<longleftrightarrow> holds_storage (na_status a)"
  using media_inv_rows [OF assms(1,3)] assms(2,4) by (simp add: row_ok_def phase_row_def)

lemma inv_claim:
  assumes inv: "media_inv h s" and claim: "claim_ready me (ms_db s) now = (db', Some i)" and idle: "ms_phase s = Idle"
  shows "media_inv h (s\<lparr>ms_db := db', ms_phase := Claimed i, ms_claims := i # ms_claims s\<rparr>)" (is "media_inv h ?s'")
proof -
  from inv have ids: "distinct (map na_id (note_attachments (ms_db s)))" and jobs: "jobs_ok s" by (simp_all add: media_inv_def)
  from claim_ready_Some [OF claim ids] obtain a f j where change: "item_change (ms_db s) db' a f" and i: "na_id a = i"
    and a: "na_deleted_at a = None" "na_status a \<in> {Pending_scan, Scanning}"
    and f: "na_status (f a) = Scanning" "na_deleted_at (f a) = None" "weight (f a) = weight a" "na_size_bytes (f a) = na_size_bytes a"
    and j: "j \<in> set (attachment_jobs (ms_db s))" "aj_attachment_id j = i" "aj_attempts j < 8"
    and job: "job_change (ms_db s) db' i 1"
    by blast
  note own = item_change_own [OF change]
  then have row: "row_ok h s a" using media_inv_rows [OF inv] by blast
  show ?thesis
  proof (rule inv_item_change [OF inv])
    show "item_change (ms_db s) (ms_db ?s') a f" using change by simp
    show "weight (f a) \<le> weight a \<or> sum_of weight (note_attachments (ms_db s)) + (weight (f a) - weight a) \<le> GLOBAL_QUOTA_BYTES
      \<and> sum_of (couple_weight (na_couple_id a)) (note_attachments (ms_db s)) + (weight (f a) - weight a) \<le> COUPLE_QUOTA_BYTES"
      using f(3) by simp
    show "row_ok h ?s' (f a)"
      using row own f i by (simp add: row_ok_def phase_row_def published_row_def upload_row_def holds_storage_def)
    show "row_ok h ?s' r" if "r \<in> set (note_attachments (ms_db s))" "na_id r \<noteq> na_id a" for r
    proof -
      have "phase_row (Claimed i) r" using that(2) i by (simp add: phase_row_def)
      with media_inv_rows [OF inv that(1)] that(2) i show ?thesis by (simp add: row_ok_def upload_row_def)
    qed
    have "i \<in> fst ` set (ms_issued s)" using row i by (force simp: row_ok_def)
    then show "issued_ok ?s'" using inv by (auto simp: media_inv_def issued_ok_def)
    show "phase_bytes h (ms_files ?s') (ms_phase ?s')" by simp
    have names: "na_id ` set (note_attachments db') = na_id ` set (note_attachments (ms_db s))"
      using item_change_ids [OF change ids] by (metis set_map)
    from job obtain g where g: "attachment_jobs db' = update_where (\<lambda>j. aj_attachment_id j = i) g (attachment_jobs (ms_db s))"
      "\<And>j. aj_attachment_id (g j) = aj_attachment_id j \<and> aj_attempts (g j) = Suc (aj_attempts j)"
      by (auto simp: job_change_def)
    have attempts: "aj_attachment_id j' \<in> na_id ` set (note_attachments (ms_db s))
        \<and> count_list (i # ms_claims s) (aj_attachment_id j') \<le> aj_attempts j' \<and> aj_attempts j' \<le> 8"
      if "j' \<in> set (attachment_jobs db')" for j'
    proof -
      from that g(1) obtain j0 where j0: "j0 \<in> set (attachment_jobs (ms_db s))"
        "j' = (if aj_attachment_id j0 = i then g j0 else j0)" by (auto simp: update_where_def)
      with jobs have ok: "aj_attachment_id j0 \<in> na_id ` set (note_attachments (ms_db s))"
        "count_list (ms_claims s) (aj_attachment_id j0) \<le> aj_attempts j0" "aj_attempts j0 \<le> 8"
        by (auto simp: jobs_ok_def)
      show ?thesis
      proof (cases "aj_attachment_id j0 = i")
        case True
        with j j0(1) jobs have "j0 = j" by (auto simp: jobs_ok_def distinct_map dest: inj_onD)
        with True ok j(3) j0(2) g(2) [of j] show ?thesis by simp
      qed (use j0 ok in simp)
    qed
    have "distinct (map aj_attachment_id (attachment_jobs db'))"
      using map_update_where [of "\<lambda>j. aj_attachment_id j = i" aj_attachment_id g] g jobs by (simp add: jobs_ok_def)
    moreover have "count_list (ms_claims s) i < 8" using jobs j by (auto simp: jobs_ok_def)
    then have "\<forall>k. count_list (i # ms_claims s) k \<le> 8" using jobs by (auto simp: jobs_ok_def)
    ultimately show "jobs_ok ?s'" using attempts by (simp add: jobs_ok_def names)
  qed
qed

lemma inv_begin:
  assumes inv: "media_inv h s" and w: "begin_work (ms_db s) i = Some w" and phase: "ms_phase s = Claimed i"
  shows "media_inv h (s\<lparr>ms_phase := Working w\<rparr>)"
proof (rule inv_phase [OF inv])
  from begin_work_Some [OF w] obtain a where a: "a \<in> set (note_attachments (ms_db s))" "na_id a = i"
    and mw: "mw_id w = i" "mw_key w = na_storage_key a" "mw_media_type w = na_media_type a" by blast
  show "phase_row (Working w) r" if "r \<in> set (note_attachments (ms_db s))" "phase_row (ms_phase s) r" for r
    using rows_same_id [OF inv a(1) that(1)] that(2) phase a mw by (auto simp: phase_row_def)
  have issued: "(i, mw_key w) \<in> set (ms_issued s)"
    using media_inv_rows [OF inv a(1)] a mw by (simp add: row_ok_def)
  show "k \<in> fst ` set (ms_issued s)" if "phase_id (Working w) = Some k" for k
    using that issued mw(1) by force
  show "(mw_id v, mw_key v) \<in> set (ms_issued s)" if "phase_work (Working w) = Some v" for v
    using that issued mw(1) by simp
qed simp

text \<open>The worker moves on with the same item and the same work.\<close>

lemma inv_next:
  assumes inv: "media_inv h s" and "phase_id p = phase_id (ms_phase s)" "phase_work p = phase_work (ms_phase s)"
    and "in_process (ms_phase s)" "phase_bytes h (ms_files s) p"
  shows "media_inv h (s\<lparr>ms_phase := p\<rparr>)"
  by (rule inv_phase [OF inv]) (use assms phase_issued [OF inv] in \<open>auto simp: phase_row_def\<close>)

lemma inv_hash:
  assumes inv: "media_inv h s" and "ms_phase s = Working w"
  shows "media_inv h (s\<lparr>ms_phase := after_check w (Hashed w) (check_hash sha (ms_files s) w)\<rparr>)"
proof (cases "check_hash sha (ms_files s) w")
  case (Inl e)
  with inv_give_up [OF inv, of "mw_id w" e] assms(2) show ?thesis by simp
next
  case (Inr x)
  with inv_next [OF inv, of "Hashed w"] assms(2) show ?thesis by simp
qed

lemma check_malware_clean:
  "check_malware scanner fs w = Inr x \<Longrightarrow> staging fs (mw_key w) = Some b \<Longrightarrow> scanner b = Inr True"
  by (auto simp: check_malware_def split: sum.splits if_splits)

lemma inv_scan:
  assumes inv: "media_inv h s" and "ms_phase s = Hashed w"
  shows "media_inv h (s\<lparr>ms_phase := after_check w (Scanned w) (check_malware (mh_scanner h n) (ms_files s) w)\<rparr>)"
proof (cases "check_malware (mh_scanner h n) (ms_files s) w")
  case (Inl e)
  with inv_give_up [OF inv, of "mw_id w" e] assms(2) show ?thesis by simp
next
  case (Inr x)
  have "phase_bytes h (ms_files s) (Scanned w)" using check_malware_clean [OF Inr] by auto
  with Inr inv_next [OF inv, of "Scanned w"] assms(2) show ?thesis by simp
qed

text \<open>Files of the worker's item that no row of another item has.\<close>

lemma work_key_other:
  assumes inv: "media_inv h s" and w: "phase_work (ms_phase s) = Some w"
    and r: "r \<in> set (note_attachments (ms_db s))" "na_storage_key r = mw_key w"
  shows "na_id r = mw_id w"
  using same_key_same_id [OF inv r(1)] phase_issued(2) [OF inv w] r(2) by simp

lemma write_work_cases:
  assumes "write_work sanitize fs w = (fs', r)"
  shows "(\<exists>x. fs' = fs\<lparr>processing := (processing fs)(mw_key w := x)\<rparr>
     \<and> (r = Inr () \<longrightarrow> (\<exists>source out. staging fs (mw_key w) = Some source \<and> sanitize source (mw_media_type w) = Inr out \<and> x = Some out)))"
  using assms by (auto simp: write_work_def Let_def split: option.splits sum.splits)

lemma inv_processing:
  assumes inv: "media_inv h s" and "ms_phase s = Scanned w"
  shows "media_inv h (s\<lparr>ms_files := (ms_files s)\<lparr>processing := x\<rparr>\<rparr>)"
  by (rule inv_files [OF inv])
    (use inv assms(2) media_inv_rows [OF inv] in \<open>auto simp: media_inv_def row_ok_def published_row_def upload_row_def\<close>)

lemma inv_write:
  assumes inv: "media_inv h s" and phase: "ms_phase s = Scanned w"
    and written: "write_work (mh_sanitize h m) (ms_files s) w = (fs', r)"
  shows "media_inv h (s\<lparr>ms_files := fs', ms_phase := after_check w (Written w) r\<rparr>)"
proof -
  from write_work_cases [OF written] obtain x where fs': "fs' = (ms_files s)\<lparr>processing := (processing (ms_files s))(mw_key w := x)\<rparr>"
    and out: "r = Inr () \<Longrightarrow> \<exists>source out. staging (ms_files s) (mw_key w) = Some source
       \<and> mh_sanitize h m source (mw_media_type w) = Inr out \<and> x = Some out" by blast
  have inv': "media_inv h (s\<lparr>ms_files := fs'\<rparr>)" unfolding fs' by (rule inv_processing [OF inv phase])
  show ?thesis
  proof (cases r)
    case (Inl e)
    with inv_give_up [OF inv', of "mw_id w" e] phase show ?thesis by simp
  next
    case (Inr u)
    with out obtain source out where "staging (ms_files s) (mw_key w) = Some source"
      "mh_sanitize h m source (mw_media_type w) = Inr out" "x = Some out" by auto
    moreover have "phase_bytes h (ms_files s) (Scanned w)" using inv phase by (simp add: media_inv_def)
    ultimately have "phase_bytes h fs' (Written w)" by (auto simp: fs' clean_def)
    with Inr inv_next [OF inv', of "Written w"] phase show ?thesis by simp
  qed
qed

lemma replace_target_cases:
  assumes "replace_target sha fs w = (fs', r)"
  shows "(\<exists>e. r = Inl e) \<and> fs' = fs\<lparr>processing := (processing fs)(mw_key w := None)\<rparr>
     \<or> (\<exists>out. processing fs (mw_key w) = Some out \<and> r = Inr (sha out, int (length out))
          \<and> fs' = fs\<lparr>processing := (processing fs)(mw_key w := None), available := (available fs)(mw_key w \<mapsto> out)\<rparr>)"
  using assms by (auto simp: replace_target_def Let_def split: option.splits if_splits)

lemma inv_replace:
  assumes inv: "media_inv h s" and phase: "ms_phase s = Written w"
    and replaced: "replace_target (mh_sha h) (ms_files s) w = (fs', r)"
  shows "media_inv h (s\<lparr>ms_files := fs', ms_phase := (case r of Inl e \<Rightarrow> Giving_up (mw_id w) e | Inr (d, n) \<Rightarrow> Replaced w d n)\<rparr>)"
  using replace_target_cases [OF replaced]
proof
  assume "(\<exists>e. r = Inl e) \<and> fs' = (ms_files s)\<lparr>processing := (processing (ms_files s))(mw_key w := None)\<rparr>"
  then obtain e where e: "r = Inl e" and fs': "fs' = unlink (ms_files s) (Processing, mw_key w)" by (auto simp: unlink_def)
  have "media_inv h (s\<lparr>ms_files := fs'\<rparr>)" unfolding fs' by (rule inv_remove [OF inv])
  from inv_give_up [OF this, of "mw_id w" e] phase e show ?thesis by simp
next
  assume "\<exists>out. processing (ms_files s) (mw_key w) = Some out \<and> r = Inr (mh_sha h out, int (length out))
    \<and> fs' = (ms_files s)\<lparr>processing := (processing (ms_files s))(mw_key w := None), available := (available (ms_files s))(mw_key w \<mapsto> out)\<rparr>"
  then obtain out where out: "processing (ms_files s) (mw_key w) = Some out" and r: "r = Inr (mh_sha h out, int (length out))"
    and fs': "fs' = (ms_files s)\<lparr>processing := (processing (ms_files s))(mw_key w := None), available := (available (ms_files s))(mw_key w \<mapsto> out)\<rparr>"
    by blast
  define p where "p = Replaced w (mh_sha h out) (int (length out))"
  have "phase_bytes h (ms_files s) (Written w)" using inv phase by (simp add: media_inv_def)
  with out have "clean h (mw_media_type w) out" by simp
  then have bytes: "phase_bytes h fs' p" by (simp add: p_def fs')
  have "media_inv h (s\<lparr>ms_files := fs', ms_phase := p\<rparr>)" (is "media_inv h ?s'")
  proof (rule media_invI)
    show "row_ok h ?s' a" if "a \<in> set (note_attachments (ms_db ?s'))" for a
    proof -
      from that have a: "a \<in> set (note_attachments (ms_db s))" by simp
      note ok = media_inv_rows [OF inv a]
      have "phase_row p a" using ok phase by (auto simp: row_ok_def phase_row_def p_def)
      moreover have "published_row h fs' a"
      proof (cases "na_storage_key a = mw_key w")
        case True
        with work_key_other [OF inv _ a] phase have "na_id a = mw_id w" by simp
        with ok phase have "na_status a \<noteq> Available" by (auto simp: row_ok_def phase_row_def holds_storage_def)
        then show ?thesis by (simp add: published_row_def)
      qed (use ok in \<open>simp add: row_ok_def published_row_def fs'\<close>)
      moreover have "upload_row fs' (ms_sent s) (ms_claims s) a" using ok by (simp add: row_ok_def upload_row_def fs')
      ultimately show ?thesis using ok by (simp add: row_ok_def)
    qed
    show "issued_ok ?s'" using inv phase by (auto simp: media_inv_def issued_ok_def p_def)
  qed (use inv bytes in \<open>simp_all add: media_inv_def jobs_ok_def\<close>)
  with r show ?thesis by (simp add: p_def)
qed

lemma sum_except:
  assumes "distinct (map na_id rows)" "a \<in> set rows"
  shows "counted_bytes (select (\<lambda>r. na_couple_id r = na_couple_id a \<and> na_id r \<noteq> na_id a) rows)
    = sum_of (couple_weight (na_couple_id a)) rows - weight a"
  using assms
proof (induction rows)
  case (Cons r rows)
  have here: "sum_of (couple_weight (na_couple_id a)) rows
      = sum_of (\<lambda>r. if na_couple_id r = na_couple_id a \<and> na_id r \<noteq> na_id a then weight r else 0) rows"
    if "na_id a \<notin> na_id ` set rows"
    using that by (induction rows) (auto simp: couple_weight_def)
  show ?case
  proof (cases "r = a")
    case True
    with Cons.prems have "na_id a \<notin> na_id ` set rows" by auto
    from here [OF this] True show ?thesis by (simp add: counted_bytes_select couple_weight_def [of _ a])
  next
    case False
    with Cons have "na_id r \<noteq> na_id a" by (auto simp: rev_image_eqI)
    with Cons False show ?thesis by (auto simp: counted_bytes_select couple_weight_def)
  qed
qed simp

lemma inv_mark:
  assumes inv: "media_inv h s" and phase: "ms_phase s = Replaced w digest n"
    and marked: "mark_available (ms_db s) (mw_id w) digest n now = Inr (db', True)"
  shows "media_inv h (s\<lparr>ms_db := db', ms_phase := Published w\<rparr>)"
proof -
  have live: "na_deleted_at a = None"
    if "a \<in> set (note_attachments (ms_db s))" "na_id a = mw_id w" "na_status a = Scanning" for a
    using phase_live [OF inv _ that(1,2)] phase that(3) by (simp add: holds_storage_def)
  from mark_available_True [OF marked live] obtain a f r where change: "item_change (ms_db s) db' a f"
    and jobs: "job_change (ms_db s) db' (mw_id w) 0" and a: "na_id a = mw_id w"
    and f: "na_status (f a) = Available" "na_deleted_at (f a) = None" "na_sha256 (f a) = digest" "na_size_bytes (f a) = n"
    and weights: "weight a = na_size_bytes a" "weight (f a) = n"
    and quota: "reserved_bytes (ms_db s) = Some r" "r + (n - na_size_bytes a) \<le> GLOBAL_QUOTA_BYTES"
      "couple_reserved_except (ms_db s) (na_couple_id a) (mw_id w) + n \<le> COUPLE_QUOTA_BYTES"
    by blast
  note own = item_change_own [OF change]
  then have row: "row_ok h s a" using media_inv_rows [OF inv] by blast
  have ids: "distinct (map na_id (note_attachments (ms_db s)))" and reserved: "r = sum_of weight (note_attachments (ms_db s))"
    using inv quota(1) by (auto simp: media_inv_def quota_ok_def)
  have bytes: "0 \<le> n" "\<And>b. available (ms_files s) (mw_key w) = Some b \<Longrightarrow>
      clean h (mw_media_type w) b \<and> mh_sha h b = digest \<and> int (length b) = n"
    using inv phase by (simp_all add: media_inv_def)
  have work: "mw_key w = na_storage_key a" "mw_media_type w = na_media_type a"
    using row phase a by (auto simp: row_ok_def phase_row_def)
  show ?thesis
  proof (rule inv_worker_item [OF inv change])
    show "job_change (ms_db s) db' (na_id a) 0" using jobs a by simp
    show "phase_id (ms_phase s) = Some (na_id a)" using phase a by simp
    show "Published w = Idle \<or> Published w = Published w \<and> ms_phase s = Replaced w digest n" using phase by simp
    show "weight (f a) \<le> weight a \<or> sum_of weight (note_attachments (ms_db s)) + (weight (f a) - weight a) \<le> GLOBAL_QUOTA_BYTES
      \<and> sum_of (couple_weight (na_couple_id a)) (note_attachments (ms_db s)) + (weight (f a) - weight a) \<le> COUPLE_QUOTA_BYTES"
      using quota weights reserved sum_except [OF ids conjunct1 [OF own]] a by (simp add: couple_reserved_except_def)
    show "phase_row (Published w) (f a)" using f own work by (simp add: phase_row_def holds_storage_def)
    show "published_row h (ms_files s) (f a)" using bytes(2) f own work by (simp add: published_row_def)
  qed (use bytes(1) f in simp_all)
qed

lemma inv_retry:
  assumes inv: "media_inv h s" and phase: "phase_id (ms_phase s) = Some i"
    and retried: "retry_or_reject (ms_db s) i reason now = (db', rejecting)"
  shows "media_inv h (s\<lparr>ms_db := db', ms_phase := if rejecting then Giving_up i e else Idle\<rparr>)"
proof -
  have live: "na_deleted_at a = None \<longleftrightarrow> holds_storage (na_status a)"
    if "a \<in> set (note_attachments (ms_db s))" "na_id a = i" for a
    by (rule phase_live [OF inv phase that])
  consider "db' = ms_db s"
    | a f where "\<not> rejecting" "na_id a = i" "item_change (ms_db s) db' a f" "job_change (ms_db s) db' i 0"
        "na_status (f a) = Pending_scan" "na_deleted_at (f a) = na_deleted_at a" "weight (f a) = weight a"
        "na_size_bytes (f a) = na_size_bytes a"
    using retry_or_reject_cases [OF retried] live by blast
  then show ?thesis
  proof cases
    case 1
    with inv_give_up [OF inv phase] inv_idle [OF inv] show ?thesis by simp
  next
    case 2
    have row: "row_ok h s a" using item_change_own [OF 2(3)] media_inv_rows [OF inv] by blast
    have "media_inv h (s\<lparr>ms_db := db', ms_phase := Idle\<rparr>)"
      by (rule inv_worker_item [OF inv 2(3)])
        (use 2 phase row in \<open>simp_all add: row_ok_def phase_row_def published_row_def\<close>)
    with 2(1) show ?thesis by simp
  qed
qed

lemma inv_reject:
  assumes inv: "media_inv h s" and phase: "phase_id (ms_phase s) = Some i"
    and rejected: "reject (ms_db s) i reason now = Inr (db', key)"
  shows "media_inv h (s\<lparr>ms_db := db', ms_phase := Idle\<rparr>)"
proof -
  have live: "na_deleted_at a = None \<longleftrightarrow> holds_storage (na_status a)"
    if "a \<in> set (note_attachments (ms_db s))" "na_id a = i" for a
    by (rule phase_live [OF inv phase that])
  consider "db' = ms_db s"
    | a f where "na_id a = i" "item_change (ms_db s) db' a f" "job_change (ms_db s) db' i 0"
        "na_status (f a) = Rejected" "na_deleted_at (f a) = na_deleted_at a" "weight (f a) = 0"
        "na_size_bytes (f a) = na_size_bytes a"
    using reject_cases [OF rejected] live by blast
  then show ?thesis
  proof cases
    case 1
    with inv_idle [OF inv] show ?thesis by simp
  next
    case 2
    have row: "row_ok h s a" using item_change_own [OF 2(2)] media_inv_rows [OF inv] by blast
    show ?thesis
      by (rule inv_worker_item [OF inv 2(2)])
        (use 2 phase row in \<open>simp_all add: row_ok_def phase_row_def published_row_def weight_def\<close>)
  qed
qed

text \<open>What the worker does besides claiming, as changes of phase, files or one item.\<close>

lemma inv_unlinks: "media_inv h s \<Longrightarrow> media_inv h (s\<lparr>ms_unlinks := ul\<rparr>)"
  by (auto simp: media_inv_def row_ok_def issued_ok_def jobs_ok_def)

lemma inv_work:
  assumes inv: "media_inv h s"
    and step: "worker_step h n me now (ms_db s, ms_files s, ms_phase s) = (db', fs', p', ul)"
  shows "media_inv h (s\<lparr>ms_db := db', ms_files := fs', ms_phase := p', ms_claims := newly_claimed (ms_phase s) p' @ ms_claims s\<rparr>)"
proof (cases "ms_phase s")
  case Idle
  obtain db1 c where claim: "claim_ready me (ms_db s) now = (db1, c)" by fastforce
  show ?thesis
  proof (cases c)
    case None
    with claim step Idle claim_ready_None [of me "ms_db s" now] inv_idle [OF inv] show ?thesis by auto
  next
    case (Some i)
    with claim step Idle inv_claim [OF inv, of me now db1 i] show ?thesis by auto
  qed
next
  case (Claimed i)
  show ?thesis
  proof (cases "begin_work (ms_db s) i")
    case None
    with step Claimed inv_idle [OF inv] show ?thesis by auto
  next
    case (Some w)
    with step Claimed inv_begin [OF inv Some Claimed] show ?thesis by auto
  qed
next
  case (Working w)
  with step inv_hash [OF inv Working, of "mh_sha h"] show ?thesis by auto
next
  case (Hashed w)
  with step inv_scan [OF inv Hashed, of n] show ?thesis by auto
next
  case (Scanned w)
  obtain fs1 r where "write_work (mh_sanitize h n) (ms_files s) w = (fs1, r)" by fastforce
  with step Scanned inv_write [OF inv Scanned this] show ?thesis by auto
next
  case (Written w)
  obtain fs1 r where r: "replace_target (mh_sha h) (ms_files s) w = (fs1, r)" by fastforce
  with step Written inv_replace [OF inv Written r] show ?thesis by (cases r) auto
next
  case (Replaced w digest k)
  show ?thesis
  proof (cases "mark_available (ms_db s) (mw_id w) digest k now")
    case (Inl e)
    with step Replaced inv_give_up [OF inv, of "mw_id w" Other_error] show ?thesis by auto
  next
    case (Inr m)
    obtain db1 b where m: "m = (db1, b)" by (cases m)
    show ?thesis
    proof (cases b)
      case True
      with step Replaced Inr m inv_mark [OF inv Replaced, of now db1] show ?thesis by auto
    next
      case False
      with Inr m have "db1 = ms_db s" by (auto dest: mark_available_False)
      with step Replaced Inr m False inv_give_up [OF inv, of "mw_id w"] show ?thesis by auto
    qed
  qed
next
  case (Published w)
  with step inv_idle [OF inv_remove [OF inv, of "(Staging, mw_key w)"]] show ?thesis by auto
next
  case (Giving_up i e)
  then have phase: "phase_id (ms_phase s) = Some i" by simp
  show ?thesis
  proof (cases e)
    case (Attachment_rejected reason)
    show ?thesis
    proof (cases "reject (ms_db s) i (take 40 reason) now")
      case (Inl x)
      with step Giving_up Attachment_rejected inv_idle [OF inv] show ?thesis by auto
    next
      case (Inr x)
      obtain db1 key where "x = (db1, key)" by (cases x)
      with step Giving_up Attachment_rejected Inr inv_reject [OF inv phase, of "take 40 reason" now db1 key]
      show ?thesis by auto
    qed
  next
    case (Scan_unavailable reason)
    obtain db1 b where "retry_or_reject (ms_db s) i (take 40 reason) now = (db1, b)" by fastforce
    with step Giving_up Scan_unavailable inv_retry [OF inv phase this, of "Attachment_rejected ''retry_limit_exceeded''"]
    show ?thesis by (cases b) auto
  next
    case Other_error
    obtain db1 b where "retry_or_reject (ms_db s) i ''processing_failed'' now = (db1, b)" by fastforce
    with step Giving_up Other_error inv_retry [OF inv phase this, of "Attachment_rejected ''retry_limit_exceeded''"]
    show ?thesis by (cases b) auto
  qed
qed

section \<open>Every step, every reachable state\<close>

lemma media_inv_step:
  assumes "media_step h s s'" and inv: "media_inv h s"
  shows "media_inv h s'"
  using assms(1)
proof cases
  case (create u db0 actor_id note_id payload free now i key db' v)
  from inv_create [OF inv create(2-4)] show ?thesis unfolding create(1) .
next
  case (upload actor_id note_id i offset declared parts now fs' db' v)
  from inv_upload [OF inv upload(2)] show ?thesis unfolding upload(1) .
next
  case (upload_lost actor_id note_id i offset declared parts now fs' r)
  from inv_upload_lost [OF inv upload_lost(2)] show ?thesis unfolding upload_lost(1) .
next
  case (upload_torn actor_id note_id i offset declared parts a body junk stored)
  from inv_upload_torn [OF inv upload_torn(2,3)] show ?thesis unfolding upload_torn(1) .
next
  case (delete actor_id note_id i now db' key)
  from inv_delete [OF inv delete(2)] show ?thesis unfolding delete(1) .
next
  case (maintenance now db1 keys db2 p db' ul)
  from inv_maintenance [OF inv maintenance(2-4)] show ?thesis unfolding maintenance(1) .
next
  case (elsewhere db')
  from inv_elsewhere [OF inv elsewhere(2)] show ?thesis unfolding elsewhere(1) .
next
  case (remove t)
  from inv_remove [OF inv] show ?thesis unfolding remove(1) .
next
  case (work n me now db' fs' p' ul)
  have "s' = s\<lparr>ms_db := db', ms_files := fs', ms_phase := p', ms_claims := newly_claimed (ms_phase s) p' @ ms_claims s,
      ms_unlinks := ms_unlinks s @ ul\<rparr>"
    unfolding work(1) by simp
  then show ?thesis using inv_unlinks [OF inv_work [OF inv work(2)], of "ms_unlinks s @ ul"] by (simp only:)
next
  case (file_error i)
  from inv_give_up [OF inv file_error(2)] show ?thesis unfolding file_error(1) .
next
  case crash
  from inv_idle [OF inv] show ?thesis unfolding crash .
next
  case (torn_work w junk)
  from inv_torn_work [OF inv] show ?thesis unfolding torn_work(1) .
qed

lemma inv_reachable: "media_reachable h s \<Longrightarrow> media_inv h s"
proof (induction rule: media_reachable.induct)
  case (start db fs)
  then show ?case
    by (simp add: media_inv_def quota_ok_def issued_ok_def jobs_ok_def GLOBAL_QUOTA_BYTES_def COUPLE_QUOTA_BYTES_def)
next
  case (more_steps s s')
  then show ?case by (blast intro: media_inv_step)
qed

end
