(* ===== verification/Attachment_Promises.thy ===== *)
theory Attachment_Promises
  imports Attachment_Invariants Pairing_Safety Note_Safety
begin

text \<open>
  What the attachment store promises in every reachable state, an example run from the creation of an
  upload to its download, and two ways in which the code falls short of its intention.
\<close>

section \<open>Promises\<close>


lemma available_file_Inr: "available_file fs a e = Inr b \<Longrightarrow> available fs (na_storage_key a) = Some b"
  by (auto simp: available_file_def split: option.splits if_splits)

lemma download_attachment_Inr:
  "download_attachment db fs actor_id note_id i = Inr b \<Longrightarrow>
     \<exists>a \<in> set (note_attachments db). na_id a = i \<and> na_status a = Available \<and> na_deleted_at a = None
       \<and> available fs (na_storage_key a) = Some b"
  by (auto simp: download_attachment_def bind_exc_Inr_iff guard_def split: if_splits
      dest!: authorized_attachment_Inr available_file_Inr)

lemma archived_attachment_Inr:
  "archived_attachment db actor_id archive_id note_id i = Inr a \<Longrightarrow>
     a \<in> set (note_attachments db) \<and> na_id a = i \<and> na_status a = Available \<and> na_deleted_at a = None"
  by (auto simp: archived_attachment_def bind_exc_Inr_iff dest!: scalar_Some split: option.splits)

lemma download_archive_attachment_Inr:
  "download_archive_attachment db fs actor_id archive_id note_id i = Inr b \<Longrightarrow>
     \<exists>a \<in> set (note_attachments db). na_id a = i \<and> na_status a = Available \<and> na_deleted_at a = None
       \<and> available fs (na_storage_key a) = Some b"
  by (auto simp: download_archive_attachment_def bind_exc_Inr_iff dest!: archived_attachment_Inr available_file_Inr)



text \<open>C34: the worker claims no item more than eight times, whatever fails, and no job counts more attempts.\<close>
theorem scanned_at_most_eight_times:
  assumes "media_reachable h s"
  shows "count_list (ms_claims s) i \<le> 8 \<and> (\<forall>j \<in> set (attachment_jobs (ms_db s)). aj_attempts j \<le> 8)"
  using inv_reachable [OF assms] by (simp add: media_inv_def jobs_ok_def)

section \<open>An example run\<close>

text \<open>A couple with one note, and the three attachment tables.\<close>

definition orbit_store :: "note_attachment list \<Rightarrow> attachment_job list \<Rightarrow> int \<Rightarrow> attachments_db" where
  "orbit_store items jobs n =
     quiz_db.extend (pairing_db.extend (orbit_pairing\<lparr>note_rows := note_rows orbit_notes\<rparr>)
       \<lparr>questions = [], quiz_days = [], quiz_day_questions = [], quiz_day_members = [], quiz_drafts = [],
        quiz_operations = [], question_reports = []\<rparr>)
       \<lparr>note_attachments = items, attachment_jobs = jobs, reserved_bytes = Some n\<rparr>"

lemma orbit_store_fields [simp]:
  "members (orbit_store is js n) = members orbit_core" "couples (orbit_store is js n) = couples orbit_core"
  "note_rows (orbit_store is js n) = note_rows orbit_notes"
  "note_attachments (orbit_store is js n) = is" "attachment_jobs (orbit_store is js n) = js"
  "reserved_bytes (orbit_store is js n) = Some n"
  using orbit_pairing_fields
  by (simp_all add: orbit_store_def pairing_db.extend_def quiz_db.extend_def)

lemma orbit_store_updates [simp]:
  "orbit_store is js n\<lparr>note_attachments := is'\<rparr> = orbit_store is' js n"
  "orbit_store is js n\<lparr>attachment_jobs := js'\<rparr> = orbit_store is js' n"
  "orbit_store is js n\<lparr>reserved_bytes := Some n'\<rparr> = orbit_store is js n'"
  by (simp_all add: orbit_store_def pairing_db.extend_def quiz_db.extend_def)

definition demo_sha :: string where "demo_sha = replicate 64 CHR ''0''"

definition demo_host :: media_host where
  "demo_host = \<lparr>mh_sha = \<lambda>_. demo_sha, mh_scanner = \<lambda>_ _. Inr True, mh_sanitize = \<lambda>_ b _. Inr (rev b)\<rparr>"

definition demo_request :: create_request where
  "demo_request = \<lparr>cr_operation_id = 1, cr_file_name = ascii ''a.txt'', cr_media_type = ''text/plain'',
     cr_size_bytes = 3, cr_sha256 = demo_sha\<rparr>"

definition demo_item :: "uuid \<Rightarrow> string \<Rightarrow> attachment_status \<Rightarrow> int \<Rightarrow> note_attachment" where
  "demo_item i key st n =
     \<lparr>na_id = i, na_note_id = 5, na_couple_id = 7, na_uploaded_by = Some 11, na_operation_id = 1,
      na_file_name = ascii ''a.txt'', na_media_type = ''text/plain'', na_size_bytes = 3, na_uploaded_bytes = n,
      na_sha256 = demo_sha, na_storage_key = key, na_status = st, na_rejection_reason = None, na_created_at = 0,
      na_updated_at = 0, na_scanned_at = None, na_deleted_at = None\<rparr>"

lemma demo_item_fields [simp]:
  "na_id (demo_item i key st n) = i" "na_note_id (demo_item i key st n) = 5" "na_couple_id (demo_item i key st n) = 7"
  "na_size_bytes (demo_item i key st n) = 3" "na_uploaded_bytes (demo_item i key st n) = n"
  "na_sha256 (demo_item i key st n) = demo_sha" "na_storage_key (demo_item i key st n) = key"
  "na_status (demo_item i key st n) = st" "na_deleted_at (demo_item i key st n) = None"
  "na_operation_id (demo_item i key st n) = 1" "na_media_type (demo_item i key st n) = ''text/plain''"
  by (simp_all add: demo_item_def)

definition no_files :: files where
  "no_files = \<lparr>staging = Map.empty, processing = Map.empty, available = Map.empty\<rparr>"

definition demo_start :: media_sys where
  "demo_start = \<lparr>ms_db = orbit_store [] [] 0, ms_files = no_files, ms_phase = Idle, ms_unlinks = [], ms_issued = [],
     ms_sent = \<lambda>_. [], ms_claims = []\<rparr>"

definition demo_created :: media_sys where
  "demo_created = demo_start\<lparr>ms_db := orbit_store [demo_item 9 ''k'' Uploading 0] [] 3, ms_issued := [(9, ''k'')]\<rparr>"

definition demo_uploaded :: media_sys where
  "demo_uploaded = demo_created\<lparr>ms_db := orbit_store [demo_item 9 ''k'' Pending_scan 3] [new_job 9 0] 3,
     ms_files := no_files\<lparr>staging := [''k'' \<mapsto> [1, 2, 3]]\<rparr>, ms_sent := (\<lambda>_. [])(9 := [1, 2, 3])\<rparr>"

lemma orbit_store_member: "active_member (orbit_store is js n) 11 = Inr (hd (members orbit_core))"
  by (simp add: active_member_def orbit_core_def is_active_def)

lemma orbit_store_note:
  "authorized_note (orbit_store is js n) 11 5 False = Inr (hd (members orbit_core), hd (note_rows orbit_notes))"
  by (simp add: authorized_note_def orbit_store_member orbit_notes_def orbit_core_def)

lemma orbit_store_couple: "lock_couple (orbit_store is js n) 7 = Inr (hd (couples orbit_core))"
  by (simp add: lock_couple_def orbit_core_def)

lemma demo_file_name: "validated_file_name plain_unicode demo_request = Inr (ascii ''a.txt'')"
  by (simp add: validated_file_name_def validate_metadata_def guard_def demo_request_def ALLOWED_MEDIA_TYPES_def
      MAX_FILE_BYTES_def demo_sha_def hex_digit_def safe_file_name_def path_name_def ascii_def strip_def plain_unicode_def
      policy_as_def list_all_iff Let_def)

lemma demo_prior:
  "prior_or_new_upload (orbit_store [] [] 0) 7 11 5 demo_request (ascii ''a.txt'') 1099511627776 0 9 ''k''
     = Inr (orbit_store [demo_item 9 ''k'' Uploading 0] [] 3, attachment_view_of (demo_item 9 ''k'' Uploading 0))"
  by (simp add: prior_or_new_upload_def reserve_upload_capacity_def select_def counted_bytes_def guard_def
      MAX_CONCURRENT_UPLOADS_PER_COUPLE_def COUPLE_QUOTA_BYTES_def has_upload_capacity_def MIN_FREE_STORAGE_BYTES_def
      policy_as_def reserve_storage_def lock_storage_state_def GLOBAL_QUOTA_BYTES_def insert_attachment_def
      insert_unique_def new_attachment_def demo_request_def demo_item_def Let_def)

lemma demo_create:
  "create_attachment plain_unicode (orbit_store [] [] 0) (orbit_store [] [] 0) 11 5 demo_request 1099511627776 0 9 ''k''
     = Inr (orbit_store [demo_item 9 ''k'' Uploading 0] [] 3, attachment_view_of (demo_item 9 ''k'' Uploading 0))"
proof -
  have "mem_couple_id (hd (members orbit_core)) = 7" "nt_id (hd (note_rows orbit_notes)) = 5"
    by (simp_all add: orbit_core_def orbit_notes_def)
  then show ?thesis
    by (simp add: create_attachment_def orbit_store_note orbit_store_couple demo_file_name demo_prior)
qed

lemma demo_authorized:
  "authorized_attachment (orbit_store [demo_item 9 ''k'' st n] js r) 11 5 9 = Inr (demo_item 9 ''k'' st n)"
  by (simp add: authorized_attachment_def orbit_store_note) (simp add: orbit_core_def)

lemma demo_upload:
  "upload_attachment_chunk (mh_sha demo_host) (orbit_store [demo_item 9 ''k'' Uploading 0] [] 3)
       (orbit_store [demo_item 9 ''k'' Uploading 0] [] 3) no_files 11 5 9 0 No_length [[1], [2, 3]] 0
     = (no_files\<lparr>staging := [''k'' \<mapsto> [1, 2, 3]]\<rparr>, Inr (orbit_store [demo_item 9 ''k'' Pending_scan 3] [new_job 9 0] 3,
          attachment_view_of (demo_item 9 ''k'' Pending_scan 3)))"
proof -
  have "upload_target (orbit_store [demo_item 9 ''k'' Uploading 0] [] 3) (orbit_store [demo_item 9 ''k'' Uploading 0] [] 3)
      11 5 9 0 No_length [[1], [2, 3]] = Inr (demo_item 9 ''k'' Uploading 0, [1, 2, 3])"
    by (simp add: upload_target_def demo_authorized orbit_store_couple guard_def read_chunk_def MAX_CHUNK_BYTES_def
        validate_chunk_def policy_as_def)
  moreover have "finish_chunk (mh_sha demo_host) (orbit_store [demo_item 9 ''k'' Uploading 0] [] 3) (demo_item 9 ''k'' Uploading 0)
      [1, 2, 3] (Suc (Suc (Suc 0))) 0 = Inr (orbit_store [demo_item 9 ''k'' Pending_scan 3] [new_job 9 0] 3, demo_item 9 ''k'' Pending_scan 3)"
    by (simp add: finish_chunk_def Let_def demo_host_def insert_unique_def update_attachment_def guard_def update_where_def)
      (simp add: demo_item_def)
  ultimately show ?thesis
    by (simp add: upload_attachment_chunk_def append_chunk_def no_files_def Let_def)
qed

lemma demo_reachable: "media_reachable demo_host demo_start" "media_reachable demo_host demo_created"
  "media_reachable demo_host demo_uploaded"
proof -
  show start: "media_reachable demo_host demo_start" unfolding demo_start_def by (rule media_reachable.start) simp_all
  have "media_step demo_host demo_start demo_created"
    using media_step.create [of plain_unicode "orbit_store [] [] 0" demo_start 11 5 demo_request 1099511627776 0 9 "''k''"] demo_create
    by (simp add: demo_created_def demo_start_def)
  with start show created: "media_reachable demo_host demo_created" by (rule more_steps)
  have "media_step demo_host demo_created demo_uploaded"
    using media_step.upload [of demo_host demo_created 11 5 9 0 No_length "[[1], [2, 3]]" 0] demo_upload
    by (simp add: demo_uploaded_def demo_created_def demo_start_def)
  with created show "media_reachable demo_host demo_uploaded" by (rule more_steps)
qed


section \<open>The worker in the example\<close>

definition work_once :: "media_sys \<Rightarrow> media_sys" where
  "work_once s = (case worker_step demo_host 0 ''w'' 0 (ms_db s, ms_files s, ms_phase s) of
     (db', fs', p', ul) \<Rightarrow> s\<lparr>ms_db := db', ms_files := fs', ms_phase := p', ms_unlinks := ms_unlinks s @ ul,
        ms_claims := newly_claimed (ms_phase s) p' @ ms_claims s\<rparr>)"

lemma work_once_reachable: "media_reachable demo_host s \<Longrightarrow> media_reachable demo_host (work_once s)"
  by (cases "worker_step demo_host 0 ''w'' 0 (ms_db s, ms_files s, ms_phase s)")
    (auto simp: work_once_def intro: more_steps media_step.work)

definition demo_work :: media_work where
  "demo_work = \<lparr>mw_id = 9, mw_key = ''k'', mw_media_type = ''text/plain'', mw_expected_hash = demo_sha\<rparr>"

definition demo_leased :: attachment_job where
  "demo_leased = (new_job 9 0)\<lparr>aj_status := Job_leased, aj_attempts := 1,
     aj_lease_expires_at := Some (JOB_LEASE_MINUTES * minute), aj_leased_by := Some ''w''\<rparr>"

definition demo_claimed :: "media_phase \<Rightarrow> media_sys" where
  "demo_claimed p = demo_uploaded\<lparr>ms_db := orbit_store [demo_item 9 ''k'' Scanning 3] [demo_leased] 3, ms_phase := p, ms_claims := [9]\<rparr>"

lemma demo_claim: "work_once demo_uploaded = demo_claimed (Claimed 9)"
  by (simp add: work_once_def demo_uploaded_def demo_created_def demo_start_def demo_claimed_def claim_ready_def scalar_by_def
      claimable_def job_is_ready_def MAX_JOB_ATTEMPTS_def set_item_def set_job_def update_where_def new_job_def demo_leased_def)
    (simp add: demo_item_def)

lemma demo_checks:
  "work_once (demo_claimed (Claimed 9)) = demo_claimed (Working demo_work)"
  "work_once (demo_claimed (Working demo_work)) = demo_claimed (Hashed demo_work)"
  "work_once (demo_claimed (Hashed demo_work)) = demo_claimed (Scanned demo_work)"
  by (simp_all add: work_once_def demo_claimed_def begin_work_def demo_work_def check_hash_def check_malware_def demo_host_def
      demo_uploaded_def no_files_def demo_created_def demo_start_def)

definition demo_published :: "files" where
  "demo_published = no_files\<lparr>available := [''k'' \<mapsto> [3, 2, 1]]\<rparr>"

definition demo_served :: media_sys where
  "demo_served = work_once (work_once (work_once (work_once
     (work_once (work_once (work_once (work_once demo_uploaded)))))))"

lemma demo_files:
  "work_once (work_once (demo_claimed (Scanned demo_work)))
     = (demo_claimed (Replaced demo_work demo_sha 3))\<lparr>ms_files := demo_published\<lparr>staging := [''k'' \<mapsto> [1, 2, 3]]\<rparr>\<rparr>"
  by (simp add: work_once_def demo_claimed_def write_work_def replace_target_def demo_work_def demo_host_def Let_def
      demo_uploaded_def no_files_def demo_created_def demo_start_def demo_published_def MAX_FILE_BYTES_def)

lemma demo_mark:
  "mark_available (orbit_store [demo_item 9 ''k'' Scanning 3] [demo_leased] 3) 9 demo_sha 3 0
     = Inr (record_activity (orbit_store [complete_item demo_sha 3 0 (demo_item 9 ''k'' Scanning 3)] [complete_job 0 demo_leased] 3)
         (attachment_activity (demo_item 9 ''k'' Scanning 3) 0), True)"
  by (simp add: mark_available_def orbit_core_def couple_reserved_except_def select_def counted_bytes_def COUPLE_QUOTA_BYTES_def
      adjust_storage_def lock_storage_state_def guard_def GLOBAL_QUOTA_BYTES_def set_item_def set_job_def update_where_def
      demo_leased_def new_job_def)

lemma demo_served_db:
  "note_attachments (ms_db demo_served) = [complete_item demo_sha 3 0 (demo_item 9 ''k'' Scanning 3)]
   \<and> members (ms_db demo_served) = members orbit_core \<and> note_rows (ms_db demo_served) = note_rows orbit_notes
   \<and> available (ms_files demo_served) ''k'' = Some [3, 2, 1]"
proof -
  let ?s = "(demo_claimed (Replaced demo_work demo_sha 3))\<lparr>ms_files := demo_published\<lparr>staging := [''k'' \<mapsto> [1, 2, 3]]\<rparr>\<rparr>"
  have "demo_served = work_once (work_once ?s)"
    by (simp add: demo_served_def demo_claim demo_checks demo_files)
  moreover obtain x where "record_activity (orbit_store [complete_item demo_sha 3 0 (demo_item 9 ''k'' Scanning 3)]
      [complete_job 0 demo_leased] 3) (attachment_activity (demo_item 9 ''k'' Scanning 3) 0)
    = orbit_store [complete_item demo_sha 3 0 (demo_item 9 ''k'' Scanning 3)] [complete_job 0 demo_leased] 3\<lparr>activity_events := x\<rparr>"
    using record_activity_frame by blast
  ultimately have served: "demo_served = demo_uploaded\<lparr>ms_db := orbit_store [complete_item demo_sha 3 0 (demo_item 9 ''k'' Scanning 3)]
      [complete_job 0 demo_leased] 3\<lparr>activity_events := x\<rparr>,
      ms_files := no_files\<lparr>available := [''k'' \<mapsto> [3, 2, 1]], staging := \<lambda>k. None\<rparr>, ms_phase := Idle, ms_claims := [9]\<rparr>"
    by (simp add: work_once_def demo_claimed_def demo_work_def demo_mark demo_published_def unlink_def)
  show ?thesis unfolding served by simp
qed

lemma demo_served_reachable: "media_reachable demo_host demo_served"
  unfolding demo_served_def by (intro work_once_reachable demo_reachable(3))



theorem scanned_at_most_eight_times_witness: "count_list (ms_claims demo_served) 9 \<le> 8"
  using scanned_at_most_eight_times [OF demo_served_reachable, of 9] by blast

section \<open>Where the code falls short\<close>

text \<open>
  Deletion decides by the item it read before it held the couple's lock. Two deletions of one file that
  overlap both pass the check and both release its bytes: the reservation falls below the stored bytes.
\<close>

lemma concurrent_deletes_release_twice:
  fixes db0 :: attachments_db
  defines "db0 \<equiv> orbit_store [demo_item 9 ''k'' Available 3, demo_item 10 ''l'' Available 3] [] 6"
  shows "\<exists>db1 db2. delete_attachment db0 db0 11 5 9 0 = Inr (db1, ''k'') \<and> delete_attachment db0 db1 12 5 9 0 = Inr (db2, ''k'')
    \<and> reserved_bytes db2 = Some 0 \<and> counted_bytes (note_attachments db2) = 3"
proof -
  let ?gone = "demo_item 9 ''k'' Available 3\<lparr>na_deleted_at := Some 0, na_status := Deleted, na_updated_at := 0\<rparr>"
  have member: "active_member (orbit_store items js n) 12 = Inr (orbit_core_member)" if "orbit_core_member = members orbit_core ! 1"
    for items js n orbit_core_member
    using that by (simp add: active_member_def orbit_core_def is_active_def)
  have read: "authorized_attachment db0 a 5 9 = Inr (demo_item 9 ''k'' Available 3)" if "a \<in> {11, 12}" for a
    using that by (auto simp: db0_def authorized_attachment_def authorized_note_def orbit_store_member member [OF refl]
        orbit_notes_def) (simp_all add: orbit_core_def)
  have "delete_attachment db0 db0 11 5 9 0 = Inr (orbit_store [?gone, demo_item 10 ''l'' Available 3] [] 3, ''k'')"
    "delete_attachment db0 (orbit_store [?gone, demo_item 10 ''l'' Available 3] [] 3) 12 5 9 0
       = Inr (orbit_store [?gone, demo_item 10 ''l'' Available 3] [] 0, ''k'')"
    by (simp_all add: delete_attachment_def read) (simp_all add: db0_def orbit_store_couple holds_storage_def adjust_storage_def
        lock_storage_state_def guard_def GLOBAL_QUOTA_BYTES_def update_attachment_def update_where_def)
  moreover have "reserved_bytes (orbit_store [?gone, demo_item 10 ''l'' Available 3] [] 0) = Some 0
      \<and> counted_bytes (note_attachments (orbit_store [?gone, demo_item 10 ''l'' Available 3] [] 0)) = 3"
    by (simp add: counted_bytes_def counted_def holds_storage_def)
  ultimately show ?thesis by blast
qed

text \<open>
  When the digest does not match, the staged file is removed before the rejection is committed. If that
  commit is lost, the upload can never be completed: every further chunk is refused.
\<close>

lemma unlinked_upload_is_stuck:
  fixes db :: attachments_db
  assumes "upload_target db db actor_id note_id i offset declared parts = Inr (a, body)"
    and "staging fs (na_storage_key a) = None" "0 < na_uploaded_bytes a"
  shows "snd (upload_attachment_chunk sha db db fs actor_id note_id i offset declared parts now)
    = Inl (HTTPException 409 ''stored_offset_mismatch'')"
proof -
  have "0 < offset" using upload_target_Inr [OF assms(1)] assms(3) by (auto simp: uploadable_def)
  with assms(1,2) show ?thesis by (simp add: upload_attachment_chunk_def append_chunk_def Let_def)
qed

end
