(* ===== verification/Sign_In.thy ===== *)
theory Sign_In
  imports Attachment_Sanitizers Question_Gates
begin

text \<open>
  Accounts and how one signs in: registration, verification and recovery links, sessions
  (\<^verbatim>\<open>routes/auth.py\<close>, \<^verbatim>\<open>account_entry.py\<close>), the outbox (\<^verbatim>\<open>mail.py\<close>), the
  request to delete an account (\<^verbatim>\<open>routes/account.py\<close>), what the owner can do to accounts
  (\<^verbatim>\<open>routes/admin_console.py\<close>) and the second factor (\<^verbatim>\<open>security.py\<close>,
  \<^verbatim>\<open>routes/admin.py\<close>).

  The throttle and the audit event of a refused request commit on their own, so a handler behind the
  throttle returns a database also when it raises. Where a handler reads before it holds its locks, \<open>db0\<close>
  is the database its first reads saw.

  Parameters: the keyed digest of tokens, the salted password hash and its verification, the cipher of the
  outbox, the Unicode tables, and what a request draws at random. A request reads the clock once at its
  start, \<open>now\<close>, and again when it creates links and mail, \<open>later\<close>.
\<close>

section \<open>Rows\<close>

datatype token_purpose = Verify_email | Password_reset

record one_use_token =
  ot_id :: uuid
  ot_account_id :: uuid
  ot_purpose :: token_purpose
  ot_token_hash :: string
  ot_expires_at :: instant
  ot_consumed_at :: "instant option"
  ot_created_at :: instant

record outbox_mail =
  om_id :: uuid
  om_recipient :: ustring
  om_subject :: string
  om_encrypted_body :: string
  om_attempts :: nat
  om_next_attempt_at :: instant
  om_delivered_at :: "instant option"
  om_created_at :: instant

record deletion_job =
  dj_id :: uuid
  dj_account_id :: "uuid option"
  dj_execute_after :: instant
  dj_completed :: bool
  dj_requested_at :: instant
  dj_completed_at :: "instant option"

text \<open>
  The row \<^verbatim>\<open>registration\<close> of the runtime settings, if there is one, and its \<^verbatim>\<open>enabled\<close>
  entry, if that is a boolean.
\<close>

record sign_in_db = attachments_db +
  one_use_tokens :: "one_use_token list"
  mail_outbox :: "outbox_mail list"
  deletion_jobs :: "deletion_job list"
  registration_control :: "bool option option"

section \<open>Surroundings\<close>

record sign_in_settings =
  st_registration_open :: bool
  st_registration_ip_per_hour :: nat
  st_registration_email_per_hour :: nat
  st_login_ip_per_15_minutes :: nat
  st_login_subject_per_15_minutes :: nat
  st_recovery_ip_per_hour :: nat
  st_recovery_subject_per_hour :: nat
  st_reset_ip_per_hour :: nat
  st_reset_subject_per_hour :: nat
  st_session_minutes :: int
  st_public_base_url :: ustring
  st_outbox_encryption_key :: "string option"
  st_recovery_mail_not_before :: "instant option"

record sign_in_crypto =
  cy_hash_token :: "string \<Rightarrow> string"
  cy_hash_password :: "ustring \<Rightarrow> nat \<Rightarrow> string"
  cy_verify_password :: "string \<Rightarrow> ustring \<Rightarrow> bool"
  cy_encrypt :: "string \<Rightarrow> ustring \<Rightarrow> nat \<Rightarrow> string"
  cy_decrypt :: "string \<Rightarrow> string \<Rightarrow> ustring option"

record draws =
  dr_account_id :: uuid
  dr_token_id :: uuid
  dr_mail_id :: uuid
  dr_job_id :: uuid
  dr_raw_token :: string
  dr_salt :: nat
  dr_nonce :: nat

text \<open>The bytes of a text, as digests and throttles see it.\<close>

definition utf8 :: "ustring \<Rightarrow> string" where
  "utf8 s = map char_of (utf8_encode s)"

definition normalize_email :: "folding_unicode \<Rightarrow> ustring \<Rightarrow> ustring" where
  "normalize_email u email = casefold u (strip u email)"

section \<open>The outbox\<close>

definition enqueue_mail ::
    "sign_in_crypto \<Rightarrow> sign_in_settings \<Rightarrow> 'a sign_in_db_scheme \<Rightarrow> ustring \<Rightarrow> string \<Rightarrow> ustring \<Rightarrow> instant \<Rightarrow> draws
       \<Rightarrow> exc + 'a sign_in_db_scheme" where
  "enqueue_mail cy st db recipient subject body later fresh =
     (case st_outbox_encryption_key st of
        None \<Rightarrow> Inl (RuntimeError ''OUTBOX_ENCRYPTION_KEY must be configured'')
      | Some key \<Rightarrow>
          bind_exc (insert_unique om_id
            \<lparr>om_id = dr_mail_id fresh, om_recipient = recipient, om_subject = subject,
             om_encrypted_body = cy_encrypt cy key body (dr_nonce fresh), om_attempts = 0,
             om_next_attempt_at = later, om_delivered_at = None, om_created_at = later\<rparr> (mail_outbox db)) (\<lambda>rows.
          Inr (db\<lparr>mail_outbox := rows\<rparr>)))"

definition verification_body :: "sign_in_settings \<Rightarrow> ustring \<Rightarrow> string \<Rightarrow> ustring" where
  "verification_body st display_name token =
     ascii ''Hello '' @ display_name @ ascii '','' @ [10, 10] @ ascii ''Verify your Little Orbit email within 24 hours:''
       @ [10] @ st_public_base_url st @ ascii ''/verify-email#token='' @ ascii token @ [10]"

definition recovery_body :: "sign_in_settings \<Rightarrow> ustring \<Rightarrow> string \<Rightarrow> ustring" where
  "recovery_body st display_name token =
     ascii ''Hello '' @ display_name @ ascii '','' @ [10, 10] @ ascii ''Reset your Little Orbit password within 30 minutes:''
       @ [10] @ st_public_base_url st @ ascii ''/reset-password#token='' @ ascii token @ [10]"

text \<open>
  What the mail server does with a message: accept it, fail in a way the worker retries
  (\<^verbatim>\<open>OSError\<close>, \<^verbatim>\<open>SMTPException\<close>), or raise anything else. An undecipherable body
  raises as well.
\<close>

datatype delivery_outcome = Accepted_mail | Retry_mail | Raised_mail exc

definition mail_due :: "sign_in_settings \<Rightarrow> instant \<Rightarrow> outbox_mail \<Rightarrow> bool" where
  "mail_due st now m \<longleftrightarrow> om_delivered_at m = None \<and> om_next_attempt_at m \<le> now
     \<and> (case st_recovery_mail_not_before st of None \<Rightarrow> True | Some t \<Rightarrow> t \<le> om_created_at m)"

definition retry_minutes :: "nat \<Rightarrow> int" where
  "retry_minutes attempts = min 60 (2 ^ min attempts 6)"

definition delivery_of ::
    "sign_in_crypto \<Rightarrow> string \<Rightarrow> (outbox_mail \<Rightarrow> ustring \<Rightarrow> delivery_outcome) \<Rightarrow> outbox_mail \<Rightarrow> delivery_outcome" where
  "delivery_of cy key smtp m =
     (case cy_decrypt cy key (om_encrypted_body m) of None \<Rightarrow> Raised_mail (ValueError ''InvalidToken'')
      | Some body \<Rightarrow> smtp m body)"

definition mail_settled :: "delivery_outcome \<Rightarrow> instant \<Rightarrow> outbox_mail \<Rightarrow> outbox_mail" where
  "mail_settled r later m =
     (if r = Accepted_mail then m\<lparr>om_delivered_at := Some later, om_encrypted_body := []\<rparr>
      else m\<lparr>om_attempts := om_attempts m + 1,
             om_next_attempt_at := later + retry_minutes (om_attempts m + 1) * minute\<rparr>)"

text \<open>
  The batch, one row after the other; an exception that escapes rolls all of them back. \<open>sent\<close> are the
  messages the server has accepted by then, which no rollback undoes.
\<close>

fun deliver_rows ::
    "sign_in_crypto \<Rightarrow> string \<Rightarrow> (outbox_mail \<Rightarrow> ustring \<Rightarrow> delivery_outcome) \<Rightarrow> instant \<Rightarrow> outbox_mail list
       \<Rightarrow> outbox_mail list \<Rightarrow> uuid list \<Rightarrow> (exc + outbox_mail list) \<times> uuid list" where
  "deliver_rows cy key smtp later [] rows sent = (Inr rows, sent)"
| "deliver_rows cy key smtp later (m # ms) rows sent =
     (case delivery_of cy key smtp m of
        Raised_mail e \<Rightarrow> (Inl e, sent)
      | r \<Rightarrow> deliver_rows cy key smtp later ms
               (update_where (\<lambda>x. om_id x = om_id m) (mail_settled r later) rows)
               (if r = Accepted_mail then sent @ [om_id m] else sent))"

definition deliver_pending_mail ::
    "sign_in_crypto \<Rightarrow> sign_in_settings \<Rightarrow> (outbox_mail \<Rightarrow> ustring \<Rightarrow> delivery_outcome) \<Rightarrow> 'a sign_in_db_scheme
       \<Rightarrow> nat \<Rightarrow> instant \<Rightarrow> instant \<Rightarrow> (exc + 'a sign_in_db_scheme) \<times> uuid list" where
  "deliver_pending_mail cy st smtp db limit now later =
     (let due = take limit (sort_key om_created_at (select (mail_due st now) (mail_outbox db)))
      in case (due, st_outbox_encryption_key st) of
           ([], _) \<Rightarrow> (Inr db, [])
         | (_, None) \<Rightarrow> (Inl (RuntimeError ''OUTBOX_ENCRYPTION_KEY must be configured''), [])
         | (_, Some key) \<Rightarrow>
             (case deliver_rows cy key smtp later due (mail_outbox db) [] of
                (Inl e, sent) \<Rightarrow> (Inl e, sent)
              | (Inr rows, sent) \<Rightarrow> (Inr (db\<lparr>mail_outbox := rows\<rparr>), sent)))"

section \<open>Links\<close>

definition create_token ::
    "sign_in_crypto \<Rightarrow> 'a sign_in_db_scheme \<Rightarrow> uuid \<Rightarrow> token_purpose \<Rightarrow> int \<Rightarrow> instant \<Rightarrow> draws
       \<Rightarrow> exc + 'a sign_in_db_scheme" where
  "create_token cy db account_id purpose minutes later fresh =
     (let t = \<lparr>ot_id = dr_token_id fresh, ot_account_id = account_id, ot_purpose = purpose,
               ot_token_hash = cy_hash_token cy (dr_raw_token fresh), ot_expires_at = later + minutes * minute,
               ot_consumed_at = None, ot_created_at = later\<rparr>
      in bind_exc (insert_unique ot_id t (one_use_tokens db)) (\<lambda>_.
         bind_exc (insert_unique ot_token_hash t (one_use_tokens db)) (\<lambda>rows.
           Inr (db\<lparr>one_use_tokens := rows\<rparr>))))"

definition outstanding :: "uuid \<Rightarrow> token_purpose \<Rightarrow> one_use_token \<Rightarrow> bool" where
  "outstanding account_id purpose t \<longleftrightarrow> ot_account_id t = account_id \<and> ot_purpose t = purpose \<and> ot_consumed_at t = None"

definition lock_tokens :: "'a sign_in_db_scheme \<Rightarrow> uuid \<Rightarrow> token_purpose \<Rightarrow> one_use_token list" where
  "lock_tokens db account_id purpose =
     sort_key (\<lambda>t. (- ot_created_at t, ot_id t)) (select (outstanding account_id purpose) (one_use_tokens db))"

definition RECOVERY_COOLDOWN :: duration where "RECOVERY_COOLDOWN = 5 * minute"

definition inside_cooldown :: "one_use_token list \<Rightarrow> instant \<Rightarrow> bool" where
  "inside_cooldown tokens now =
     (case tokens of [] \<Rightarrow> False | t # _ \<Rightarrow> now - RECOVERY_COOLDOWN < ot_created_at t)"

definition consume_tokens :: "one_use_token list \<Rightarrow> instant \<Rightarrow> 'a sign_in_db_scheme \<Rightarrow> 'a sign_in_db_scheme" where
  "consume_tokens tokens now db =
     db\<lparr>one_use_tokens := update_where (\<lambda>t. ot_id t \<in> ot_id ` set tokens) (\<lambda>t. t\<lparr>ot_consumed_at := Some now\<rparr>)
          (one_use_tokens db)\<rparr>"

section \<open>Entry\<close>

record registration_request =
  rg_email :: ustring
  rg_password :: ustring
  rg_display_name :: ustring
  rg_accepted_terms_version :: string
  rg_website :: ustring

definition new_account :: "sign_in_crypto \<Rightarrow> registration_request \<Rightarrow> ustring \<Rightarrow> instant \<Rightarrow> draws \<Rightarrow> account" where
  "new_account cy payload normalized_email now fresh =
     \<lparr>acc_id = dr_account_id fresh, acc_email_normalized = normalized_email,
      acc_password_hash = cy_hash_password cy (rg_password payload) (dr_salt fresh),
      acc_display_name = rg_display_name payload, acc_is_adult = True,
      acc_accepted_terms_version = rg_accepted_terms_version payload, acc_is_admin = False,
      acc_verified_at = None, acc_suspended_at = None, acc_deleted_at = None,
      acc_created_at = now, acc_updated_at = now\<rparr>"

definition create_registration ::
    "sign_in_crypto \<Rightarrow> sign_in_settings \<Rightarrow> 'a sign_in_db_scheme \<Rightarrow> registration_request \<Rightarrow> ustring \<Rightarrow> instant
       \<Rightarrow> instant \<Rightarrow> draws \<Rightarrow> exc + 'a sign_in_db_scheme \<times> bool" where
  "create_registration cy st db payload normalized_email now later fresh =
     (if normalized_email \<in> acc_email_normalized ` set (accounts db) then Inr (db, False)
      else
        bind_exc (insert_unique acc_id (new_account cy payload normalized_email now fresh) (accounts db)) (\<lambda>rows.
        bind_exc (create_token cy (db\<lparr>accounts := rows\<rparr>) (dr_account_id fresh) Verify_email (24 * 60) later fresh) (\<lambda>db.
        bind_exc (enqueue_mail cy st db normalized_email ''Verify your Little Orbit email''
                    (verification_body st (rg_display_name payload) (dr_raw_token fresh)) later fresh) (\<lambda>db.
          Inr (db, True)))))"

text \<open>The common part of the two link requests, once the account is locked.\<close>

definition queue_link ::
    "sign_in_crypto \<Rightarrow> sign_in_settings \<Rightarrow> 'a sign_in_db_scheme \<Rightarrow> account \<Rightarrow> token_purpose \<Rightarrow> int \<Rightarrow> string
       \<Rightarrow> (sign_in_settings \<Rightarrow> ustring \<Rightarrow> string \<Rightarrow> ustring) \<Rightarrow> instant \<Rightarrow> instant \<Rightarrow> draws
       \<Rightarrow> exc + 'a sign_in_db_scheme \<times> bool" where
  "queue_link cy st db account purpose minutes subject body now later fresh =
     (let tokens = lock_tokens db (acc_id account) purpose
      in if inside_cooldown tokens now then Inr (db, False)
         else
           bind_exc (create_token cy (consume_tokens tokens now db) (acc_id account) purpose minutes later fresh) (\<lambda>db.
           bind_exc (enqueue_mail cy st db (acc_email_normalized account) subject
                       (body st (acc_display_name account) (dr_raw_token fresh)) later fresh) (\<lambda>db.
             Inr (db, True))))"

definition queue_verification_resend ::
    "sign_in_crypto \<Rightarrow> sign_in_settings \<Rightarrow> 'a sign_in_db_scheme \<Rightarrow> ustring \<Rightarrow> instant \<Rightarrow> instant \<Rightarrow> draws
       \<Rightarrow> exc + 'a sign_in_db_scheme \<times> bool" where
  "queue_verification_resend cy st db normalized_email now later fresh =
     (case scalar (\<lambda>a. acc_email_normalized a = normalized_email \<and> acc_verified_at a = None \<and> acc_deleted_at a = None)
             (accounts db) of
        None \<Rightarrow> Inr (db, False)
      | Some account \<Rightarrow>
          queue_link cy st db account Verify_email (24 * 60) ''Verify your Little Orbit email'' verification_body
            now later fresh)"

definition queue_password_reset ::
    "sign_in_crypto \<Rightarrow> sign_in_settings \<Rightarrow> 'a sign_in_db_scheme \<Rightarrow> ustring \<Rightarrow> instant \<Rightarrow> instant \<Rightarrow> draws
       \<Rightarrow> exc + 'a sign_in_db_scheme \<times> bool" where
  "queue_password_reset cy st db normalized_email now later fresh =
     (case scalar (\<lambda>a. acc_email_normalized a = normalized_email) (accounts db) of
        None \<Rightarrow> Inr (db, False)
      | Some account \<Rightarrow>
          (if acc_deleted_at account \<noteq> None then Inr (db, False)
           else queue_link cy st db account Password_reset 30 ''Reset your Little Orbit password'' recovery_body
                  now later fresh))"

section \<open>Sign-in routes\<close>

definition NEUTRAL_REGISTRATION :: string where
  "NEUTRAL_REGISTRATION = ''If registration can continue, check your email for the next step.''"

definition NEUTRAL_RECOVERY :: string where
  "NEUTRAL_RECOVERY = ''If that account can be recovered, an email will arrive shortly.''"

record session_response =
  sr_access_token :: string
  sr_expires_at :: instant
  sr_account_id :: uuid

definition registration_enabled :: "'a sign_in_db_scheme \<Rightarrow> sign_in_settings \<Rightarrow> bool" where
  "registration_enabled db st =
     (case registration_control db of
        None \<Rightarrow> st_registration_open st
      | Some enabled \<Rightarrow> (case enabled of None \<Rightarrow> False | Some b \<Rightarrow> b))"

definition rate_allowed ::
    "sign_in_crypto \<Rightarrow> 'a sign_in_db_scheme \<Rightarrow> string \<Rightarrow> string \<Rightarrow> string \<Rightarrow> nat \<Rightarrow> nat \<Rightarrow> int \<Rightarrow> instant
       \<Rightarrow> 'a sign_in_db_scheme \<times> bool" where
  "rate_allowed cy db action client_ip subject ip_limit subject_limit minutes now =
     (case consume_rate_limits (cy_hash_token cy) (rate_buckets db)
             (request_rules action client_ip subject ip_limit subject_limit (minutes * minute)) now of
        (rows, decision) \<Rightarrow> (db\<lparr>rate_buckets := rows\<rparr>, rd_allowed decision))"

definition record_block :: "'a sign_in_db_scheme \<Rightarrow> string \<Rightarrow> instant \<Rightarrow> 'a sign_in_db_scheme" where
  "record_block db event_type now =
     db\<lparr>security_events := security_events db
          @ [\<lparr>se_actor_id = None, se_event_type = event_type, se_outcome = ''blocked'', se_created_at = now\<rparr>]\<rparr>"

text \<open>A transaction whose work is kept only when it does not raise.\<close>

definition committed :: "'db \<Rightarrow> exc + 'db \<times> 'r \<Rightarrow> 'db \<times> (exc + 'r)" where
  "committed db result = (case result of Inl e \<Rightarrow> (db, Inl e) | Inr (db', r) \<Rightarrow> (db', Inr r))"

definition register ::
    "folding_unicode \<Rightarrow> sign_in_crypto \<Rightarrow> sign_in_settings \<Rightarrow> 'a sign_in_db_scheme \<Rightarrow> registration_request \<Rightarrow> string
       \<Rightarrow> instant \<Rightarrow> instant \<Rightarrow> draws \<Rightarrow> 'a sign_in_db_scheme \<times> (exc + string)" where
  "register u cy st db payload client_ip now later fresh =
     (let normalized = normalize_email u (rg_email payload)
      in case rate_allowed cy db ''registration'' client_ip (utf8 normalized) (st_registration_ip_per_hour st)
                (st_registration_email_per_hour st) 60 now of
           (db, allowed) \<Rightarrow>
             (let blocked_event =
                    (if rg_website payload \<noteq> [] then Some ''registration_honeypot''
                     else if \<not> allowed then Some ''registration_rate_limit'' else None);
                  db = (case blocked_event of None \<Rightarrow> db | Some e \<Rightarrow> record_block db e now)
              in if \<not> registration_enabled db st \<or> rg_website payload \<noteq> [] \<or> \<not> allowed
                 then (db, Inr NEUTRAL_REGISTRATION)
                 else committed db (bind_exc (create_registration cy st db payload normalized now later fresh)
                        (\<lambda>(db, _). Inr (db, NEUTRAL_REGISTRATION)))))"

definition link_invalid :: exc where
  "link_invalid = HTTPException 400 ''Link is invalid or expired''"

definition usable_link :: "string \<Rightarrow> token_purpose \<Rightarrow> instant \<Rightarrow> one_use_token \<Rightarrow> bool" where
  "usable_link digest purpose now t \<longleftrightarrow>
     ot_token_hash t = digest \<and> ot_purpose t = purpose \<and> ot_consumed_at t = None \<and> now < ot_expires_at t"

definition verify_email ::
    "sign_in_crypto \<Rightarrow> 'a sign_in_db_scheme \<Rightarrow> string \<Rightarrow> instant \<Rightarrow> exc + 'a sign_in_db_scheme \<times> string" where
  "verify_email cy db token now =
     (case scalar (usable_link (cy_hash_token cy token) Verify_email now) (one_use_tokens db) of
        None \<Rightarrow> Inl link_invalid
      | Some t \<Rightarrow>
          (if ot_account_id t \<notin> acc_id ` set (accounts db) then Inl link_invalid
           else Inr (db\<lparr>one_use_tokens := update_where (\<lambda>x. ot_id x = ot_id t) (\<lambda>x. x\<lparr>ot_consumed_at := Some now\<rparr>)
                          (one_use_tokens db),
                        accounts := update_where (\<lambda>a. acc_id a = ot_account_id t)
                          (\<lambda>a. a\<lparr>acc_verified_at := Some now, acc_updated_at := now\<rparr>) (accounts db)\<rparr>,
                     ''Email verified. You can return to Little Orbit and sign in.'')))"

definition resend_verification ::
    "folding_unicode \<Rightarrow> sign_in_crypto \<Rightarrow> sign_in_settings \<Rightarrow> 'a sign_in_db_scheme \<Rightarrow> ustring \<Rightarrow> string
       \<Rightarrow> instant \<Rightarrow> instant \<Rightarrow> draws \<Rightarrow> 'a sign_in_db_scheme \<times> (exc + string)" where
  "resend_verification u cy st db email client_ip now later fresh =
     (let normalized = normalize_email u email
      in case rate_allowed cy db ''verification-resend'' client_ip (utf8 normalized) (st_recovery_ip_per_hour st)
                (st_recovery_subject_per_hour st) 60 now of
           (db, False) \<Rightarrow> (record_block db ''verification_resend_rate_limit'' later, Inr NEUTRAL_REGISTRATION)
         | (db, True) \<Rightarrow>
             committed db (bind_exc (queue_verification_resend cy st db normalized now later fresh)
               (\<lambda>(db, _). Inr (db, NEUTRAL_REGISTRATION))))"

definition forgot_password ::
    "folding_unicode \<Rightarrow> sign_in_crypto \<Rightarrow> sign_in_settings \<Rightarrow> 'a sign_in_db_scheme \<Rightarrow> ustring \<Rightarrow> string
       \<Rightarrow> instant \<Rightarrow> instant \<Rightarrow> draws \<Rightarrow> 'a sign_in_db_scheme \<times> (exc + string)" where
  "forgot_password u cy st db email client_ip now later fresh =
     (let normalized = normalize_email u email
      in case rate_allowed cy db ''password-recovery'' client_ip (utf8 normalized) (st_recovery_ip_per_hour st)
                (st_recovery_subject_per_hour st) 60 now of
           (db, False) \<Rightarrow> (record_block db ''password_recovery_rate_limit'' later, Inr NEUTRAL_RECOVERY)
         | (db, True) \<Rightarrow>
             committed db (bind_exc (queue_password_reset cy st db normalized now later fresh)
               (\<lambda>(db, _). Inr (db, NEUTRAL_RECOVERY))))"

definition insert_session ::
    "sign_in_crypto \<Rightarrow> 'a sign_in_db_scheme \<Rightarrow> uuid \<Rightarrow> instant \<Rightarrow> instant \<Rightarrow> bool \<Rightarrow> instant \<Rightarrow> draws
       \<Rightarrow> exc + 'a sign_in_db_scheme" where
  "insert_session cy db account_id expires authenticated_at mfa now fresh =
     bind_exc (insert_unique ses_token_hash
       \<lparr>ses_account_id = account_id, ses_token_hash = cy_hash_token cy (dr_raw_token fresh), ses_revoked_at = None,
        ses_expires_at = expires, ses_authenticated_at = authenticated_at, ses_admin_mfa_verified = mfa,
        ses_created_at = now\<rparr> (sessions db)) (\<lambda>rows.
     Inr (db\<lparr>sessions := rows\<rparr>))"

definition login ::
    "folding_unicode \<Rightarrow> sign_in_crypto \<Rightarrow> sign_in_settings \<Rightarrow> 'a sign_in_db_scheme \<Rightarrow> ustring \<Rightarrow> ustring \<Rightarrow> string
       \<Rightarrow> instant \<Rightarrow> instant \<Rightarrow> draws \<Rightarrow> 'a sign_in_db_scheme \<times> (exc + session_response)" where
  "login u cy st db email password client_ip now later fresh =
     (let normalized = normalize_email u email
      in case rate_allowed cy db ''login'' client_ip (utf8 normalized) (st_login_ip_per_15_minutes st)
                (st_login_subject_per_15_minutes st) 15 now of
           (db, False) \<Rightarrow>
             (record_block db ''login_rate_limit'' later,
              Inl (HTTPException 429 ''Authentication is temporarily unavailable''))
         | (db, True) \<Rightarrow>
             (let refused = Inl (HTTPException 401 ''Email or password is incorrect'')
              in case scalar (\<lambda>a. acc_email_normalized a = normalized) (accounts db) of
                   None \<Rightarrow> (db, refused)
                 | Some account \<Rightarrow>
                     (if \<not> cy_verify_password cy (acc_password_hash account) password
                         \<or> acc_verified_at account = None \<or> acc_suspended_at account \<noteq> None
                         \<or> acc_deleted_at account \<noteq> None
                      then (db, refused)
                      else
                        (let expires = later + st_session_minutes st * minute
                         in committed db (bind_exc (insert_session cy db (acc_id account) expires later False later fresh)
                              (\<lambda>db. Inr (db, \<lparr>sr_access_token = dr_raw_token fresh, sr_expires_at = expires,
                                             sr_account_id = acc_id account\<rparr>)))))))"

definition consume_reset_set :: "one_use_token list \<Rightarrow> string \<Rightarrow> instant \<Rightarrow> bool" where
  "consume_reset_set tokens digest now = list_ex (\<lambda>t. ot_token_hash t = digest \<and> now < ot_expires_at t) tokens"

text \<open>The account whose link this is, and the database with all its reset links consumed.\<close>

definition lock_valid_reset ::
    "'a sign_in_db_scheme \<Rightarrow> 'a sign_in_db_scheme \<Rightarrow> string \<Rightarrow> instant \<Rightarrow> (account \<times> 'a sign_in_db_scheme) option" where
  "lock_valid_reset db0 db digest now =
     (case scalar (usable_link digest Password_reset now) (one_use_tokens db0) of
        None \<Rightarrow> None
      | Some t \<Rightarrow>
          (let account_id = ot_account_id t;
               tokens = sort_key ot_id (select (outstanding account_id Password_reset) (one_use_tokens db))
           in case scalar (\<lambda>a. acc_id a = account_id) (accounts db) of
                None \<Rightarrow> None
              | Some account \<Rightarrow>
                  (if acc_deleted_at account \<noteq> None then None
                   else if consume_reset_set tokens digest now then Some (account, consume_tokens tokens now db)
                   else None)))"

definition revoke_sessions :: "'a core_db_scheme \<Rightarrow> uuid \<Rightarrow> instant \<Rightarrow> 'a core_db_scheme" where
  "revoke_sessions db account_id now =
     db\<lparr>sessions := update_where (\<lambda>s. ses_account_id s = account_id \<and> ses_revoked_at s = None)
          (\<lambda>s. s\<lparr>ses_revoked_at := Some now\<rparr>) (sessions db)\<rparr>"

definition reset_password ::
    "sign_in_crypto \<Rightarrow> sign_in_settings \<Rightarrow> 'a sign_in_db_scheme \<Rightarrow> 'a sign_in_db_scheme \<Rightarrow> string \<Rightarrow> ustring \<Rightarrow> string
       \<Rightarrow> instant \<Rightarrow> instant \<Rightarrow> draws \<Rightarrow> 'a sign_in_db_scheme \<times> (exc + string)" where
  "reset_password cy st db0 db token password client_ip now later fresh =
     (case rate_allowed cy db ''password-reset'' client_ip token (st_reset_ip_per_hour st)
             (st_reset_subject_per_hour st) 60 now of
        (db, False) \<Rightarrow>
          (record_block db ''password_reset_rate_limit'' later,
           Inl (HTTPException 429 ''Password reset is temporarily unavailable''))
      | (db, True) \<Rightarrow>
          (case lock_valid_reset db0 db (cy_hash_token cy token) later of
             None \<Rightarrow> (db, Inl link_invalid)
           | Some (account, db) \<Rightarrow>
               (revoke_sessions
                  (db\<lparr>accounts := update_where (\<lambda>a. acc_id a = acc_id account)
                       (\<lambda>a. a\<lparr>acc_password_hash := cy_hash_password cy password (dr_salt fresh), acc_updated_at := later\<rparr>)
                       (accounts db)\<rparr>)
                  (acc_id account) later,
                Inr ''Password updated. Sign in again on your devices.'')))"

definition authorization_digest :: "sign_in_crypto \<Rightarrow> string option \<Rightarrow> exc + string" where
  "authorization_digest cy authorization =
     (case authorization of
        None \<Rightarrow> Inl authentication_required
      | Some header \<Rightarrow>
          (if take 7 header \<noteq> bearer_prefix then Inl authentication_required
           else Inr (cy_hash_token cy (drop 7 header))))"

definition rotate_session ::
    "sign_in_crypto \<Rightarrow> sign_in_settings \<Rightarrow> 'a sign_in_db_scheme \<Rightarrow> 'a sign_in_db_scheme \<Rightarrow> string option
       \<Rightarrow> instant \<Rightarrow> instant \<Rightarrow> draws \<Rightarrow> exc + 'a sign_in_db_scheme \<times> session_response" where
  "rotate_session cy st db0 db authorization now later fresh =
     bind_exc (current_account (cy_hash_token cy) db0 authorization now) (\<lambda>actor.
     bind_exc (case scalar (\<lambda>a. acc_id a = acc_id actor) (accounts db) of
                 None \<Rightarrow> Inl authentication_required
               | Some account \<Rightarrow> guard (acc_suspended_at account = None \<and> acc_deleted_at account = None)
                                   authentication_required) (\<lambda>_.
     bind_exc (authorization_digest cy authorization) (\<lambda>digest.
     case scalar (\<lambda>s. ses_account_id s = acc_id actor \<and> ses_token_hash s = digest \<and> ses_revoked_at s = None)
            (sessions db) of
       None \<Rightarrow> Inl authentication_required
     | Some current \<Rightarrow>
         (let expires = later + st_session_minutes st * minute;
              db = db\<lparr>sessions := update_where (\<lambda>s. ses_token_hash s = digest) (\<lambda>s. s\<lparr>ses_revoked_at := Some later\<rparr>)
                     (sessions db)\<rparr>
          in bind_exc (insert_session cy db (acc_id actor) expires (ses_authenticated_at current)
                         (ses_admin_mfa_verified current) later fresh) (\<lambda>db.
             Inr (db, \<lparr>sr_access_token = dr_raw_token fresh, sr_expires_at = expires, sr_account_id = acc_id actor\<rparr>))))))"

text \<open>The columns of the locked account are those the dependency read: its row is in the session already.\<close>

definition logout ::
    "sign_in_crypto \<Rightarrow> 'a sign_in_db_scheme \<Rightarrow> 'a sign_in_db_scheme \<Rightarrow> string option \<Rightarrow> instant \<Rightarrow> instant
       \<Rightarrow> exc + 'a sign_in_db_scheme \<times> string" where
  "logout cy db0 db authorization now later =
     bind_exc (current_account (cy_hash_token cy) db0 authorization now) (\<lambda>actor.
     bind_exc (guard (acc_id actor \<in> acc_id ` set (accounts db) \<and> acc_suspended_at actor = None \<and> acc_deleted_at actor = None)
                 authentication_required) (\<lambda>_.
     bind_exc (authorization_digest cy authorization) (\<lambda>digest.
       Inr (db\<lparr>sessions := update_where (\<lambda>s. ses_token_hash s = digest \<and> ses_revoked_at s = None)
                 (\<lambda>s. s\<lparr>ses_revoked_at := Some later\<rparr>) (sessions db)\<rparr>, ''Signed out.''))))"

section \<open>The end of an account\<close>

text \<open>A job names an account at most once; a completed job names none.\<close>

definition insert_job :: "deletion_job \<Rightarrow> deletion_job list \<Rightarrow> exc + deletion_job list" where
  "insert_job j rows =
     (if dj_id j \<in> dj_id ` set rows \<or> dj_account_id j \<noteq> None \<and> dj_account_id j \<in> dj_account_id ` set rows
      then Inl IntegrityError else Inr (rows @ [j]))"

definition schedule_deletion ::
    "sign_in_crypto \<Rightarrow> 'a sign_in_db_scheme \<Rightarrow> 'a sign_in_db_scheme \<Rightarrow> account \<Rightarrow> ustring \<Rightarrow> instant \<Rightarrow> draws
       \<Rightarrow> exc + 'a sign_in_db_scheme \<times> uuid \<times> instant" where
  "schedule_deletion cy db0 db actor password now fresh =
     (let incorrect = HTTPException 401 ''Password is incorrect''
      in if \<not> cy_verify_password cy (acc_password_hash actor) password then Inl incorrect
         else
           bind_exc (end_active_relationship db0 db (acc_id actor) now) (\<lambda>(db, _).
           case lock_accounts db [acc_id actor] of
             [locked] \<Rightarrow>
               (if acc_suspended_at locked \<noteq> None \<or> acc_deleted_at locked \<noteq> None
                   \<or> \<not> cy_verify_password cy (acc_password_hash locked) password
                then Inl incorrect
                else
                  (let i = acc_id locked;
                       db = db\<lparr>accounts := update_where (\<lambda>a. acc_id a = i)
                                (\<lambda>a. a\<lparr>acc_deleted_at := Some now, acc_updated_at := now\<rparr>) (accounts db)\<rparr>;
                       db = revoke_sessions db i now;
                       db = db\<lparr>one_use_tokens := delete_where (\<lambda>t. ot_account_id t = i) (one_use_tokens db)\<rparr>
                   in bind_exc (insert_job \<lparr>dj_id = dr_job_id fresh, dj_account_id = Some i,
                                  dj_execute_after = now + 7 * day, dj_completed = False, dj_requested_at = now,
                                  dj_completed_at = None\<rparr> (deletion_jobs db)) (\<lambda>jobs.
                      Inr (db\<lparr>deletion_jobs := jobs\<rparr>, dr_job_id fresh, now + 7 * day))))
           | _ \<Rightarrow> Inl incorrect))"

section \<open>What the owner can do\<close>

definition update_account ::
    "'a sign_in_db_scheme \<Rightarrow> account \<Rightarrow> uuid \<Rightarrow> bool \<Rightarrow> instant \<Rightarrow> exc + 'a sign_in_db_scheme \<times> string" where
  "update_account db admin account_id suspended now =
     (case scalar (\<lambda>a. acc_id a = account_id) (accounts db) of
        None \<Rightarrow> Inl (HTTPException 409 ''Account cannot be changed'')
      | Some account \<Rightarrow>
          (if acc_deleted_at account \<noteq> None \<or> account_id = acc_id admin
           then Inl (HTTPException 409 ''Account cannot be changed'')
           else
             (let db = db\<lparr>accounts := update_where (\<lambda>a. acc_id a = account_id)
                         (\<lambda>a. a\<lparr>acc_suspended_at := (if suspended then Some now else None)\<rparr>) (accounts db)\<rparr>;
                  db = (if \<not> suspended then db
                        else (revoke_sessions db account_id now)\<lparr>devices :=
                               update_where (\<lambda>d. nd_account_id d = account_id)
                                 (\<lambda>d. d\<lparr>nd_notifications_enabled := False, nd_disabled_at := Some now\<rparr>) (devices db)\<rparr>)
              in Inr (db\<lparr>security_events := security_events db
                          @ [\<lparr>se_actor_id = Some (acc_id admin), se_event_type = ''admin_account_status'',
                              se_outcome = (if suspended then ''suspended'' else ''restored''), se_created_at = now\<rparr>]\<rparr>,
                      ''Account status updated.''))))"

definition revoke_account_sessions ::
    "'a sign_in_db_scheme \<Rightarrow> account \<Rightarrow> uuid \<Rightarrow> instant \<Rightarrow> 'a sign_in_db_scheme" where
  "revoke_account_sessions db admin account_id now =
     (revoke_sessions db account_id now)\<lparr>security_events := security_events db
        @ [\<lparr>se_actor_id = Some (acc_id admin), se_event_type = ''admin_session_revocation'',
            se_outcome = ''accepted'', se_created_at = now\<rparr>]\<rparr>"

definition active_admin :: "account \<Rightarrow> bool" where
  "active_admin a \<longleftrightarrow> acc_is_admin a \<and> acc_verified_at a \<noteq> None \<and> acc_suspended_at a = None \<and> acc_deleted_at a = None"

text \<open>The operator's command, but for the enrollment PIN it prints.\<close>

definition bootstrap_admin ::
    "folding_unicode \<Rightarrow> 'a sign_in_db_scheme \<Rightarrow> ustring \<Rightarrow> instant \<Rightarrow> exc + 'a sign_in_db_scheme" where
  "bootstrap_admin u db email now =
     (let missing = RuntimeError ''A verified active account with that email was not found''
      in case scalar (\<lambda>a. acc_email_normalized a = normalize_email u email) (accounts db) of
           None \<Rightarrow> Inl missing
         | Some account \<Rightarrow>
             (if acc_verified_at account = None \<or> acc_deleted_at account \<noteq> None then Inl missing
              else Inr (db\<lparr>accounts := update_where (\<lambda>a. acc_id a = acc_id account) (\<lambda>a. a\<lparr>acc_is_admin := True\<rparr>)
                                (accounts db),
                            security_events := security_events db
                              @ [\<lparr>se_actor_id = Some (acc_id account), se_event_type = ''local_admin_bootstrap'',
                                  se_outcome = ''accepted'', se_created_at = now\<rparr>]\<rparr>)))"

text \<open>The session row that \<^verbatim>\<open>issue_device_session\<close> adds; the device it is bound to is not modelled.\<close>

definition issue_device_session ::
    "sign_in_crypto \<Rightarrow> int \<Rightarrow> 'a sign_in_db_scheme \<Rightarrow> account \<Rightarrow> instant \<Rightarrow> draws
       \<Rightarrow> exc + 'a sign_in_db_scheme \<times> session_response" where
  "issue_device_session cy admin_session_minutes db account now fresh =
     (let expires = now + admin_session_minutes * minute
      in bind_exc (insert_session cy db (acc_id account) expires now True now fresh) (\<lambda>db.
         Inr (db, \<lparr>sr_access_token = dr_raw_token fresh, sr_expires_at = expires, sr_account_id = acc_id account\<rparr>)))"

section \<open>The second factor\<close>

record admin_mfa =
  am_account_id :: uuid
  am_encrypted_secret :: string
  am_recovery_hashes :: "string list"
  am_last_accepted_counter :: "int option"
  am_updated_at :: instant

text \<open>
  \<open>totp_at\<close> is the code of the authenticator library for a secret at a second; its interval is 30 seconds.
\<close>

fun verify_totp_at ::
    "(int \<Rightarrow> string) \<Rightarrow> string \<Rightarrow> instant \<Rightarrow> int option \<Rightarrow> int list \<Rightarrow> int option" where
  "verify_totp_at totp_at code now last_counter [] = None"
| "verify_totp_at totp_at code now last_counter (offset # offsets) =
     (let candidate_time = now + offset * 30 * second; counter = candidate_time div (30 * second)
      in if (case last_counter of None \<Rightarrow> False | Some l \<Rightarrow> counter \<le> l)
         then verify_totp_at totp_at code now last_counter offsets
         else if totp_at (whole_seconds candidate_time) = code then Some counter
         else verify_totp_at totp_at code now last_counter offsets)"

definition verify_totp :: "(string \<Rightarrow> int \<Rightarrow> string) \<Rightarrow> string \<Rightarrow> string \<Rightarrow> instant \<Rightarrow> int option \<Rightarrow> int option" where
  "verify_totp totp secret code now last_counter =
     verify_totp_at (totp secret) code now last_counter [-1, 0, 1]"

text \<open>\<open>decrypt\<close> opens a stored secret or fails closed with a \<^verbatim>\<open>ValueError\<close>.\<close>

definition verify_factor ::
    "sign_in_crypto \<Rightarrow> (string \<Rightarrow> string option) \<Rightarrow> (string \<Rightarrow> int \<Rightarrow> string) \<Rightarrow> admin_mfa \<Rightarrow> string \<Rightarrow> string \<Rightarrow> instant
       \<Rightarrow> exc + admin_mfa \<times> bool" where
  "verify_factor cy decrypt totp m totp_code recovery_code now =
     (let by_recovery =
            (let digest = cy_hash_token cy recovery_code
             in if recovery_code \<noteq> [] \<and> digest \<in> set (am_recovery_hashes m)
                then (m\<lparr>am_recovery_hashes := filter (\<lambda>h. h \<noteq> digest) (am_recovery_hashes m), am_updated_at := now\<rparr>, True)
                else (m, False))
      in if totp_code = [] then Inr by_recovery
         else case decrypt (am_encrypted_secret m) of
                None \<Rightarrow> Inl (ValueError ''TOTP secret could not be decrypted'')
              | Some secret \<Rightarrow>
                  (case verify_totp totp secret totp_code now (am_last_accepted_counter m) of
                     Some counter \<Rightarrow> Inr (m\<lparr>am_last_accepted_counter := Some counter, am_updated_at := now\<rparr>, True)
                   | None \<Rightarrow> Inr by_recovery))"

end
