(* ===== verification/Account_Erasure.thy ===== *)
theory Account_Erasure
  imports Sign_In Attachment_Worker
begin

text \<open>
  The erasure of an account a week after its deletion was requested (\<^verbatim>\<open>account_deletion.py\<close>) and the
  maintenance cycle that carries it out beside the purge of expired records (\<^verbatim>\<open>maintenance.py\<close>), with
  the foreign keys of \<^verbatim>\<open>models.py\<close> and its siblings as the database enforces them:
  \<^verbatim>\<open>ON DELETE CASCADE\<close>, \<^verbatim>\<open>SET NULL\<close> and \<^verbatim>\<open>RESTRICT\<close>.

  A question of a couple is deleted with the couple, unless a row of a quiz day still refers to it. The rows
  of the couple's own days are deleted with the couple, too, so it matters which of the two happens first,
  and that is for the database: PostgreSQL runs the cascades of one row in the order of the names of their
  triggers, in which the older constraint comes first. It is the argument \<open>questions_first\<close>.
\<close>

section \<open>Cascades\<close>

definition delete_notes :: "(note_row \<Rightarrow> bool) \<Rightarrow> 'a attachments_db_scheme \<Rightarrow> 'a attachments_db_scheme" where
  "delete_notes p db =
     (let gone = map nt_id (select p (note_rows db));
          db = delete_attachments (\<lambda>a. na_note_id a \<in> set gone) db
      in db\<lparr>note_rows := delete_where p (note_rows db),
            note_operations := delete_where (\<lambda>x. no_note_id x \<in> set gone) (note_operations db),
            note_metadata_operations := delete_where (\<lambda>x. nm_note_id x \<in> set gone) (note_metadata_operations db)\<rparr>)"

definition delete_countdowns :: "(countdown \<Rightarrow> bool) \<Rightarrow> 'a countdowns_db_scheme \<Rightarrow> 'a countdowns_db_scheme" where
  "delete_countdowns p db =
     (let gone = map cd_id (select p (countdowns db))
      in db\<lparr>countdowns := delete_where p (countdowns db),
            countdown_reminders := delete_where (\<lambda>x. cr_countdown_id x \<in> set gone) (countdown_reminders db),
            countdown_operations := delete_where (\<lambda>x. co_countdown_id x \<in> set gone) (countdown_operations db)\<rparr>)"

definition delete_quiz_days :: "(quiz_day \<Rightarrow> bool) \<Rightarrow> 'a quiz_db_scheme \<Rightarrow> 'a quiz_db_scheme" where
  "delete_quiz_days p db =
     (let gone = map qd_id (select p (quiz_days db))
      in db\<lparr>quiz_days := delete_where p (quiz_days db),
            quiz_day_questions := delete_where (\<lambda>x. ql_quiz_day_id x \<in> set gone) (quiz_day_questions db),
            quiz_day_members := delete_where (\<lambda>x. qm_quiz_day_id x \<in> set gone) (quiz_day_members db),
            quiz_drafts := delete_where (\<lambda>x. qf_quiz_day_id x \<in> set gone) (quiz_drafts db)\<rparr>)"

text \<open>A question that a day or a draft refers to cannot be deleted.\<close>

definition delete_questions :: "(question \<Rightarrow> bool) \<Rightarrow> 'a quiz_db_scheme \<Rightarrow> exc + 'a quiz_db_scheme" where
  "delete_questions p db =
     (let gone = map qn_id (select p (questions db))
      in if list_ex (\<lambda>x. ql_question_id x \<in> set gone) (quiz_day_questions db)
            \<or> list_ex (\<lambda>x. qf_question_id x \<in> set gone) (quiz_drafts db)
         then Inl IntegrityError
         else Inr (db\<lparr>questions := delete_where p (questions db),
                     question_reports := delete_where (\<lambda>x. qr_question_id x \<in> set gone) (question_reports db)\<rparr>))"

definition delete_quizzes :: "bool \<Rightarrow> uuid set \<Rightarrow> 'a quiz_db_scheme \<Rightarrow> exc + 'a quiz_db_scheme" where
  "delete_quizzes questions_first ks db =
     (let own_day = (\<lambda>d. qd_couple_id d \<in> ks);
          own_question = (\<lambda>q. case qn_couple_id q of None \<Rightarrow> False | Some k \<Rightarrow> k \<in> ks)
      in bind_exc
           (if questions_first
            then bind_exc (delete_questions own_question db) (\<lambda>db. Inr (delete_quiz_days own_day db))
            else delete_questions own_question (delete_quiz_days own_day db)) (\<lambda>db.
         Inr (db\<lparr>quiz_operations := delete_where (\<lambda>x. qo_couple_id x \<in> ks) (quiz_operations db),
                 question_reports := delete_where (\<lambda>x. qr_couple_id x \<in> ks) (question_reports db)\<rparr>)))"

definition delete_couples :: "bool \<Rightarrow> uuid set \<Rightarrow> 'a attachments_db_scheme \<Rightarrow> exc + 'a attachments_db_scheme" where
  "delete_couples questions_first ks db =
     bind_exc (delete_quizzes questions_first ks db) (\<lambda>db.
     let db = db\<lparr>couples := delete_where (\<lambda>x. cpl_id x \<in> ks) (couples db),
                 members := delete_where (\<lambda>x. mem_couple_id x \<in> ks) (members db)\<rparr>;
         db = delete_events (\<lambda>x. ne_couple_id x \<in> ks) db;
         db = db\<lparr>activity_events := delete_where (\<lambda>x. act_couple_id x \<in> ks) (activity_events db),
                 activity_seen_rows := delete_where (\<lambda>x. as_couple_id x \<in> ks) (activity_seen_rows db),
                 location_samples := delete_where (\<lambda>x. ls_couple_id x \<in> ks) (location_samples db),
                 device_healths := delete_where (\<lambda>x. dh_couple_id x \<in> ks) (device_healths db),
                 together_buckets := delete_where (\<lambda>x. tb_couple_id x \<in> ks) (together_buckets db),
                 together_days := delete_where (\<lambda>x. td_couple_id x \<in> ks) (together_days db),
                 relationship_names := delete_where (\<lambda>x. rn_couple_id x \<in> ks) (relationship_names db),
                 relationship_name_operations := delete_where (\<lambda>x. ro_couple_id x \<in> ks) (relationship_name_operations db),
                 avatars := delete_where (\<lambda>x. ra_couple_id x \<in> ks) (avatars db),
                 smooches := delete_where (\<lambda>x. sm_couple_id x \<in> ks) (smooches db)\<rparr>;
         db = delete_countdowns (\<lambda>x. cd_couple_id x \<in> ks) db;
         db = db\<lparr>countdown_operations := delete_where (\<lambda>x. co_couple_id x \<in> ks) (countdown_operations db)\<rparr>;
         db = delete_notes (\<lambda>x. nt_couple_id x \<in> ks) db
     in Inr (delete_attachments (\<lambda>x. na_couple_id x \<in> ks) db))"

text \<open>\<^verbatim>\<open>ON DELETE SET NULL\<close>\<close>

definition forget :: "uuid \<Rightarrow> uuid option \<Rightarrow> uuid option" where
  "forget i x = (if x = Some i then None else x)"

definition delete_account :: "uuid \<Rightarrow> 'a sign_in_db_scheme \<Rightarrow> 'a sign_in_db_scheme" where
  "delete_account i db =
     (let db = db\<lparr>accounts := delete_where (\<lambda>x. acc_id x = i) (accounts db),
                  sessions := delete_where (\<lambda>x. ses_account_id x = i) (sessions db),
                  one_use_tokens := delete_where (\<lambda>x. ot_account_id x = i) (one_use_tokens db),
                  members := delete_where (\<lambda>x. mem_account_id x = i) (members db),
                  preferences := delete_where (\<lambda>x. np_account_id x = i) (preferences db)\<rparr>;
          db = delete_devices (\<lambda>x. nd_account_id x = i) (delete_events (\<lambda>x. ne_recipient_id x = i) db);
          db = db\<lparr>activity_seen_rows := delete_where (\<lambda>x. as_account_id x = i) (activity_seen_rows db),
                  location_samples := delete_where (\<lambda>x. ls_account_id x = i) (location_samples db),
                  device_healths := delete_where (\<lambda>x. dh_account_id x = i) (device_healths db),
                  relationship_names := delete_where (\<lambda>x. i \<in> {rn_subject_account_id x, rn_assigned_by_account_id x})
                    (relationship_names db),
                  relationship_name_operations :=
                    delete_where (\<lambda>x. i \<in> {ro_subject_account_id x, ro_assigned_by_account_id x}) (relationship_name_operations db),
                  avatars := delete_where (\<lambda>x. i \<in> {ra_subject_account_id x, ra_assigned_by_account_id x}) (avatars db),
                  countdown_reminders := delete_where (\<lambda>x. cr_account_id x = i) (countdown_reminders db),
                  pair_codes := delete_where (\<lambda>x. pc_creator_id x = i) (pair_codes db),
                  quiz_day_members := delete_where (\<lambda>x. qm_account_id x = i) (quiz_day_members db),
                  quiz_drafts := delete_where (\<lambda>x. qf_account_id x = i) (quiz_drafts db)\<rparr>
      in db\<lparr>activity_events := map (\<lambda>x. x\<lparr>act_actor_id := forget i (act_actor_id x)\<rparr>) (activity_events db),
            events := map (\<lambda>x. x\<lparr>ne_actor_id := forget i (ne_actor_id x)\<rparr>) (events db),
            together_buckets := map (\<lambda>x. x\<lparr>tb_corrected_by := forget i (tb_corrected_by x)\<rparr>) (together_buckets db),
            together_days := map (\<lambda>x. x\<lparr>td_corrected_by := forget i (td_corrected_by x)\<rparr>) (together_days db),
            note_operations := map (\<lambda>x. x\<lparr>no_actor_id := forget i (no_actor_id x)\<rparr>) (note_operations db),
            note_metadata_operations := map (\<lambda>x. x\<lparr>nm_actor_id := forget i (nm_actor_id x)\<rparr>) (note_metadata_operations db),
            smooches := map (\<lambda>x. x\<lparr>sm_sender_id := forget i (sm_sender_id x), sm_recipient_id := forget i (sm_recipient_id x)\<rparr>)
              (smooches db),
            countdowns := map (\<lambda>x. x\<lparr>cd_created_by := forget i (cd_created_by x)\<rparr>) (countdowns db),
            pair_codes := map (\<lambda>x. x\<lparr>pc_pending_partner_id := forget i (pc_pending_partner_id x)\<rparr>) (pair_codes db),
            security_events := map (\<lambda>x. x\<lparr>se_actor_id := forget i (se_actor_id x)\<rparr>) (security_events db),
            questions := map (\<lambda>x. x\<lparr>qn_created_by := forget i (qn_created_by x)\<rparr>) (questions db),
            quiz_operations := map (\<lambda>x. x\<lparr>qo_account_id := forget i (qo_account_id x)\<rparr>) (quiz_operations db),
            question_reports := map (\<lambda>x. x\<lparr>qr_reporter_id := forget i (qr_reporter_id x)\<rparr>) (question_reports db),
            note_attachments := map (\<lambda>x. x\<lparr>na_uploaded_by := forget i (na_uploaded_by x)\<rparr>) (note_attachments db),
            deletion_jobs := map (\<lambda>x. x\<lparr>dj_account_id := forget i (dj_account_id x)\<rparr>) (deletion_jobs db)\<rparr>)"

section \<open>Deletion jobs\<close>

definition complete_deletion_job ::
    "bool \<Rightarrow> 'a sign_in_db_scheme \<Rightarrow> deletion_job \<Rightarrow> instant \<Rightarrow> exc + 'a sign_in_db_scheme \<times> string list" where
  "complete_deletion_job questions_first db job completed_at =
     (let db = db\<lparr>deletion_jobs := update_where (\<lambda>j. dj_id j = dj_id job)
                (\<lambda>j. j\<lparr>dj_completed := True, dj_completed_at := Some completed_at, dj_account_id := None\<rparr>)
                (deletion_jobs db)\<rparr>
      in case dj_account_id job of
           None \<Rightarrow> Inr (db, [])
         | Some account_id \<Rightarrow>
             (case scalar (\<lambda>a. acc_id a = account_id) (accounts db) of
                None \<Rightarrow> Inr (db, [])
              | Some account \<Rightarrow>
                  (let couple_ids = map mem_couple_id (select (\<lambda>m. mem_account_id m = account_id) (members db));
                       attachment_keys =
                         map na_storage_key (select (\<lambda>a. na_couple_id a \<in> set couple_ids) (note_attachments db))
                   in bind_exc (delete_couples questions_first (set couple_ids) db) (\<lambda>db.
                      Inr (delete_account account_id
                             (db\<lparr>mail_outbox := delete_where (\<lambda>m. om_recipient m = acc_email_normalized account)
                                (mail_outbox db)\<rparr>), attachment_keys)))))"

definition due_job :: "instant \<Rightarrow> deletion_job \<Rightarrow> bool" where
  "due_job now j \<longleftrightarrow> \<not> dj_completed j \<and> dj_execute_after j \<le> now \<and> dj_account_id j \<noteq> None"

fun complete_due_jobs ::
    "bool \<Rightarrow> 'a sign_in_db_scheme \<Rightarrow> deletion_job list \<Rightarrow> instant \<Rightarrow> exc + 'a sign_in_db_scheme \<times> string list" where
  "complete_due_jobs questions_first db [] now = Inr (db, [])"
| "complete_due_jobs questions_first db (job # jobs) now =
     bind_exc (complete_deletion_job questions_first db job now) (\<lambda>(db, keys).
     bind_exc (complete_due_jobs questions_first db jobs now) (\<lambda>(db, more). Inr (db, keys @ more)))"

section \<open>Retention\<close>

text \<open>The tables of the administrator's devices, of diagnostics and of quiz feedback are not modelled.\<close>

definition purge_expired_security_records :: "'a sign_in_db_scheme \<Rightarrow> instant \<Rightarrow> 'a sign_in_db_scheme" where
  "purge_expired_security_records db now =
     db\<lparr>one_use_tokens := delete_where (\<lambda>t. ot_expires_at t \<le> now - 7 * day) (one_use_tokens db),
        sessions := delete_where (\<lambda>s. ses_expires_at s \<le> now - 7 * day) (sessions db),
        rate_buckets := purge_rate_limit_state (rate_buckets db) now\<rparr>"

text \<open>Nor are the proposals of a start date and the retry records of corrections.\<close>

definition purge_expired_feature_records :: "'a sign_in_db_scheme \<Rightarrow> instant \<Rightarrow> 'a sign_in_db_scheme" where
  "purge_expired_feature_records db now =
     (let db = delete_notes (\<lambda>n. case nt_purge_after n of None \<Rightarrow> False | Some t \<Rightarrow> t \<le> now) db;
          db = db\<lparr>activity_events := delete_where (\<lambda>e. act_created_at e \<le> now - 30 * day) (activity_events db)\<rparr>;
          db = purge_notification_state db now
      in db\<lparr>relationship_name_operations :=
              delete_where (\<lambda>x. ro_created_at x \<le> now - 30 * day) (relationship_name_operations db)\<rparr>)"

definition purge_expired_location_samples :: "'a sign_in_db_scheme \<Rightarrow> instant \<Rightarrow> 'a sign_in_db_scheme" where
  "purge_expired_location_samples db now =
     (let db = db\<lparr>location_samples :=
             delete_where (\<lambda>x. ls_expires_at x \<le> now \<or> ls_recorded_at x \<le> now - 24 * hour) (location_samples db)\<rparr>
      in purge_expired_feature_records (purge_expired_security_records db now) now)"

definition purge_expired_records :: "'a sign_in_db_scheme \<Rightarrow> instant \<Rightarrow> 'a sign_in_db_scheme" where
  "purge_expired_records db now =
     (let db = purge_expired_location_samples db now
      in db\<lparr>device_healths := delete_where (\<lambda>x. dh_expires_at x \<le> now) (device_healths db),
            together_buckets := delete_where (\<lambda>x. tb_bucket_start x < now - 30 * day) (together_buckets db)\<rparr>)"

section \<open>The maintenance cycle\<close>

text \<open>
  One transaction: its database, the storage keys whose files go and those whose files stay.
\<close>

definition maintenance_transaction ::
    "bool \<Rightarrow> 'a sign_in_db_scheme \<Rightarrow> instant \<Rightarrow> exc + 'a sign_in_db_scheme \<times> string list \<times> string list" where
  "maintenance_transaction questions_first db now =
     (case prepare_attachment_cleanup db now of
        (db, keys) \<Rightarrow>
          (let db = purge_expired_records db now
           in bind_exc (complete_due_jobs questions_first db (select (due_job now) (deletion_jobs db)) now) (\<lambda>(db, more).
              bind_exc (reconcile_storage db) (\<lambda>db.
                Inr (db, keys @ more, known_keys db)))))"

definition delete_attachment_files :: "files \<Rightarrow> string list \<Rightarrow> files" where
  "delete_attachment_files fs keys = fold (\<lambda>key fs. remove_files fs key) keys fs"

text \<open>After the commit the files follow; when the transaction raises, nothing happens.\<close>

definition run_maintenance_once ::
    "bool \<Rightarrow> 'a sign_in_db_scheme \<Rightarrow> files \<Rightarrow> (place \<times> string \<Rightarrow> instant) \<Rightarrow> instant
       \<Rightarrow> exc + 'a sign_in_db_scheme \<times> files" where
  "run_maintenance_once questions_first db fs mtime now =
     bind_exc (maintenance_transaction questions_first db now) (\<lambda>(db, keys, known).
       Inr (db, delete_orphan_files (delete_attachment_files fs keys) mtime known now))"

end
