(* ===== verification/Sign_In_Safety.thy ===== *)
theory Sign_In_Safety
  imports Account_Erasure
begin

text \<open>
  The requests of the sign-in component as one handler, and the invariant of accounts, sessions, links and
  deletion jobs that every sequence of them keeps.
\<close>

section \<open>Requests\<close>

datatype sign_in_request =
    Register registration_request string
  | Verify string
  | Resend ustring string
  | Login ustring ustring string
  | Forgot ustring string
  | Reset string ustring string
  | Rotate "string option"
  | Logout "string option"
  | Delete_account "string option" ustring
  | Set_suspended "string option" uuid bool
  | Revoke_all "string option" uuid
  | Device_session uuid int
  | Promote ustring
  | Deliver "outbox_mail \<Rightarrow> ustring \<Rightarrow> delivery_outcome" nat
  | Maintain
  | Elsewhere sign_in_db

text \<open>
  What a request brings: the database its first reads saw, its clock readings and what it draws.
\<close>

record sign_in_call =
  ca_request :: sign_in_request
  ca_before :: sign_in_db
  ca_now :: instant
  ca_later :: instant
  ca_draws :: draws

datatype sign_in_reply = Message string | Signed_in session_response | Scheduled uuid instant | Nothing

record sign_in_env =
  ev_unicode :: folding_unicode
  ev_crypto :: sign_in_crypto
  ev_settings :: sign_in_settings
  ev_questions_first :: bool

definition mapped :: "('r \<Rightarrow> 's) \<Rightarrow> 'db \<times> (exc + 'r) \<Rightarrow> 'db \<times> (exc + 's)" where
  "mapped f result = (case result of (db, Inl e) \<Rightarrow> (db, Inl e) | (db, Inr r) \<Rightarrow> (db, Inr (f r)))"

text \<open>
  The other components of the service, which leave the tables of this one alone: whatever they do is
  another database with these tables as they are.
\<close>

definition elsewhere :: "sign_in_db \<Rightarrow> sign_in_db \<Rightarrow> sign_in_db" where
  "elsewhere db other =
     other\<lparr>accounts := accounts db, sessions := sessions db, one_use_tokens := one_use_tokens db,
           mail_outbox := mail_outbox db, deletion_jobs := deletion_jobs db\<rparr>"

definition serve :: "sign_in_env \<Rightarrow> sign_in_db \<Rightarrow> sign_in_call \<Rightarrow> sign_in_db \<times> (exc + sign_in_reply)" where
  "serve env db c =
     (let u = ev_unicode env; cy = ev_crypto env; st = ev_settings env; db0 = ca_before c;
          now = ca_now c; later = ca_later c; fresh = ca_draws c; admin = current_admin (cy_hash_token cy) db0
      in case ca_request c of
           Register payload ip \<Rightarrow> mapped Message (register u cy st db payload ip now later fresh)
         | Verify token \<Rightarrow> mapped Message (committed db (verify_email cy db token now))
         | Resend email ip \<Rightarrow> mapped Message (resend_verification u cy st db email ip now later fresh)
         | Login email password ip \<Rightarrow> mapped Signed_in (login u cy st db email password ip now later fresh)
         | Forgot email ip \<Rightarrow> mapped Message (forgot_password u cy st db email ip now later fresh)
         | Reset token password ip \<Rightarrow>
             mapped Message (reset_password cy st db0 db token password ip now later fresh)
         | Rotate header \<Rightarrow> mapped Signed_in (committed db (rotate_session cy st db0 db header now later fresh))
         | Logout header \<Rightarrow> mapped Message (committed db (logout cy db0 db header now later))
         | Delete_account header password \<Rightarrow>
             mapped (\<lambda>(i, t). Scheduled i t)
               (committed db (bind_exc (current_account (cy_hash_token cy) db0 header now) (\<lambda>actor.
                  schedule_deletion cy db0 db actor password later fresh)))
         | Set_suspended header i b \<Rightarrow>
             mapped Message (committed db (bind_exc (admin header now) (\<lambda>a. update_account db a i b later)))
         | Revoke_all header i \<Rightarrow>
             mapped Message (committed db (bind_exc (admin header now) (\<lambda>a.
               Inr (revoke_account_sessions db a i later, ''Active sessions revoked.''))))
         | Device_session i minutes \<Rightarrow>
             mapped Signed_in (committed db
               (case scalar (\<lambda>a. acc_id a = i) (accounts db) of
                  None \<Rightarrow> Inl (HTTPException 401 ''Administrator credentials are invalid'')
                | Some a \<Rightarrow> bind_exc (guard (active_admin a) (HTTPException 401 ''Administrator credentials are invalid''))
                              (\<lambda>_. issue_device_session cy minutes db a later fresh)))
         | Promote email \<Rightarrow>
             mapped (\<lambda>_. Nothing) (committed db (bind_exc (bootstrap_admin u db email later) (\<lambda>db. Inr (db, ()))))
         | Deliver smtp limit \<Rightarrow>
             mapped (\<lambda>_. Nothing) (committed db (bind_exc (fst (deliver_pending_mail cy st smtp db limit now later))
               (\<lambda>db. Inr (db, ()))))
         | Maintain \<Rightarrow>
             mapped (\<lambda>_. Nothing) (committed db (maintenance_transaction (ev_questions_first env) db now))
         | Elsewhere other \<Rightarrow> (elsewhere db other, Inr Nothing))"

text \<open>A refused request may have changed the throttle, so its outcome is part of the reply.\<close>

definition handle_sign_in ::
    "sign_in_env \<Rightarrow> sign_in_db \<Rightarrow> sign_in_call \<Rightarrow> exc + sign_in_db \<times> (exc + sign_in_reply)" where
  "handle_sign_in env db c = Inr (serve env db c)"

lemma mapped_eq: "mapped f x = (db, Inr s) \<longleftrightarrow> (\<exists>r. x = (db, Inr r) \<and> s = f r)"
  by (auto simp: mapped_def split: prod.splits sum.splits)

lemma fst_mapped [simp]: "fst (mapped f x) = fst x"
  by (simp add: mapped_def split: prod.splits sum.splits)

lemma committed_eq: "committed db x = (db', Inr r) \<longleftrightarrow> x = Inr (db', r)"
  by (auto simp: committed_def split: sum.splits)

lemma fst_committed: "P db \<Longrightarrow> (\<And>db' r. x = Inr (db', r) \<Longrightarrow> P db') \<Longrightarrow> P (fst (committed db x))"
  by (simp add: committed_def split: sum.splits prod.splits)

section \<open>The invariant\<close>

text \<open>What the invariant reads of an account: its id and address, and when it was suspended and deleted.\<close>

type_synonym standing = "uuid \<times> ustring \<times> instant option \<times> instant option"

definition standing_of :: "account \<Rightarrow> standing" where
  "standing_of a = (acc_id a, acc_email_normalized a, acc_suspended_at a, acc_deleted_at a)"

definition accounts_ok :: "standing list \<Rightarrow> bool" where
  "accounts_ok ws \<longleftrightarrow> distinct (map fst ws) \<and> distinct (map (fst \<circ> snd) ws)"

text \<open>Token digests are unique, sessions belong to accounts, and a suspended or deleted account has no live one.\<close>

definition sessions_ok :: "standing list \<Rightarrow> session_row list \<Rightarrow> bool" where
  "sessions_ok ws ss \<longleftrightarrow> distinct (map ses_token_hash ss)
     \<and> (\<forall>s \<in> set ss. \<exists>w \<in> set ws. fst w = ses_account_id s \<and> (ses_revoked_at s = None \<longrightarrow> snd (snd w) = (None, None)))"

text \<open>
  Link digests are unique, links belong to accounts that are not deleted, and of each purpose an account has
  at most one that is not consumed.
\<close>

definition links_ok :: "standing list \<Rightarrow> one_use_token list \<Rightarrow> bool" where
  "links_ok ws ts \<longleftrightarrow> distinct (map ot_id ts) \<and> distinct (map ot_token_hash ts)
     \<and> (\<forall>t \<in> set ts. \<exists>w \<in> set ws. fst w = ot_account_id t \<and> snd (snd (snd w)) = None)
     \<and> (\<forall>t \<in> set ts. \<forall>t' \<in> set ts. ot_account_id t = ot_account_id t' \<and> ot_purpose t = ot_purpose t'
          \<and> ot_consumed_at t = None \<and> ot_consumed_at t' = None \<longrightarrow> t = t')"

text \<open>A job waits for every deleted account, due seven days after the request, and for no other account.\<close>

definition deletions_ok :: "standing list \<Rightarrow> deletion_job list \<Rightarrow> bool" where
  "deletions_ok ws js \<longleftrightarrow> distinct (map dj_id js)
     \<and> (\<forall>w \<in> set ws. \<forall>t. snd (snd (snd w)) = Some t \<longrightarrow>
          (\<exists>j \<in> set js. dj_account_id j = Some (fst w) \<and> \<not> dj_completed j \<and> dj_execute_after j = t + 7 * day))
     \<and> (\<forall>j \<in> set js. \<forall>i. dj_account_id j = Some i \<longrightarrow>
          (\<exists>w \<in> set ws. fst w = i \<and> snd (snd (snd w)) = Some (dj_execute_after j - 7 * day)))"

definition entry_ok :: "standing list \<times> session_row list \<times> one_use_token list \<times> deletion_job list \<Rightarrow> bool" where
  "entry_ok x \<longleftrightarrow> (case x of (ws, ss, ts, js) \<Rightarrow> accounts_ok ws \<and> sessions_ok ws ss \<and> links_ok ws ts \<and> deletions_ok ws js)"

definition entry_tables ::
    "'a sign_in_db_scheme \<Rightarrow> standing list \<times> session_row list \<times> one_use_token list \<times> deletion_job list" where
  "entry_tables db = (map standing_of (accounts db), sessions db, one_use_tokens db, deletion_jobs db)"

definition sign_in_ok :: "'a sign_in_db_scheme \<Rightarrow> bool" where
  "sign_in_ok db \<longleftrightarrow> entry_ok (entry_tables db)"

section \<open>Changes of the tables\<close>

text \<open>Sessions may be revoked or removed, links consumed or removed.\<close>

definition sessions_below :: "session_row list \<Rightarrow> session_row list \<Rightarrow> bool" where
  "sessions_below ss' ss \<longleftrightarrow> (distinct (map ses_token_hash ss) \<longrightarrow> distinct (map ses_token_hash ss'))
     \<and> (\<forall>s' \<in> set ss'. \<exists>s \<in> set ss. ses_account_id s' = ses_account_id s \<and> ses_token_hash s' = ses_token_hash s
          \<and> (ses_revoked_at s \<noteq> None \<longrightarrow> ses_revoked_at s' \<noteq> None))"

definition links_below :: "one_use_token list \<Rightarrow> one_use_token list \<Rightarrow> bool" where
  "links_below ts' ts \<longleftrightarrow> (distinct (map ot_id ts) \<longrightarrow> distinct (map ot_id ts'))
     \<and> (distinct (map ot_token_hash ts) \<longrightarrow> distinct (map ot_token_hash ts'))
     \<and> (\<forall>t' \<in> set ts'. t' \<in> set ts
          \<or> ot_consumed_at t' \<noteq> None \<and> (\<exists>t \<in> set ts. ot_account_id t' = ot_account_id t \<and> ot_token_hash t' = ot_token_hash t))"

lemma sessions_below_refl [simp, intro]: "sessions_below ss ss"
  by (auto simp: sessions_below_def)

lemma sessions_below_trans: "sessions_below ss'' ss' \<Longrightarrow> sessions_below ss' ss \<Longrightarrow> sessions_below ss'' ss"
  unfolding sessions_below_def by fastforce

lemma sessions_below_delete [simp, intro]: "sessions_below (delete_where p ss) ss"
  by (auto simp: sessions_below_def set_delete_where distinct_delete_where)

lemma sessions_below_revoke [simp, intro]: "sessions_below (update_where p (\<lambda>s. s\<lparr>ses_revoked_at := Some t\<rparr>) ss) ss"
  by (auto simp: sessions_below_def map_update_where set_update_where)

lemma links_below_refl [simp, intro]: "links_below ts ts"
  by (auto simp: links_below_def)

lemma links_below_delete [simp, intro]: "links_below (delete_where p ts) ts"
  by (auto simp: links_below_def set_delete_where distinct_delete_where)

lemma links_below_consume [simp, intro]: "links_below (update_where p (\<lambda>t. t\<lparr>ot_consumed_at := Some u\<rparr>) ts) ts"
  by (auto simp: links_below_def map_update_where set_update_where)

lemma links_below_trans: "links_below ts'' ts' \<Longrightarrow> links_below ts' ts \<Longrightarrow> links_below ts'' ts"
  unfolding links_below_def by (metis (no_types, lifting))

lemma sessions_ok_below: "sessions_ok ws ss \<Longrightarrow> sessions_below ss' ss \<Longrightarrow> sessions_ok ws ss'"
  unfolding sessions_ok_def sessions_below_def by (metis (no_types, lifting))

lemma links_ok_below:
  assumes "links_ok ws ts" "links_below ts' ts"
  shows "links_ok ws ts'"
proof -
  have open_old: "t \<in> set ts" if "t \<in> set ts'" "ot_consumed_at t = None" for t
    using assms(2) that unfolding links_below_def by blast
  have "\<exists>w \<in> set ws. fst w = ot_account_id t \<and> snd (snd (snd w)) = None" if "t \<in> set ts'" for t
    using assms that unfolding links_below_def links_ok_def by metis
  with open_old assms show ?thesis unfolding links_ok_def links_below_def by (metis (no_types, lifting))
qed

lemma entry_ok_below:
  "entry_ok (ws, ss, ts, js) \<Longrightarrow> sessions_below ss' ss \<Longrightarrow> links_below ts' ts \<Longrightarrow> entry_ok (ws, ss', ts', js)"
  by (auto simp: entry_ok_def intro: sessions_ok_below links_ok_below)

lemma entry_ok_session:
  assumes "entry_ok (ws, ss, ts, js)" "ses_token_hash s \<notin> ses_token_hash ` set ss"
    and "(ses_account_id s, e, None, None) \<in> set ws"
  shows "entry_ok (ws, ss @ [s], ts, js)"
  using assms by (force simp: entry_ok_def sessions_ok_def)

lemma entry_ok_link:
  assumes ok: "entry_ok (ws, ss, ts, js)" and new: "ot_token_hash t \<notin> ot_token_hash ` set ts" "ot_id t \<notin> ot_id ` set ts"
    and owner: "(ot_account_id t, e, x, None) \<in> set ws"
    and only: "\<And>t'. t' \<in> set ts \<Longrightarrow> ot_account_id t' = ot_account_id t \<Longrightarrow> ot_purpose t' = ot_purpose t \<Longrightarrow> ot_consumed_at t' \<noteq> None"
  shows "entry_ok (ws, ss, ts @ [t], js)"
proof -
  have old: "links_ok ws ts" using ok by (simp add: entry_ok_def)
  have "\<exists>w \<in> set ws. fst w = ot_account_id t' \<and> snd (snd (snd w)) = None" if "t' \<in> set (ts @ [t])" for t'
    using that old bexI [OF _ owner, of "\<lambda>w. fst w = ot_account_id t \<and> snd (snd (snd w)) = None"] unfolding links_ok_def by auto
  moreover have "t1 = t2" if "t1 \<in> set (ts @ [t])" "t2 \<in> set (ts @ [t])" "ot_account_id t1 = ot_account_id t2"
      "ot_purpose t1 = ot_purpose t2" "ot_consumed_at t1 = None" "ot_consumed_at t2 = None" for t1 t2
    using that old only [of t1] only [of t2] unfolding links_ok_def by fastforce
  ultimately have "links_ok ws (ts @ [t])"
    using old new unfolding links_ok_def by (simp only: map_append distinct_append) auto
  with ok show ?thesis by (simp add: entry_ok_def)
qed

lemma entry_ok_account:
  assumes "entry_ok (ws, ss, ts, js)" "i \<notin> fst ` set ws" "e \<notin> (fst \<circ> snd) ` set ws"
  shows "entry_ok (ws @ [(i, e, None, None)], ss, ts, js)"
  using assms unfolding entry_ok_def accounts_ok_def sessions_ok_def links_ok_def deletions_ok_def by auto

lemma entry_ok_suspend:
  assumes "entry_ok (ws, ss, ts, js)"
    and "x = None \<or> (\<forall>s \<in> set ss. ses_account_id s = i \<longrightarrow> ses_revoked_at s \<noteq> None)"
  shows "entry_ok (map (\<lambda>w. if fst w = i then (fst w, fst (snd w), x, snd (snd (snd w))) else w) ws, ss, ts, js)"
proof -
  define f where "f = (\<lambda>w :: standing. if fst w = i then (fst w, fst (snd w), x, snd (snd (snd w))) else w)"
  have f: "fst (f w) = fst w" "fst (snd (f w)) = fst (snd w)" "snd (snd (snd (f w))) = snd (snd (snd w))" for w
    by (simp_all add: f_def)
  have live: "snd (snd (f w)) = (None, None)" if "snd (snd w) = (None, None)" "fst w \<noteq> i \<or> x = None" for w
    using that by (auto simp: f_def)
  have "\<exists>w \<in> set (map f ws). fst w = ses_account_id s \<and> (ses_revoked_at s = None \<longrightarrow> snd (snd w) = (None, None))"
    if s: "s \<in> set ss" for s
  proof -
    obtain w where "w \<in> set ws" "fst w = ses_account_id s" "ses_revoked_at s = None \<longrightarrow> snd (snd w) = (None, None)"
      using assms(1) s by (auto simp: entry_ok_def sessions_ok_def)
    with assms(2) s live [of w] show ?thesis by (intro bexI [of _ "f w"]) (auto simp: f)
  qed
  then have "sessions_ok (map f ws) ss" using assms(1) by (simp add: sessions_ok_def entry_ok_def)
  with assms(1) show ?thesis
    unfolding entry_ok_def accounts_ok_def links_ok_def deletions_ok_def f_def [symmetric] by (simp add: f comp_def)
qed

lemma deletions_ok_job:
  "deletions_ok ws js \<Longrightarrow> w \<in> set ws \<Longrightarrow> snd (snd (snd w)) = Some t \<Longrightarrow>
     \<exists>j \<in> set js. dj_account_id j = Some (fst w) \<and> \<not> dj_completed j \<and> dj_execute_after j = t + 7 * day"
  unfolding deletions_ok_def by blast

lemma deletions_ok_owner:
  "deletions_ok ws js \<Longrightarrow> j \<in> set js \<Longrightarrow> dj_account_id j = Some i \<Longrightarrow>
     \<exists>w \<in> set ws. fst w = i \<and> snd (snd (snd w)) = Some (dj_execute_after j - 7 * day)"
  unfolding deletions_ok_def by blast

text \<open>The request to delete: the account is marked, its sessions are revoked, its links go, its job waits.\<close>

lemma entry_ok_schedule:
  assumes ok: "entry_ok (ws, ss, ts, js)" and w: "(i, e, None, None) \<in> set ws"
    and j: "dj_id j \<notin> dj_id ` set js" "dj_account_id j = Some i" "\<not> dj_completed j" "dj_execute_after j = t + 7 * day"
    and revoked: "\<forall>s \<in> set ss. ses_account_id s = i \<longrightarrow> ses_revoked_at s \<noteq> None"
    and gone: "\<forall>l \<in> set ts. ot_account_id l \<noteq> i"
  shows "entry_ok (map (\<lambda>w. if fst w = i then (fst w, fst (snd w), fst (snd (snd w)), Some t) else w) ws, ss, ts, js @ [j])"
proof -
  define f where "f = (\<lambda>w :: standing. if fst w = i then (fst w, fst (snd w), fst (snd (snd w)), Some t) else w)"
  have f: "fst (f w) = fst w" "fst (snd (f w)) = fst (snd w)" for w by (simp_all add: f_def)
  have other: "f w = w" if "fst w \<noteq> i" for w using that by (simp add: f_def)
  have kept: "v \<in> set (map f ws)" if "v \<in> set ws" "fst v \<noteq> i" for v
    using imageI [OF that(1), of f] other [OF that(2)] by simp
  have only: "snd (snd (snd v)) = None" if "v \<in> set ws" "fst v = i" for v
    using inj_onD [of fst "set ws" v "(i, e, None, None)"] that w ok by (simp add: entry_ok_def accounts_ok_def distinct_map)
  have accounts: "accounts_ok (map f ws)" using ok by (simp add: entry_ok_def accounts_ok_def f comp_def)
  have "\<exists>w \<in> set (map f ws). fst w = ses_account_id s \<and> (ses_revoked_at s = None \<longrightarrow> snd (snd w) = (None, None))"
    if s: "s \<in> set ss" for s
  proof -
    obtain w where "w \<in> set ws" "fst w = ses_account_id s" "ses_revoked_at s = None \<longrightarrow> snd (snd w) = (None, None)"
      using ok s by (auto simp: entry_ok_def sessions_ok_def)
    with revoked s other [of w] show ?thesis by (intro bexI [of _ "f w"]) (auto simp: f)
  qed
  then have sessions: "sessions_ok (map f ws) ss" using ok by (simp add: sessions_ok_def entry_ok_def)
  have "\<exists>w \<in> set (map f ws). fst w = ot_account_id l \<and> snd (snd (snd w)) = None" if l: "l \<in> set ts" for l
  proof -
    obtain w where "w \<in> set ws" "fst w = ot_account_id l" "snd (snd (snd w)) = None"
      using ok l by (auto simp: entry_ok_def links_ok_def)
    with gone l kept [of w] show ?thesis by (intro bexI [of _ w]) auto
  qed
  then have links: "links_ok (map f ws) ts" using ok by (simp add: links_ok_def entry_ok_def)
  have "deletions_ok (map f ws) (js @ [j])"
    unfolding deletions_ok_def
  proof (intro conjI ballI allI impI)
    show "distinct (map dj_id (js @ [j]))" using ok j(1) by (simp add: entry_ok_def deletions_ok_def)
  next
    fix v t' assume "v \<in> set (map f ws)" and t': "snd (snd (snd v)) = Some t'"
    then obtain w where w: "w \<in> set ws" "v = f w" by auto
    show "\<exists>j \<in> set (js @ [j]). dj_account_id j = Some (fst v) \<and> \<not> dj_completed j \<and> dj_execute_after j = t' + 7 * day"
    proof (cases "fst w = i")
      case True
      with w t' j show ?thesis by (intro bexI [of _ j]) (simp_all add: f_def)
    next
      case False
      with w t' ok show ?thesis by (auto simp: other entry_ok_def deletions_ok_def)
    qed
  next
    fix j' k assume j': "j' \<in> set (js @ [j])" "dj_account_id j' = Some k"
    show "\<exists>w \<in> set (map f ws). fst w = k \<and> snd (snd (snd w)) = Some (dj_execute_after j' - 7 * day)"
    proof (cases "j' = j")
      case True
      moreover have "(i, e, None, Some t) \<in> set (map f ws)" using imageI [OF w, of f] by (simp add: f_def)
      ultimately show ?thesis using j' j by (intro bexI [of _ "(i, e, None, Some t)"]) auto
    next
      case False
      with j' ok deletions_ok_owner [of ws js j' k]
      obtain w where "w \<in> set ws" "fst w = k" "snd (snd (snd w)) = Some (dj_execute_after j' - 7 * day)"
        by (auto simp: entry_ok_def)
      moreover from this only [of w] have "fst w \<noteq> i" by auto
      ultimately show ?thesis using kept [of w] by (intro bexI [of _ w]) auto
    qed
  qed
  with accounts sessions links show ?thesis by (simp add: entry_ok_def f_def)
qed

text \<open>Erasure removes the account with all its rows; its job no longer names it.\<close>

lemma entry_ok_erase:
  assumes ok: "entry_ok (ws, ss, ts, js)" and ids: "map dj_id js' = map dj_id js"
    and jobs: "\<And>j'. j' \<in> set js' \<Longrightarrow> dj_account_id j' \<noteq> None \<Longrightarrow> dj_account_id j' \<noteq> Some i \<and> j' \<in> set js"
      "\<And>j. j \<in> set js \<Longrightarrow> dj_account_id j \<noteq> None \<Longrightarrow> dj_account_id j \<noteq> Some i \<Longrightarrow> j \<in> set js'"
  shows "entry_ok (filter (\<lambda>w. fst w \<noteq> i) ws, filter (\<lambda>s. ses_account_id s \<noteq> i) ss,
    filter (\<lambda>t. ot_account_id t \<noteq> i) ts, js')"
proof -
  have "deletions_ok (filter (\<lambda>w. fst w \<noteq> i) ws) js'"
    unfolding deletions_ok_def
  proof (intro conjI ballI allI impI)
    show "distinct (map dj_id js')" using ok ids by (simp add: entry_ok_def deletions_ok_def)
  next
    fix w t assume w: "w \<in> set (filter (\<lambda>w. fst w \<noteq> i) ws)" "snd (snd (snd w)) = Some t"
    then obtain j where j: "j \<in> set js" "dj_account_id j = Some (fst w)" "\<not> dj_completed j" "dj_execute_after j = t + 7 * day"
      using ok deletions_ok_job [of ws js w t] by (auto simp: entry_ok_def)
    with jobs(2) [of j] w(1) show "\<exists>j \<in> set js'. dj_account_id j = Some (fst w) \<and> \<not> dj_completed j \<and> dj_execute_after j = t + 7 * day"
      by auto
  next
    fix j' k assume "j' \<in> set js'" "dj_account_id j' = Some k"
    with jobs(1) [of j'] ok show "\<exists>w \<in> set (filter (\<lambda>w. fst w \<noteq> i) ws). fst w = k \<and> snd (snd (snd w)) = Some (dj_execute_after j' - 7 * day)"
      unfolding entry_ok_def deletions_ok_def by fastforce
  qed
  moreover have "accounts_ok (filter (\<lambda>w. fst w \<noteq> i) ws)"
    using ok by (auto simp: entry_ok_def accounts_ok_def distinct_map intro: inj_on_subset)
  moreover have "sessions_ok (filter (\<lambda>w. fst w \<noteq> i) ws) (filter (\<lambda>s. ses_account_id s \<noteq> i) ss)"
    using ok by (fastforce simp: entry_ok_def sessions_ok_def distinct_map intro: inj_on_subset)
  moreover have "links_ok (filter (\<lambda>w. fst w \<noteq> i) ws) (filter (\<lambda>t. ot_account_id t \<noteq> i) ts)"
    using ok by (fastforce simp: entry_ok_def links_ok_def distinct_map intro: inj_on_subset)
  ultimately show ?thesis by (simp add: entry_ok_def)
qed

end
