(* ===== verification/Spec2Isabelle.thy ===== *)
theory Spec2Isabelle
  imports Prelude Accounts Interfaces Proximity Notifications Together_Time Note_Safety Smooch_Safety AI_Safety
    Rate_Limit Countdown_Safety Activity_Feed Pairing_Safety Pool_Safety Quiz_Secrecy Attachment_Promises Sign_In_Safety
begin

text \<open>
  \<^bold>\<open>Little Orbit, the couple service\<close>

  Little Orbit is a server for couples: a FastAPI service over PostgreSQL
  (\<^verbatim>\<open>src/services/api/src/little_orbit_api\<close>, the paths below are relative to it) with a
  worker that shares a GPU with other services. Two accounts pair with a code and a confirmation;
  while they are a couple they share notes, countdowns, Smooches and an estimate of the time they
  spent near each other; the partner is alerted, the feed records what happened; unpairing ends all
  sharing. This library models that core and proves the promises the code and its documents make.

  \<^bold>\<open>How the parts fit.\<close> Every request authenticates by a bearer token, finds the actor's active
  membership, locks the couple's row and then runs one transaction; the row lock serializes the
  mutations of a couple. So the model of a handler is a function of the database and the request,
  to an exception (nothing is committed) or the new database and the reply, and a history of the
  service is a sequence of such steps. Where a handler reads before it locks (\<^verbatim>\<open>routes/pairing.py\<close>,
  \<^verbatim>\<open>relationship_service.py\<close>) the model has two databases, and where the code uses the
  database as a queue between processes (\<^verbatim>\<open>ai_work_queue.py\<close>) it has a step relation. The
  database is one record that grows by extension along the imports: accounts and couples, alerts and
  feed, samples and totals, notes, names, Smooches, countdowns, the seen watermark, pair codes, quizzes, attachments, links and deletion jobs.
  The questions of a day come from the other service, \<^verbatim>\<open>src/services/ai/src/little_orbit_ai\<close>.

  \<^bold>\<open>Theories.\<close>
  \<^item> \<open>Prelude\<close>: instants, exceptions, Python's dict, and SQL statements as functions on lists of rows,
    with the lemmas all components share. \<open>Interfaces\<close>: the contracts \<open>preserving\<close> (a handler keeps
    an invariant), \<open>retry_safe\<close> (a request with an operation id may be repeated) and \<open>rolling_limit\<close>
    (at most so many events in any window), as locales whose lemmas run over all request sequences;
    each is interpreted on the handlers of the components that promise it.
  \<^item> \<open>Accounts\<close>: \<^verbatim>\<open>models.py\<close> (account, session, couple, membership),
    \<^verbatim>\<open>dependencies.py\<close>, \<^verbatim>\<open>couple_access.py\<close>.
  \<^item> \<open>Location\<close>, \<open>Location_Minutes\<close>, \<open>Location_Timeline\<close>, \<open>Proximity\<close>: \<^verbatim>\<open>domain/location.py\<close>, from
    samples to anchors, minute estimates and the live counter, over the reals. The theorems: timelines
    satisfy the check constraints of the table that stores them, depend only on the set of samples,
    never count a pair that is certainly apart, and the live counter is bounded.
  \<^item> \<open>Events\<close>, \<open>Notifications\<close>: \<^verbatim>\<open>activity_service.py\<close>, \<^verbatim>\<open>notification_service.py\<close>,
    \<^verbatim>\<open>routes/notifications.py\<close>: who is alerted of what, on which devices; opting out lasts,
    cooldowns hold, alerts do not fail the request that raises them.
  \<^item> \<open>Together\<close>, \<open>Together_Ranges\<close>, \<open>Together_Time\<close>: \<^verbatim>\<open>together_time_service.py\<close>,
    \<^verbatim>\<open>together_history_service.py\<close>, \<^verbatim>\<open>routes/together_time_v2.py\<close>,
    \<^verbatim>\<open>routes/together_time_details.py\<close>: uploads, bounded recomputation, daily totals and
    corrections. Coordinates need mutual consent and expire, recomputation touches exactly the affected
    minutes, retries are harmless, corrections survive.
  \<^item> \<open>Notes_OT\<close>, \<open>Notes\<close>, \<open>Note_Edit\<close>, \<open>Note_Safety\<close>: \<^verbatim>\<open>domain/notes.py\<close>,
    \<^verbatim>\<open>note_edit_service.py\<close>, \<^verbatim>\<open>routes/notes.py\<close>: operational transformation and
    its convergence (with the one exception it has), and the stored log that replays to the note.
  \<^item> \<open>Regex\<close>, \<open>Names\<close>, \<open>Name_Safety\<close>: the subset of Python's \<^verbatim>\<open>re\<close> the code uses, with
    backtracking order, and \<^verbatim>\<open>relationship_name_service.py\<close>,
    \<^verbatim>\<open>routes/relationship_names.py\<close>: no shown name is contact data.
  \<^item> \<open>Smooches\<close>, \<open>Smooch_Safety\<close>: \<^verbatim>\<open>smooch_service.py\<close>, \<^verbatim>\<open>routes/smooches.py\<close>:
    five in a rolling hour, the wait a refused sender is told, weekly counts.
  \<^item> \<open>Countdowns\<close>, \<open>Countdown_Safety\<close>: \<^verbatim>\<open>routes/countdowns.py\<close>. \<open>Activity_Feed\<close>:
    \<^verbatim>\<open>routes/activity.py\<close>.
  \<^item> \<open>Rate_Limit\<close>: \<^verbatim>\<open>rate_limit.py\<close>, refined from abstract counters.
  \<^item> \<open>Pairing\<close>, \<open>Pairing_Safety\<close>: \<^verbatim>\<open>routes/pairing.py\<close>,
    \<^verbatim>\<open>relationship_service.py\<close>, unpairing and the archive list of
    \<^verbatim>\<open>routes/couples.py\<close>: every live couple has two members, both consented, and the end
    erases what is ephemeral.
  \<^item> \<open>Question_Gates\<close>, \<open>Question_Pool\<close>, \<open>Pool_Safety\<close>: \<^verbatim>\<open>safety.py\<close> (with the ratio of
    \<^verbatim>\<open>difflib\<close>) and \<^verbatim>\<open>pipeline.py\<close> of the AI service: what is published passes the
    gates, the five questions of a day are a best group in the reviewed mix, and selection succeeds up
    to nine accepted questions.
  \<^item> \<open>Quiz\<close>, \<open>Quiz_Changes\<close>, \<open>Quiz_Consent\<close>: \<^verbatim>\<open>quiz_v2_service.py\<close>,
    \<^verbatim>\<open>quiz_v2_mutations.py\<close>, \<^verbatim>\<open>routes/quizzes_v2.py\<close>,
    \<^verbatim>\<open>quiz_custom_service.py\<close> and the preferences of \<^verbatim>\<open>routes/couples.py\<close>.
    \<open>Quiz_Safety\<close> has the requests, the invariant of the days and of consent, and its steps;
    \<open>Quiz_Privacy\<close> the sequences: consistent days, final reveals, intimacy by consent of both;
    \<open>Quiz_Secrecy\<close> the secrecy of answers as noninterference, an unwinding argument stated as the
    locale \<open>noninterfering\<close> and interpreted on the quiz requests.
  \<^item> \<open>Attachments\<close>: \<^verbatim>\<open>routes/attachments.py\<close>,
    \<^verbatim>\<open>routes/archive_attachments.py\<close>, \<^verbatim>\<open>attachment_storage.py\<close>,
    \<^verbatim>\<open>attachment_quota.py\<close>, \<^verbatim>\<open>attachment_maintenance.py\<close>;
    \<open>Attachment_Sanitizers\<close>: \<^verbatim>\<open>attachment_sanitizers.py\<close>, with the UTF-8 codec written out: text is
    published canonically, everything within its budgets; \<open>Attachment_Worker\<close>:
    \<^verbatim>\<open>attachment_media.py\<close>, one phase per transaction or file operation. \<open>Attachment_Safety\<close> has
    the step relation of requests, worker, failures and maintenance, with what each step does to the
    tables; \<open>Attachment_Invariants\<close> the invariant; \<open>Attachment_Promises\<close> what follows: the reservation
    is the stored bytes, only clean sanitized bytes are served, uploads are exact, scans are bounded.
  \<^item> \<open>Sign_In\<close>: \<^verbatim>\<open>routes/auth.py\<close>, \<^verbatim>\<open>account_entry.py\<close>,
    \<^verbatim>\<open>mail.py\<close>, the deletion request of \<^verbatim>\<open>routes/account.py\<close>, what the owner can do to
    accounts and the second factor. \<open>Account_Erasure\<close>: \<^verbatim>\<open>account_deletion.py\<close> and
    \<^verbatim>\<open>maintenance.py\<close>, with the foreign keys as the database enforces them. \<open>Sign_In_Safety\<close>: all
    of these as one handler, and the invariant of accounts, sessions, links and deletion jobs.
  \<^item> \<open>AI_Queue\<close>, \<open>AI_Safety\<close>: \<^verbatim>\<open>ai_work_queue.py\<close>, \<^verbatim>\<open>gpu_coordination.py\<close> and the
    admission cycle of \<^verbatim>\<open>ai_work_runner.py\<close>: claims are a gap apart, replaced leases are
    fenced off, the GPU lock outlives an unverified cleanup, the wait for the device ends.

  \<^bold>\<open>Parameters.\<close> Code outside the sources is an argument: the time zone database, the Unicode
  database, keyed digests, the clock and fresh identifiers of a request, the curated bank, the reply
  of the language model, the outcomes of device probes, the scanner and the image, PDF and media libraries. Their laws, where a theorem needs one, are hypotheses of that theorem (for example that
  a page size is positive or a server clock does not run backwards), and each such theorem is followed
  by a witness that instantiates it.

  \<^bold>\<open>Bounds and fuel.\<close> Loops are structural recursions, or \<open>function\<close>s with a measure
  (\<open>split_minutes\<close>, the recursion of \<^verbatim>\<open>difflib\<close>); the search for a free day of the custom
  queue has the code's own bound of 366; the one loop that the code cannot bound itself, the wait for the model server, is a
  partial function whose termination is proved from the second each round sleeps. \<open>read_pages\<close> follows
  cursors with fuel; one more than the number of events is enough. Regular expressions match with fuel
  from the length of the text.

  \<^bold>\<open>Not modelled.\<close> The other versions of the quiz routes and quiz feedback, the prompts, retrieval and
  learning of question generation, profile images, releases,
  the export of an account, administration consoles and big-orbit enrolment, diagnostics, and the
  operator scripts outside the service. Web sockets and
  connection hubs carry results only. Floating point is modelled by real arithmetic. Concurrency
  between transactions is modelled where the code re-reads under locks or fences; elsewhere the row
  lock of the couple serializes. The attachment steps assume one media worker, as deployed, and requests of
  a couple that do not overlap: \<open>concurrent_deletes_release_twice\<close> shows what an overlap does. \<^verbatim>\<open>routes/locations.py\<close> and
  \<^verbatim>\<open>together_time_legacy.py\<close> are not routed.
\<close>

end
